(* ===== verification/Failure_Class.thy ===== *)
theory Failure_Class
  imports Prelude
begin

text \<open>
  The source-failure classifier, \<open>src/source/classify-failure.ts\<close>, and the values that the
  program throws and catches around it.

  A caught value is a \<open>thrown\<close>: \<open>undefined\<close>, anything else that is not an \<open>Error\<close>, or an \<open>Error\<close> with the
  properties that the program reads. Its \<open>code\<close> property is absent, a string, or something
  else (the numeric code of a \<open>DOMException\<close>); its \<open>cause\<close> is absent when it is missing or
  \<open>undefined\<close>; \<open>errors\<close> is present exactly on an \<open>AggregateError\<close>. The class says which
  of the program's own subclasses the value is an instance of, and \<open>details\<close> is the
  identifiers-only record those subclasses carry.
\<close>

datatype phase = BytesPhase | DetailPhase | ListPhase

datatype error_code = CodeText string | CodeOther

datatype error_class = PlainError | CloudflareChallenge | SourceFetchError | ReplayByteFetchError

record failure_details =
  d_attempts :: "nat option"
  d_causeCode :: "string option"
  d_causeMessage :: "string option"
  d_cfChallenge :: bool
  d_httpStatus :: "int option"
  d_page :: "nat option"
  d_phase :: phase
  d_retryAfter :: "string option"
  d_url :: string

datatype thrown =
    Undefined
  | NonError
  | is_Error: Error (err_class: error_class) (err_code: "error_code option") (err_message: string)
      (err_name: string) (err_cause: "thrown option") (err_errors: "thrown list option")
      (err_details: "failure_details option")

datatype failure_kind = Permanent | RateLimited | Transient

record classify_input =
  ci_cfChallenge :: "bool option"
  ci_error :: thrown
  ci_httpStatus :: "int option"
  ci_malformedBody :: "bool option"

record failure_classification =
  fc_causeCode :: "string option"
  fc_causeMessage :: "string option"
  fc_cfChallenge :: bool
  fc_httpStatus :: "int option"
  fc_kind :: failure_kind

record unwrapped_cause =
  uw_code :: "string option"
  uw_message :: "string option"
  uw_name :: "string option"

definition transientNetworkCodes :: "string list" where
  "transientNetworkCodes =
     [''ECONNRESET'', ''ECONNREFUSED'', ''ENOTFOUND'', ''EAI_AGAIN'', ''ETIMEDOUT'', ''EPIPE'',
      ''EHOSTUNREACH'', ''ENETUNREACH'']"

definition transientTlsCodes :: "string list" where
  "transientTlsCodes = [''EPROTO'']"

definition transientErrorNames :: "string list" where
  "transientErrorNames = [''AbortError'', ''TimeoutError'']"

definition causeMessageMaxLength :: nat where
  "causeMessageMaxLength = 200"

definition readErrorCode :: "thrown \<Rightarrow> string option" where
  "readErrorCode e = (case e of Undefined \<Rightarrow> None | NonError \<Rightarrow> None
     | Error _ code _ _ _ _ _ \<Rightarrow> (case code of Some (CodeText c) \<Rightarrow> Some c | _ \<Rightarrow> None))"

text \<open>The first inner error with a string code, else the first element, which is
  \<open>undefined\<close> in an empty list.\<close>

definition selectAggregateInner :: "thrown list \<Rightarrow> thrown" where
  "selectAggregateInner es =
     (case List.find (\<lambda>e. readErrorCode e \<noteq> None) es of
        Some e \<Rightarrow> e
      | None \<Rightarrow> (case es of [] \<Rightarrow> Undefined | e # _ \<Rightarrow> e))"

definition step_to_cause :: "thrown \<Rightarrow> thrown" where
  "step_to_cause e = (case e of Undefined \<Rightarrow> Undefined | NonError \<Rightarrow> NonError
     | Error _ _ _ _ cause _ _ \<Rightarrow> (case cause of Some c \<Rightarrow> c | None \<Rightarrow> e))"

definition step_to_inner :: "thrown \<Rightarrow> thrown" where
  "step_to_inner e = (case e of Undefined \<Rightarrow> Undefined | NonError \<Rightarrow> NonError
     | Error _ _ _ _ _ errors _ \<Rightarrow>
         (case errors of Some es \<Rightarrow> selectAggregateInner es | None \<Rightarrow> e))"

definition unwrapCause :: "thrown \<Rightarrow> unwrapped_cause" where
  "unwrapCause error =
     (case step_to_inner (step_to_cause error) of
        Undefined \<Rightarrow> \<lparr>uw_code = None, uw_message = None, uw_name = None\<rparr>
      | NonError \<Rightarrow> \<lparr>uw_code = None, uw_message = None, uw_name = None\<rparr>
      | Error cls code message nm cause errors details \<Rightarrow>
          \<lparr>uw_code = readErrorCode (Error cls code message nm cause errors details),
           uw_message = Some (take causeMessageMaxLength message), uw_name = Some nm\<rparr>)"

definition isTransientCauseCode :: "string \<Rightarrow> bool" where
  "isTransientCauseCode code \<longleftrightarrow>
     code \<in> set transientNetworkCodes \<or> code \<in> set transientTlsCodes \<or>
     starts_with code ''UND_ERR_'' \<or> starts_with code ''ERR_TLS_'' \<or> starts_with code ''CERT_''"

definition isServerError :: "int \<Rightarrow> bool" where
  "isServerError status \<longleftrightarrow> 500 \<le> status \<and> status < 600"

definition isClientError :: "int \<Rightarrow> bool" where
  "isClientError status \<longleftrightarrow> 400 \<le> status \<and> status < 500"

definition classifyByStatus :: "int \<Rightarrow> failure_kind option" where
  "classifyByStatus status =
     (if status = 429 then Some RateLimited
      else if status \<in> {408, 425} then Some Transient
      else if isServerError status then Some Transient
      else if isClientError status then Some Permanent
      else None)"

definition buildClassification ::
    "unwrapped_cause \<Rightarrow> bool \<Rightarrow> classify_input \<Rightarrow> failure_kind \<Rightarrow> failure_classification" where
  "buildClassification cause cfChallenge input kind =
     \<lparr>fc_causeCode = uw_code cause, fc_causeMessage = uw_message cause,
      fc_cfChallenge = cfChallenge, fc_httpStatus = ci_httpStatus input, fc_kind = kind\<rparr>"

definition kind_by_cause :: "unwrapped_cause \<Rightarrow> failure_kind" where
  "kind_by_cause cause =
     (if (case uw_code cause of None \<Rightarrow> False | Some c \<Rightarrow> isTransientCauseCode c) then Transient
      else if (case uw_name cause of None \<Rightarrow> False | Some n \<Rightarrow> n \<in> set transientErrorNames)
      then Transient
      else Permanent)"

definition resolveKind :: "classify_input \<Rightarrow> unwrapped_cause \<Rightarrow> bool \<Rightarrow> failure_kind" where
  "resolveKind input cause cfChallenge =
     (if cfChallenge then Transient
      else case Option.bind (ci_httpStatus input) classifyByStatus of
        Some kind \<Rightarrow> kind
      | None \<Rightarrow> if ci_malformedBody input = Some True then Permanent else kind_by_cause cause)"

definition classifyFailure :: "classify_input \<Rightarrow> failure_classification" where
  "classifyFailure input =
     (let cause = unwrapCause (ci_error input);
          cfChallenge = (ci_cfChallenge input = Some True);
          kind = resolveKind input cause cfChallenge
      in buildClassification cause cfChallenge input kind)"

text \<open>The input of a call that passes only some of the optional properties.\<close>

definition no_input :: classify_input where
  "no_input = \<lparr>ci_cfChallenge = None, ci_error = Undefined, ci_httpStatus = None,
     ci_malformedBody = None\<rparr>"

subsection \<open>Classification\<close>

lemma classifyFailure_sel [simp]:
  "fc_kind (classifyFailure i) =
     resolveKind i (unwrapCause (ci_error i)) (ci_cfChallenge i = Some True)"
  "fc_httpStatus (classifyFailure i) = ci_httpStatus i"
  "fc_cfChallenge (classifyFailure i) \<longleftrightarrow> ci_cfChallenge i = Some True"
  "fc_causeCode (classifyFailure i) = uw_code (unwrapCause (ci_error i))"
  "fc_causeMessage (classifyFailure i) = uw_message (unwrapCause (ci_error i))"
  by (simp_all add: classifyFailure_def buildClassification_def Let_def)

text \<open>The errors inside a thrown value, itself included.\<close>

fun errors_within :: "thrown \<Rightarrow> thrown set" where
  "errors_within Undefined = {}"
| "errors_within NonError = {}"
| "errors_within (Error cls code message nm cause errors details) =
     insert (Error cls code message nm cause errors details)
       ((case cause of None \<Rightarrow> {} | Some c \<Rightarrow> errors_within c) \<union>
        (case errors of None \<Rightarrow> {} | Some es \<Rightarrow> \<Union> (set (map errors_within es))))"

lemma selectAggregateInner_in:
  "is_Error (selectAggregateInner es) \<Longrightarrow> selectAggregateInner es \<in> set es"
  by (auto simp: selectAggregateInner_def dest: find_Some_iff' split: option.splits list.splits)

lemma errors_within_self: "is_Error e \<Longrightarrow> e \<in> errors_within e"
  by (cases e) auto

lemma step_to_cause_within:
  "is_Error (step_to_cause e) \<Longrightarrow> errors_within (step_to_cause e) \<subseteq> errors_within e"
  by (cases e) (auto simp: step_to_cause_def split: option.splits)

lemma step_to_inner_within:
  assumes "is_Error (step_to_inner e)"
  shows "errors_within (step_to_inner e) \<subseteq> errors_within e"
proof (cases "\<exists>cls code message nm cause es details. e = Error cls code message nm cause (Some es) details")
  case True
  then obtain cls code message nm cause es details
    where e: "e = Error cls code message nm cause (Some es) details" by blast
  then have s: "step_to_inner e = selectAggregateInner es" by (simp add: step_to_inner_def)
  with assms have "selectAggregateInner es \<in> set es" by (simp add: selectAggregateInner_in)
  then show ?thesis using e s by auto
next
  case False
  with assms have "step_to_inner e = e"
    by (cases e) (auto simp: step_to_inner_def split: option.splits)
  then show ?thesis by simp
qed

lemma unwrapped_error_within:
  assumes "is_Error (step_to_inner (step_to_cause e))"
  shows "step_to_inner (step_to_cause e) \<in> errors_within e"
proof -
  have "is_Error (step_to_cause e)"
    using assms by (cases "step_to_cause e") (auto simp: step_to_inner_def)
  then show ?thesis
    using errors_within_self [OF assms] step_to_inner_within [OF assms] step_to_cause_within
    by blast
qed

lemma unwrapCause_cases:
  obtains (none) "unwrapCause e = \<lparr>uw_code = None, uw_message = None, uw_name = None\<rparr>"
  | (inner) x where "x \<in> errors_within e" "uw_code (unwrapCause e) = readErrorCode x"
      "uw_message (unwrapCause e) = Some (take 200 (err_message x))"
      "uw_name (unwrapCause e) = Some (err_name x)"
proof (cases "step_to_inner (step_to_cause e)")
  case Undefined
  then show thesis by (intro none) (simp add: unwrapCause_def)
next
  case NonError
  then show thesis by (intro none) (simp add: unwrapCause_def)
next
  case (Error cls code message nm cause errors details)
  then have "step_to_inner (step_to_cause e) \<in> errors_within e"
    by (intro unwrapped_error_within) simp
  with Error show thesis
    by (intro inner) (auto simp: unwrapCause_def causeMessageMaxLength_def)
qed

text \<open>
  C15: what a classification decides. A failure is retried as \<open>transient\<close> or \<open>rate_limited\<close>
  exactly in these cases: a Cloudflare challenge; a 408, 425, 429 or 5xx answer; or, when
  there is no challenge, no status in 400..599 and no malformed body, a transient network or
  TLS code or an aborted or timed-out read as the unwrapped cause. It is rate-limited exactly
  for a 429 answer without a challenge; in particular no 4xx answer other than these three is
  ever retried, whatever error comes with it.
\<close>

theorem classifyFailure_decides:
  "(fc_kind (classifyFailure i) \<noteq> Permanent \<longleftrightarrow>
     ci_cfChallenge i = Some True
     \<or> (\<exists>s. ci_httpStatus i = Some s \<and> (s \<in> {408, 425, 429} \<or> 500 \<le> s \<and> s \<le> 599))
     \<or> (\<nexists>s. ci_httpStatus i = Some s \<and> 400 \<le> s \<and> s \<le> 599) \<and> ci_malformedBody i \<noteq> Some True
        \<and> ((\<exists>c. uw_code (unwrapCause (ci_error i)) = Some c \<and> isTransientCauseCode c)
           \<or> uw_name (unwrapCause (ci_error i)) \<in> {Some ''AbortError'', Some ''TimeoutError''}))
   \<and> (fc_kind (classifyFailure i) = RateLimited \<longleftrightarrow>
        ci_cfChallenge i \<noteq> Some True \<and> ci_httpStatus i = Some 429)"
proof (cases "ci_httpStatus i")
  case None
  then show ?thesis
    by (auto simp: resolveKind_def kind_by_cause_def transientErrorNames_def
      split: option.splits)
next
  case (Some s)
  consider "s = 429" | "s = 408" | "s = 425" | "500 \<le> s" "s \<le> 599"
    | "400 \<le> s" "s < 500" "s \<notin> {408, 425, 429}" | "s < 400 \<or> 599 < s"
    by fastforce
  then show ?thesis
    by cases
      (use Some in \<open>auto simp: resolveKind_def kind_by_cause_def transientErrorNames_def
         classifyByStatus_def isServerError_def isClientError_def split: option.splits\<close>)
qed

text \<open>
  Nothing but identifiers leaves the classifier. A reported cause message is the first 200
  code units, at most, of the message of an error found within the caught value, a reported
  cause code is the string code of that same error, and the status is the one that was given.
\<close>

theorem classifyFailure_identifiers_only:
  "(fc_causeMessage (classifyFailure i) = None \<and> fc_causeCode (classifyFailure i) = None
    \<or> (\<exists>x. x \<in> errors_within (ci_error i)
         \<and> fc_causeMessage (classifyFailure i) = Some (take 200 (err_message x))
         \<and> fc_causeCode (classifyFailure i) = readErrorCode x))
   \<and> fc_httpStatus (classifyFailure i) = ci_httpStatus i"
  by (rule unwrapCause_cases [of "ci_error i"]) auto

end
