(* ===== verification/Backoff_Retry.thy ===== *)
theory Backoff_Retry
  imports Failure_Class Complex_Main
begin

text \<open>
  Bounded retries of source reads: the delay arithmetic of \<open>src/source/backoff.ts\<close> and the
  loop of \<open>src/source/retry.ts\<close>.

  The loop talks to its surroundings in a fixed order each round, so the surroundings of a call
  are a function from the round to what the round meets: whether the caller's signal is already
  aborted, what the read does, the value of \<open>random()\<close> (a rational in [0,1)) and of \<open>now()\<close>,
  and how the pause ends. The loop returns what it did, in order, and its result.
  Exponentials are exact: \<open>500 * 2 ** round\<close> is below the 30000 cap up to round 5, and
  above it a double only has to compare as larger.
\<close>

subsection \<open>Delays\<close>

definition baseDelayMs :: int where "baseDelayMs = 500"

definition capDelayMs :: int where "capDelayMs = 30000"

definition retryAfterCapMs :: int where "retryAfterCapMs = capDelayMs"

record jitter_bounds =
  jb_base :: "int option"
  jb_cap :: "int option"

definition fullJitterDelay :: "nat \<Rightarrow> rat \<Rightarrow> jitter_bounds \<Rightarrow> int" where
  "fullJitterDelay rnd random bounds =
     (let base = (case jb_base bounds of Some b \<Rightarrow> b | None \<Rightarrow> baseDelayMs);
          cap = (case jb_cap bounds of Some c \<Rightarrow> c | None \<Rightarrow> capDelayMs);
          exponential = base * 2 ^ rnd;
          capped = min exponential cap
      in \<lfloor>random * of_int capped\<rfloor>)"

definition no_bounds :: jitter_bounds where
  "no_bounds = \<lparr>jb_base = None, jb_cap = None\<rparr>"

text \<open>\<open>Date.parse\<close> accepts formats that the implementation chooses, so it is a parameter:
  the instant in milliseconds, or \<open>None\<close> for \<open>NaN\<close>.\<close>

definition parseRetryAfter :: "(string \<Rightarrow> int option) \<Rightarrow> string option \<Rightarrow> int \<Rightarrow> int option" where
  "parseRetryAfter date_parse val now =
     (case val of None \<Rightarrow> None
      | Some v \<Rightarrow>
          (let trimmed = js_trim v in
           if all_digits trimmed then Some (int (nat_of_digits trimmed) * 1000)
           else case date_parse trimmed of
             None \<Rightarrow> None
           | Some dateMs \<Rightarrow> Some (max 0 (dateMs - now))))"

lemma fullJitterDelay_default:
  "fullJitterDelay rnd random no_bounds = \<lfloor>random * of_int (min (500 * 2 ^ rnd) 30000)\<rfloor>"
  by (simp add: fullJitterDelay_def no_bounds_def baseDelayMs_def capDelayMs_def)

lemma fullJitterDelay_bounds:
  assumes "0 \<le> random" "random < 1"
  shows "0 \<le> fullJitterDelay rnd random no_bounds"
    and "fullJitterDelay rnd random no_bounds < min (500 * 2 ^ rnd) 30000"
proof -
  let ?c = "min (500 * 2 ^ rnd) (30000 :: int)"
  have "0 < ?c" by simp
  then have c: "0 < (of_int ?c :: rat)" by (simp only: of_int_0_less_iff)
  have "0 \<le> random * of_int ?c" using assms(1) c by (intro mult_nonneg_nonneg) linarith+
  then show "0 \<le> fullJitterDelay rnd random no_bounds"
    by (simp only: fullJitterDelay_default zero_le_floor)
  have "random * of_int ?c < 1 * of_int ?c" using assms(2) c by (rule mult_strict_right_mono)
  then show "fullJitterDelay rnd random no_bounds < ?c"
    by (simp only: fullJitterDelay_default floor_less_iff mult_1)
qed

lemma parseRetryAfter_nonneg: "parseRetryAfter dp v now = Some d \<Longrightarrow> 0 \<le> d"
  by (auto simp: parseRetryAfter_def Let_def split: option.splits if_splits)

subsection \<open>The loop\<close>

record retry_event =
  re_attempt :: nat
  re_causeCode :: "string option"
  re_delayMs :: int
  re_httpStatus :: "int option"
  re_page :: "nat option"
  re_phase :: phase

datatype sleep_outcome = Slept | AbortedBefore | AbortedDuring | SleepFailed thrown

record 'a retry_round =
  rr_aborted :: bool
  rr_now :: int
  rr_random :: rat
  rr_read :: "thrown + 'a"
  rr_sleep :: sleep_outcome

record retry_options =
  ro_attempts :: nat
  ro_classify :: "thrown \<Rightarrow> failure_classification"
  ro_page :: "nat option"
  ro_phase :: phase
  ro_retryAfterMs :: "(thrown \<Rightarrow> int \<Rightarrow> int option) option"
  ro_signal_reason :: thrown

datatype retry_step = ReadStep | RetryNotice retry_event | PauseStep int

definition toAbortError :: "thrown \<Rightarrow> thrown" where
  "toAbortError reason = (case reason of
       Undefined \<Rightarrow> Error PlainError None ''Aborted'' ''Error'' None None None
     | NonError \<Rightarrow> Error PlainError None ''Aborted'' ''Error'' (Some NonError) None None
     | Error _ _ _ _ _ _ _ \<Rightarrow> reason)"

text \<open>The pause: \<open>None\<close> when the timer ends first, else what is thrown. A signal that is
  already aborted throws its reason as it is; one that aborts during the pause rejects with an
  \<open>Error\<close>.\<close>

definition abortableSleep :: "thrown \<Rightarrow> sleep_outcome \<Rightarrow> thrown option" where
  "abortableSleep reason s = (case s of
       Slept \<Rightarrow> None
     | AbortedBefore \<Rightarrow> Some reason
     | AbortedDuring \<Rightarrow> Some (toAbortError reason)
     | SleepFailed e \<Rightarrow> Some e)"

definition buildRetryEvent ::
    "retry_options \<Rightarrow> failure_classification \<Rightarrow> nat \<Rightarrow> int \<Rightarrow> retry_event" where
  "buildRetryEvent options classification rnd delayMs =
     \<lparr>re_attempt = rnd + 1, re_causeCode = fc_causeCode classification, re_delayMs = delayMs,
      re_httpStatus = fc_httpStatus classification, re_page = ro_page options,
      re_phase = ro_phase options\<rparr>"

definition resolveDelay ::
    "retry_options \<Rightarrow> failure_classification \<Rightarrow> thrown \<Rightarrow> int \<Rightarrow> rat \<Rightarrow> nat \<Rightarrow> int" where
  "resolveDelay options classification error now random rnd =
     (let backoff = fullJitterDelay rnd random no_bounds in
      if fc_kind classification \<noteq> RateLimited then backoff
      else (let retryAfter =
              (case ro_retryAfterMs options of
                 None \<Rightarrow> 0
               | Some f \<Rightarrow> (case f error now of None \<Rightarrow> 0 | Some ms \<Rightarrow> ms))
            in min (max backoff retryAfter) retryAfterCapMs))"

definition isRetryable :: "failure_classification \<Rightarrow> bool" where
  "isRetryable c \<longleftrightarrow> fc_kind c = Transient \<or> fc_kind c = RateLimited"

function withRetry_from ::
    "retry_options \<Rightarrow> (nat \<Rightarrow> 'a retry_round) \<Rightarrow> nat \<Rightarrow> retry_step list \<times> (thrown + 'a)" where
  "withRetry_from options env rnd =
     (let io = env rnd in
      if rr_aborted io then ([], Inl (ro_signal_reason options))
      else case rr_read io of
        Inr result \<Rightarrow> ([ReadStep], Inr result)
      | Inl error \<Rightarrow>
          (let classification = ro_classify options error in
           if \<not> isRetryable classification \<or> ro_attempts options \<le> rnd then ([ReadStep], Inl error)
           else
             (let delayMs = resolveDelay options classification error (rr_now io) (rr_random io) rnd;
                  steps = [ReadStep, RetryNotice (buildRetryEvent options classification rnd delayMs),
                           PauseStep delayMs]
              in case abortableSleep (ro_signal_reason options) (rr_sleep io) of
                   Some reason \<Rightarrow> (steps, Inl reason)
                 | None \<Rightarrow> apfst (append steps) (withRetry_from options env (rnd + 1)))))"
  by auto
termination by (relation "measure (\<lambda>(options, _, rnd). ro_attempts options - rnd)") auto

declare withRetry_from.simps [simp del]

definition withRetry ::
    "retry_options \<Rightarrow> (nat \<Rightarrow> 'a retry_round) \<Rightarrow> retry_step list \<times> (thrown + 'a)" where
  "withRetry options env = withRetry_from options env 0"

subsection \<open>What one round does\<close>

definition round_classification :: "retry_options \<Rightarrow> (nat \<Rightarrow> 'a retry_round) \<Rightarrow> nat \<Rightarrow> failure_classification" where
  "round_classification options env r =
     (case rr_read (env r) of Inl e \<Rightarrow> ro_classify options e | Inr _ \<Rightarrow> classifyFailure no_input)"

definition round_delay :: "retry_options \<Rightarrow> (nat \<Rightarrow> 'a retry_round) \<Rightarrow> nat \<Rightarrow> int" where
  "round_delay options env r =
     (case rr_read (env r) of
        Inl e \<Rightarrow> resolveDelay options (ro_classify options e) e (rr_now (env r)) (rr_random (env r)) r
      | Inr _ \<Rightarrow> 0)"

definition pauses :: "retry_options \<Rightarrow> (nat \<Rightarrow> 'a retry_round) \<Rightarrow> nat \<Rightarrow> bool" where
  "pauses options env r \<longleftrightarrow>
     \<not> rr_aborted (env r) \<and> \<not> is_ok (rr_read (env r)) \<and> r < ro_attempts options \<and>
     isRetryable (round_classification options env r)"

definition continues :: "retry_options \<Rightarrow> (nat \<Rightarrow> 'a retry_round) \<Rightarrow> nat \<Rightarrow> bool" where
  "continues options env r \<longleftrightarrow> pauses options env r \<and> rr_sleep (env r) = Slept"

definition round_steps :: "retry_options \<Rightarrow> (nat \<Rightarrow> 'a retry_round) \<Rightarrow> nat \<Rightarrow> retry_step list" where
  "round_steps options env r =
     (if rr_aborted (env r) then []
      else if pauses options env r
      then [ReadStep,
            RetryNotice (buildRetryEvent options (round_classification options env r) r
              (round_delay options env r)),
            PauseStep (round_delay options env r)]
      else [ReadStep])"

definition round_result :: "retry_options \<Rightarrow> (nat \<Rightarrow> 'a retry_round) \<Rightarrow> nat \<Rightarrow> thrown + 'a" where
  "round_result options env r =
     (if rr_aborted (env r) then Inl (ro_signal_reason options)
      else if pauses options env r
      then Inl (the (abortableSleep (ro_signal_reason options) (rr_sleep (env r))))
      else rr_read (env r))"

lemmas round_defs = round_classification_def round_delay_def pauses_def continues_def
  round_steps_def round_result_def

lemma abortableSleep_None [simp]: "abortableSleep reason s = None \<longleftrightarrow> s = Slept"
  by (cases s) (simp_all add: abortableSleep_def)

lemma abortableSleep_Slept [simp]: "abortableSleep reason Slept = None"
  by simp

lemma withRetry_from_unfold:
  "withRetry_from options env r =
     (if continues options env r
      then apfst (append (round_steps options env r)) (withRetry_from options env (r + 1))
      else (round_steps options env r, round_result options env r))"
  by (subst withRetry_from.simps)
    (auto simp: round_defs Let_def not_le split: sum.splits option.splits)

lemma continues_bound: "continues options env r \<Longrightarrow> r < ro_attempts options"
  by (simp add: continues_def pauses_def)

definition stop_round :: "retry_options \<Rightarrow> (nat \<Rightarrow> 'a retry_round) \<Rightarrow> nat" where
  "stop_round options env = length (takeWhile (continues options env) [0..<ro_attempts options])"

lemma stop_round_le: "stop_round options env \<le> ro_attempts options"
  using length_takeWhile_le [of "continues options env" "[0..<ro_attempts options]"]
  by (simp add: stop_round_def)

lemma stop_round_continues: "r < stop_round options env \<Longrightarrow> continues options env r"
  using stop_round_le [of options env]
  by (metis (no_types, lifting) add_cancel_left_left diff_zero length_upt less_le_trans
      nth_mem nth_upt set_takeWhileD stop_round_def takeWhile_nth)

lemma stop_round_stops: "\<not> continues options env (stop_round options env)"
proof (cases "stop_round options env < ro_attempts options")
  case True
  then show ?thesis
    using nth_length_takeWhile [of "continues options env" "[0..<ro_attempts options]"]
    by (simp add: stop_round_def)
next
  case False
  then show ?thesis by (auto dest: continues_bound)
qed

lemma withRetry_from_stop:
  assumes "\<And>i. r \<le> i \<Longrightarrow> i < s \<Longrightarrow> continues options env i" "\<not> continues options env s" "r \<le> s"
  shows "withRetry_from options env r =
    (concat (map (round_steps options env) [r..<Suc s]), round_result options env s)"
  using assms
proof (induction "s - r" arbitrary: r)
  case 0
  then show ?case by (simp add: withRetry_from_unfold [of options env r])
next
  case (Suc n)
  then have "withRetry_from options env (Suc r) =
      (concat (map (round_steps options env) [Suc r..<Suc s]), round_result options env s)"
    by (intro Suc.hyps(1)) auto
  moreover have "[r..<Suc s] = r # [Suc r..<Suc s]"
    using Suc.hyps(2) by (intro upt_conv_Cons) simp
  ultimately show ?case
    using Suc.prems(1) [of r] Suc.hyps(2) by (simp add: withRetry_from_unfold [of options env r])
qed

subsection \<open>Results of the loop\<close>

lemma withRetry_stop:
  "withRetry options env =
     (concat (map (round_steps options env) [0..<Suc (stop_round options env)]),
      round_result options env (stop_round options env))"
  unfolding withRetry_def
  by (rule withRetry_from_stop) (auto simp: stop_round_continues stop_round_stops)

definition reads :: "retry_step list \<Rightarrow> nat" where
  "reads steps = length (filter (\<lambda>s. s = ReadStep) steps)"

definition pause_of :: "retry_step \<Rightarrow> int list" where
  "pause_of s = (case s of PauseStep d \<Rightarrow> [d] | _ \<Rightarrow> [])"

definition notice_of :: "retry_step \<Rightarrow> retry_event list" where
  "notice_of s = (case s of RetryNotice ev \<Rightarrow> [ev] | _ \<Rightarrow> [])"

lemma reads_append [simp]: "reads (xs @ ys) = reads xs + reads ys"
  by (simp add: reads_def)

lemma reads_round: "reads (round_steps options env r) \<le> 1"
  by (simp add: round_steps_def reads_def)

lemma reads_rounds: "reads (concat (map (round_steps options env) [0..<n])) \<le> n"
proof (induction n)
  case (Suc n)
  then show ?case using reads_round [of options env n] by simp
qed (simp add: reads_def)

lemma resolveDelay_bounds:
  assumes "0 \<le> random" "random < 1"
  shows "0 \<le> resolveDelay options c e now random r"
    and "resolveDelay options c e now random r \<le> retryAfterCapMs"
  using fullJitterDelay_bounds [OF assms, of r]
  by (auto simp: resolveDelay_def Let_def retryAfterCapMs_def capDelayMs_def split: option.splits)

text \<open>
  C8: what a retried read does. The call goes on as long as a round's read fails with a
  retryable failure, attempts are left, the caller has not aborted and the pause is not
  interrupted; the first round \<open>s\<close> at which this is not so, which exists and is at most
  \<open>attempts\<close>, gives the result, and what was done is exactly what the rounds up to \<open>s\<close> do:
  one read each, then a notice numbered from 1 and a pause of the announced length. So the call
  always returns.
\<close>

theorem withRetry_exact:
  "\<exists>s. s \<le> ro_attempts options \<and> \<not> continues options env s
     \<and> {i. i < s} \<subseteq> {i. continues options env i}
     \<and> withRetry options env =
         (concat (map (round_steps options env) [0..<Suc s]), round_result options env s)"
  using stop_round_le stop_round_stops stop_round_continues withRetry_stop by blast

text \<open>
  The bounds on a retried read. There are at most \<open>attempts + 1\<close> reads, and when
  \<open>random()\<close> is in [0,1) every pause lasts between 0 and 30 seconds, whatever
  \<open>Retry-After\<close> says.
\<close>

theorem withRetry_bounds:
  assumes "\<And>r. 0 \<le> rr_random (env r) \<and> rr_random (env r) < 1"
  shows "reads (fst (withRetry options env)) \<le> ro_attempts options + 1
    \<and> set (concat (map pause_of (fst (withRetry options env)))) \<subseteq> {0..30000}"
proof
  show "reads (fst (withRetry options env)) \<le> ro_attempts options + 1"
    using reads_rounds [of options env "Suc (stop_round options env)"] stop_round_le [of options env]
    by (simp add: withRetry_stop)
  have "0 \<le> round_delay options env r \<and> round_delay options env r \<le> 30000" for r
    using resolveDelay_bounds [of "rr_random (env r)"] assms [of r]
    by (auto simp: round_delay_def retryAfterCapMs_def capDelayMs_def split: sum.splits)
  then show "set (concat (map pause_of (fst (withRetry options env)))) \<subseteq> {0..30000}"
    by (auto simp: withRetry_stop round_steps_def pause_of_def split: if_splits)
qed

definition reset_error :: thrown where
  "reset_error = Error PlainError (Some (CodeText ''ECONNRESET'')) ''socket hang up'' ''Error'' None None None"

definition example_options :: retry_options where
  "example_options = \<lparr>ro_attempts = 1,
     ro_classify = (\<lambda>e. classifyFailure (no_input\<lparr>ci_error := e\<rparr>)),
     ro_page = None, ro_phase = ListPhase, ro_retryAfterMs = None, ro_signal_reason = NonError\<rparr>"

definition example_round :: "nat \<Rightarrow> nat retry_round" where
  "example_round r = \<lparr>rr_aborted = False, rr_now = 0, rr_random = 1 / 2,
     rr_read = Inl reset_error, rr_sleep = Slept\<rparr>"

lemma withRetry_bounds_witness:
  "reads (fst (withRetry example_options example_round)) \<le> 2
   \<and> set (concat (map pause_of (fst (withRetry example_options example_round)))) \<subseteq> {0..30000}"
  using withRetry_bounds [of example_round example_options]
  by (simp add: example_round_def example_options_def)

end
