(* ===== verification/Base64.thy ===== *)
theory Base64
  imports Prelude "HOL-Library.Word"
begin

text \<open>
  The two conversions of Node's \<open>Buffer\<close> that the SSH transport uses:
  \<open>Buffer.from(text, "utf8").toString("base64")\<close> for the URL that goes to the remote shell and
  \<open>Buffer.from(stdout, "base64")\<close> for the replay bytes that come back through \<open>base64\<close>
  (\<open>src/storage/replay-byte-client.ts\<close>, \<open>src/discovery/source-client.ts\<close>).

  A byte is an \<open>8 word\<close>. The decoder skips every character outside the alphabet (line
  breaks included), takes the URL-safe letters too, and stops at the first \<open>=\<close>.
\<close>

type_synonym bytes = "8 word list"

definition utf8_bytes :: "string \<Rightarrow> bytes" where
  "utf8_bytes s = concat (map (\<lambda>c. let n = (of_char c :: nat) in
     if n < 128 then [word_of_nat n] else [word_of_nat (192 + n div 64), word_of_nat (128 + n mod 64)]) s)"

definition b64_char :: "nat \<Rightarrow> char" where
  "b64_char n =
     (if n < 26 then char_of (65 + n)
      else if n < 52 then char_of (71 + n)
      else if n < 62 then char_of (n - 4)
      else if n = 62 then CHR ''+'' else CHR ''/'')"

definition b64_val :: "char \<Rightarrow> nat option" where
  "b64_val c =
     (let n = (of_char c :: nat) in
      if 65 \<le> n \<and> n \<le> 90 then Some (n - 65)
      else if 97 \<le> n \<and> n \<le> 122 then Some (n - 71)
      else if 48 \<le> n \<and> n \<le> 57 then Some (n + 4)
      else if n = 43 \<or> n = 45 then Some 62
      else if n = 47 \<or> n = 95 then Some 63
      else None)"

definition is_pad :: "char \<Rightarrow> bool" where
  "is_pad c \<longleftrightarrow> c = CHR ''=''"

fun sextets :: "nat list \<Rightarrow> nat list" where
  "sextets (a # b # c # rest) =
     [a div 4, a mod 4 * 16 + b div 16, b mod 16 * 4 + c div 64, c mod 64] @ sextets rest"
| "sextets [a, b] = [a div 4, a mod 4 * 16 + b div 16, b mod 16 * 4]"
| "sextets [a] = [a div 4, a mod 4 * 16]"
| "sextets [] = []"

fun octets :: "nat list \<Rightarrow> nat list" where
  "octets (p # q # r # s # rest) =
     [p * 4 + q div 16, q mod 16 * 16 + r div 4, r mod 4 * 64 + s] @ octets rest"
| "octets [p, q, r] = [p * 4 + q div 16, q mod 16 * 16 + r div 4]"
| "octets [p, q] = [p * 4 + q div 16]"
| "octets [p] = []"
| "octets [] = []"

definition b64_padding :: "nat \<Rightarrow> string" where
  "b64_padding n = (if n mod 3 = 1 then ''=='' else if n mod 3 = 2 then ''='' else [])"

definition base64_encode :: "bytes \<Rightarrow> string" where
  "base64_encode bs = map b64_char (sextets (map unat bs)) @ b64_padding (length bs)"

definition base64_decode :: "string \<Rightarrow> bytes" where
  "base64_decode s =
     map word_of_nat
       (octets (List.map_filter b64_val (takeWhile (\<lambda>c. \<not> is_pad c) s)))"

subsection \<open>Decoding undoes encoding\<close>

lemma b64_val_char: "n < 64 \<Longrightarrow> b64_val (b64_char n) = Some n"
  by (auto simp: b64_char_def b64_val_def Let_def)

lemma b64_char_not_pad: "n < 64 \<Longrightarrow> \<not> is_pad (b64_char n)"
  using b64_val_char [of n] by (auto simp: is_pad_def b64_val_def)

lemma sextets_less: "\<forall>b \<in> set bs. b < 256 \<Longrightarrow> \<forall>s \<in> set (sextets bs). s < 64"
  by (induction bs rule: sextets.induct) (auto simp: less_mult_imp_div_less)

lemma octets_sextets: "\<forall>b \<in> set bs. b < 256 \<Longrightarrow> octets (sextets bs) = bs"
  by (induction bs rule: sextets.induct) auto

lemma map_filter_b64: "\<forall>s \<in> set xs. s < 64 \<Longrightarrow> List.map_filter b64_val (map b64_char xs) = xs"
  by (induction xs) (simp_all add: b64_val_char)

lemma takeWhile_filter_line:
  assumes "filter (\<lambda>c. is_pad c \<or> b64_val c \<noteq> None) s = xs @ ys"
    and "\<forall>c \<in> set xs. \<not> is_pad c" and "\<forall>c \<in> set ys. is_pad c"
  shows "List.map_filter b64_val (takeWhile (\<lambda>c. \<not> is_pad c) s) = List.map_filter b64_val xs"
  using assms
proof (induction s arbitrary: xs)
  case (Cons c s)
  show ?case
  proof (cases "is_pad c")
    case True
    with Cons.prems show ?thesis by (cases xs) auto
  next
    case False
    show ?thesis
    proof (cases "b64_val c")
      case None
      with False Cons.prems have "filter (\<lambda>c. is_pad c \<or> b64_val c \<noteq> None) s = xs @ ys" by simp
      from Cons.IH [OF this Cons.prems(2,3)] show ?thesis using False None by simp
    next
      case (Some v)
      then have split: "c # filter (\<lambda>c. is_pad c \<or> b64_val c \<noteq> None) s = xs @ ys"
        using Cons.prems(1) by simp
      have "xs \<noteq> []"
      proof
        assume "xs = []"
        with split have "c \<in> set ys" by (metis append_Nil list.set_intros(1))
        with False Cons.prems(3) show False by blast
      qed
      with split obtain xs' where xs: "xs = c # xs'"
        and "filter (\<lambda>c. is_pad c \<or> b64_val c \<noteq> None) s = xs' @ ys"
        by (cases xs) simp_all
      note this(2)
      from Cons.IH [OF this] xs Cons.prems show ?thesis using False Some by simp
    qed
  qed
qed simp

lemma base64_decode_line_wrapped:
  assumes "filter (\<lambda>c. is_pad c \<or> b64_val c \<noteq> None) s = base64_encode bs"
  shows "base64_decode s = bs"
proof -
  let ?ns = "map unat bs"
  have byte: "\<forall>b \<in> set ?ns. b < 256" by (auto simp: unsigned_less [where ?'b = 8, simplified])
  have pads: "\<forall>c \<in> set (b64_padding (length bs)). is_pad c" by (simp add: b64_padding_def is_pad_def)
  have no_pads: "\<forall>c \<in> set (map b64_char (sextets ?ns)). \<not> is_pad c"
    using sextets_less [OF byte] by (auto simp: b64_char_not_pad)
  have "List.map_filter b64_val (takeWhile (\<lambda>c. \<not> is_pad c) s) = sextets ?ns"
    using takeWhile_filter_line [OF assms [unfolded base64_encode_def] no_pads pads]
      map_filter_b64 [OF sextets_less [OF byte]] by simp
  then show ?thesis
    by (simp add: base64_decode_def octets_sextets [OF byte] map_idI)
qed

end
