(* ===== verification/Object_Keys.thy ===== *)
theory Object_Keys
  imports Prelude
begin

text \<open>
  Names in the object store: \<^verbatim>\<open>src/storage/object-key.ts\<close>,
  \<^verbatim>\<open>src/checkpoint/object-key.ts\<close> and \<^verbatim>\<open>src/evidence/object-key.ts\<close>, with the parts of
  a \<open>URL\<close> the program reads. The lemmas show that a key can only be built from the safe
  alphabet and that neither a source URL nor a run identifier can add a path segment to it.
\<close>

subsection \<open>URLs\<close>

text \<open>
  The components of a parsed URL of a scheme with an authority. Parsing is a parameter wherever
  the program parses a text; \<open>href\<close> is the serialisation of the URL standard, \<open>url_host\<close>
  includes the port, \<open>url_search\<close> and \<open>url_hash\<close> their leading \<open>?\<close> and \<open>#\<close>.
\<close>

record url =
  url_protocol :: string
  url_username :: string
  url_password :: string
  url_host :: string
  url_pathname :: string
  url_search :: string
  url_hash :: string

definition url_userinfo :: "url \<Rightarrow> string" where
  "url_userinfo u =
     (if url_username u = [] \<and> url_password u = [] then []
      else url_username u @ (if url_password u = [] then [] else '':'' @ url_password u) @ ''@'')"

definition href :: "url \<Rightarrow> string" where
  "href u = url_protocol u @ ''//'' @ url_userinfo u @ url_host u @ url_pathname u @ url_search u
     @ url_hash u"

subsection \<open>Alphabets\<close>

definition is_lower_alnum :: "char \<Rightarrow> bool" where
  "is_lower_alnum c \<longleftrightarrow> is_digit c \<or> (let n = (of_char c :: nat) in 97 \<le> n \<and> n \<le> 122)"

definition slug_char :: "char \<Rightarrow> bool" where
  "slug_char c \<longleftrightarrow> is_lower_alnum c \<or> c = CHR ''.'' \<or> c = CHR ''_'' \<or> c = CHR ''-''"

definition key_char :: "char \<Rightarrow> bool" where
  "key_char c \<longleftrightarrow> slug_char c \<or> c = CHR ''/''"

definition is_hex :: "char \<Rightarrow> bool" where
  "is_hex c \<longleftrightarrow> is_digit c \<or> (let n = (of_char c :: nat) in 97 \<le> n \<and> n \<le> 102)"

definition s3SafeKeyPattern :: "string \<Rightarrow> bool" where
  "s3SafeKeyPattern s \<longleftrightarrow> s \<noteq> [] \<and> list_all key_char s"

definition sha256Pattern :: "string \<Rightarrow> bool" where
  "sha256Pattern s \<longleftrightarrow> length s = 64 \<and> list_all is_hex s"

datatype key_error = BadChecksum | EmptyPrefix | EmptySlug | UnsafeKey

subsection \<open>The key builders\<close>

definition toRawReplayObjectKey :: "string \<Rightarrow> key_error + string" where
  "toRawReplayObjectKey sha256 =
     (if \<not> sha256Pattern sha256 then Inl BadChecksum
      else Inr (''raw/sha256/'' @ sha256 @ ''.ocap''))"

text \<open>\<open>replaceAll(/[^a-z0-9._-]+/g, "-")\<close>: each maximal run of unsafe characters is one dash.\<close>

fun collapse_unsafe :: "string \<Rightarrow> string" where
  "collapse_unsafe [] = []"
| "collapse_unsafe (c # cs) =
     (if slug_char c then c # collapse_unsafe cs
      else CHR ''-'' # collapse_unsafe (dropWhile (\<lambda>d. \<not> slug_char d) cs))"

text \<open>\<open>replaceAll(/^-+|-+$/g, "")\<close>.\<close>

definition trim_dashes :: "string \<Rightarrow> string" where
  "trim_dashes s =
     rev (dropWhile (\<lambda>c. c = CHR ''-'') (rev (dropWhile (\<lambda>c. c = CHR ''-'') s)))"

definition slugify :: "string \<Rightarrow> string" where
  "slugify s = trim_dashes (collapse_unsafe (to_lower s))"

definition toSourceSlug :: "url \<Rightarrow> string" where
  "toSourceSlug sourceUrl = slugify (url_host sourceUrl @ url_pathname sourceUrl)"

definition toRunSlug :: "string \<Rightarrow> string" where
  "toRunSlug runId = slugify runId"

definition slug_key :: "string \<Rightarrow> string \<Rightarrow> string \<Rightarrow> key_error + string" where
  "slug_key prefix slug objectName =
     (if slug = [] then Inl EmptySlug
      else let key = prefix @ ''/'' @ slug @ ''/'' @ objectName
           in if \<not> s3SafeKeyPattern key then Inl UnsafeKey else Inr key)"

definition toCheckpointObjectKey :: "string \<Rightarrow> url \<Rightarrow> key_error + string" where
  "toCheckpointObjectKey prefix sourceUrl =
     (if prefix = [] then Inl EmptyPrefix
      else slug_key prefix (toSourceSlug sourceUrl) ''latest.json'')"

definition toEvidenceObjectKey :: "string \<Rightarrow> string \<Rightarrow> key_error + string" where
  "toEvidenceObjectKey prefix runId =
     (if prefix = [] then Inl EmptyPrefix
      else slug_key prefix (toRunSlug runId) ''evidence.json'')"

subsection \<open>What a slug looks like\<close>

lemma slug_char_dash [simp]: "slug_char (CHR ''-'')"
  by (simp add: slug_char_def)

lemma slug_char_no_slash [simp]: "\<not> slug_char (CHR ''/'')"
  by (simp add: slug_char_def is_lower_alnum_def is_digit_def)

lemma collapse_unsafe_chars: "list_all slug_char (collapse_unsafe s)"
  by (induction s rule: collapse_unsafe.induct) simp_all

lemma collapse_unsafe_id: "list_all slug_char s \<Longrightarrow> collapse_unsafe s = s"
  by (induction s) simp_all

lemma set_trim_dashes: "set (trim_dashes s) \<subseteq> set s"
  by (auto simp: trim_dashes_def dest!: set_dropWhileD)

lemma slugify_chars: "list_all slug_char (slugify s)"
  using collapse_unsafe_chars [of "to_lower s"] set_trim_dashes
  unfolding slugify_def list_all_iff by blast

lemma dropWhile_ends:
  "dropWhile P xs \<noteq> [] \<Longrightarrow> \<not> P (hd (dropWhile P xs))"
  by (induction xs) auto

lemma last_dropWhile: "dropWhile P xs \<noteq> [] \<Longrightarrow> last (dropWhile P xs) = last xs"
  by (induction xs) auto

lemma trim_both_ends:
  fixes P s
  defines "r \<equiv> dropWhile P (rev (dropWhile P s))"
  assumes "r \<noteq> []"
  shows "\<not> P (hd r) \<and> \<not> P (last r)"
proof -
  have m: "dropWhile P s \<noteq> []"
  proof
    assume "dropWhile P s = []"
    then have "r = []" unfolding r_def by (simp only: rev.simps dropWhile.simps)
    with assms(2) show False ..
  qed
  have "last r = last (rev (dropWhile P s))"
    using assms(2) unfolding r_def by (rule last_dropWhile)
  also have "\<dots> = hd (dropWhile P s)" by (simp only: last_rev)
  finally show ?thesis
    using dropWhile_ends [of P "rev (dropWhile P s)"] dropWhile_ends [OF m] assms(2)
    unfolding r_def by (simp only: simp_thms)
qed

lemma trim_dashes_ends:
  assumes "trim_dashes s \<noteq> []"
  shows "hd (trim_dashes s) \<noteq> CHR ''-'' \<and> last (trim_dashes s) \<noteq> CHR ''-''"
  using trim_both_ends [of "\<lambda>c. c = CHR ''-''" s] assms
  unfolding trim_dashes_def by (simp only: hd_rev last_rev rev_is_Nil_conv simp_thms)

lemma trim_dashes_id:
  assumes "s = [] \<or> hd s \<noteq> CHR ''-'' \<and> last s \<noteq> CHR ''-''"
  shows "trim_dashes s = s"
proof -
  let ?P = "\<lambda>c. c = CHR ''-''"
  have "dropWhile ?P s = s" "dropWhile ?P (rev s) = rev s"
    using assms by (simp_all only: dropWhile_eq_self_iff hd_rev rev_is_Nil_conv) blast+
  then show ?thesis by (simp only: trim_dashes_def rev_rev_ident)
qed

lemma lower_char_slug: "slug_char c \<Longrightarrow> lower_char c = c"
  by (auto simp: slug_char_def is_lower_alnum_def is_digit_def lower_char_def Let_def)

lemma to_lower_slug: "list_all slug_char s \<Longrightarrow> to_lower s = s"
  unfolding to_lower_def list_all_iff by (rule map_idI) (auto simp: lower_char_slug)

lemma slugify_idem: "slugify (slugify s) = slugify s"
proof -
  have "list_all slug_char (slugify s)" by (rule slugify_chars)
  then have "slugify (slugify s) = trim_dashes (slugify s)"
    by (simp add: slugify_def [of "slugify s"] to_lower_slug collapse_unsafe_id)
  also have "\<dots> = slugify s"
    using trim_dashes_ends [of "collapse_unsafe (to_lower s)"]
    by (intro trim_dashes_id) (auto simp: slugify_def)
  finally show ?thesis .
qed

lemma slug_key_eq:
  assumes "list_all slug_char slug" "list_all slug_char objectName"
  shows "slug_key prefix slug objectName =
    (if slug = [] then Inl EmptySlug
     else if list_all key_char prefix then Inr (prefix @ ''/'' @ slug @ ''/'' @ objectName)
     else Inl UnsafeKey)"
  using assms by (auto simp: slug_key_def s3SafeKeyPattern_def key_char_def list_all_iff)

text \<open>The segments of a key: how often the separator occurs.\<close>

definition segments :: "string \<Rightarrow> nat" where
  "segments s = length (filter (\<lambda>c. c = CHR ''/'') s)"

lemma segments_slug: "list_all slug_char s \<Longrightarrow> segments s = 0"
  by (auto simp: segments_def list_all_iff filter_empty_conv)

lemma segments_append [simp]: "segments (s @ t) = segments s + segments t"
  by (simp add: segments_def)

lemma object_names_slug [simp]:
  "list_all slug_char ''latest.json''" "list_all slug_char ''evidence.json''"
  by (simp_all add: slug_char_def is_lower_alnum_def is_digit_def)

lemma slug_key_slugify:
  "slug_key prefix (slugify s) ''latest.json'' =
    (if slugify s = [] then Inl EmptySlug
     else if list_all key_char prefix then Inr (prefix @ ''/'' @ slugify s @ ''/latest.json'')
     else Inl UnsafeKey)"
  "slug_key prefix (slugify s) ''evidence.json'' =
    (if slugify s = [] then Inl EmptySlug
     else if list_all key_char prefix then Inr (prefix @ ''/'' @ slugify s @ ''/evidence.json'')
     else Inl UnsafeKey)"
  using slug_key_eq [OF slugify_chars object_names_slug(1), of prefix s]
    slug_key_eq [OF slugify_chars object_names_slug(2), of prefix s]
  by (simp_all only: append_Cons append_Nil)

lemma slugify_ends:
  "slugify s = [] \<or> hd (slugify s) \<noteq> CHR ''-'' \<and> last (slugify s) \<noteq> CHR ''-''"
  using trim_dashes_ends unfolding slugify_def by blast

text \<open>
  The checkpoint key of a source exists exactly when the prefix is a non-empty word over the
  key alphabet and the URL leaves a slug; the slug is over the slug alphabet, has no dash at
  either end and never a separator, so a source URL adds exactly two levels to the prefix.
\<close>
theorem toCheckpointObjectKey_exact:
  "let slug = toSourceSlug u in
     toCheckpointObjectKey prefix u =
       (if prefix = [] then Inl EmptyPrefix
        else if slug = [] then Inl EmptySlug
        else if list_all key_char prefix then Inr (prefix @ ''/'' @ slug @ ''/latest.json'')
        else Inl UnsafeKey)
     \<and> list_all slug_char slug
     \<and> (slug = [] \<or> hd slug \<noteq> CHR ''-'' \<and> last slug \<noteq> CHR ''-'')
     \<and> segments (prefix @ ''/'' @ slug @ ''/latest.json'') = segments prefix + 2"
proof -
  have "segments (slugify x) = 0" for x by (rule segments_slug [OF slugify_chars])
  moreover have "segments ''/'' = 1" "segments ''/latest.json'' = 1" by code_simp+
  ultimately show ?thesis
    using slugify_chars slugify_ends
    by (simp add: toCheckpointObjectKey_def toSourceSlug_def slug_key_slugify Let_def
        del: append_Cons append_Nil)
qed

text \<open>
  The evidence key of a run, by the same rule; a run identifier that already is a slug is
  used unchanged, and two runs write the same object exactly when their
  slugs are equal.
\<close>
theorem toEvidenceObjectKey_exact:
  "(toEvidenceObjectKey prefix runId = Inr key \<longleftrightarrow>
      prefix \<noteq> [] \<and> list_all key_char prefix \<and> toRunSlug runId \<noteq> []
      \<and> key = prefix @ ''/'' @ toRunSlug runId @ ''/evidence.json'')
   \<and> toRunSlug (toRunSlug runId) = toRunSlug runId
   \<and> ((\<exists>k. toEvidenceObjectKey prefix runId = Inr k \<and> toEvidenceObjectKey prefix other = Inr k)
      \<longleftrightarrow> is_ok (toEvidenceObjectKey prefix runId) \<and> toRunSlug runId = toRunSlug other)"
  by (auto simp: toEvidenceObjectKey_def toRunSlug_def slug_key_slugify slugify_idem)

text \<open>
  The raw object key is a function of the checksum alone, defined exactly on 64 lower-case
  hexadecimal digits, and injective there: equal keys mean equal checksums.
\<close>
theorem toRawReplayObjectKey_injective:
  "(toRawReplayObjectKey s = Inr key \<longleftrightarrow>
      length s = 64 \<and> list_all is_hex s \<and> key = ''raw/sha256/'' @ s @ ''.ocap'')
   \<and> (toRawReplayObjectKey s = toRawReplayObjectKey s'
      \<longleftrightarrow> s = s' \<or> \<not> sha256Pattern s \<and> \<not> sha256Pattern s')"
  by (auto simp: toRawReplayObjectKey_def sha256Pattern_def)

end
