(* ===== verification/Source_Clients.thy ===== *)
theory Source_Clients
  imports Backoff_Retry Base64 Object_Keys
begin

text \<open>
  The two clients that read from the source: text pages (\<open>src/discovery/source-client.ts\<close> with
  its \<open>-error\<close> and \<open>-retry\<close> siblings) and replay bytes (\<open>src/storage/replay-byte-client.ts\<close>
  with its siblings), over HTTP or through \<open>ssh\<close>.

  A call is a retried read (theory \<open>Backoff_Retry\<close>): what \<open>fetch\<close> or \<open>execFile\<close> answers in
  each round is the \<open>rr_read\<close> of that round, and the client turns an answer into a result or
  an error. The per-request timeout aborts the request, so it is one more way for \<open>fetch\<close> or
  \<open>execFile\<close> to reject. An \<open>undefined\<close> options argument is the record with nothing set.
\<close>

record 'b http_response =
  hr_status :: int
  hr_cf_ray :: bool
  hr_retry_after :: "string option"
  hr_body :: "thrown + 'b"

definition hr_ok :: "'b http_response \<Rightarrow> bool" where
  "hr_ok r \<longleftrightarrow> 200 \<le> hr_status r \<and> hr_status r \<le> 299"

record fetch_options =
  fo_attempts :: "nat option"
  fo_page :: "nat option"
  fo_phase :: "phase option"
  fo_signal_reason :: thrown

record retry_wiring =
  rw_classify :: "thrown \<Rightarrow> failure_classification"
  rw_phase :: phase
  rw_retryAfterMs :: "(thrown \<Rightarrow> int \<Rightarrow> int option) option"

subsection \<open>Retry wiring\<close>

definition totalTries :: "fetch_options \<Rightarrow> nat" where
  "totalTries options = (case fo_attempts options of Some n \<Rightarrow> n | None \<Rightarrow> 0) + 1"

definition retry_options_of :: "retry_wiring \<Rightarrow> fetch_options \<Rightarrow> retry_options" where
  "retry_options_of wiring options =
     \<lparr>ro_attempts = (case fo_attempts options of Some n \<Rightarrow> n | None \<Rightarrow> 0),
      ro_classify = rw_classify wiring, ro_page = fo_page options, ro_phase = rw_phase wiring,
      ro_retryAfterMs = rw_retryAfterMs wiring, ro_signal_reason = fo_signal_reason options\<rparr>"

text \<open>The rounds as the wrapper sees them: the answers of the transport, read by the client.\<close>

definition read_rounds ::
    "('o \<Rightarrow> thrown + 'a) \<Rightarrow> (nat \<Rightarrow> 'o retry_round) \<Rightarrow> nat \<Rightarrow> 'a retry_round" where
  "read_rounds read rounds r =
     (let io = rounds r in
      \<lparr>rr_aborted = rr_aborted io, rr_now = rr_now io, rr_random = rr_random io,
       rr_read = (case rr_read io of Inl e \<Rightarrow> Inl e | Inr answer \<Rightarrow> read answer),
       rr_sleep = rr_sleep io\<rparr>)"

definition runWithRetry ::
    "retry_wiring \<Rightarrow> fetch_options \<Rightarrow> ('o \<Rightarrow> thrown + 'a) \<Rightarrow> (nat \<Rightarrow> 'o retry_round)
      \<Rightarrow> retry_step list \<times> (thrown + 'a)" where
  "runWithRetry wiring options read rounds =
     withRetry (retry_options_of wiring options) (read_rounds read rounds)"

definition catch_map :: "(thrown \<Rightarrow> thrown) \<Rightarrow> retry_step list \<times> (thrown + 'a) \<Rightarrow> retry_step list \<times> (thrown + 'a)" where
  "catch_map f r = apsnd (map_sum f id) r"

subsection \<open>Errors of the text client\<close>

definition cfBodyMarkers :: "string list" where
  "cfBodyMarkers = [''just a moment'', ''cf-challenge'', ''challenge-platform'', ''/cdn-cgi/challenge'']"

definition toFetchCode :: "failure_kind \<Rightarrow> string" where
  "toFetchCode kind = (case kind of RateLimited \<Rightarrow> ''rate_limited'' | Transient \<Rightarrow> ''source_transient''
     | Permanent \<Rightarrow> ''source_unavailable'')"

definition source_fetch_error ::
    "string \<Rightarrow> string \<Rightarrow> thrown option \<Rightarrow> failure_details option \<Rightarrow> thrown" where
  "source_fetch_error code message cause details =
     Error SourceFetchError (Some (CodeText code)) message ''SourceFetchError'' cause None details"

definition failure_details_of ::
    "nat \<Rightarrow> failure_classification \<Rightarrow> nat option \<Rightarrow> phase \<Rightarrow> url \<Rightarrow> failure_details" where
  "failure_details_of attempts classification page ph u =
     \<lparr>d_attempts = Some attempts, d_causeCode = fc_causeCode classification,
      d_causeMessage = fc_causeMessage classification,
      d_cfChallenge = fc_cfChallenge classification, d_httpStatus = fc_httpStatus classification,
      d_page = page, d_phase = ph, d_retryAfter = None, d_url = href u\<rparr>"

definition as_cause :: "thrown \<Rightarrow> thrown option" where
  "as_cause e = (case e of Undefined \<Rightarrow> None | _ \<Rightarrow> Some e)"

definition buildSourceFetchError ::
    "nat \<Rightarrow> failure_classification \<Rightarrow> string \<Rightarrow> thrown \<Rightarrow> nat option \<Rightarrow> phase \<Rightarrow> url \<Rightarrow> thrown" where
  "buildSourceFetchError attempts classification fallbackMessage originalError page ph u =
     source_fetch_error (toFetchCode (fc_kind classification)) fallbackMessage
       (as_cause originalError) (Some (failure_details_of attempts classification page ph u))"

definition resolvePhase :: "fetch_options \<Rightarrow> phase" where
  "resolvePhase options = (case fo_phase options of Some p \<Rightarrow> p | None \<Rightarrow> ListPhase)"

definition detectCloudflareChallenge :: "'b http_response \<Rightarrow> string \<Rightarrow> bool" where
  "detectCloudflareChallenge response bodyText \<longleftrightarrow>
     hr_cf_ray response \<and> list_ex (js_includes (to_lower bodyText)) cfBodyMarkers"

definition isCloudflareChallengeError :: "thrown \<Rightarrow> bool" where
  "isCloudflareChallengeError e \<longleftrightarrow> is_Error e \<and> err_class e = CloudflareChallenge"

definition is_class :: "error_class \<Rightarrow> thrown \<Rightarrow> bool" where
  "is_class c e \<longleftrightarrow> is_Error e \<and> err_class e = c"

definition stored_retryAfter :: "thrown \<Rightarrow> string option" where
  "stored_retryAfter e = Option.bind (err_details e) d_retryAfter"

definition directRetryAfter :: "(string \<Rightarrow> int option) \<Rightarrow> thrown \<Rightarrow> int \<Rightarrow> int option" where
  "directRetryAfter date_parse error now =
     (if \<not> is_class SourceFetchError error then None
      else case stored_retryAfter error of None \<Rightarrow> None
        | Some retryAfter \<Rightarrow> parseRetryAfter date_parse (Some retryAfter) now)"

definition http_error_details :: "phase \<Rightarrow> 'b http_response \<Rightarrow> url \<Rightarrow> failure_details" where
  "http_error_details ph response u =
     \<lparr>d_attempts = None, d_causeCode = None, d_causeMessage = None, d_cfChallenge = False,
      d_httpStatus = Some (hr_status response), d_page = None, d_phase = ph,
      d_retryAfter = hr_retry_after response, d_url = href u\<rparr>"

definition buildDirectHttpError :: "phase \<Rightarrow> 'b http_response \<Rightarrow> url \<Rightarrow> thrown" where
  "buildDirectHttpError ph response u =
     (let classification = classifyFailure (no_input\<lparr>ci_httpStatus := Some (hr_status response)\<rparr>)
      in source_fetch_error (toFetchCode (fc_kind classification))
           (''Source request failed with status '' @ show_int (hr_status response)) None
           (Some (http_error_details ph response u)))"

definition reclassifyDirect :: "thrown \<Rightarrow> failure_classification" where
  "reclassifyDirect e =
     classifyFailure (no_input\<lparr>
       ci_cfChallenge := Some (case err_details e of None \<Rightarrow> False | Some d \<Rightarrow> d_cfChallenge d),
       ci_httpStatus := Option.bind (err_details e) d_httpStatus\<rparr>)"

definition classifyDirect :: "thrown \<Rightarrow> failure_classification" where
  "classifyDirect e =
     (if is_class SourceFetchError e then reclassifyDirect e
      else classifyFailure (no_input\<lparr>ci_cfChallenge := Some (isCloudflareChallengeError e),
        ci_error := e\<rparr>))"

definition classifySsh :: "thrown \<Rightarrow> failure_classification" where
  "classifySsh e = classifyFailure (no_input\<lparr>ci_error := e\<rparr>)"

definition toDirectFetchError :: "thrown \<Rightarrow> fetch_options \<Rightarrow> phase \<Rightarrow> url \<Rightarrow> thrown" where
  "toDirectFetchError e options ph u =
     (let attempts = totalTries options; page = fo_page options in
      if isCloudflareChallengeError e
      then buildSourceFetchError attempts (classifyFailure (no_input\<lparr>ci_cfChallenge := Some True\<rparr>))
             ''Source returned a Cloudflare challenge'' Undefined page ph u
      else if is_class SourceFetchError e
      then buildSourceFetchError attempts (reclassifyDirect e) (err_message e) Undefined page ph u
      else buildSourceFetchError attempts (classifyFailure (no_input\<lparr>ci_error := e\<rparr>))
             ''Source request failed'' e page ph u)"

definition toSshFetchError :: "thrown \<Rightarrow> fetch_options \<Rightarrow> phase \<Rightarrow> url \<Rightarrow> thrown" where
  "toSshFetchError e options ph u =
     buildSourceFetchError (totalTries options) (classifyFailure (no_input\<lparr>ci_error := e\<rparr>))
       ''SSH source request failed'' e (fo_page options) ph u"

subsection \<open>The text client\<close>

definition challenge_error :: thrown where
  "challenge_error = Error CloudflareChallenge None ''Source returned a Cloudflare challenge''
     ''Error'' None None None"

definition read_text :: "phase \<Rightarrow> url \<Rightarrow> string http_response \<Rightarrow> thrown + string" where
  "read_text ph u response =
     (if \<not> hr_ok response then Inl (buildDirectHttpError ph response u)
      else case hr_body response of
        Inl e \<Rightarrow> Inl e
      | Inr bodyText \<Rightarrow>
          if detectCloudflareChallenge response bodyText then Inl challenge_error
          else Inr bodyText)"

definition direct_wiring :: "(string \<Rightarrow> int option) \<Rightarrow> fetch_options \<Rightarrow> retry_wiring" where
  "direct_wiring date_parse options = \<lparr>rw_classify = classifyDirect, rw_phase = resolvePhase options,
     rw_retryAfterMs = Some (directRetryAfter date_parse)\<rparr>"

definition fetchText_direct ::
    "(string \<Rightarrow> int option) \<Rightarrow> url \<Rightarrow> fetch_options \<Rightarrow> (nat \<Rightarrow> string http_response retry_round)
      \<Rightarrow> retry_step list \<times> (thrown + string)" where
  "fetchText_direct date_parse u options rounds =
     (let ph = resolvePhase options in
      catch_map (\<lambda>e. toDirectFetchError e options ph u)
        (runWithRetry (direct_wiring date_parse options) options (read_text ph u) rounds))"

text \<open>Over \<open>ssh\<close> the answer is the standard output, and an unset host throws before any
  read, outside the wrapper that reports errors.\<close>

definition getSshHost :: "string option \<Rightarrow> thrown + string" where
  "getSshHost host = (case host of
       None \<Rightarrow> Inl (source_fetch_error ''source_unavailable'' ''SSH source host is not configured'' None None)
     | Some h \<Rightarrow> Inr h)"

definition text_ssh_arguments :: "string \<Rightarrow> string \<Rightarrow> url \<Rightarrow> string list" where
  "text_ssh_arguments host sourceSshCommand u =
     [host, ''sh'', ''-c'', sourceSshCommand @ '' -- \"$(printf %s \"$1\" | base64 -d)\"'',
      ''replays-fetcher-source'', base64_encode (utf8_bytes (href u))]"

definition ssh_wiring :: "fetch_options \<Rightarrow> retry_wiring" where
  "ssh_wiring options = \<lparr>rw_classify = classifySsh, rw_phase = resolvePhase options,
     rw_retryAfterMs = None\<rparr>"

definition fetchText_ssh ::
    "string option \<Rightarrow> string \<Rightarrow> (string list \<Rightarrow> nat \<Rightarrow> string retry_round) \<Rightarrow> url \<Rightarrow> fetch_options
      \<Rightarrow> retry_step list \<times> (thrown + string)" where
  "fetchText_ssh sshHost sshCommand execFile u options =
     (let ph = resolvePhase options in
      case getSshHost sshHost of
        Inl e \<Rightarrow> ([], Inl e)
      | Inr host \<Rightarrow>
          catch_map (\<lambda>e. toSshFetchError e options ph u)
            (runWithRetry (ssh_wiring options) options Inr
              (execFile (text_ssh_arguments host sshCommand u))))"

subsection \<open>The byte client\<close>

definition toByteCode :: "failure_kind \<Rightarrow> string" where
  "toByteCode kind = (case kind of RateLimited \<Rightarrow> ''rate_limited'' | _ \<Rightarrow> ''fetch_failed'')"

definition byte_fetch_error ::
    "string \<Rightarrow> string \<Rightarrow> thrown option \<Rightarrow> failure_details option \<Rightarrow> thrown" where
  "byte_fetch_error code message cause details =
     Error ReplayByteFetchError (Some (CodeText code)) message ''ReplayByteFetchError'' cause None details"

definition buildByteFetchError ::
    "nat \<Rightarrow> failure_classification \<Rightarrow> string \<Rightarrow> thrown \<Rightarrow> nat option \<Rightarrow> url \<Rightarrow> thrown" where
  "buildByteFetchError attempts classification fallbackMessage originalError page u =
     byte_fetch_error (toByteCode (fc_kind classification)) fallbackMessage (as_cause originalError)
       (Some (failure_details_of attempts classification page BytesPhase u))"

definition buildDirectHttpError_bytes :: "'b http_response \<Rightarrow> url \<Rightarrow> thrown" where
  "buildDirectHttpError_bytes response u =
     (let classification = classifyFailure (no_input\<lparr>ci_httpStatus := Some (hr_status response)\<rparr>)
      in byte_fetch_error (toByteCode (fc_kind classification))
           (''Replay byte request failed with status '' @ show_int (hr_status response)) None
           (Some (http_error_details BytesPhase response u)))"

definition directRetryAfter_bytes :: "(string \<Rightarrow> int option) \<Rightarrow> thrown \<Rightarrow> int \<Rightarrow> int option" where
  "directRetryAfter_bytes date_parse error now =
     (if \<not> is_class ReplayByteFetchError error then None
      else case stored_retryAfter error of None \<Rightarrow> None
        | Some retryAfter \<Rightarrow> parseRetryAfter date_parse (Some retryAfter) now)"

definition reclassifyDirect_bytes :: "thrown \<Rightarrow> failure_classification" where
  "reclassifyDirect_bytes e =
     classifyFailure (no_input\<lparr>ci_cfChallenge := Some False,
       ci_httpStatus := Option.bind (err_details e) d_httpStatus\<rparr>)"

definition classifyDirect_bytes :: "thrown \<Rightarrow> failure_classification" where
  "classifyDirect_bytes e =
     (if is_class ReplayByteFetchError e then reclassifyDirect_bytes e
      else classifyFailure (no_input\<lparr>ci_error := e\<rparr>))"

text \<open>
  The retry wiring of the byte client, \<open>src/storage/replay-byte-client-retry.ts\<close>, is that of the text client
  with the phase fixed.
\<close>

definition bytesPhase :: phase where "bytesPhase = BytesPhase"

record byte_wiring =
  bw_classify :: "thrown \<Rightarrow> failure_classification"
  bw_retryAfterMs :: "(thrown \<Rightarrow> int \<Rightarrow> int option) option"

definition totalTries_bytes :: "fetch_options \<Rightarrow> nat" where
  "totalTries_bytes options = (case fo_attempts options of Some n \<Rightarrow> n | None \<Rightarrow> 0) + 1"

definition byte_retry_options :: "byte_wiring \<Rightarrow> fetch_options \<Rightarrow> retry_options" where
  "byte_retry_options wiring options =
     \<lparr>ro_attempts = (case fo_attempts options of Some n \<Rightarrow> n | None \<Rightarrow> 0),
      ro_classify = bw_classify wiring, ro_page = fo_page options, ro_phase = bytesPhase,
      ro_retryAfterMs = bw_retryAfterMs wiring, ro_signal_reason = fo_signal_reason options\<rparr>"

definition runWithRetry_bytes ::
    "byte_wiring \<Rightarrow> fetch_options \<Rightarrow> ('o \<Rightarrow> thrown + 'a) \<Rightarrow> (nat \<Rightarrow> 'o retry_round)
      \<Rightarrow> retry_step list \<times> (thrown + 'a)" where
  "runWithRetry_bytes wiring options read rounds =
     withRetry (byte_retry_options wiring options) (read_rounds read rounds)"

lemma byte_retry_is_text_retry:
  "runWithRetry_bytes w options = runWithRetry
     \<lparr>rw_classify = bw_classify w, rw_phase = BytesPhase, rw_retryAfterMs = bw_retryAfterMs w\<rparr> options"
  "totalTries_bytes = totalTries"
  by (simp_all add: fun_eq_iff runWithRetry_bytes_def runWithRetry_def byte_retry_options_def
      retry_options_of_def bytesPhase_def totalTries_bytes_def totalTries_def)

definition toDirectByteError :: "thrown \<Rightarrow> fetch_options \<Rightarrow> url \<Rightarrow> thrown" where
  "toDirectByteError e options u =
     (let attempts = totalTries_bytes options; page = fo_page options in
      if is_class ReplayByteFetchError e
      then buildByteFetchError attempts (reclassifyDirect_bytes e) (err_message e) Undefined page u
      else buildByteFetchError attempts (classifyFailure (no_input\<lparr>ci_error := e\<rparr>))
             ''Replay byte request failed'' e page u)"

definition toSshByteError :: "thrown \<Rightarrow> fetch_options \<Rightarrow> url \<Rightarrow> thrown" where
  "toSshByteError e options u =
     buildByteFetchError (totalTries_bytes options) (classifyFailure (no_input\<lparr>ci_error := e\<rparr>))
       ''SSH replay byte request failed'' e (fo_page options) u"

definition read_bytes :: "url \<Rightarrow> bytes http_response \<Rightarrow> thrown + bytes" where
  "read_bytes u response =
     (if \<not> hr_ok response then Inl (buildDirectHttpError_bytes response u) else hr_body response)"

definition direct_bytes_wiring :: "(string \<Rightarrow> int option) \<Rightarrow> byte_wiring" where
  "direct_bytes_wiring date_parse = \<lparr>bw_classify = classifyDirect_bytes,
     bw_retryAfterMs = Some (directRetryAfter_bytes date_parse)\<rparr>"

definition fetchBytes_direct ::
    "(string \<Rightarrow> int option) \<Rightarrow> url \<Rightarrow> fetch_options \<Rightarrow> (nat \<Rightarrow> bytes http_response retry_round)
      \<Rightarrow> retry_step list \<times> (thrown + bytes)" where
  "fetchBytes_direct date_parse u options rounds =
     catch_map (\<lambda>e. toDirectByteError e options u)
       (runWithRetry_bytes (direct_bytes_wiring date_parse) options (read_bytes u) rounds)"

definition getSshHost_bytes :: "string option \<Rightarrow> thrown + string" where
  "getSshHost_bytes host = (case host of
       None \<Rightarrow> Inl (byte_fetch_error ''fetch_failed'' ''SSH source host is not configured'' None None)
     | Some h \<Rightarrow> Inr h)"

definition bytes_ssh_arguments :: "string \<Rightarrow> string \<Rightarrow> url \<Rightarrow> string list" where
  "bytes_ssh_arguments host sourceSshCommand u =
     [host, ''sh'', ''-c'',
      sourceSshCommand @ '' -- \"$(printf %s \"$1\" | base64 -d)\" | base64'',
      ''replays-fetcher-byte-source'', base64_encode (utf8_bytes (href u))]"

definition ssh_bytes_wiring :: byte_wiring where
  "ssh_bytes_wiring = \<lparr>bw_classify = classifySsh, bw_retryAfterMs = None\<rparr>"

definition fetchBytes_ssh ::
    "string option \<Rightarrow> string \<Rightarrow> (string list \<Rightarrow> nat \<Rightarrow> string retry_round) \<Rightarrow> url \<Rightarrow> fetch_options
      \<Rightarrow> retry_step list \<times> (thrown + bytes)" where
  "fetchBytes_ssh sshHost sshCommand execFile u options =
     (case getSshHost_bytes sshHost of
        Inl e \<Rightarrow> ([], Inl e)
      | Inr host \<Rightarrow>
          catch_map (\<lambda>e. toSshByteError e options u)
            (runWithRetry_bytes ssh_bytes_wiring options (\<lambda>stdout. Inr (base64_decode stdout))
              (execFile (bytes_ssh_arguments host sshCommand u))))"

subsection \<open>What a read decides\<close>

lemma classify_status:
  "isRetryable (classifyFailure (no_input\<lparr>ci_cfChallenge := Some False, ci_httpStatus := Some s\<rparr>)) \<longleftrightarrow>
     s \<in> {408, 425, 429} \<or> 500 \<le> s \<and> s \<le> 599"
  by (auto simp: isRetryable_def resolveKind_def no_input_def classifyByStatus_def
    isServerError_def isClientError_def kind_by_cause_def unwrapCause_def step_to_cause_def
    step_to_inner_def)

lemma isRetryable_iff: "isRetryable c \<longleftrightarrow> fc_kind c \<noteq> Permanent"
  by (cases "fc_kind c") (simp_all add: isRetryable_def)

lemma source_fetch_error_sel [simp]:
  "is_Error (source_fetch_error code m c d)"
  "err_class (source_fetch_error code m c d) = SourceFetchError"
  "err_code (source_fetch_error code m c d) = Some (CodeText code)"
  "err_message (source_fetch_error code m c d) = m"
  "err_details (source_fetch_error code m c d) = d"
  by (simp_all add: source_fetch_error_def)

lemma byte_fetch_error_sel [simp]:
  "is_Error (byte_fetch_error code m c d)"
  "err_class (byte_fetch_error code m c d) = ReplayByteFetchError"
  "err_code (byte_fetch_error code m c d) = Some (CodeText code)"
  "err_message (byte_fetch_error code m c d) = m"
  "err_details (byte_fetch_error code m c d) = d"
  by (simp_all add: byte_fetch_error_def)

lemma classifyDirect_http:
  "isRetryable (classifyDirect (buildDirectHttpError ph response u)) \<longleftrightarrow>
     hr_status response \<in> {408, 425, 429} \<or> 500 \<le> hr_status response \<and> hr_status response \<le> 599"
  using classify_status [of "hr_status response"]
  by (simp add: classifyDirect_def is_class_def buildDirectHttpError_def Let_def
    reclassifyDirect_def http_error_details_def)

lemma classifyDirect_bytes_http:
  "isRetryable (classifyDirect_bytes (buildDirectHttpError_bytes response u)) \<longleftrightarrow>
     hr_status response \<in> {408, 425, 429} \<or> 500 \<le> hr_status response \<and> hr_status response \<le> 599"
  using classify_status [of "hr_status response"]
  by (simp add: classifyDirect_bytes_def is_class_def buildDirectHttpError_bytes_def Let_def
    reclassifyDirect_bytes_def http_error_details_def)

lemma classifyDirect_challenge: "isRetryable (classifyDirect challenge_error)"
  by (simp add: isRetryable_iff classifyDirect_def is_class_def challenge_error_def
    isCloudflareChallengeError_def resolveKind_def)

text \<open>The answers after which the text client tries again, read off the answer itself.\<close>

definition retried_text_answer :: "thrown + string http_response \<Rightarrow> bool" where
  "retried_text_answer a \<longleftrightarrow> (case a of
       Inl e \<Rightarrow> isRetryable (classifyDirect e)
     | Inr response \<Rightarrow>
         if \<not> hr_ok response
         then hr_status response \<in> {408, 425, 429} \<or> 500 \<le> hr_status response \<and> hr_status response \<le> 599
         else (case hr_body response of
                 Inl e \<Rightarrow> isRetryable (classifyDirect e)
               | Inr t \<Rightarrow> detectCloudflareChallenge response t))"

definition retried_bytes_answer :: "thrown + bytes http_response \<Rightarrow> bool" where
  "retried_bytes_answer a \<longleftrightarrow> (case a of
       Inl e \<Rightarrow> isRetryable (classifyDirect_bytes e)
     | Inr response \<Rightarrow>
         if \<not> hr_ok response
         then hr_status response \<in> {408, 425, 429} \<or> 500 \<le> hr_status response \<and> hr_status response \<le> 599
         else (case hr_body response of Inl e \<Rightarrow> isRetryable (classifyDirect_bytes e) | Inr _ \<Rightarrow> False))"

definition tries_again :: "(thrown + 'o \<Rightarrow> bool) \<Rightarrow> fetch_options \<Rightarrow> (nat \<Rightarrow> 'o retry_round) \<Rightarrow> nat \<Rightarrow> bool" where
  "tries_again retried options rounds i \<longleftrightarrow>
     \<not> rr_aborted (rounds i) \<and> Suc i < totalTries options \<and> retried (rr_read (rounds i)) \<and>
     rr_sleep (rounds i) = Slept"

lemma continues_text:
  "continues (retry_options_of (direct_wiring dp options) options) (read_rounds (read_text ph u) rounds) i
     \<longleftrightarrow> tries_again retried_text_answer options rounds i"
  by (auto simp: continues_def pauses_def read_rounds_def Let_def tries_again_def
    retried_text_answer_def round_classification_def retry_options_of_def direct_wiring_def
    totalTries_def read_text_def classifyDirect_http classifyDirect_challenge
    split: sum.splits option.splits)

lemma continues_bytes:
  "continues (byte_retry_options (direct_bytes_wiring dp) options) (read_rounds (read_bytes u) rounds) i
     \<longleftrightarrow> tries_again retried_bytes_answer options rounds i"
  by (auto simp: continues_def pauses_def read_rounds_def Let_def tries_again_def
    retried_bytes_answer_def round_classification_def byte_retry_options_def direct_bytes_wiring_def
    totalTries_def read_bytes_def classifyDirect_bytes_http
    split: sum.splits option.splits)

lemma withRetry_Inr_iff:
  "snd (withRetry options env) = Inr a \<longleftrightarrow>
     (\<exists>s. {i. i < s} \<subseteq> {i. continues options env i} \<and> \<not> rr_aborted (env s) \<and> rr_read (env s) = Inr a)"
proof
  assume "snd (withRetry options env) = Inr a"
  then have "round_result options env (stop_round options env) = Inr a"
    by (simp add: withRetry_stop)
  then have "\<not> rr_aborted (env (stop_round options env)) \<and> rr_read (env (stop_round options env)) = Inr a"
    by (auto simp: round_result_def split: if_splits)
  then show "\<exists>s. {i. i < s} \<subseteq> {i. continues options env i} \<and> \<not> rr_aborted (env s) \<and> rr_read (env s) = Inr a"
    using stop_round_continues by blast
next
  assume "\<exists>s. {i. i < s} \<subseteq> {i. continues options env i} \<and> \<not> rr_aborted (env s) \<and> rr_read (env s) = Inr a"
  then obtain s where s: "\<And>i. i < s \<Longrightarrow> continues options env i"
    "\<not> rr_aborted (env s)" "rr_read (env s) = Inr a" by blast
  have stop: "\<not> continues options env s" by (simp add: continues_def pauses_def s)
  have "withRetry_from options env 0 =
      (concat (map (round_steps options env) [0..<Suc s]), round_result options env s)"
    by (rule withRetry_from_stop) (auto simp: s stop)
  then show "snd (withRetry options env) = Inr a"
    by (simp add: withRetry_def round_result_def pauses_def s)
qed

lemma read_rounds_sel:
  "rr_aborted (read_rounds read rounds s) = rr_aborted (rounds s)"
  "rr_read (read_rounds read rounds s) = Inr a \<longleftrightarrow>
     (\<exists>response. rr_read (rounds s) = Inr response \<and> read response = Inr a)"
  by (auto simp: read_rounds_def Let_def split: sum.splits)

lemma catch_map_Inr [simp]: "snd (catch_map f r) = Inr a \<longleftrightarrow> snd r = Inr a"
  by (cases "snd r") (auto simp: catch_map_def)

lemma catch_map_Inl: "snd (catch_map f r) = Inl e \<Longrightarrow> \<exists>e'. snd r = Inl e' \<and> e = f e'"
  by (cases "snd r") (auto simp: catch_map_def)

lemma read_bytes_Inr:
  "read_bytes u response = Inr bs \<longleftrightarrow> hr_ok response \<and> hr_body response = Inr bs"
  by (simp add: read_bytes_def)

lemma read_text_Inr:
  "read_text ph u response = Inr t \<longleftrightarrow>
     hr_ok response \<and> hr_body response = Inr t \<and> \<not> detectCloudflareChallenge response t"
  by (auto simp: read_text_def split: sum.splits)

text \<open>
  C16: when a page text is delivered. A direct read gives the text \<open>t\<close> exactly when some
  round's answer is a 2xx whose body is \<open>t\<close> and is not a Cloudflare challenge page, the caller
  had not aborted, and every earlier round was tried again: its answer was a challenge, a 408,
  425, 429 or 5xx, or a transient error, a try was left, and its pause ran to the end. In
  particular a challenge page is never handed on as page content.
\<close>

theorem fetchText_direct_delivers:
  "snd (fetchText_direct dp u options rounds) = Inr t \<longleftrightarrow>
     (\<exists>s response. {i. i < s} \<subseteq> {i. tries_again retried_text_answer options rounds i}
        \<and> \<not> rr_aborted (rounds s) \<and> rr_read (rounds s) = Inr response \<and> hr_ok response
        \<and> hr_body response = Inr t \<and> \<not> detectCloudflareChallenge response t)"
  unfolding fetchText_direct_def Let_def catch_map_Inr runWithRetry_def withRetry_Inr_iff
    continues_text read_rounds_sel read_text_Inr
  by blast

text \<open>
  The same for replay bytes over HTTP: the body of the first 2xx answer, and nothing else,
  is delivered.
\<close>

theorem fetchBytes_direct_delivers:
  "snd (fetchBytes_direct dp u options rounds) = Inr bs \<longleftrightarrow>
     (\<exists>s response. {i. i < s} \<subseteq> {i. tries_again retried_bytes_answer options rounds i}
        \<and> \<not> rr_aborted (rounds s) \<and> rr_read (rounds s) = Inr response \<and> hr_ok response
        \<and> hr_body response = Inr bs)"
  unfolding fetchBytes_direct_def catch_map_Inr runWithRetry_bytes_def withRetry_Inr_iff
    continues_bytes read_rounds_sel read_bytes_Inr
  by blast

text \<open>
  Replay bytes over \<open>ssh\<close> arrive exactly. If the remote \<open>base64\<close> prints the encoding of
  the bytes \<open>bs\<close>, broken into lines in any way, the call delivers \<open>bs\<close> after one read.
\<close>

theorem fetchBytes_ssh_delivers:
  assumes "rr_read (execFile (bytes_ssh_arguments host command u) 0) = Inr stdout"
    and "\<not> rr_aborted (execFile (bytes_ssh_arguments host command u) 0)"
    and "filter (\<lambda>c. is_pad c \<or> b64_val c \<noteq> None) stdout = base64_encode bs"
  shows "fetchBytes_ssh (Some host) command execFile u options = ([ReadStep], Inr bs)"
  using assms(1,2) base64_decode_line_wrapped [OF assms(3)]
  by (simp add: fetchBytes_ssh_def getSshHost_bytes_def runWithRetry_bytes_def withRetry_def
    withRetry_from.simps [of _ _ 0] read_rounds_def Let_def catch_map_def)

definition example_url :: url where
  "example_url = \<lparr>url_protocol = ''https:'', url_username = [], url_password = [],
     url_host = ''h'', url_pathname = ''/r'', url_search = [], url_hash = []\<rparr>"

definition example_exec :: "string list \<Rightarrow> nat \<Rightarrow> string retry_round" where
  "example_exec args r = \<lparr>rr_aborted = False, rr_now = 0, rr_random = 0,
     rr_read = Inr (''AQI'' @ [char_of (10::nat)] @ ''D/A==''), rr_sleep = Slept\<rparr>"

lemma fetchBytes_ssh_delivers_witness:
  "fetchBytes_ssh (Some ''src'') ''curl'' example_exec example_url
     \<lparr>fo_attempts = None, fo_page = None, fo_phase = None, fo_signal_reason = Undefined\<rparr>
   = ([ReadStep], Inr [1, 2, 3, 252])"
proof -
  have "filter (\<lambda>c. is_pad c \<or> b64_val c \<noteq> None) (''AQI'' @ [char_of (10::nat)] @ ''D/A=='') =
      base64_encode [1, 2, 3, 252]"
    by code_simp
  then show ?thesis
    by (intro fetchBytes_ssh_delivers [where stdout = "''AQI'' @ [char_of (10::nat)] @ ''D/A==''"])
      (simp_all add: example_exec_def)
qed

subsection \<open>What an error reports\<close>

lemma buildSourceFetchError_sel [simp]:
  "is_Error (buildSourceFetchError n c m e page ph u)"
  "err_class (buildSourceFetchError n c m e page ph u) = SourceFetchError"
  "err_code (buildSourceFetchError n c m e page ph u) = Some (CodeText (toFetchCode (fc_kind c)))"
  "err_details (buildSourceFetchError n c m e page ph u) = Some (failure_details_of n c page ph u)"
  by (simp_all add: buildSourceFetchError_def)

lemma buildByteFetchError_sel [simp]:
  "is_Error (buildByteFetchError n c m e page u)"
  "err_class (buildByteFetchError n c m e page u) = ReplayByteFetchError"
  "err_code (buildByteFetchError n c m e page u) = Some (CodeText (toByteCode (fc_kind c)))"
  "err_details (buildByteFetchError n c m e page u) = Some (failure_details_of n c page BytesPhase u)"
  by (simp_all add: buildByteFetchError_def)

lemma toDirectFetchError_agrees:
  "err_code (toDirectFetchError e options ph u) = Some (CodeText (toFetchCode (fc_kind (classifyDirect e))))"
  by (simp add: toDirectFetchError_def Let_def classifyDirect_def is_class_def
    isCloudflareChallengeError_def resolveKind_def no_input_def)

lemma toDirectByteError_agrees:
  "err_code (toDirectByteError e options u) = Some (CodeText (toByteCode (fc_kind (classifyDirect_bytes e))))"
  by (simp add: toDirectByteError_def Let_def classifyDirect_bytes_def)

definition report_fits :: "fetch_options \<Rightarrow> phase \<Rightarrow> url \<Rightarrow> thrown \<Rightarrow> bool" where
  "report_fits options ph u e \<longleftrightarrow> (case err_details e of None \<Rightarrow> False | Some d \<Rightarrow>
     d_attempts d = Some (totalTries options) \<and> d_page d = fo_page options \<and> d_phase d = ph \<and>
     d_url d = href u \<and> d_retryAfter d = None)"

lemma report_fits_direct: "report_fits options ph u (toDirectFetchError e options ph u)"
  by (simp add: report_fits_def toDirectFetchError_def Let_def failure_details_of_def)

lemma report_fits_bytes: "report_fits options BytesPhase u (toDirectByteError e options u)"
  by (simp add: report_fits_def toDirectByteError_def Let_def failure_details_of_def byte_retry_is_text_retry)

text \<open>
  What a failed direct read throws. The text client only throws its own error class, with
  the number of tries that were allowed, the page, the phase and the URL in its details, never
  the \<open>Retry-After\<close> header, and with the code that belongs to the very classification by which
  the wrapper stopped: the code is \<open>rate_limited\<close> or \<open>source_transient\<close> exactly when that
  failure was a retryable one.
\<close>

theorem fetchText_direct_reports:
  "case snd (fetchText_direct dp u options rounds) of
     Inr _ \<Rightarrow> True
   | Inl e \<Rightarrow> err_class e = SourceFetchError \<and> report_fits options (resolvePhase options) u e
       \<and> (\<exists>e'. snd (runWithRetry (direct_wiring dp options) options
                      (read_text (resolvePhase options) u) rounds) = Inl e'
             \<and> err_code e = Some (CodeText (toFetchCode (fc_kind (classifyDirect e'))))
             \<and> (isRetryable (classifyDirect e')
                  \<longleftrightarrow> err_code e \<in> {Some (CodeText ''rate_limited''), Some (CodeText ''source_transient'')}))"
proof (cases "snd (fetchText_direct dp u options rounds)")
  case (Inl e)
  then obtain e' where e': "snd (runWithRetry (direct_wiring dp options) options
      (read_text (resolvePhase options) u) rounds) = Inl e'"
    and e: "e = toDirectFetchError e' options (resolvePhase options) u"
    by (auto simp: fetchText_direct_def Let_def dest: catch_map_Inl)
  have code: "err_code e = Some (CodeText (toFetchCode (fc_kind (classifyDirect e'))))"
    by (simp only: e toDirectFetchError_agrees)
  then have "isRetryable (classifyDirect e')
      \<longleftrightarrow> err_code e \<in> {Some (CodeText ''rate_limited''), Some (CodeText ''source_transient'')}"
    by (cases "fc_kind (classifyDirect e')") (simp_all add: isRetryable_def toFetchCode_def)
  moreover have "err_class e = SourceFetchError"
    by (simp add: e toDirectFetchError_def Let_def)
  ultimately show ?thesis
    unfolding Inl sum.case using e' code report_fits_direct e by blast
qed simp

text \<open>
  The \<open>url\<close> in the details of a reported failure is the address with its user name and
  password: credentials in an operator's source URL reach the error details, and from there the
  diagnostics, although the details are meant to be identifiers only.
\<close>

theorem error_details_keep_credentials:
  "map_option d_url (err_details (toDirectFetchError e options ph
      (u\<lparr>url_username := name, url_password := secret\<rparr>))) =
     Some (url_protocol u @ ''//'' @
       url_userinfo (u\<lparr>url_username := name, url_password := secret\<rparr>) @ url_host u @
       url_pathname u @ url_search u @ url_hash u)"
  by (simp add: toDirectFetchError_def Let_def failure_details_of_def href_def)

end
