(* ===== verification/JSON_Text.thy ===== *)
theory JSON_Text
  imports Prelude Complex_Main
begin

text \<open>
  JSON as the program uses it: \<open>JSON.stringify\<close> of values whose numbers are integers and
  \<open>JSON.parse\<close> of any text.

  An object is the list of its members, keys distinct. Parsing is a scanner that cuts the text
  into tokens and a machine that takes one token at a time and keeps the open arrays and objects
  on a stack; a repeated key replaces the earlier value, as in the language. Numbers are the
  rationals that their decimal texts denote. Strings have code units below 256, so an escape
  \<open>\\uXXYY\<close> with \<open>XX\<close> not \<open>00\<close> is outside the model and reads as a syntax error.
\<close>

datatype json =
    JNull
  | JBool bool
  | JNum rat
  | JStr string
  | JArr "json list"
  | JObj "(string \<times> json) list"

subsection \<open>Texts\<close>

definition hex_char :: "nat \<Rightarrow> char" where
  "hex_char n = (if n < 10 then char_of (48 + n) else char_of (87 + n))"

definition hex_val :: "char \<Rightarrow> nat option" where
  "hex_val c = (let n = (of_char c :: nat) in
     if 48 \<le> n \<and> n \<le> 57 then Some (n - 48)
     else if 97 \<le> n \<and> n \<le> 102 then Some (n - 87)
     else if 65 \<le> n \<and> n \<le> 70 then Some (n - 55) else None)"

definition escape_char :: "char \<Rightarrow> string" where
  "escape_char c = (let n = (of_char c :: nat) in
     if n = 34 then [CHR 0x5C, c]
     else if n = 92 then [c, c]
     else if n = 8 then [CHR 0x5C, CHR ''b'']
     else if n = 9 then [CHR 0x5C, CHR ''t'']
     else if n = 10 then [CHR 0x5C, CHR ''n'']
     else if n = 12 then [CHR 0x5C, CHR ''f'']
     else if n = 13 then [CHR 0x5C, CHR ''r'']
     else if n < 32 then [CHR 0x5C, CHR ''u'', CHR ''0'', CHR ''0'', hex_char (n div 16), hex_char (n mod 16)]
     else [c])"

definition quote_mark :: char where "quote_mark = CHR 0x22"

definition json_string :: "string \<Rightarrow> string" where
  "json_string s = quote_mark # concat (map escape_char s) @ [quote_mark]"

text \<open>\<open>String(n)\<close> of an integer below \<open>10\<^sup>2\<^sup>1\<close>; other numbers are not rendered by the model.\<close>

definition number_text :: "rat \<Rightarrow> string option" where
  "number_text r = (if r = of_int \<lfloor>r\<rfloor> \<and> \<bar>r\<bar> < 10 ^ 21 then Some (show_int \<lfloor>r\<rfloor>) else None)"

definition join_comma :: "string list \<Rightarrow> string" where
  "join_comma ts = (case ts of [] \<Rightarrow> [] | t # rest \<Rightarrow> t @ concat (map (Cons (CHR '','')) rest))"

fun stringify :: "json \<Rightarrow> string option" where
  "stringify JNull = Some ''null''"
| "stringify (JBool b) = Some (if b then ''true'' else ''false'')"
| "stringify (JNum r) = number_text r"
| "stringify (JStr s) = Some (json_string s)"
| "stringify (JArr vs) =
     (let ts = map stringify vs in
      if list_all (\<lambda>t. t \<noteq> None) ts then Some (''['' @ join_comma (map the ts) @ '']'') else None)"
| "stringify (JObj kvs) =
     (let ts = map (\<lambda>(k, v). map_option (\<lambda>t. json_string k @ '':'' @ t) (stringify v)) kvs in
      if list_all (\<lambda>t. t \<noteq> None) ts then Some (''{'' @ join_comma (map the ts) @ ''}'') else None)"

subsection \<open>Scanning\<close>

datatype token = TLBrace | TRBrace | TLBracket | TRBracket | TComma | TColon | TStr string
  | TNum rat | TTrue | TFalse | TNull

definition escapes :: "(char \<times> char) list" where
  "escapes = [(quote_mark, quote_mark), (CHR 0x5C, CHR 0x5C), (CHR ''/'', CHR ''/''),
     (CHR ''b'', CHR 0x08), (CHR ''f'', CHR 0x0C), (CHR ''n'', CHR 0x0A),
     (CHR ''r'', CHR 0x0D), (CHR ''t'', CHR 0x09)]"

definition scan_hex4 :: "string \<Rightarrow> (char \<times> string) option" where
  "scan_hex4 s = (case s of
       h1 # h2 # h3 # h4 # rest \<Rightarrow>
         (if hex_val h1 = Some 0 \<and> hex_val h2 = Some 0 \<and> hex_val h3 \<noteq> None \<and> hex_val h4 \<noteq> None
          then Some (char_of (16 * the (hex_val h3) + the (hex_val h4)), rest) else None)
     | _ \<Rightarrow> None)"

text \<open>After a backslash: the character meant and the rest.\<close>

definition scan_escape :: "string \<Rightarrow> (char \<times> string) option" where
  "scan_escape s = (case s of
       [] \<Rightarrow> None
     | e # s' \<Rightarrow>
         if e = CHR ''u'' then scan_hex4 s' else map_option (\<lambda>d. (d, s')) (map_of escapes e))"

lemma scan_hex4_shorter: "scan_hex4 s = Some (c, rest) \<Longrightarrow> length rest < length s"
  by (auto simp: scan_hex4_def split: list.splits if_splits)

lemma scan_escape_shorter: "scan_escape s = Some (c, rest) \<Longrightarrow> length rest < length s"
  by (auto simp: scan_escape_def split: list.splits if_splits dest: scan_hex4_shorter)

text \<open>The rest of a string literal, after the opening quote.\<close>

function scan_string :: "string \<Rightarrow> (string \<times> string) option" where
  "scan_string s =
     (case s of
        [] \<Rightarrow> None
      | c # s' \<Rightarrow>
          if c = quote_mark then Some ([], s')
          else if of_char c < (32 :: nat) then None
          else if of_char c = (92 :: nat) then
            (case scan_escape s' of
               None \<Rightarrow> None
             | Some (d, s'') \<Rightarrow> map_option (apfst (Cons d)) (scan_string s''))
          else map_option (apfst (Cons c)) (scan_string s'))"
  by auto
termination by (relation "measure length") (auto dest: scan_escape_shorter)

declare scan_string.simps [simp del]

definition digits_of :: "string \<Rightarrow> string \<times> string" where
  "digits_of s = (takeWhile is_digit s, dropWhile is_digit s)"

text \<open>Number texts: an optional sign, an integer part without leading zeros, then an optional
  fraction and an optional exponent.\<close>

definition scan_fraction :: "string \<Rightarrow> (rat \<times> string) option" where
  "scan_fraction s = (case s of
       c # s' \<Rightarrow>
         if c = CHR ''.'' then
           (case digits_of s' of (ds, rest) \<Rightarrow>
              if ds = [] then None else Some (of_nat (nat_of_digits ds) / 10 ^ length ds, rest))
         else Some (0, s)
     | [] \<Rightarrow> Some (0, s))"

definition scan_exponent :: "string \<Rightarrow> (rat \<times> string) option" where
  "scan_exponent s = (case s of
       c # s' \<Rightarrow>
         if c = CHR ''e'' \<or> c = CHR ''E'' then
           (let (neg, s'') = (case s' of
                  g # s2 \<Rightarrow> if g = CHR ''-'' then (True, s2) else if g = CHR ''+'' then (False, s2) else (False, s')
                | [] \<Rightarrow> (False, s'))
            in case digits_of s'' of (ds, rest) \<Rightarrow>
                 if ds = [] then None
                 else Some (if neg then 1 / 10 ^ nat_of_digits ds else 10 ^ nat_of_digits ds, rest))
         else Some (1, s)
     | [] \<Rightarrow> Some (1, s))"

definition scan_unsigned :: "string \<Rightarrow> (rat \<times> string) option" where
  "scan_unsigned s = (case digits_of s of (ds, rest) \<Rightarrow>
     if ds = [] \<or> hd ds = CHR ''0'' \<and> tl ds \<noteq> [] then None
     else case scan_fraction rest of None \<Rightarrow> None
       | Some (f, rest) \<Rightarrow> (case scan_exponent rest of None \<Rightarrow> None
           | Some (e, rest) \<Rightarrow> Some ((of_nat (nat_of_digits ds) + f) * e, rest)))"

definition scan_number :: "string \<Rightarrow> (rat \<times> string) option" where
  "scan_number s = (case s of
       c # s' \<Rightarrow> if c = CHR ''-'' then map_option (apfst uminus) (scan_unsigned s') else scan_unsigned s
     | [] \<Rightarrow> None)"

definition json_space :: "char \<Rightarrow> bool" where
  "json_space c \<longleftrightarrow> (let n = (of_char c :: nat) in n = 9 \<or> n = 10 \<or> n = 13 \<or> n = 32)"

definition punctuation :: "(char \<times> token) list" where
  "punctuation = [(CHR ''{'', TLBrace), (CHR ''}'', TRBrace), (CHR ''['', TLBracket), (CHR '']'', TRBracket),
     (CHR '','', TComma), (CHR '':'', TColon)]"

definition scan_token :: "string \<Rightarrow> (token \<times> string) option" where
  "scan_token s =
     (case s of
        [] \<Rightarrow> None
      | c # s' \<Rightarrow>
          (case map_of punctuation c of
             Some t \<Rightarrow> Some (t, s')
           | None \<Rightarrow>
               if c = quote_mark then map_option (apfst TStr) (scan_string s')
               else if c = CHR ''-'' \<or> is_digit c then map_option (apfst TNum) (scan_number s)
               else if starts_with s ''true'' then Some (TTrue, drop 4 s)
               else if starts_with s ''false'' then Some (TFalse, drop 5 s)
               else if starts_with s ''null'' then Some (TNull, drop 4 s)
               else None))"

lemma scan_string_shorter: "scan_string s = Some (t, rest) \<Longrightarrow> length rest < length s"
proof (induction s arbitrary: t rest rule: scan_string.induct)
  case (1 s)
  show ?case
  proof (cases s)
    case Nil
    with "1.prems" show ?thesis by (simp add: scan_string.simps)
  next
    case (Cons c s')
    consider (quote) "c = quote_mark" | (low) "c \<noteq> quote_mark" "of_char c < (32 :: nat)"
      | (esc) "c \<noteq> quote_mark" "of_char c = (92 :: nat)"
      | (plain) "c \<noteq> quote_mark" "\<not> of_char c < (32 :: nat)" "of_char c \<noteq> (92 :: nat)" by blast
    then show ?thesis
    proof cases
      case esc
      with Cons "1.prems" obtain d s'' t' where e: "scan_escape s' = Some (d, s'')"
        and "scan_string s'' = Some (t', rest)"
        by (auto simp: scan_string.simps [of "c # s'"] split: option.splits)
      with "1.IH"(1) Cons esc have "length rest < length s''" by simp
      then show ?thesis using scan_escape_shorter [OF e] Cons by simp
    next
      case plain
      with Cons "1.prems" obtain t' where "scan_string s' = Some (t', rest)"
        by (auto simp: scan_string.simps [of "c # s'"])
      with "1.IH"(2) Cons plain show ?thesis by fastforce
    qed (use Cons "1.prems" in \<open>simp_all add: scan_string.simps\<close>)
  qed
qed

lemma digits_of_length: "digits_of s = (ds, rest) \<Longrightarrow> length rest \<le> length s"
  by (auto simp: digits_of_def length_dropWhile_le)

lemma digits_of_shorter: "digits_of s = (ds, rest) \<Longrightarrow> ds \<noteq> [] \<Longrightarrow> length rest < length s"
  by (cases s) (auto simp: digits_of_def split: if_splits)

lemma scan_fraction_length: "scan_fraction s = Some (f, rest) \<Longrightarrow> length rest \<le> length s"
  by (auto simp: scan_fraction_def split: list.splits if_splits prod.splits
      dest!: digits_of_length)

lemma scan_exponent_length: "scan_exponent s = Some (f, rest) \<Longrightarrow> length rest \<le> length s"
  by (auto simp: scan_exponent_def Let_def split: list.splits if_splits prod.splits
      dest!: digits_of_length)

lemma scan_unsigned_shorter: "scan_unsigned s = Some (r, rest) \<Longrightarrow> length rest < length s"
  by (auto simp: scan_unsigned_def split: prod.splits if_splits option.splits
      dest!: digits_of_shorter scan_fraction_length scan_exponent_length)

lemma scan_number_shorter: "scan_number s = Some (r, rest) \<Longrightarrow> length rest < length s"
  by (auto simp: scan_number_def split: list.splits if_splits dest!: scan_unsigned_shorter)

lemma scan_token_shorter: "scan_token s = Some (t, rest) \<Longrightarrow> length rest < length s"
  by (auto simp: scan_token_def starts_with_def split: list.splits option.splits if_splits
      dest!: scan_string_shorter scan_number_shorter)

function tokens :: "string \<Rightarrow> token list option" where
  "tokens s =
     (let s' = dropWhile json_space s in
      if s' = [] then Some []
      else case scan_token s' of
        None \<Rightarrow> None
      | Some (t, rest) \<Rightarrow> map_option (Cons t) (tokens rest))"
  by auto
termination
  by (relation "measure length")
    (auto dest!: scan_token_shorter intro: less_le_trans length_dropWhile_le)

declare tokens.simps [simp del]

subsection \<open>Parsing\<close>

datatype frame =
    InArr "json list"
  | InObj "(string \<times> json) list"
  | InMember "(string \<times> json) list" string

datatype expect = WantValue | WantValueOrEnd | WantKey | WantKeyOrEnd | WantColon | WantCommaOrEnd
  | Finished json

type_synonym parser_state = "frame list \<times> expect"

fun push :: "json \<Rightarrow> frame list \<Rightarrow> parser_state option" where
  "push v [] = Some ([], Finished v)"
| "push v (InArr vs # fs) = Some (InArr (vs @ [v]) # fs, WantCommaOrEnd)"
| "push v (InMember kvs k # fs) = Some (InObj (AList.update k v kvs) # fs, WantCommaOrEnd)"
| "push v (InObj kvs # fs) = None"

definition take_value :: "token \<Rightarrow> frame list \<Rightarrow> parser_state option" where
  "take_value t fs = (case t of
       TNull \<Rightarrow> push JNull fs
     | TTrue \<Rightarrow> push (JBool True) fs
     | TFalse \<Rightarrow> push (JBool False) fs
     | TNum r \<Rightarrow> push (JNum r) fs
     | TStr s \<Rightarrow> push (JStr s) fs
     | TLBracket \<Rightarrow> Some (InArr [] # fs, WantValueOrEnd)
     | TLBrace \<Rightarrow> Some (InObj [] # fs, WantKeyOrEnd)
     | _ \<Rightarrow> None)"

definition take_end :: "token \<Rightarrow> frame list \<Rightarrow> parser_state option" where
  "take_end t fs = (case (t, fs) of
       (TRBracket, InArr vs # fs') \<Rightarrow> push (JArr vs) fs'
     | (TRBrace, InObj kvs # fs') \<Rightarrow> push (JObj kvs) fs'
     | _ \<Rightarrow> None)"

definition take_key :: "token \<Rightarrow> frame list \<Rightarrow> parser_state option" where
  "take_key t fs = (case (t, fs) of
       (TStr k, InObj kvs # fs') \<Rightarrow> Some (InMember kvs k # fs', WantColon)
     | _ \<Rightarrow> None)"

definition parser_step :: "parser_state \<Rightarrow> token \<Rightarrow> parser_state option" where
  "parser_step st t = (case st of (fs, e) \<Rightarrow> (case e of
       WantValue \<Rightarrow> take_value t fs
     | WantValueOrEnd \<Rightarrow> if t = TRBracket then take_end t fs else take_value t fs
     | WantKey \<Rightarrow> take_key t fs
     | WantKeyOrEnd \<Rightarrow> if t = TRBrace then take_end t fs else take_key t fs
     | WantColon \<Rightarrow> if t = TColon then Some (fs, WantValue) else None
     | WantCommaOrEnd \<Rightarrow>
         if t = TComma
         then (case fs of InArr vs # _ \<Rightarrow> Some (fs, WantValue) | InObj kvs # _ \<Rightarrow> Some (fs, WantKey)
               | _ \<Rightarrow> None)
         else take_end t fs
     | Finished v \<Rightarrow> None))"

fun parser_run :: "parser_state \<Rightarrow> token list \<Rightarrow> parser_state option" where
  "parser_run st [] = Some st"
| "parser_run st (t # ts) = Option.bind (parser_step st t) (\<lambda>st. parser_run st ts)"

definition json_parse :: "string \<Rightarrow> json option" where
  "json_parse s =
     Option.bind (tokens s) (\<lambda>ts.
     Option.bind (parser_run ([], WantValue) ts) (\<lambda>(fs, e).
       case e of Finished v \<Rightarrow> Some v | _ \<Rightarrow> None))"

subsection \<open>Parsing reads what stringifying writes\<close>

fun distinct_keys :: "json \<Rightarrow> bool" where
  "distinct_keys (JArr vs) = list_all distinct_keys vs"
| "distinct_keys (JObj kvs) = (distinct (map fst kvs) \<and> list_all (\<lambda>(k, v). distinct_keys v) kvs)"
| "distinct_keys v = True"

definition join_tokens :: "token list list \<Rightarrow> token list" where
  "join_tokens ts = (case ts of [] \<Rightarrow> [] | t # rest \<Rightarrow> t @ concat (map (Cons TComma) rest))"

fun tokens_of :: "json \<Rightarrow> token list" where
  "tokens_of JNull = [TNull]"
| "tokens_of (JBool b) = [if b then TTrue else TFalse]"
| "tokens_of (JNum r) = [TNum r]"
| "tokens_of (JStr s) = [TStr s]"
| "tokens_of (JArr vs) = TLBracket # join_tokens (map tokens_of vs) @ [TRBracket]"
| "tokens_of (JObj kvs) =
     TLBrace # join_tokens (map (\<lambda>(k, v). TStr k # TColon # tokens_of v) kvs) @ [TRBrace]"

text \<open>The machine on the tokens of a value pushes that value.\<close>

definition pushes :: "json \<Rightarrow> bool" where
  "pushes v \<longleftrightarrow> (\<forall>fs ts. parser_run (fs, WantValue) (tokens_of v @ ts)
      = Option.bind (push v fs) (\<lambda>st. parser_run st ts))"

lemma tokens_of_not_end: "\<exists>t ts. tokens_of v = t # ts \<and> t \<noteq> TRBracket"
  by (cases v) auto

lemma pushes_first:
  "pushes v \<Longrightarrow> parser_run (fs, WantValueOrEnd) (tokens_of v @ ts)
     = Option.bind (push v fs) (\<lambda>st. parser_run st ts)"
  using tokens_of_not_end [of v] by (auto simp: pushes_def parser_step_def)

lemma update_new: "k \<notin> fst ` set kvs \<Longrightarrow> AList.update k v kvs = kvs @ [(k, v)]"
  by (induction kvs) auto

lemma array_rest_run:
  assumes "\<forall>v \<in> set vs. pushes v"
  shows "parser_run (InArr us # fs, WantCommaOrEnd)
      (concat (map (Cons TComma) (map tokens_of vs)) @ TRBracket # ts)
    = Option.bind (push (JArr (us @ vs)) fs) (\<lambda>st. parser_run st ts)"
  using assms
proof (induction vs arbitrary: us)
  case Nil
  then show ?case by (simp add: parser_step_def take_end_def)
next
  case (Cons v vs)
  then have "pushes v" by simp
  then show ?case using Cons.IH [of "us @ [v]"] Cons.prems by (simp add: parser_step_def pushes_def)
qed

lemma object_rest_run:
  assumes "\<forall>(k, v) \<in> set kvs. pushes v" "distinct (map fst us @ map fst kvs)"
  shows "parser_run (InObj us # fs, WantCommaOrEnd)
      (concat (map (Cons TComma) (map (\<lambda>(k, v). TStr k # TColon # tokens_of v) kvs)) @ TRBrace # ts)
    = Option.bind (push (JObj (us @ kvs)) fs) (\<lambda>st. parser_run st ts)"
  using assms
proof (induction kvs arbitrary: us)
  case Nil
  then show ?case by (simp add: parser_step_def take_end_def)
next
  case (Cons kv kvs)
  obtain k v where kv: "kv = (k, v)" by (cases kv)
  from Cons.prems kv have "pushes v" "AList.update k v us = us @ [(k, v)]"
    by (auto simp: update_new)
  then show ?case using Cons.IH [of "us @ [(k, v)]"] Cons.prems kv
    by (simp add: parser_step_def pushes_def take_key_def)
qed

lemma tokens_of_pushes: "distinct_keys v \<Longrightarrow> pushes v"
proof (induction v)
  case (JArr vs)
  then have ps: "\<forall>v \<in> set vs. pushes v" by (simp add: list_all_iff)
  show ?case
  proof (cases vs)
    case Nil
    then show ?thesis
      by (simp add: pushes_def parser_step_def take_value_def take_end_def join_tokens_def)
  next
    case (Cons u us)
    with ps have "pushes u" "\<forall>v \<in> set us. pushes v" by simp_all
    then show ?thesis unfolding Cons pushes_def [of "JArr (u # us)"]
      using array_rest_run [of us "[u]"] pushes_first [of u]
      by (simp add: parser_step_def [of _ TLBracket] take_value_def join_tokens_def)
  qed
next
  case (JObj kvs)
  then have ps: "\<forall>(k, v) \<in> set kvs. pushes v" and d: "distinct (map fst kvs)"
    by (auto simp: list_all_iff)
  show ?case
  proof (cases kvs)
    case Nil
    then show ?thesis
      by (simp add: pushes_def parser_step_def take_value_def take_end_def join_tokens_def)
  next
    case (Cons kv us)
    obtain k v where kv: "kv = (k, v)" by (cases kv)
    with Cons ps d have "pushes v" "\<forall>(k, v) \<in> set us. pushes v" "distinct (map fst [(k, v)] @ map fst us)"
      by auto
    then show ?thesis unfolding Cons kv pushes_def
      using object_rest_run [of us "[(k, v)]"]
      by (simp add: parser_step_def take_value_def take_key_def join_tokens_def pushes_def)
  qed
qed (simp_all add: pushes_def parser_step_def take_value_def)

lemma of_char_eq: "of_char c = (k :: nat) \<Longrightarrow> c = char_of k"
  by (metis char_of_char)

lemma hex_val_char: "k < 16 \<Longrightarrow> hex_val (hex_char k) = Some k"
  by (auto simp: hex_val_def hex_char_def Let_def)

lemma scan_string_plain:
  "c \<noteq> quote_mark \<Longrightarrow> \<not> of_char c < (32 :: nat) \<Longrightarrow> of_char c \<noteq> (92 :: nat) \<Longrightarrow>
     scan_string (c # s) = map_option (apfst (Cons c)) (scan_string s)"
  by (subst scan_string.simps) simp

lemma scan_string_escape:
  assumes "scan_escape s = Some (d, s')"
  shows "scan_string (CHR 0x5C # s) = map_option (apfst (Cons d)) (scan_string s')"
  by (subst scan_string.simps) (simp add: assms quote_mark_def)

lemma scan_string_short_escape:
  assumes "map_of escapes e = Some d" "e \<noteq> CHR ''u''"
  shows "scan_string (CHR 0x5C # e # s) = map_option (apfst (Cons d)) (scan_string s)"
  using assms by (intro scan_string_escape) (simp add: scan_escape_def)

lemma char_codes:
  "char_of (34 :: nat) = CHR 0x22" "char_of (92 :: nat) = CHR 0x5C" "char_of (8 :: nat) = CHR 0x08"
  "char_of (9 :: nat) = CHR 0x09" "char_of (10 :: nat) = CHR 0x0A" "char_of (12 :: nat) = CHR 0x0C"
  "char_of (13 :: nat) = CHR 0x0D" "char_of (48 :: nat) = CHR ''0''"
  by code_simp+

lemma scan_string_escaped:
  "scan_string (escape_char c @ s) = map_option (apfst (Cons c)) (scan_string s)"
proof -
  let ?n = "of_char c :: nat"
  have named: "?n \<in> {34, 92, 8, 9, 10, 12, 13} \<Longrightarrow>
      c \<in> {CHR 0x22, CHR 0x5C, CHR 0x08, CHR 0x09, CHR 0x0A, CHR 0x0C, CHR 0x0D}"
    by (elim insertE emptyE; drule of_char_eq; simp add: char_codes)
  consider (short) "?n \<in> {34, 92, 8, 9, 10, 12, 13}"
    | (ctl) "?n < 32" "?n \<notin> {8, 9, 10, 12, 13}" | (plain) "\<not> ?n < 32" "?n \<noteq> 34" "?n \<noteq> 92"
    by fastforce
  then show ?thesis
  proof cases
    case short
    from named [OF this] show ?thesis
      by (elim insertE emptyE)
        (simp_all add: escape_char_def scan_string_short_escape [where d = c] escapes_def quote_mark_def
          scan_string_short_escape)
  next
    case ctl
    have "char_of (16 * (?n div 16) + ?n mod 16) = c" by simp
    then have "scan_escape ([CHR ''u'', CHR ''0'', CHR ''0'', hex_char (?n div 16), hex_char (?n mod 16)] @ s)
        = Some (c, s)"
      using ctl by (simp add: scan_escape_def scan_hex4_def hex_val_char)
        (simp add: hex_val_def)
    from scan_string_escape [OF this] ctl show ?thesis by (simp add: escape_char_def Let_def)
  next
    case plain
    then have "c \<noteq> quote_mark" by (auto simp: quote_mark_def)
    with plain show ?thesis by (simp add: escape_char_def scan_string_plain)
  qed
qed

lemma scan_string_json_string:
  "scan_string (concat (map escape_char s) @ quote_mark # rest) = Some (s, rest)"
proof (induction s)
  case Nil
  then show ?case by (simp add: scan_string.simps)
next
  case (Cons c s)
  then show ?case by (simp add: scan_string_escaped)
qed

lemma tokens_scanned:
  assumes "scan_token (c # s) = Some (t, rest)" "\<not> json_space c"
  shows "tokens (c # s) = map_option (Cons t) (tokens rest)"
  by (subst tokens.simps) (simp add: assms)

lemma tokens_punctuation:
  assumes "map_of punctuation c = Some t"
  shows "tokens (c # s) = map_option (Cons t) (tokens s)"
proof -
  have "\<not> json_space c" using assms by (auto simp: punctuation_def json_space_def split: if_splits)
  then show ?thesis using assms by (intro tokens_scanned) (simp_all add: scan_token_def)
qed

lemma punctuation_quote: "map_of punctuation quote_mark = None"
  by (simp add: punctuation_def quote_mark_def)

lemma tokens_json_string: "tokens (json_string k @ s) = map_option (Cons (TStr k)) (tokens s)"
proof -
  have "scan_token (quote_mark # concat (map escape_char k) @ quote_mark # s) = Some (TStr k, s)"
    by (simp add: scan_token_def scan_string_json_string punctuation_quote)
  from tokens_scanned [OF this] show ?thesis
    by (simp add: json_string_def quote_mark_def json_space_def)
qed

text \<open>A number text ends where neither a digit nor a fraction nor an exponent follows.\<close>

definition ends_number :: "string \<Rightarrow> bool" where
  "ends_number s \<longleftrightarrow> (case s of [] \<Rightarrow> True
     | c # _ \<Rightarrow> \<not> is_digit c \<and> c \<noteq> CHR ''.'' \<and> c \<noteq> CHR ''e'' \<and> c \<noteq> CHR ''E'')"

lemma digits_of_append:
  assumes "list_all is_digit ds" "ends_number s"
  shows "digits_of (ds @ s) = (ds, s)"
proof -
  have "takeWhile is_digit s = [] \<and> dropWhile is_digit s = s"
    using assms(2) by (cases s) (simp_all add: ends_number_def)
  moreover have "\<forall>c \<in> set ds. is_digit c" using assms(1) by (simp add: list_all_iff)
  ultimately show ?thesis by (simp add: digits_of_def takeWhile_append2 dropWhile_append2)
qed

lemma show_nat_leading: "hd (show_nat n) = CHR ''0'' \<Longrightarrow> n = 0"
proof (induction n rule: show_nat.induct)
  case (1 n)
  show ?case
  proof (cases "n < 10")
    case True
    have zero: "digit_char 0 = CHR ''0''" by code_simp
    from True "1.prems" have "digit_char n = digit_char 0"
      by (simp add: show_nat.simps [of n] zero)
    with True show ?thesis using digit_char_inj [of n 0] by simp
  next
    case False
    with "1.prems" have "hd (show_nat (n div 10)) = CHR ''0''" by (simp add: show_nat.simps [of n])
    with "1.IH" False show ?thesis by simp
  qed
qed

lemma scan_unsigned_show_nat:
  assumes "ends_number s"
  shows "scan_unsigned (show_nat n @ s) = Some (of_nat n, s)"
proof -
  have "tl (show_nat n) = []" if "hd (show_nat n) = CHR ''0''"
    using show_nat_leading [OF that] by (simp add: show_nat.simps)
  moreover have "scan_fraction s = Some (0, s)" "scan_exponent s = Some (1, s)"
    using assms by (auto simp: scan_fraction_def scan_exponent_def ends_number_def split: list.splits)
  ultimately show ?thesis
    using digits_of_append [OF show_nat_digits assms, of n] by (auto simp: scan_unsigned_def)
qed

lemma scan_number_show_int:
  assumes "ends_number s"
  shows "scan_number (show_int i @ s) = Some (of_int i, s)"
proof (cases "i < 0")
  case True
  then have "rat_of_nat (nat (- i)) = - of_int i" by simp
  with True show ?thesis
    by (simp add: show_int_def scan_number_def scan_unsigned_show_nat [OF assms])
next
  case False
  have "hd (show_nat (nat i)) \<noteq> CHR ''-''"
    using show_nat_digits [of "nat i"] by (cases "show_nat (nat i)") (auto simp: is_digit_def)
  with False show ?thesis
    using scan_unsigned_show_nat [OF assms, of "nat i"]
    by (cases "show_nat (nat i)") (auto simp: show_int_def scan_number_def)
qed

lemma json_space_letter:
  "json_space (CHR ''n'') = False" "json_space (CHR ''t'') = False" "json_space (CHR ''f'') = False"
  by code_simp+

lemma append_funs:
  "(@) [] = (\<lambda>x. x)" "(@) (y # ys) = (\<lambda>x. y # ys @ x)" "(@) (xs @ ys) = (\<lambda>x. xs @ ys @ x)"
  by auto

lemma tokens_null: "scan_token (''null'' @ s) = Some (TNull, s)"
  by (simp add: scan_token_def punctuation_def quote_mark_def is_digit_def starts_with_def)

lemma tokens_true: "scan_token (''true'' @ s) = Some (TTrue, s)"
  by (simp add: scan_token_def punctuation_def quote_mark_def is_digit_def starts_with_def)

lemma tokens_false: "scan_token (''false'' @ s) = Some (TFalse, s)"
  by (simp add: scan_token_def punctuation_def quote_mark_def is_digit_def starts_with_def)

lemma tokens_word:
  "tokens (''null'' @ s) = map_option (Cons TNull) (tokens s)"
  "tokens (''true'' @ s) = map_option (Cons TTrue) (tokens s)"
  "tokens (''false'' @ s) = map_option (Cons TFalse) (tokens s)"
proof -
  show "tokens (''null'' @ s) = map_option (Cons TNull) (tokens s)"
    unfolding append_Cons append_Nil
    by (rule tokens_scanned [OF tokens_null [of s, unfolded append_Cons append_Nil]])
      (simp only: json_space_letter simp_thms)
  show "tokens (''true'' @ s) = map_option (Cons TTrue) (tokens s)"
    unfolding append_Cons append_Nil
    by (rule tokens_scanned [OF tokens_true [of s, unfolded append_Cons append_Nil]])
      (simp only: json_space_letter simp_thms)
  show "tokens (''false'' @ s) = map_option (Cons TFalse) (tokens s)"
    unfolding append_Cons append_Nil
    by (rule tokens_scanned [OF tokens_false [of s, unfolded append_Cons append_Nil]])
      (simp only: json_space_letter simp_thms)
qed

lemma show_int_first:
  obtains c u where "show_int i = c # u" "c = CHR ''-'' \<or> is_digit c"
proof (cases "i < 0")
  case True
  with that show thesis by (simp add: show_int_def)
next
  case False
  with that show_nat_digits [of "nat i"] show thesis
    by (cases "show_nat (nat i)") (auto simp: show_int_def)
qed

lemma number_first:
  assumes "c = CHR ''-'' \<or> is_digit c"
  shows "map_of punctuation c = None \<and> c \<noteq> quote_mark \<and> \<not> json_space c"
proof -
  let ?n = "of_char c :: nat"
  have n: "?n = 45 \<or> 48 \<le> ?n \<and> ?n \<le> 57"
    using assms by (auto simp: is_digit_def Let_def)
  then have "c \<notin> {CHR ''{'', CHR ''}'', CHR ''['', CHR '']'', CHR '','', CHR '':'', quote_mark}"
    by (auto simp: quote_mark_def)
  moreover have "\<not> json_space c"
    using n unfolding json_space_def Let_def by linarith
  ultimately show ?thesis by (simp add: punctuation_def)
qed

lemma tokens_show_int:
  assumes "ends_number s"
  shows "tokens (show_int i @ s) = map_option (Cons (TNum (of_int i))) (tokens s)"
proof -
  obtain c u where c: "show_int i = c # u" "c = CHR ''-'' \<or> is_digit c" by (rule show_int_first)
  with scan_number_show_int [OF assms, of i] number_first [OF c(2)]
  have "scan_token (c # u @ s) = Some (TNum (of_int i), s)"
    by (auto simp: scan_token_def)
  from tokens_scanned [OF this] number_first [OF c(2)] show ?thesis by (simp add: c(1))
qed

definition reads_back :: "json \<Rightarrow> bool" where
  "reads_back v \<longleftrightarrow> (\<forall>t s. stringify v = Some t \<longrightarrow> ends_number s \<longrightarrow>
     tokens (t @ s) = map_option (append (tokens_of v)) (tokens s))"

lemma ends_number_punctuation [simp]:
  "ends_number (CHR '','' # s)" "ends_number (CHR '']'' # s)" "ends_number (CHR ''}'' # s)"
  "ends_number []"
  by (simp_all add: ends_number_def is_digit_def)

lemma tokens_char:
  "tokens (CHR ''{'' # s) = map_option (Cons TLBrace) (tokens s)"
  "tokens (CHR ''}'' # s) = map_option (Cons TRBrace) (tokens s)"
  "tokens (CHR ''['' # s) = map_option (Cons TLBracket) (tokens s)"
  "tokens (CHR '']'' # s) = map_option (Cons TRBracket) (tokens s)"
  "tokens (CHR '','' # s) = map_option (Cons TComma) (tokens s)"
  "tokens (CHR '':'' # s) = map_option (Cons TColon) (tokens s)"
  by (rule tokens_punctuation; simp add: punctuation_def)+

text \<open>Members of an array and of an object, by what each member's text reads as.\<close>

definition member_reads :: "string option \<times> token list \<Rightarrow> bool" where
  "member_reads p \<longleftrightarrow> fst p \<noteq> None \<and>
     (\<forall>s. ends_number s \<longrightarrow> tokens (the (fst p) @ s) = map_option (append (snd p)) (tokens s))"

lemma tokens_rest_members:
  assumes "list_all member_reads ps" "ends_number s"
  shows "tokens (concat (map (Cons (CHR '','')) (map (the \<circ> fst) ps)) @ s)
      = map_option (append (concat (map (Cons TComma) (map snd ps)))) (tokens s)
    \<and> ends_number (concat (map (Cons (CHR '','')) (map (the \<circ> fst) ps)) @ s)"
  using assms
proof (induction ps)
  case (Cons p ps)
  then show ?case
    by (simp add: tokens_char member_reads_def option.map_comp o_def append_funs)
qed (simp add: append_funs option.map_ident)

lemma tokens_members:
  assumes "list_all member_reads ps" "ends_number s"
  shows "tokens (join_comma (map (the \<circ> fst) ps) @ s)
      = map_option (append (join_tokens (map snd ps))) (tokens s)"
proof (cases ps)
  case Nil
  then show ?thesis by (simp add: join_comma_def join_tokens_def append_funs option.map_ident)
next
  case (Cons p qs)
  with assms tokens_rest_members [of qs s] show ?thesis
    by (simp add: join_comma_def join_tokens_def member_reads_def option.map_comp o_def append_funs)
qed

lemma stringify_reads_back: "reads_back v"
proof (induction v)
  case (JArr vs)
  have "list_all member_reads (map (\<lambda>v. (stringify v, tokens_of v)) vs)"
    if "list_all (\<lambda>t. t \<noteq> None) (map stringify vs)"
    using JArr that by (fastforce simp: list_all_iff member_reads_def reads_back_def)
  from tokens_members [OF this] show ?case
    by (auto simp: reads_back_def Let_def o_def tokens_char option.map_comp append_funs)
next
  case (JObj kvs)
  let ?text = "\<lambda>(k, v). map_option (\<lambda>t. json_string k @ '':'' @ t) (stringify v)"
  have "list_all member_reads (map (\<lambda>kv. (?text kv, (\<lambda>(k, v). TStr k # TColon # tokens_of v) kv)) kvs)"
    if "list_all (\<lambda>t. t \<noteq> None) (map ?text kvs)"
    using JObj that by (fastforce simp: list_all_iff member_reads_def reads_back_def
      tokens_json_string tokens_char option.map_comp o_def append_funs)
  from tokens_members [OF this] show ?case
    by (auto simp: reads_back_def Let_def o_def tokens_char option.map_comp append_funs)
next
  case (JNum r)
  then show ?case
    by (auto simp: reads_back_def number_text_def tokens_show_int append_funs split: if_splits)
qed (simp_all add: reads_back_def tokens_word [unfolded append_Cons append_Nil] tokens_json_string append_funs)

lemma json_parse_stringify:
  assumes "stringify v = Some t" "distinct_keys v"
  shows "json_parse t = Some v"
proof -
  have "tokens [] = Some []" by (simp add: tokens.simps)
  then have "tokens t = Some (tokens_of v)"
    using stringify_reads_back [of v] assms(1) unfolding reads_back_def
    by (metis append_Nil2 ends_number_punctuation(4) option.map(2))
  moreover have "parser_run ([], WantValue) (tokens_of v @ []) = Some ([], Finished v)"
    using tokens_of_pushes [OF assms(2)] unfolding pushes_def by (simp del: append_Nil2)
  ultimately show ?thesis by (simp add: json_parse_def)
qed

subsection \<open>Parsed objects have distinct keys\<close>

fun frame_ok :: "frame \<Rightarrow> bool" where
  "frame_ok (InArr vs) = list_all distinct_keys vs"
| "frame_ok (InObj kvs) = distinct_keys (JObj kvs)"
| "frame_ok (InMember kvs k) = distinct_keys (JObj kvs)"

definition state_ok :: "parser_state \<Rightarrow> bool" where
  "state_ok st \<longleftrightarrow> list_all frame_ok (fst st) \<and>
     (case snd st of Finished v \<Rightarrow> distinct_keys v | _ \<Rightarrow> True)"

lemma list_all_update:
  "list_all (\<lambda>(k, v). Q v) kvs \<Longrightarrow> Q v \<Longrightarrow> list_all (\<lambda>(k, v). Q v) (AList.update k v kvs)"
  by (induction kvs) auto

lemma push_ok:
  assumes "distinct_keys v" "list_all frame_ok fs" "push v fs = Some st"
  shows "state_ok st"
  using assms
  by (induction v fs rule: push.induct)
    (auto simp: state_ok_def distinct_update intro!: list_all_update)

lemma take_value_ok: "list_all frame_ok fs \<Longrightarrow> take_value t fs = Some st \<Longrightarrow> state_ok st"
  by (cases t) (auto simp: take_value_def state_ok_def dest: push_ok [rotated 2])

lemma take_end_ok: "list_all frame_ok fs \<Longrightarrow> take_end t fs = Some st \<Longrightarrow> state_ok st"
  by (auto simp: take_end_def split: token.splits list.splits frame.splits dest: push_ok [rotated 2])

lemma take_key_ok: "list_all frame_ok fs \<Longrightarrow> take_key t fs = Some st \<Longrightarrow> state_ok st"
  by (auto simp: take_key_def state_ok_def split: token.splits list.splits frame.splits)

lemma parser_step_ok: "state_ok st \<Longrightarrow> parser_step st t = Some st' \<Longrightarrow> state_ok st'"
proof -
  assume ok: "state_ok st" and step: "parser_step st t = Some st'"
  obtain fs e where st: "st = (fs, e)" by (cases st)
  with ok have fs: "list_all frame_ok fs" by (simp add: state_ok_def)
  note results = take_value_ok [OF fs, of t st'] take_end_ok [OF fs, of t st'] take_key_ok [OF fs, of t st']
  show ?thesis
  proof (cases e)
    case WantColon
    with step st fs show ?thesis by (auto simp: parser_step_def state_ok_def split: if_splits)
  next
    case WantCommaOrEnd
    show ?thesis
    proof (cases "t = TComma")
      case True
      with WantCommaOrEnd step st fs show ?thesis
        by (auto simp: parser_step_def state_ok_def split: list.splits frame.splits)
    qed (use WantCommaOrEnd step st results in \<open>simp add: parser_step_def\<close>)
  qed (use step st results in \<open>auto simp: parser_step_def split: if_splits\<close>)
qed

lemma parser_run_ok: "state_ok st \<Longrightarrow> parser_run st ts = Some st' \<Longrightarrow> state_ok st'"
  by (induction ts arbitrary: st) (auto simp: bind_eq_Some_conv dest: parser_step_ok)

lemma json_parse_distinct: "json_parse s = Some v \<Longrightarrow> distinct_keys v"
proof -
  assume "json_parse s = Some v"
  then obtain ts fs e where run: "parser_run ([], WantValue) ts = Some (fs, e)"
    and "(case e of Finished v \<Rightarrow> Some v | _ \<Rightarrow> None) = Some v"
    by (auto simp: json_parse_def bind_eq_Some_conv)
  then have "e = Finished v" by (cases e) simp_all
  with run parser_run_ok [of "([], WantValue)" ts] show ?thesis by (simp add: state_ok_def)
qed

end
