(* ===== verification/Checkpoint_State.thy ===== *)
theory Checkpoint_State
  imports JSON_Text Failure_Class "HOL-Library.Product_Lexorder"
begin

text \<open>
  The durable state of a run, \<open>src/checkpoint/checkpoint.ts\<close>: its shape, the schema that an
  untrusted text has to pass, the resume cursor, and the merge of two views of the same run.

  The pages of a checkpoint are an association list with distinct keys, read through
  \<open>map_of\<close>; the order of its entries carries no meaning. Counts are natural numbers. The
  schema is what the Zod declarations of the file document: required and optional members,
  non-empty strings, enumerations, and integers, which are the safe integers of the language.
  Members that the schema does not name are dropped.
\<close>

datatype checkpoint_status = CkComplete | CkFailed | CkPartial | CkResumable | CkRunning

datatype discovery_code = MalformedRow | MissingFilename | DuplicateFilename | ChangedMetadata
  | SourceUnavailable | SourceTransient | SourceRateLimited

record page_counts =
  pc_discovered :: nat
  pc_failed :: nat
  pc_staged :: nat
  pc_stored :: nat

record checkpoint_page =
  cp_counts :: page_counts
  cp_status :: string

record source_failure =
  sf_attempts :: "nat option"
  sf_classification :: failure_kind
  sf_code :: discovery_code
  sf_phase :: "phase option"

type_synonym checkpoint_pages = "(string \<times> checkpoint_page) list"

record checkpoint =
  ck_counts :: page_counts
  ck_createdAt :: string
  ck_discoveredLastPage :: nat
  ck_lastCompletedPage :: nat
  ck_lastSourceFailure :: "source_failure option"
  ck_pages :: checkpoint_pages
  ck_runId :: string
  ck_sourceUrl :: string
  ck_status :: checkpoint_status
  ck_updatedAt :: string

subsection \<open>Names of the enumerations\<close>

definition status_names :: "(checkpoint_status \<times> string) list" where
  "status_names = [(CkComplete, ''complete''), (CkFailed, ''failed''), (CkPartial, ''partial''),
     (CkResumable, ''resumable''), (CkRunning, ''running'')]"

definition kind_names :: "(failure_kind \<times> string) list" where
  "kind_names = [(Permanent, ''permanent''), (RateLimited, ''rate_limited''), (Transient, ''transient'')]"

definition discovery_code_names :: "(discovery_code \<times> string) list" where
  "discovery_code_names = [(MalformedRow, ''malformed_row''), (MissingFilename, ''missing_filename''),
     (DuplicateFilename, ''duplicate_filename''), (ChangedMetadata, ''changed_metadata''),
     (SourceUnavailable, ''source_unavailable''), (SourceTransient, ''source_transient''),
     (SourceRateLimited, ''rate_limited'')]"

definition phase_names :: "(phase \<times> string) list" where
  "phase_names = [(BytesPhase, ''bytes''), (DetailPhase, ''detail''), (ListPhase, ''list'')]"

definition name_of :: "('a \<times> string) list \<Rightarrow> 'a \<Rightarrow> string" where
  "name_of names a = (case map_of names a of Some s \<Rightarrow> s | None \<Rightarrow> [])"

definition named :: "('a \<times> string) list \<Rightarrow> string \<Rightarrow> 'a option" where
  "named names s = map_of (map (\<lambda>(a, s). (s, a)) names) s"

lemmas name_tables = status_names_def kind_names_def discovery_code_names_def phase_names_def

lemma named_status [json_simps]: "named status_names (name_of status_names st) = Some st"
  by (cases st; hypsubst; code_simp)

lemma named_kind [json_simps]: "named kind_names (name_of kind_names k) = Some k"
  by (cases k; hypsubst; code_simp)

lemma named_code [json_simps]: "named discovery_code_names (name_of discovery_code_names c) = Some c"
  by (cases c; hypsubst; code_simp)

lemma named_phase [json_simps]: "named phase_names (name_of phase_names p) = Some p"
  by (cases p; hypsubst; code_simp)

subsection \<open>The schema\<close>

definition MAX_SAFE_INTEGER :: int where "MAX_SAFE_INTEGER = 2 ^ 53 - 1"

definition as_count :: "json \<Rightarrow> nat option" where
  "as_count j = (case j of
       JNum r \<Rightarrow> if r = of_int \<lfloor>r\<rfloor> \<and> 0 \<le> \<lfloor>r\<rfloor> \<and> \<lfloor>r\<rfloor> \<le> MAX_SAFE_INTEGER then Some (nat \<lfloor>r\<rfloor>) else None
     | _ \<Rightarrow> None)"

definition as_text :: "json \<Rightarrow> string option" where
  "as_text j = (case j of JStr s \<Rightarrow> if s = [] then None else Some s | _ \<Rightarrow> None)"

definition as_enum :: "('a \<times> string) list \<Rightarrow> json \<Rightarrow> 'a option" where
  "as_enum names j = (case j of JStr s \<Rightarrow> named names s | _ \<Rightarrow> None)"

definition members :: "json \<Rightarrow> (string \<times> json) list option" where
  "members j = (case j of JObj kvs \<Rightarrow> Some kvs | _ \<Rightarrow> None)"

definition member :: "(json \<Rightarrow> 'a option) \<Rightarrow> string \<Rightarrow> (string \<times> json) list \<Rightarrow> 'a option" where
  "member read k kvs = Option.bind (map_of kvs k) read"

definition optional_member ::
    "(json \<Rightarrow> 'a option) \<Rightarrow> string \<Rightarrow> (string \<times> json) list \<Rightarrow> 'a option option" where
  "optional_member read k kvs =
     (case map_of kvs k of None \<Rightarrow> Some None | Some j \<Rightarrow> map_option Some (read j))"

fun read_members :: "(json \<Rightarrow> 'a option) \<Rightarrow> (string \<times> json) list \<Rightarrow> (string \<times> 'a) list option" where
  "read_members read [] = Some []"
| "read_members read ((k, j) # kvs) =
     (case (read j, read_members read kvs) of
        (Some a, Some rest) \<Rightarrow> Some ((k, a) # rest)
      | _ \<Rightarrow> None)"

definition pageCountsSchema :: "json \<Rightarrow> page_counts option" where
  "pageCountsSchema j =
     Option.bind (members j) (\<lambda>kvs.
     Option.bind (member as_count ''discovered'' kvs) (\<lambda>d.
     Option.bind (member as_count ''failed'' kvs) (\<lambda>f.
     Option.bind (member as_count ''staged'' kvs) (\<lambda>g.
     Option.bind (member as_count ''stored'' kvs) (\<lambda>s.
     Some \<lparr>pc_discovered = d, pc_failed = f, pc_staged = g, pc_stored = s\<rparr>)))))"

definition pageSchema :: "json \<Rightarrow> checkpoint_page option" where
  "pageSchema j =
     Option.bind (members j) (\<lambda>kvs.
     Option.bind (member pageCountsSchema ''counts'' kvs) (\<lambda>c.
     Option.bind (member as_text ''status'' kvs) (\<lambda>st.
     Some \<lparr>cp_counts = c, cp_status = st\<rparr>)))"

definition sourceFailureSchema :: "json \<Rightarrow> source_failure option" where
  "sourceFailureSchema j =
     Option.bind (members j) (\<lambda>kvs.
     Option.bind (optional_member as_count ''attempts'' kvs) (\<lambda>a.
     Option.bind (member (as_enum kind_names) ''classification'' kvs) (\<lambda>k.
     Option.bind (member (as_enum discovery_code_names) ''code'' kvs) (\<lambda>c.
     Option.bind (optional_member (as_enum phase_names) ''phase'' kvs) (\<lambda>p.
     Some \<lparr>sf_attempts = a, sf_classification = k, sf_code = c, sf_phase = p\<rparr>)))))"

definition checkpointSchema :: "json \<Rightarrow> checkpoint option" where
  "checkpointSchema j =
     Option.bind (members j) (\<lambda>kvs.
     Option.bind (member pageCountsSchema ''counts'' kvs) (\<lambda>counts.
     Option.bind (member as_text ''createdAt'' kvs) (\<lambda>createdAt.
     Option.bind (member as_count ''discoveredLastPage'' kvs) (\<lambda>discoveredLastPage.
     Option.bind (member as_count ''lastCompletedPage'' kvs) (\<lambda>lastCompletedPage.
     Option.bind (optional_member sourceFailureSchema ''lastSourceFailure'' kvs) (\<lambda>lastSourceFailure.
     Option.bind (member (\<lambda>j. Option.bind (members j) (read_members pageSchema)) ''pages'' kvs) (\<lambda>pages.
     Option.bind (member as_text ''runId'' kvs) (\<lambda>runId.
     Option.bind (member as_text ''sourceUrl'' kvs) (\<lambda>sourceUrl.
     Option.bind (member (as_enum status_names) ''status'' kvs) (\<lambda>status.
     Option.bind (member as_text ''updatedAt'' kvs) (\<lambda>updatedAt.
     Some \<lparr>ck_counts = counts, ck_createdAt = createdAt, ck_discoveredLastPage = discoveredLastPage,
       ck_lastCompletedPage = lastCompletedPage, ck_lastSourceFailure = lastSourceFailure,
       ck_pages = pages, ck_runId = runId, ck_sourceUrl = sourceUrl, ck_status = status,
       ck_updatedAt = updatedAt\<rparr>)))))))))))"

definition parseCheckpoint :: "string \<Rightarrow> checkpoint option" where
  "parseCheckpoint raw = Option.bind (json_parse raw) checkpointSchema"

subsection \<open>The cursor and the merge\<close>

definition resumeStartPage :: "checkpoint option \<Rightarrow> nat" where
  "resumeStartPage c = (case c of None \<Rightarrow> 1
     | Some checkpoint \<Rightarrow>
         if ck_lastCompletedPage checkpoint = 0 then 1 else ck_lastCompletedPage checkpoint + 1)"

fun statusRank :: "checkpoint_status \<Rightarrow> nat" where
  "statusRank CkComplete = 5"
| "statusRank CkFailed = 4"
| "statusRank CkPartial = 3"
| "statusRank CkResumable = 2"
| "statusRank CkRunning = 1"

definition pickHigherProgress :: "checkpoint \<Rightarrow> checkpoint \<Rightarrow> checkpoint" where
  "pickHigherProgress local remote =
     (if ck_lastCompletedPage local > ck_lastCompletedPage remote then local
      else if ck_lastCompletedPage local < ck_lastCompletedPage remote then remote
      else if statusRank (ck_status local) \<ge> statusRank (ck_status remote) then local
      else remote)"

text \<open>\<open>{ ...local.pages, ...remote.pages }\<close>: the entries of the second override.\<close>

definition spread_pages :: "checkpoint_pages \<Rightarrow> checkpoint_pages \<Rightarrow> checkpoint_pages" where
  "spread_pages a b = AList.merge a b"

definition mergeCheckpoints :: "checkpoint \<Rightarrow> checkpoint \<Rightarrow> checkpoint" where
  "mergeCheckpoints local remote =
     (let winner = pickHigherProgress local remote in
      \<lparr>ck_counts = ck_counts winner, ck_createdAt = ck_createdAt local,
       ck_discoveredLastPage = max (ck_discoveredLastPage local) (ck_discoveredLastPage remote),
       ck_lastCompletedPage = max (ck_lastCompletedPage local) (ck_lastCompletedPage remote),
       ck_lastSourceFailure = ck_lastSourceFailure winner,
       ck_pages = spread_pages (ck_pages local) (ck_pages remote), ck_runId = ck_runId winner,
       ck_sourceUrl = ck_sourceUrl winner, ck_status = ck_status winner,
       ck_updatedAt = ck_updatedAt winner\<rparr>)"

subsection \<open>Writing a checkpoint\<close>

text \<open>\<open>JSON.stringify(checkpoint)\<close>: an absent optional member is left out.\<close>

definition json_count :: "nat \<Rightarrow> json" where "json_count n = JNum (of_nat n)"

definition json_of_counts :: "page_counts \<Rightarrow> json" where
  "json_of_counts c = JObj [(''discovered'', json_count (pc_discovered c)), (''failed'', json_count (pc_failed c)),
     (''staged'', json_count (pc_staged c)), (''stored'', json_count (pc_stored c))]"

definition json_of_page :: "checkpoint_page \<Rightarrow> json" where
  "json_of_page p = JObj [(''counts'', json_of_counts (cp_counts p)), (''status'', JStr (cp_status p))]"

definition opt_member :: "string \<Rightarrow> json option \<Rightarrow> (string \<times> json) list" where
  "opt_member k j = (case j of None \<Rightarrow> [] | Some v \<Rightarrow> [(k, v)])"

definition json_of_failure :: "source_failure \<Rightarrow> json" where
  "json_of_failure f = JObj (opt_member ''attempts'' (map_option json_count (sf_attempts f)) @
     [(''classification'', JStr (name_of kind_names (sf_classification f))),
      (''code'', JStr (name_of discovery_code_names (sf_code f)))] @
     opt_member ''phase'' (map_option (\<lambda>p. JStr (name_of phase_names p)) (sf_phase f)))"

definition json_of_checkpoint :: "checkpoint \<Rightarrow> json" where
  "json_of_checkpoint c = JObj (
     [(''counts'', json_of_counts (ck_counts c)), (''createdAt'', JStr (ck_createdAt c)),
      (''discoveredLastPage'', json_count (ck_discoveredLastPage c)),
      (''lastCompletedPage'', json_count (ck_lastCompletedPage c)),
      (''pages'', JObj (map (\<lambda>(k, p). (k, json_of_page p)) (ck_pages c))),
      (''runId'', JStr (ck_runId c)), (''sourceUrl'', JStr (ck_sourceUrl c)),
      (''status'', JStr (name_of status_names (ck_status c))), (''updatedAt'', JStr (ck_updatedAt c))] @
     opt_member ''lastSourceFailure'' (map_option json_of_failure (ck_lastSourceFailure c)))"

text \<open>What every checkpoint that the program builds satisfies.\<close>

definition safe_count :: "nat \<Rightarrow> bool" where
  "safe_count n \<longleftrightarrow> int n \<le> MAX_SAFE_INTEGER"

definition wf_counts :: "page_counts \<Rightarrow> bool" where
  "wf_counts c \<longleftrightarrow> safe_count (pc_discovered c) \<and> safe_count (pc_failed c) \<and>
     safe_count (pc_staged c) \<and> safe_count (pc_stored c)"

definition wf_page :: "checkpoint_page \<Rightarrow> bool" where
  "wf_page p \<longleftrightarrow> wf_counts (cp_counts p) \<and> cp_status p \<noteq> []"

definition wf_failure :: "source_failure \<Rightarrow> bool" where
  "wf_failure f \<longleftrightarrow> (case sf_attempts f of None \<Rightarrow> True | Some n \<Rightarrow> safe_count n)"

definition wf_checkpoint :: "checkpoint \<Rightarrow> bool" where
  "wf_checkpoint c \<longleftrightarrow> wf_counts (ck_counts c) \<and> ck_createdAt c \<noteq> [] \<and>
     safe_count (ck_discoveredLastPage c) \<and> safe_count (ck_lastCompletedPage c) \<and>
     (case ck_lastSourceFailure c of None \<Rightarrow> True | Some f \<Rightarrow> wf_failure f) \<and>
     distinct (map fst (ck_pages c)) \<and> list_all (\<lambda>(k, p). wf_page p) (ck_pages c) \<and>
     ck_runId c \<noteq> [] \<and> ck_sourceUrl c \<noteq> [] \<and> ck_updatedAt c \<noteq> []"

lemma as_count_json_count [json_simps]: "as_count (json_count n) = (if safe_count n then Some n else None)"
  by (simp add: as_count_def json_count_def safe_count_def)

lemma as_text_JStr [json_simps]: "as_text (JStr s) = (if s = [] then None else Some s)"
  by (simp add: as_text_def)

lemma as_enum_JStr [json_simps]: "as_enum names (JStr s) = named names s"
  by (simp add: as_enum_def)

lemma members_JObj [json_simps]: "members (JObj kvs) = Some kvs"
  by (simp add: members_def)

lemma member_Cons [json_simps]:
  "member read k ((k', j) # kvs) = (if k = k' then read j else member read k kvs)"
  "optional_member read k ((k', j) # kvs) = (if k = k' then map_option Some (read j) else optional_member read k kvs)"
  "optional_member read k [] = Some None"
  by (simp_all add: member_def optional_member_def)

lemma pageCountsSchema_json [json_simps]:
  "wf_counts c \<Longrightarrow> pageCountsSchema (json_of_counts c) = Some c"
  by (simp add: pageCountsSchema_def json_of_counts_def json_simps wf_counts_def)

lemma pageSchema_json [json_simps]: "wf_page p \<Longrightarrow> pageSchema (json_of_page p) = Some p"
  by (simp add: pageSchema_def json_of_page_def json_simps wf_page_def)

lemma sourceFailureSchema_json [json_simps]:
  "wf_failure f \<Longrightarrow> sourceFailureSchema (json_of_failure f) = Some f"
  by (cases "sf_attempts f"; cases "sf_phase f")
    (simp_all add: sourceFailureSchema_def json_of_failure_def json_simps wf_failure_def opt_member_def)

lemma read_members_pages [json_simps]:
  "list_all (\<lambda>(k, p). wf_page p) ps \<Longrightarrow>
     read_members pageSchema (map (\<lambda>(k, p). (k, json_of_page p)) ps) = Some ps"
  by (induction ps) (auto simp: json_simps)

lemma checkpointSchema_json:
  "wf_checkpoint c \<Longrightarrow> checkpointSchema (json_of_checkpoint c) = Some c"
  by (cases "ck_lastSourceFailure c")
    (simp_all add: checkpointSchema_def json_of_checkpoint_def json_simps wf_checkpoint_def opt_member_def)

lemma distinct_keys_checkpoint: "distinct (map fst (ck_pages c)) \<Longrightarrow> distinct_keys (json_of_checkpoint c)"
proof -
  assume d: "distinct (map fst (ck_pages c))"
  have counts: "distinct_keys (json_of_counts k)" for k by (simp add: json_of_counts_def json_count_def)
  have failure: "distinct_keys (json_of_failure f)" for f
    by (cases "sf_attempts f"; cases "sf_phase f") (simp_all add: json_of_failure_def opt_member_def json_count_def)
  have pages: "distinct_keys (JObj (map (\<lambda>(k, p). (k, json_of_page p)) (ck_pages c)))"
    using d counts by (auto simp: list_all_iff json_of_page_def o_def case_prod_beta)
  show ?thesis
    by (cases "ck_lastSourceFailure c")
      (simp_all add: json_of_checkpoint_def counts failure pages opt_member_def json_count_def
        del: distinct_keys.simps(2), simp_all add: counts failure pages [simplified])
qed

definition renders :: "json \<Rightarrow> bool" where
  "renders j \<longleftrightarrow> stringify j \<noteq> None"

lemma renders_simps:
  "renders (JStr s)" "renders (JObj kvs) \<longleftrightarrow> list_all (\<lambda>(k, v). renders v) kvs"
  "safe_count n \<Longrightarrow> renders (json_count n)"
proof -
  show "renders (JStr s)" by (simp add: renders_def)
  show "renders (JObj kvs) \<longleftrightarrow> list_all (\<lambda>(k, v). renders v) kvs"
    by (simp add: renders_def Let_def list.pred_map o_def split_def)
  assume "safe_count n"
  then have "int n < 10 ^ 21" by (simp add: safe_count_def MAX_SAFE_INTEGER_def)
  then have "(of_nat n :: rat) < 10 ^ 21"
    by (metis of_int_less_iff of_int_numeral of_int_of_nat_eq of_int_power)
  then show "renders (json_count n)" by (simp add: renders_def json_count_def number_text_def)
qed

lemma renders_checkpoint: "wf_checkpoint c \<Longrightarrow> renders (json_of_checkpoint c)"
  by (cases "ck_lastSourceFailure c"; (cases "sf_attempts (the (ck_lastSourceFailure c))")?;
      (cases "sf_phase (the (ck_lastSourceFailure c))")?)
    (auto simp: wf_checkpoint_def wf_failure_def json_of_checkpoint_def json_of_failure_def
      json_of_counts_def json_of_page_def wf_page_def wf_counts_def renders_simps opt_member_def
      list_all_iff)

lemma parseCheckpoint_stringify:
  assumes "wf_checkpoint c"
  shows "map_option parseCheckpoint (stringify (json_of_checkpoint c)) = Some (Some c)"
proof -
  from renders_checkpoint [OF assms] obtain t where t: "stringify (json_of_checkpoint c) = Some t"
    by (auto simp: renders_def)
  have "distinct (map fst (ck_pages c))" using assms by (simp add: wf_checkpoint_def)
  with t json_parse_stringify [OF t distinct_keys_checkpoint] checkpointSchema_json [OF assms]
  show ?thesis by (simp add: parseCheckpoint_def)
qed

subsection \<open>What a parsed text satisfies\<close>

lemma member_Some: "member read k kvs = Some a \<longleftrightarrow> (\<exists>j. map_of kvs k = Some j \<and> read j = Some a)"
  by (auto simp: member_def bind_eq_Some_conv)

lemma as_count_safe: "as_count j = Some n \<Longrightarrow> safe_count n"
  by (auto simp: as_count_def safe_count_def split: json.splits if_splits)

lemma as_text_nonempty: "as_text j = Some s \<Longrightarrow> s \<noteq> []"
  by (auto simp: as_text_def split: json.splits if_splits)

lemma pageCountsSchema_wf: "pageCountsSchema j = Some c \<Longrightarrow> wf_counts c"
  by (auto simp: pageCountsSchema_def bind_eq_Some_conv member_Some wf_counts_def dest!: as_count_safe)

lemma pageSchema_wf: "pageSchema j = Some p \<Longrightarrow> wf_page p"
  by (auto simp: pageSchema_def bind_eq_Some_conv member_Some wf_page_def
    dest!: pageCountsSchema_wf as_text_nonempty)

lemma optional_count_safe:
  "optional_member as_count k kvs = Some (Some n) \<Longrightarrow> safe_count n"
  by (auto simp: optional_member_def split: option.splits dest: as_count_safe)

lemma sourceFailureSchema_wf: "sourceFailureSchema j = Some f \<Longrightarrow> wf_failure f"
  by (auto simp: sourceFailureSchema_def bind_eq_Some_conv wf_failure_def split: option.splits
    dest: optional_count_safe)

lemma optional_failure_wf:
  "optional_member sourceFailureSchema k kvs = Some (Some f) \<Longrightarrow> wf_failure f"
  by (auto simp: optional_member_def split: option.splits dest: sourceFailureSchema_wf)

lemma read_members_wf:
  "read_members pageSchema kvs = Some ps \<Longrightarrow>
     map fst ps = map fst kvs \<and> list_all (\<lambda>(k, p). wf_page p) ps"
  by (induction kvs arbitrary: ps) (auto split: option.splits, metis pageSchema_wf)

lemma distinct_keys_member:
  assumes "distinct_keys (JObj kvs)" "map_of kvs k = Some j"
  shows "distinct_keys j"
proof -
  have "(k, j) \<in> set kvs" using assms(2) by (rule map_of_SomeD)
  with assms(1) show ?thesis by (auto simp: list_all_iff)
qed

lemma distinct_keys_members: "distinct_keys j \<Longrightarrow> members j = Some kvs \<Longrightarrow> distinct (map fst kvs)"
  by (cases j) (auto simp: members_def)

lemma checkpointSchema_wf:
  assumes "checkpointSchema j = Some c" "distinct_keys j"
  shows "wf_checkpoint c"
proof -
  from assms(1) obtain kvs where j: "j = JObj kvs"
    by (auto simp: checkpointSchema_def bind_eq_Some_conv members_def split: json.splits)
  from assms(1) obtain pj pkvs where pages: "map_of kvs ''pages'' = Some pj" "members pj = Some pkvs"
      "read_members pageSchema pkvs = Some (ck_pages c)"
    by (auto simp: checkpointSchema_def j members_JObj bind_eq_Some_conv member_Some)
  with distinct_keys_members [OF distinct_keys_member [OF assms(2) [unfolded j] pages(1)] pages(2)]
    read_members_wf [OF pages(3)]
  have "distinct (map fst (ck_pages c))" "list_all (\<lambda>(k, p). wf_page p) (ck_pages c)"
    by simp_all
  then show ?thesis using assms(1)
    by (auto simp: checkpointSchema_def j members_JObj bind_eq_Some_conv member_Some wf_checkpoint_def
      split: option.splits
      dest!: pageCountsSchema_wf as_count_safe as_text_nonempty dest: optional_failure_wf)
qed

lemma parseCheckpoint_wf: "parseCheckpoint raw = Some c \<Longrightarrow> wf_checkpoint c"
  by (auto simp: parseCheckpoint_def bind_eq_Some_conv intro: checkpointSchema_wf json_parse_distinct)

text \<open>
  C21: an untrusted checkpoint text is either refused or well formed. Whatever the text, a
  checkpoint that \<open>parseCheckpoint\<close> returns has safe, non-negative counts and page numbers,
  non-empty identifiers, well-formed pages under distinct keys and a well-formed failure, and
  writing it out and parsing it again gives the same checkpoint.
\<close>

theorem parseCheckpoint_well_formed:
  "case parseCheckpoint raw of
     None \<Rightarrow> True
   | Some c \<Rightarrow> wf_checkpoint c
       \<and> map_option parseCheckpoint (stringify (json_of_checkpoint c)) = Some (Some c)"
proof (cases "parseCheckpoint raw")
  case (Some c)
  then obtain j where "json_parse raw = Some j" "checkpointSchema j = Some c"
    by (auto simp: parseCheckpoint_def bind_eq_Some_conv)
  then have "wf_checkpoint c" by (blast intro: checkpointSchema_wf json_parse_distinct)
  then show ?thesis by (simp only: Some option.case parseCheckpoint_stringify simp_thms)
qed simp

text \<open>
  C22: a checkpoint that is written is read back: the text that \<open>JSON.stringify\<close> gives for a
  well-formed checkpoint parses to that checkpoint.
\<close>

theorem checkpoint_roundtrip:
  assumes "wf_checkpoint c"
  shows "map_option parseCheckpoint (stringify (json_of_checkpoint c)) = Some (Some c)"
  using assms by (rule parseCheckpoint_stringify)

definition example_counts :: page_counts where
  "example_counts = \<lparr>pc_discovered = 2, pc_failed = 0, pc_staged = 1, pc_stored = 1\<rparr>"

definition example_checkpoint :: checkpoint where
  "example_checkpoint = \<lparr>ck_counts = example_counts, ck_createdAt = ''t0'', ck_discoveredLastPage = 4,
     ck_lastCompletedPage = 3,
     ck_lastSourceFailure = Some \<lparr>sf_attempts = Some 3, sf_classification = RateLimited,
       sf_code = SourceRateLimited, sf_phase = Some ListPhase\<rparr>,
     ck_pages = [(''1'', \<lparr>cp_counts = example_counts, cp_status = ''running''\<rparr>)],
     ck_runId = ''run-1'', ck_sourceUrl = ''https://h/r'', ck_status = CkRunning, ck_updatedAt = ''t1''\<rparr>"

lemma checkpoint_roundtrip_witness:
  "map_option parseCheckpoint (stringify (json_of_checkpoint example_checkpoint)) = Some (Some example_checkpoint)"
  by (rule checkpoint_roundtrip)
    (simp add: example_checkpoint_def wf_checkpoint_def wf_counts_def wf_page_def wf_failure_def
      safe_count_def MAX_SAFE_INTEGER_def example_counts_def)

subsection \<open>Merging is a join\<close>

lemma statusRank_inj [simp]: "statusRank a = statusRank b \<longleftrightarrow> a = b"
  by (cases a; cases b) simp_all

instantiation checkpoint_status :: linorder
begin

definition less_eq_checkpoint_status :: "checkpoint_status \<Rightarrow> checkpoint_status \<Rightarrow> bool" where
  "less_eq_checkpoint_status a b \<longleftrightarrow> statusRank a \<le> statusRank b"

definition less_checkpoint_status :: "checkpoint_status \<Rightarrow> checkpoint_status \<Rightarrow> bool" where
  "less_checkpoint_status a b \<longleftrightarrow> statusRank a < statusRank b"

instance
  by standard (auto simp: less_eq_checkpoint_status_def less_checkpoint_status_def)

end

text \<open>How far a checkpoint is: its cursor first, then how determined its status is.\<close>

definition progress :: "checkpoint \<Rightarrow> nat \<times> checkpoint_status" where
  "progress c = (ck_lastCompletedPage c, ck_status c)"

lemma pickHigherProgress_eq:
  "pickHigherProgress local remote = (if progress remote \<le> progress local then local else remote)"
  by (auto simp: pickHigherProgress_def progress_def less_eq_prod_def less_prod_def
    less_eq_checkpoint_status_def less_checkpoint_status_def)

lemma progress_pick: "progress (pickHigherProgress local remote) = max (progress local) (progress remote)"
  by (auto simp: pickHigherProgress_eq max_def)

lemma progress_merge: "progress (mergeCheckpoints local remote) = max (progress local) (progress remote)"
proof -
  let ?w = "pickHigherProgress local remote"
  have "ck_lastCompletedPage ?w = max (ck_lastCompletedPage local) (ck_lastCompletedPage remote)"
    by (auto simp: pickHigherProgress_def)
  then have "progress (mergeCheckpoints local remote) = progress ?w"
    by (simp add: progress_def mergeCheckpoints_def Let_def)
  then show ?thesis by (simp only: progress_pick)
qed

lemma pages_merge: "map_of (ck_pages (mergeCheckpoints local remote)) = map_of (ck_pages local) ++ map_of (ck_pages remote)"
  by (simp add: mergeCheckpoints_def Let_def spread_pages_def merge_conv')

lemma resume_merge:
  "resumeStartPage (Some (mergeCheckpoints local remote)) =
     max (resumeStartPage (Some local)) (resumeStartPage (Some remote))"
  by (simp add: resumeStartPage_def mergeCheckpoints_def Let_def)

lemma wf_pages_merge:
  assumes "distinct (map fst ps)" "list_all (\<lambda>(k, p). P p) ps" "list_all (\<lambda>(k, p). P p) qs"
  shows "distinct (map fst (AList.merge ps qs)) \<and> list_all (\<lambda>(k, p). P p) (AList.merge ps qs)"
proof
  show "distinct (map fst (AList.merge ps qs))" using assms(1) by (rule distinct_merge)
  show "list_all (\<lambda>(k, p). P p) (AList.merge ps qs)"
    using assms(2,3) by (induction qs) (auto intro!: list_all_update)
qed

lemma wf_merge:
  assumes "wf_checkpoint local" "wf_checkpoint remote"
  shows "wf_checkpoint (mergeCheckpoints local remote)"
proof -
  have "wf_checkpoint (pickHigherProgress local remote)"
    using assms by (simp add: pickHigherProgress_def)
  then show ?thesis
    using assms wf_pages_merge [of "ck_pages local" wf_page "ck_pages remote"]
    by (auto simp: wf_checkpoint_def mergeCheckpoints_def Let_def spread_pages_def max_def)
qed

text \<open>
  Merging two views of a run loses no progress. The merged progress (cursor, then status)
  is the larger of the two, so a terminal status at the same page is never downgraded; the next
  start page is the larger of the two; the recorded pages are those of both views, those of the
  stored view overriding; and the order of the two views does not matter to any of this except
  which counts a page recorded by both shows.
\<close>

theorem merge_loses_nothing:
  "progress (mergeCheckpoints local remote) = max (progress local) (progress remote)
   \<and> progress (mergeCheckpoints remote local) = progress (mergeCheckpoints local remote)
   \<and> resumeStartPage (Some (mergeCheckpoints local remote)) =
       max (resumeStartPage (Some local)) (resumeStartPage (Some remote))
   \<and> ck_discoveredLastPage (mergeCheckpoints local remote) =
       max (ck_discoveredLastPage local) (ck_discoveredLastPage remote)
   \<and> map_of (ck_pages (mergeCheckpoints local remote)) = map_of (ck_pages local) ++ map_of (ck_pages remote)
   \<and> fst ` set (ck_pages (mergeCheckpoints remote local)) = fst ` set (ck_pages (mergeCheckpoints local remote))"
proof -
  have keys: "fst ` set (ck_pages (mergeCheckpoints a b)) = fst ` set (ck_pages a) \<union> fst ` set (ck_pages b)" for a b
    by (simp add: dom_map_of_conv_image_fst [symmetric] pages_merge Un_commute)
  show ?thesis
    by (simp add: progress_merge resume_merge pages_merge keys max.commute Un_commute,
        simp add: mergeCheckpoints_def Let_def)
qed

end
