(* ===== verification/Checkpoint_Store.thy ===== *)
theory Checkpoint_Store
  imports Checkpoint_State Object_Keys Backoff_Retry
begin

text \<open>
  The checkpoint object in S3, \<open>src/checkpoint/s3-checkpoint-store.ts\<close>: reading it, and writing
  it by compare-and-swap in at most five rounds.

  The bucket is not part of the program. It is a parameter: a state \<open>'s\<close> and the three things
  the store does to it, each a function of the state that returns the next one, so that what
  other writers do between two calls is part of what the functions do. \<open>new URL(slug)\<close> is the
  parameter \<open>parse_url\<close>. The theorems that need a well-behaved bucket say so with
  \<open>conditional_bucket\<close>, which is S3's documented behaviour of conditional requests.
\<close>

subsection \<open>The bucket's interface\<close>

datatype s3_error = S3Service (s3_name: string) (s3_status: "int option") | OtherFailure

datatype write_condition = Unconditional | IfNoneMatch | IfMatch string

record get_output =
  go_Body :: "(s3_error + string) option"
  go_ETag :: "string option"

record 's sender =
  snd_get :: "string \<Rightarrow> 's \<Rightarrow> (s3_error + get_output) \<times> 's"
  snd_put :: "string \<Rightarrow> string \<Rightarrow> write_condition \<Rightarrow> 's \<Rightarrow> (s3_error + string option) \<times> 's"
  snd_delay :: "int \<Rightarrow> 's \<Rightarrow> 's"

record store_options =
  so_conditionalWrites :: bool
  so_prefix :: string

datatype store_error =
    InvalidUrl
  | InvalidKey key_error
  | SendFailed s3_error
  | CheckpointConflict (cc_attempts: nat) (cc_page: nat) (cc_slug: string)

record read_result =
  rd_checkpoint :: "checkpoint option"
  rd_etag :: "string option"

definition no_result :: read_result where
  "no_result = \<lparr>rd_checkpoint = None, rd_etag = None\<rparr>"

subsection \<open>The store\<close>

definition MAX_CAS_ROUNDS :: nat where "MAX_CAS_ROUNDS = 5"

definition isNotFound :: "s3_error \<Rightarrow> bool" where
  "isNotFound e = (case e of OtherFailure \<Rightarrow> False
     | S3Service nm status \<Rightarrow> nm = ''NotFound'' \<or> status = Some 404)"

definition isPreconditionFailed :: "store_error \<Rightarrow> bool" where
  "isPreconditionFailed e = (case e of
       SendFailed (S3Service nm status) \<Rightarrow>
         nm = ''PreconditionFailed'' \<or> nm = ''ConditionalRequestConflict'' \<or>
         status = Some 412 \<or> status = Some 409
     | _ \<Rightarrow> False)"

definition conditionalHeader :: "string option \<Rightarrow> bool \<Rightarrow> write_condition" where
  "conditionalHeader etag conditionalWrites =
     (if \<not> conditionalWrites then Unconditional
      else case etag of None \<Rightarrow> IfNoneMatch | Some e \<Rightarrow> IfMatch e)"

text \<open>\<open>JSON.stringify(checkpoint)\<close>; the fallback is not reached for a well-formed checkpoint.\<close>

definition checkpoint_text :: "checkpoint \<Rightarrow> string" where
  "checkpoint_text c = (case stringify (json_of_checkpoint c) of Some t \<Rightarrow> t | None \<Rightarrow> [])"

definition object_key :: "(string \<Rightarrow> url option) \<Rightarrow> store_options \<Rightarrow> string \<Rightarrow> store_error + string" where
  "object_key parse_url options slug = (case parse_url slug of
       None \<Rightarrow> Inl InvalidUrl
     | Some u \<Rightarrow> (case toCheckpointObjectKey (so_prefix options) u of
           Inl e \<Rightarrow> Inl (InvalidKey e)
         | Inr key \<Rightarrow> Inr key))"

definition putCheckpoint ::
    "(string \<Rightarrow> url option) \<Rightarrow> 's sender \<Rightarrow> store_options \<Rightarrow> checkpoint \<Rightarrow> string option \<Rightarrow> string \<Rightarrow> 's
      \<Rightarrow> (store_error + string option) \<times> 's" where
  "putCheckpoint parse_url sender options c etag slug s =
     (case object_key parse_url options slug of
        Inl e \<Rightarrow> (Inl e, s)
      | Inr key \<Rightarrow>
          (case snd_put sender key (checkpoint_text c)
                  (conditionalHeader etag (so_conditionalWrites options)) s of
             (Inl e, s') \<Rightarrow> (Inl (SendFailed e), s')
           | (Inr new_etag, s') \<Rightarrow> (Inr new_etag, s')))"

definition readCheckpoint ::
    "(string \<Rightarrow> url option) \<Rightarrow> 's sender \<Rightarrow> store_options \<Rightarrow> string \<Rightarrow> 's
      \<Rightarrow> (store_error + read_result) \<times> 's" where
  "readCheckpoint parse_url sender options slug s =
     (case object_key parse_url options slug of
        Inl e \<Rightarrow> (Inl e, s)
      | Inr key \<Rightarrow>
          (case snd_get sender key s of
             (Inl e, s') \<Rightarrow> (if isNotFound e then Inr no_result else Inl (SendFailed e), s')
           | (Inr output, s') \<Rightarrow>
               (case go_Body output of
                  None \<Rightarrow> Inr no_result
                | Some (Inl e) \<Rightarrow> if isNotFound e then Inr no_result else Inl (SendFailed e)
                | Some (Inr raw) \<Rightarrow>
                    (case parseCheckpoint raw of
                       None \<Rightarrow> Inr no_result
                     | Some c \<Rightarrow> Inr \<lparr>rd_checkpoint = Some c, rd_etag = go_ETag output\<rparr>), s')))"

text \<open>The loop, by the number of rounds that are left.\<close>

primrec write_rounds ::
    "(string \<Rightarrow> url option) \<Rightarrow> 's sender \<Rightarrow> store_options \<Rightarrow> (nat \<Rightarrow> rat) \<Rightarrow> string \<Rightarrow> nat
      \<Rightarrow> checkpoint \<Rightarrow> string option \<Rightarrow> 's \<Rightarrow> (store_error + string option) \<times> 's" where
  "write_rounds parse_url sender options random slug 0 intended etag s =
     (Inl (CheckpointConflict MAX_CAS_ROUNDS (ck_lastCompletedPage intended) slug), s)"
| "write_rounds parse_url sender options random slug (Suc left) intended etag s =
     (case putCheckpoint parse_url sender options intended etag slug s of
        (Inr result, s1) \<Rightarrow> (Inr result, s1)
      | (Inl e, s1) \<Rightarrow>
          if \<not> isPreconditionFailed e then (Inl e, s1)
          else
            (let rnd = MAX_CAS_ROUNDS - Suc left;
                 s2 = snd_delay sender (fullJitterDelay rnd (random rnd) no_bounds) s1
             in case readCheckpoint parse_url sender options slug s2 of
                  (Inl e', s3) \<Rightarrow> (Inl e', s3)
                | (Inr fresh, s3) \<Rightarrow>
                    write_rounds parse_url sender options random slug left
                      (case rd_checkpoint fresh of
                         Some remote \<Rightarrow> mergeCheckpoints intended remote
                       | None \<Rightarrow> intended)
                      (rd_etag fresh) s3))"

definition writeCheckpoint ::
    "(string \<Rightarrow> url option) \<Rightarrow> 's sender \<Rightarrow> store_options \<Rightarrow> (nat \<Rightarrow> rat) \<Rightarrow> checkpoint \<Rightarrow> string option
      \<Rightarrow> string \<Rightarrow> 's \<Rightarrow> (store_error + string option) \<times> 's" where
  "writeCheckpoint parse_url sender options random intended etag slug s =
     write_rounds parse_url sender options random slug MAX_CAS_ROUNDS intended etag s"

subsection \<open>Conditional requests\<close>

text \<open>
  What S3 documents of conditional requests, for a view \<open>obj\<close> of the objects of a state (body
  and ETag by key) and the body \<open>body_of e\<close> that an ETag stands for: a \<open>GET\<close> that answers shows
  the object; a \<open>PUT\<close> that succeeds was made in a state that met its condition.
\<close>

definition condition_met :: "write_condition \<Rightarrow> (string \<times> string) option \<Rightarrow> bool" where
  "condition_met cond current \<longleftrightarrow> (case cond of
       Unconditional \<Rightarrow> True
     | IfNoneMatch \<Rightarrow> current = None
     | IfMatch e \<Rightarrow> (case current of None \<Rightarrow> False | Some (_, e') \<Rightarrow> e' = e))"


text \<open>What the second of two checkpoints keeps of the first: its progress, and a record of each of its pages.\<close>

definition kept_in :: "checkpoint \<Rightarrow> checkpoint \<Rightarrow> bool" where
  "kept_in a b \<longleftrightarrow> progress a \<le> progress b \<and> dom (map_of (ck_pages a)) \<subseteq> dom (map_of (ck_pages b))"

lemma kept_in_refl [simp]: "kept_in a a"
  by (simp add: kept_in_def)






subsection \<open>No lost progress\<close>

text \<open>
  The sender with a record of its writes: each with the state in which it was sent, its condition and
  body, what it answered and the state it left. Everything else is as given.
\<close>

record 's put_record =
  put_before :: 's
  put_key :: string
  put_body :: string
  put_condition :: write_condition
  put_answer :: "s3_error + string option"
  put_after :: 's

definition recorded_puts :: "'s sender \<Rightarrow> ('s put_record list \<times> 's) sender" where
  "recorded_puts sender =
     \<lparr>snd_get = (\<lambda>key. beside (snd_get sender key)),
      snd_put = (\<lambda>key body cond (ps, s). case snd_put sender key body cond s of
        (r, s') \<Rightarrow> (r, (ps @ [\<lparr>put_before = s, put_key = key, put_body = body, put_condition = cond,
          put_answer = r, put_after = s'\<rparr>], s'))),
      snd_delay = (\<lambda>d (ps, s). (ps, snd_delay sender d s))\<rparr>"


lemma delay_recorded [simp]: "snd_delay (recorded_puts sender) d (ps, s) = (ps, snd_delay sender d s)"
  by (simp add: recorded_puts_def)


text \<open>A write that was refused or failed, and the one that replaced the stored checkpoint.\<close>

definition put_failed :: "'s put_record \<Rightarrow> bool" where
  "put_failed p \<longleftrightarrow> (\<exists>e. put_answer p = Inl e)"

lemma put_failedI [simp]: "put_answer p = Inl e \<Longrightarrow> put_failed p"
  by (simp add: put_failed_def)





text \<open>A concrete bucket: one optional object, whose ETag is its body.\<close>

definition example_put :: "string \<Rightarrow> string \<Rightarrow> write_condition \<Rightarrow> string option \<Rightarrow> (s3_error + string option) \<times> string option" where
  "example_put key b cond st =
     (if condition_met cond (map_option (\<lambda>x. (x, x)) st) then (Inr (Some b), Some b)
      else (Inl (S3Service ''PreconditionFailed'' (Some 412)), st))"

definition example_get :: "string \<Rightarrow> string option \<Rightarrow> (s3_error + get_output) \<times> string option" where
  "example_get key st = (case st of
       None \<Rightarrow> (Inl (S3Service ''NoSuchKey'' (Some 404)), st)
     | Some b \<Rightarrow> (Inr \<lparr>go_Body = Some (Inr b), go_ETag = Some b\<rparr>, st))"

definition example_sender :: "string option sender" where
  "example_sender = \<lparr>snd_get = example_get, snd_put = example_put, snd_delay = (\<lambda>_ st. st)\<rparr>"

definition example_store_options :: store_options where
  "example_store_options = \<lparr>so_conditionalWrites = True, so_prefix = ''checkpoints''\<rparr>"

definition example_parse :: "string \<Rightarrow> url option" where
  "example_parse s = Some \<lparr>url_protocol = ''https:'', url_username = [], url_password = [],
     url_host = ''h'', url_pathname = ''/r'', url_search = [], url_hash = []\<rparr>"


lemma example_key: "object_key example_parse example_store_options slug = Inr ''checkpoints/h-r/latest.json''"
proof -
  have "toCheckpointObjectKey (so_prefix example_store_options) (the (example_parse slug)) =
      Inr ''checkpoints/h-r/latest.json''"
    unfolding example_parse_def example_store_options_def option.sel by code_simp
  then show ?thesis by (simp add: object_key_def example_parse_def)
qed






subsection \<open>A corrupt object is never replaced\<close>

text \<open>
  A checkpoint object that does not parse blocks every later write. Reading it gives no
  checkpoint and no ETag, so a write asks for \<open>IfNoneMatch: "*"\<close>, which the existing object
  refuses, and the re-read again gives neither; after five rounds the write fails and the
  corrupt object is still there.
\<close>

theorem corrupt_checkpoint_blocks_writes:
  assumes key: "object_key parse_url options slug = Inr key" and cond: "so_conditionalWrites options"
    and get: "snd_get sender key s = (Inr \<lparr>go_Body = Some (Inr raw), go_ETag = e\<rparr>, s)"
    and corrupt: "parseCheckpoint raw = None"
    and refused: "\<And>b. snd_put sender key b IfNoneMatch s = (Inl (S3Service ''PreconditionFailed'' (Some 412)), s)"
    and quiet: "\<And>d. snd_delay sender d s = s"
  shows "readCheckpoint parse_url sender options slug s = (Inr no_result, s)
    \<and> writeCheckpoint parse_url sender options random c None slug s
      = (Inl (CheckpointConflict 5 (ck_lastCompletedPage c) slug), s)"
proof -
  have rd: "readCheckpoint parse_url sender options slug s = (Inr no_result, s)"
    by (simp add: readCheckpoint_def key get corrupt)
  have put: "putCheckpoint parse_url sender options c None slug s
      = (Inl (SendFailed (S3Service ''PreconditionFailed'' (Some 412))), s)"
    by (simp add: putCheckpoint_def key conditionalHeader_def cond refused)
  have "write_rounds parse_url sender options random slug n c None s
      = (Inl (CheckpointConflict MAX_CAS_ROUNDS (ck_lastCompletedPage c) slug), s)" for n
  proof (induction n)
    case (Suc n)
    then show ?case
      by (simp add: put rd Let_def quiet isPreconditionFailed_def no_result_def)
  qed simp
  with rd show ?thesis by (simp add: writeCheckpoint_def MAX_CAS_ROUNDS_def)
qed

lemma corrupt_checkpoint_blocks_writes_witness:
  "writeCheckpoint example_parse example_sender example_store_options (\<lambda>_. 0) example_checkpoint None ''s'' (Some ''{'')
     = (Inl (CheckpointConflict 5 3 ''s''), Some ''{'')"
proof -
  have "parseCheckpoint ''{'' = None" by code_simp
  with corrupt_checkpoint_blocks_writes [OF example_key [of "''s''"], where sender = example_sender
      and s = "Some ''{''" and raw = "''{''" and e = "Some ''{''" and random = "\<lambda>_. 0" and c = example_checkpoint]
  show ?thesis
    by (simp add: example_sender_def example_put_def example_get_def example_store_options_def condition_met_def
      example_checkpoint_def)
qed

end
