(* ===== verification/Raw_Storage.thy ===== *)
theory Raw_Storage
  imports Source_Clients Checkpoint_Store
begin

text \<open>
  Replays on their way into the raw bucket: the candidate and result types of \<open>src/types/\<close>,
  the store of \<open>src/storage/s3-raw-storage.ts\<close> and the fetch-and-store step of
  \<open>src/storage/store-raw-replay.ts\<close>.

  The bucket, the byte client, the URL parser and SHA-256 are parameters. The bucket and the
  byte client are functions of a state \<open>'s\<close>, so that a sequence of steps threads it.
\<close>

subsection \<open>Candidates and results\<close>

record replay_metadata =
  rm_discoveredAt :: "string option"
  rm_missionText :: "string option"
  rm_serverId :: "int option"
  rm_world :: "string option"

record replay_source =
  rs_externalId :: "string option"
  rs_page :: "nat option"
  rs_rawUrl :: "string option"
  rs_url :: string

record replay_candidate =
  rc_filename :: string
  rc_metadata :: "replay_metadata option"
  rc_source :: replay_source

datatype raw_status = RawStored | RawSkipped | RawConflict | RawFailed

datatype storage_failure = ObjectConflict | S3Failure

record raw_evidence =
  rv_bucket :: string
  rv_byteSize :: nat
  rv_checksum :: string
  rv_discoveredAt :: "string option"
  rv_failureCategory :: "storage_failure option"
  rv_fetchedAt :: string
  rv_objectKey :: string
  rv_source :: replay_source
  rv_sourceFilename :: string
  rv_status :: raw_status

record fetch_failure =
  ff_fetchedAt :: string
  ff_message :: string
  ff_source :: replay_source
  ff_sourceFilename :: string

datatype store_result = FetchFailed fetch_failure | Evidence raw_evidence

definition result_status :: "store_result \<Rightarrow> raw_status" where
  "result_status r = (case r of FetchFailed _ \<Rightarrow> RawFailed | Evidence e \<Rightarrow> rv_status e)"

subsection \<open>The raw bucket\<close>

record head_output =
  ho_ContentLength :: "nat option"
  ho_sha256 :: "string option"

record 's raw_sender =
  raw_head :: "string \<Rightarrow> 's \<Rightarrow> (s3_error + head_output) \<times> 's"
  raw_put :: "string \<Rightarrow> bytes \<Rightarrow> string \<Rightarrow> 's \<Rightarrow> (s3_error + unit) \<times> 's"

record raw_input =
  ri_bytes :: bytes
  ri_candidate :: replay_candidate
  ri_checksum :: string
  ri_fetchedAt :: string
  ri_objectKey :: string

definition toBaseEvidence :: "string \<Rightarrow> raw_input \<Rightarrow> raw_status \<Rightarrow> storage_failure option \<Rightarrow> raw_evidence" where
  "toBaseEvidence bucket input status failure =
     \<lparr>rv_bucket = bucket, rv_byteSize = length (ri_bytes input), rv_checksum = ri_checksum input,
      rv_discoveredAt = Option.bind (rc_metadata (ri_candidate input)) rm_discoveredAt,
      rv_failureCategory = failure, rv_fetchedAt = ri_fetchedAt input,
      rv_objectKey = ri_objectKey input, rv_source = rc_source (ri_candidate input),
      rv_sourceFilename = rc_filename (ri_candidate input), rv_status = status\<rparr>"

definition s3_storeRawReplay ::
    "'s raw_sender \<Rightarrow> string \<Rightarrow> raw_input \<Rightarrow> 's \<Rightarrow> raw_evidence \<times> 's" where
  "s3_storeRawReplay sender bucket input s =
     (let evidence = toBaseEvidence bucket input in
      case raw_head sender (ri_objectKey input) s of
        (Inr head, s1) \<Rightarrow>
          (if ho_ContentLength head = Some (length (ri_bytes input)) \<and>
              ho_sha256 head = Some (ri_checksum input)
           then evidence RawSkipped None else evidence RawConflict (Some ObjectConflict), s1)
      | (Inl e, s1) \<Rightarrow>
          if \<not> isNotFound e then (evidence RawFailed (Some S3Failure), s1)
          else (case raw_put sender (ri_objectKey input) (ri_bytes input) (ri_checksum input) s1 of
                  (Inr _, s2) \<Rightarrow> (evidence RawStored None, s2)
                | (Inl _, s2) \<Rightarrow> (evidence RawFailed (Some S3Failure), s2)))"

subsection \<open>Fetch and store\<close>

definition invalid_url_error :: thrown where
  "invalid_url_error = Error PlainError (Some (CodeText ''ERR_INVALID_URL'')) ''Invalid URL'' ''TypeError'' None None None"

definition bad_checksum_error :: thrown where
  "bad_checksum_error = Error PlainError None ''SHA-256 checksum must be 64 lowercase hex characters''
     ''Error'' None None None"

type_synonym 's byte_client = "url \<Rightarrow> 's \<Rightarrow> (thrown + bytes) \<times> 's"

definition fetch_failure_of :: "replay_candidate \<Rightarrow> string \<Rightarrow> thrown \<Rightarrow> fetch_failure" where
  "fetch_failure_of candidate fetchedAt error =
     \<lparr>ff_fetchedAt = fetchedAt, ff_message = err_message error, ff_source = rc_source candidate,
      ff_sourceFilename = rc_filename candidate\<rparr>"

text \<open>A \<open>Left\<close> result is what the step throws: everything but a byte-fetch error.\<close>

definition storeRawReplay ::
    "(string \<Rightarrow> url option) \<Rightarrow> (bytes \<Rightarrow> string) \<Rightarrow> 's byte_client \<Rightarrow> 's raw_sender \<Rightarrow> string \<Rightarrow> string
      \<Rightarrow> replay_candidate \<Rightarrow> 's \<Rightarrow> (thrown + store_result) \<times> 's" where
  "storeRawReplay parse_url sha256 byte_client sender bucket fetchedAt candidate s =
     (let source = rc_source candidate;
          target = (case rs_rawUrl source of Some raw \<Rightarrow> raw | None \<Rightarrow> rs_url source)
      in case parse_url target of
           None \<Rightarrow> (Inl invalid_url_error, s)
         | Some u \<Rightarrow>
             (case byte_client u s of
                (Inl e, s1) \<Rightarrow>
                  (if is_class ReplayByteFetchError e
                   then Inr (FetchFailed (fetch_failure_of candidate fetchedAt e)) else Inl e, s1)
              | (Inr bytes, s1) \<Rightarrow>
                  (case toRawReplayObjectKey (sha256 bytes) of
                     Inl _ \<Rightarrow> (Inl bad_checksum_error, s1)
                   | Inr objectKey \<Rightarrow>
                       apfst (\<lambda>e. Inr (Evidence e))
                         (s3_storeRawReplay sender bucket
                           \<lparr>ri_bytes = bytes, ri_candidate = candidate, ri_checksum = sha256 bytes,
                            ri_fetchedAt = fetchedAt, ri_objectKey = objectKey\<rparr> s1))))"

subsection \<open>What happens to the objects\<close>

text \<open>
  S3's documented behaviour, for a view of the objects of a state (body and \<open>sha256\<close> metadata by
  key): a \<open>HEAD\<close> that answers describes the object, one that fails with not-found means there is
  none, a \<open>PUT\<close> that succeeds stores its object and no other call changes one.
\<close>

definition object_bucket :: "'s raw_sender \<Rightarrow> ('s \<Rightarrow> string \<Rightarrow> (bytes \<times> string) option) \<Rightarrow> bool" where
  "object_bucket sender objs \<longleftrightarrow>
     (\<forall>key s. case raw_head sender key s of
        (Inr head, s') \<Rightarrow> objs s' = objs s \<and>
          (\<exists>b c. objs s key = Some (b, c) \<and> ho_ContentLength head = Some (length b) \<and> ho_sha256 head = Some c)
      | (Inl e, s') \<Rightarrow> objs s' = objs s \<and> (isNotFound e \<longrightarrow> objs s key = None)) \<and>
     (\<forall>key b c s. case raw_put sender key b c s of
        (Inr _, s') \<Rightarrow> objs s' = (objs s)(key := Some (b, c))
      | (Inl _, s') \<Rightarrow> objs s' = objs s)"

text \<open>What each outcome says of the object at the key, before and after.\<close>

definition outcome_fits ::
    "raw_evidence \<Rightarrow> bytes \<Rightarrow> (bytes \<times> string) option \<Rightarrow> (bytes \<times> string) option \<Rightarrow> bool" where
  "outcome_fits e bytes before after \<longleftrightarrow> (case rv_status e of
       RawStored \<Rightarrow> before = None \<and> after = Some (bytes, rv_checksum e)
     | RawSkipped \<Rightarrow> after = before \<and> (\<exists>b. before = Some (b, rv_checksum e) \<and> length b = length bytes)
     | RawConflict \<Rightarrow> after = before \<and> (\<exists>b c. before = Some (b, c) \<and> (length b \<noteq> length bytes \<or> c \<noteq> rv_checksum e))
     | RawFailed \<Rightarrow> after = before)"

lemma object_bucket_head:
  assumes "object_bucket sender objs" "raw_head sender key s = (h, s1)"
  shows "case h of
        Inr head \<Rightarrow> objs s1 = objs s \<and> (\<exists>b c. objs s key = Some (b, c) \<and>
          ho_ContentLength head = Some (length b) \<and> ho_sha256 head = Some c)
      | Inl e \<Rightarrow> objs s1 = objs s \<and> (isNotFound e \<longrightarrow> objs s key = None)"
  using assms(1) [unfolded object_bucket_def, THEN conjunct1, THEN spec [of _ key], THEN spec [of _ s]]
  by (simp add: assms(2) split: sum.splits)

lemma object_bucket_put:
  assumes "object_bucket sender objs" "raw_put sender key b c s = (p, s1)"
  shows "case p of Inr _ \<Rightarrow> objs s1 = (objs s)(key := Some (b, c)) | Inl _ \<Rightarrow> objs s1 = objs s"
  using assms(1) [unfolded object_bucket_def, THEN conjunct2, THEN spec [of _ key], THEN spec [of _ b],
      THEN spec [of _ c], THEN spec [of _ s]]
  by (simp add: assms(2) split: sum.splits)

lemma s3_store_fits:
  assumes "object_bucket sender objs" "s3_storeRawReplay sender bucket input s = (e, s')"
  shows "outcome_fits e (ri_bytes input) (objs s (ri_objectKey input)) (objs s' (ri_objectKey input))
    \<and> rv_checksum e = ri_checksum input \<and> rv_objectKey e = ri_objectKey input
    \<and> (\<forall>key. key \<noteq> ri_objectKey input \<longrightarrow> objs s' key = objs s key)"
proof -
  let ?key = "ri_objectKey input"
  obtain h s1 where h: "raw_head sender ?key s = (h, s1)" by (cases "raw_head sender ?key s")
  obtain p s2 where p: "raw_put sender ?key (ri_bytes input) (ri_checksum input) s1 = (p, s2)"
    by (cases "raw_put sender ?key (ri_bytes input) (ri_checksum input) s1")
  note head = object_bucket_head [OF assms(1) h] and put = object_bucket_put [OF assms(1) p]
  show ?thesis
  proof (cases h)
    case (Inr out)
    with head obtain b c where "objs s1 = objs s" "objs s ?key = Some (b, c)"
      "ho_ContentLength out = Some (length b)" "ho_sha256 out = Some c" by auto
    with assms(2) show ?thesis
      by (auto simp: s3_storeRawReplay_def h Inr Let_def outcome_fits_def toBaseEvidence_def
        split: if_splits)
  next
    case (Inl err)
    with head have same: "objs s1 = objs s" and gone: "isNotFound err \<Longrightarrow> objs s ?key = None" by auto
    with assms(2) put show ?thesis
      by (cases p) (auto simp: s3_storeRawReplay_def h p Inl Let_def outcome_fits_def toBaseEvidence_def
        split: if_splits)
  qed
qed

text \<open>A successful fetch-and-store step: what was fetched is what is stored under its checksum.\<close>

lemma storeRawReplay_evidence:
  assumes "storeRawReplay parse_url sha256 client sender bucket fetchedAt candidate s = (Inr (Evidence e), s')"
  obtains u bytes s1 where "client u s = (Inr bytes, s1)" "rv_checksum e = sha256 bytes"
    "toRawReplayObjectKey (sha256 bytes) = Inr (rv_objectKey e)"
    "s3_storeRawReplay sender bucket \<lparr>ri_bytes = bytes, ri_candidate = candidate, ri_checksum = sha256 bytes,
       ri_fetchedAt = fetchedAt, ri_objectKey = rv_objectKey e\<rparr> s1 = (e, s')"
proof -
  from assms obtain u bytes s1 where step: "client u s = (Inr bytes, s1)"
    and rest: "(case toRawReplayObjectKey (sha256 bytes) of
                     Inl _ \<Rightarrow> (Inl bad_checksum_error, s1)
                   | Inr objectKey \<Rightarrow>
                       apfst (\<lambda>e. Inr (Evidence e))
                         (s3_storeRawReplay sender bucket
                           \<lparr>ri_bytes = bytes, ri_candidate = candidate, ri_checksum = sha256 bytes,
                            ri_fetchedAt = fetchedAt, ri_objectKey = objectKey\<rparr> s1)) = (Inr (Evidence e), s')"
    by (auto simp: storeRawReplay_def Let_def split: option.splits prod.splits sum.splits if_splits)
  from rest obtain key where key: "toRawReplayObjectKey (sha256 bytes) = Inr key"
    and st: "s3_storeRawReplay sender bucket \<lparr>ri_bytes = bytes, ri_candidate = candidate,
       ri_checksum = sha256 bytes, ri_fetchedAt = fetchedAt, ri_objectKey = key\<rparr> s1 = (e, s')"
    by (auto split: sum.splits simp: apfst_def map_prod_def split: prod.splits)
  have "rv_checksum e = sha256 bytes \<and> rv_objectKey e = key"
    using st by (auto simp: s3_storeRawReplay_def Let_def toBaseEvidence_def split: prod.splits sum.splits if_splits)
  with that [OF step] key st show thesis by simp
qed

text \<open>
  C23: raw storage never overwrites and is content-addressed. In a bucket with S3's behaviour
  and a byte client that does not write to it, evidence of a stored, skipped or conflicting
  replay names the key of its own checksum, every other object is untouched, and the object at
  the key is: for \<open>stored\<close>, absent before and exactly the fetched bytes with their checksum
  after; for \<open>skipped\<close>, present with the same size and checksum and unchanged; for
  \<open>conflict\<close>, present with another size or checksum and unchanged; for \<open>failed\<close>, unchanged.
\<close>

theorem storeRawReplay_never_overwrites:
  assumes bucket: "object_bucket sender objs"
    and client: "\<And>u s. objs (snd (client u s)) = objs s"
    and run: "storeRawReplay parse_url sha256 client sender bucket fetchedAt candidate s = (Inr (Evidence e), s')"
  shows "\<exists>bytes. rv_checksum e = sha256 bytes \<and> toRawReplayObjectKey (sha256 bytes) = Inr (rv_objectKey e)
    \<and> outcome_fits e bytes (objs s (rv_objectKey e)) (objs s' (rv_objectKey e))
    \<and> (\<forall>key. key \<noteq> rv_objectKey e \<longrightarrow> objs s' key = objs s key)"
proof -
  from run obtain u bytes s1 where step: "client u s = (Inr bytes, s1)" "rv_checksum e = sha256 bytes"
      "toRawReplayObjectKey (sha256 bytes) = Inr (rv_objectKey e)"
    and st: "s3_storeRawReplay sender bucket \<lparr>ri_bytes = bytes, ri_candidate = candidate,
       ri_checksum = sha256 bytes, ri_fetchedAt = fetchedAt, ri_objectKey = rv_objectKey e\<rparr> s1 = (e, s')"
    by (rule storeRawReplay_evidence)
  have "objs s1 = objs s" using client [of u s] step(1) by simp
  with s3_store_fits [OF bucket st] step show ?thesis by auto
qed

text \<open>A concrete bucket and client.\<close>

type_synonym toy_bucket = "(string \<times> (bytes \<times> string)) list"

definition toy_sender :: "toy_bucket raw_sender" where
  "toy_sender = \<lparr>
     raw_head = (\<lambda>key s. case map_of s key of
        None \<Rightarrow> (Inl (S3Service ''NotFound'' (Some 404)), s)
      | Some (b, c) \<Rightarrow> (Inr \<lparr>ho_ContentLength = Some (length b), ho_sha256 = Some c\<rparr>, s)),
     raw_put = (\<lambda>key b c s. (Inr (), AList.update key (b, c) s))\<rparr>"

definition toy_client :: "toy_bucket byte_client" where
  "toy_client u s = (Inr [1, 2, 3], s)"

definition toy_sha :: "bytes \<Rightarrow> string" where
  "toy_sha b = replicate 64 (CHR ''a'')"

definition toy_candidate :: replay_candidate where
  "toy_candidate = \<lparr>rc_filename = ''f'', rc_metadata = None,
     rc_source = \<lparr>rs_externalId = Some ''1'', rs_page = Some 1, rs_rawUrl = None, rs_url = ''https://h/r''\<rparr>\<rparr>"

lemma toy_object_bucket: "object_bucket toy_sender map_of"
  by (auto simp: object_bucket_def toy_sender_def isNotFound_def update_conv' split: option.splits)

lemma toy_key: "toRawReplayObjectKey (toy_sha b) = Inr (''raw/sha256/'' @ replicate 64 (CHR ''a'') @ ''.ocap'')"
  by (simp add: toRawReplayObjectKey_def toy_sha_def sha256Pattern_def is_hex_def list_all_iff)

lemma storeRawReplay_never_overwrites_witness:
  "\<exists>e s'. storeRawReplay example_parse toy_sha toy_client toy_sender ''b'' ''t'' toy_candidate [] = (Inr (Evidence e), s')
     \<and> rv_status e = RawStored \<and> map_of s' (rv_objectKey e) \<noteq> None"
proof -
  obtain e s' where run: "storeRawReplay example_parse toy_sha toy_client toy_sender ''b'' ''t'' toy_candidate []
      = (Inr (Evidence e), s')" and st: "rv_status e = RawStored"
    by (simp add: storeRawReplay_def toy_candidate_def example_parse_def toy_client_def toy_key
      s3_storeRawReplay_def Let_def)
      (simp add: toy_sender_def isNotFound_def toBaseEvidence_def)
  from storeRawReplay_never_overwrites [OF toy_object_bucket _ run] st
  have "map_of s' (rv_objectKey e) \<noteq> None"
    by (auto simp: toy_client_def outcome_fits_def)
  with run st show ?thesis by blast
qed

text \<open>
  Storing the same replay again is a no-op. When a replay's bytes are in the bucket under
  their checksum, a later step that fetches the same bytes reports \<open>skipped\<close>, as long as the
  \<open>HEAD\<close> request answers, and changes no object.
\<close>

theorem storeRawReplay_idempotent:
  assumes bucket: "object_bucket sender objs"
    and url: "parse_url (case rs_rawUrl (rc_source candidate) of Some raw \<Rightarrow> raw | None \<Rightarrow> rs_url (rc_source candidate)) = Some u"
    and fetched: "client u s = (Inr bytes, s1)" and key: "toRawReplayObjectKey (sha256 bytes) = Inr key"
    and present: "objs s1 key = Some (bytes, sha256 bytes)"
    and answers: "is_ok (fst (raw_head sender key s1))"
  shows "\<exists>e s'. storeRawReplay parse_url sha256 client sender bucket fetchedAt candidate s = (Inr (Evidence e), s')
    \<and> rv_status e = RawSkipped \<and> rv_checksum e = sha256 bytes \<and> objs s' = objs s1"
proof -
  obtain head s2 where h: "raw_head sender key s1 = (Inr head, s2)"
    using answers by (cases "raw_head sender key s1") (auto simp: is_ok_iff)
  with object_bucket_head [OF bucket h] present
  show ?thesis
    by (auto simp: storeRawReplay_def url fetched key s3_storeRawReplay_def toBaseEvidence_def Let_def
      split: option.splits)
qed

lemma storeRawReplay_idempotent_witness:
  "\<exists>e s'. storeRawReplay example_parse toy_sha toy_client toy_sender ''b'' ''t'' toy_candidate
       [(''raw/sha256/'' @ replicate 64 (CHR ''a'') @ ''.ocap'', ([1, 2, 3], toy_sha [1, 2, 3]))]
     = (Inr (Evidence e), s') \<and> rv_status e = RawSkipped"
proof -
  let ?s = "[(''raw/sha256/'' @ replicate 64 (CHR ''a'') @ ''.ocap'', ([1, 2, 3 :: 8 word], toy_sha [1, 2, 3]))]"
  have url: "example_parse (case rs_rawUrl (rc_source toy_candidate) of Some raw \<Rightarrow> raw | None \<Rightarrow> rs_url (rc_source toy_candidate))
      = Some (the (example_parse []))" by (simp add: example_parse_def)
  have fetched: "toy_client (the (example_parse [])) ?s = (Inr [1, 2, 3], ?s)" by (simp add: toy_client_def)
  from storeRawReplay_idempotent [where sender = toy_sender and objs = map_of and parse_url = example_parse
      and candidate = toy_candidate and client = toy_client and s = ?s and ?sha256.0 = toy_sha
      and bytes = "[1, 2, 3]" and bucket = "''b''" and fetchedAt = "''t''", OF toy_object_bucket url fetched toy_key]
  show ?thesis by (auto simp: toy_sender_def)
qed

text \<open>
  A candidate whose \<open>rawUrl\<close> is not a URL is not reported as a failed replay: the step
  throws, so that the page that contains it is abandoned, although nothing upstream checks the
  \<open>rawUrl\<close> of a candidate that came from the source's JSON.
\<close>

theorem malformed_raw_url_throws:
  "storeRawReplay (parse_url(raw := None)) sha256 client sender bucket fetchedAt
     (candidate\<lparr>rc_source := source\<lparr>rs_rawUrl := Some raw\<rparr>\<rparr>) s = (Inl invalid_url_error, s)"
  by (simp add: storeRawReplay_def Let_def)

end
