(* ===== verification/Calendar_Time.thy ===== *)
theory Calendar_Time
  imports Prelude "HOL-Library.Monad_Syntax"
begin

text \<open>
  Timestamps: \<^verbatim>\<open>src/time/components-to-utc-iso.ts\<close> and
  \<^verbatim>\<open>src/time/epoch-to-utc-iso.ts\<close>, with the two parsers of external data that rest on them
  (\<open>parseGameDateToUtcIso\<close> of \<^verbatim>\<open>src/discovery/html.ts\<close> and
  \<open>replayTimestampFromFilename\<close> of \<^verbatim>\<open>src/staging/payload.ts\<close>).

  The first part is the time arithmetic of the language (\<open>Date.UTC\<close>, the \<open>getUTC*\<close>
  accessors, \<open>toISOString\<close>), over whole milliseconds as \<open>int\<close>. The main result is that
  the code's round trip through \<open>Date.UTC\<close> accepts exactly the dates of the Gregorian
  calendar: it needs no table of month lengths of its own.
\<close>

subsection \<open>The language's calendar\<close>

definition leap_year :: "int \<Rightarrow> bool" where
  "leap_year y \<longleftrightarrow> y mod 4 = 0 \<and> (y mod 100 \<noteq> 0 \<or> y mod 400 = 0)"

definition day_from_year :: "int \<Rightarrow> int" where
  "day_from_year y =
     365 * (y - 1970) + (y - 1969) div 4 - (y - 1901) div 100 + (y - 1601) div 400"

definition year_from_day :: "int \<Rightarrow> int" where
  "year_from_day d =
     (let y = d * 400 div 146097 + 1970
      in if d < day_from_year y then y - 1
         else if day_from_year (y + 1) \<le> d then y + 1
         else y)"

text \<open>Days before the month \<open>m\<close> (counted from 0) of a year.\<close>

definition days_before_month :: "bool \<Rightarrow> int \<Rightarrow> int" where
  "days_before_month leap m =
     (let l = (if leap then 1 else 0)
      in if m \<le> 0 then 0 else if m = 1 then 31 else if m = 2 then 59 + l
         else if m = 3 then 90 + l else if m = 4 then 120 + l else if m = 5 then 151 + l
         else if m = 6 then 181 + l else if m = 7 then 212 + l else if m = 8 then 243 + l
         else if m = 9 then 273 + l else if m = 10 then 304 + l else if m = 11 then 334 + l
         else 365 + l)"

definition month_from_yday :: "bool \<Rightarrow> int \<Rightarrow> int" where
  "month_from_yday leap k =
     (let b = days_before_month leap
      in if k < b 1 then 0 else if k < b 2 then 1 else if k < b 3 then 2
         else if k < b 4 then 3 else if k < b 5 then 4 else if k < b 6 then 5
         else if k < b 7 then 6 else if k < b 8 then 7 else if k < b 9 then 8
         else if k < b 10 then 9 else if k < b 11 then 10 else 11)"

definition days_in_month :: "bool \<Rightarrow> int \<Rightarrow> int" where
  "days_in_month leap m = days_before_month leap (m + 1) - days_before_month leap m"

definition make_day :: "int \<Rightarrow> int \<Rightarrow> int \<Rightarrow> int" where
  "make_day y m dt =
     (let ym = y + m div 12; mn = m mod 12
      in day_from_year ym + days_before_month (leap_year ym) mn + dt - 1)"

definition make_time :: "int \<Rightarrow> int \<Rightarrow> int \<Rightarrow> int \<Rightarrow> int" where
  "make_time h mi s ms = h * 3600000 + mi * 60000 + s * 1000 + ms"

definition time_clip :: "int \<Rightarrow> int option" where
  "time_clip t = (if \<bar>t\<bar> \<le> 8640000000000000 then Some t else None)"

text \<open>\<open>Date.UTC\<close>: two-digit years count from 1900. \<open>None\<close> is the time value NaN.\<close>

definition date_UTC :: "int \<Rightarrow> int \<Rightarrow> int \<Rightarrow> int \<Rightarrow> int \<Rightarrow> int \<Rightarrow> int option" where
  "date_UTC y m dt h mi s =
     (let yr = (if 0 \<le> y \<and> y \<le> 99 then 1900 + y else y)
      in time_clip (make_day yr m dt * 86400000 + make_time h mi s 0))"

definition day_of :: "int \<Rightarrow> int" where
  "day_of t = t div 86400000"

definition getUTCFullYear :: "int \<Rightarrow> int" where
  "getUTCFullYear t = year_from_day (day_of t)"

definition yday_of :: "int \<Rightarrow> int" where
  "yday_of t = day_of t - day_from_year (getUTCFullYear t)"

definition getUTCMonth :: "int \<Rightarrow> int" where
  "getUTCMonth t = month_from_yday (leap_year (getUTCFullYear t)) (yday_of t)"

definition getUTCDate :: "int \<Rightarrow> int" where
  "getUTCDate t =
     yday_of t - days_before_month (leap_year (getUTCFullYear t)) (getUTCMonth t) + 1"

definition getUTCHours :: "int \<Rightarrow> int" where
  "getUTCHours t = t div 3600000 mod 24"

definition getUTCMinutes :: "int \<Rightarrow> int" where
  "getUTCMinutes t = t div 60000 mod 60"

definition getUTCSeconds :: "int \<Rightarrow> int" where
  "getUTCSeconds t = t div 1000 mod 60"

definition getUTCMilliseconds :: "int \<Rightarrow> int" where
  "getUTCMilliseconds t = t mod 1000"

subsection \<open>Facts about years and months\<close>

lemma int_div_Suc:
  assumes "0 < (n::int)"
  shows "(x + 1) div n = x div n + (if (x + 1) mod n = 0 then 1 else 0)"
proof (cases "x mod n + 1 = n")
  case True
  then have "x + 1 = n * (x div n + 1) + 0"
    using mult_div_mod_eq [of n x] by (simp only: distrib_left mult_1_right)
  with assms have "(x + 1) div n = x div n + 1" "(x + 1) mod n = 0"
    by (simp_all only: int_div_pos_eq int_mod_pos_eq)
  then show ?thesis by simp
next
  case False
  with pos_mod_bound [OF assms, of x] pos_mod_sign [OF assms, of x]
  have r: "0 \<le> x mod n + 1" "x mod n + 1 < n" "x mod n + 1 \<noteq> 0" by linarith+
  have "x + 1 = n * (x div n) + (x mod n + 1)"
    using mult_div_mod_eq [of n x] by simp
  with r have "(x + 1) div n = x div n" "(x + 1) mod n = x mod n + 1"
    using int_div_pos_eq int_mod_pos_eq by blast+
  with r show ?thesis by simp
qed

lemma int_div_bounds:
  "0 < (n::int) \<Longrightarrow> n * (x div n) \<le> x \<and> x < n * (x div n) + n"
  using mult_div_mod_eq [of n x] pos_mod_bound [of n x] pos_mod_sign [of n x] by linarith

lemma mod_shift: "(y - n * k) mod n = y mod (n::int)"
  using mod_mult_self2 [of y n "- k"] by (simp only: mult_minus_right diff_conv_add_uminus)

lemma day_from_year_Suc:
  "day_from_year (y + 1) = day_from_year y + 365 + (if leap_year y then 1 else 0)"
proof -
  define a b c p q r where "a = (y - 1969) div 4" and "b = (y - 1901) div 100"
    and "c = (y - 1601) div 400" and "p \<longleftrightarrow> y mod 4 = 0" and "q \<longleftrightarrow> y mod 100 = 0"
    and "r \<longleftrightarrow> y mod 400 = 0"
  note defs = this
  have e: "y - 1969 + 1 = y - 4 * 492" "y - 1901 + 1 = y - 100 * 19" "y - 1601 + 1 = y - 400 * 4"
    "y + 1 - 1970 = y - 1970 + 1" "y + 1 - 1969 = y - 4 * 492" "y + 1 - 1901 = y - 100 * 19"
    "y + 1 - 1601 = y - 400 * 4" by simp_all
  have d: "(y - 4 * 492) div 4 = a + (if p then 1 else 0)"
    "(y - 100 * 19) div 100 = b + (if q then 1 else 0)"
    "(y - 400 * 4) div 400 = c + (if r then 1 else 0)"
    using int_div_Suc [of 4 "y - 1969", unfolded e] int_div_Suc [of 100 "y - 1901", unfolded e]
      int_div_Suc [of 400 "y - 1601", unfolded e] by (simp_all only: mod_shift defs)
  have now: "day_from_year y = 365 * (y - 1970) + a - b + c"
    by (simp only: day_from_year_def defs)
  have nxt: "day_from_year (y + 1) = 365 * (y - 1970 + 1) + (a + (if p then 1 else 0))
      - (b + (if q then 1 else 0)) + (c + (if r then 1 else 0))"
    by (simp only: day_from_year_def e d)
  have "q \<Longrightarrow> p" "r \<Longrightarrow> q"
    using dvd_trans [of 4 100 y] dvd_trans [of 100 400 y] by (simp_all add: defs mod_eq_0_iff_dvd)
  moreover have "leap_year y \<longleftrightarrow> p \<and> (\<not> q \<or> r)" by (simp only: leap_year_def defs)
  ultimately show ?thesis
    unfolding now nxt by (cases p; cases q; cases r) simp_all
qed

lemma day_from_year_less: "day_from_year y < day_from_year (y + 1)"
  by (simp add: day_from_year_Suc)

lemma day_from_year_strict_mono: "y < z \<Longrightarrow> day_from_year y < day_from_year z"
proof (induction z rule: int_gr_induct)
  case base
  then show ?case by (rule day_from_year_less)
next
  case (step z)
  then show ?case using day_from_year_less [of z] by simp
qed

lemma day_from_year_mono: "y \<le> z \<Longrightarrow> day_from_year y \<le> day_from_year z"
  using day_from_year_strict_mono [of y z] by (cases "y = z") auto

lemma year_from_day_bounds:
  "day_from_year (year_from_day d) \<le> d \<and> d < day_from_year (year_from_day d + 1)"
proof -
  define y where "y = d * 400 div 146097 + 1970"
  have y: "146097 * (y - 1970) \<le> 400 * d" "400 * d < 146097 * (y - 1970) + 146097"
    using int_div_bounds [of 146097 "d * 400"] by (simp_all add: y_def)
  have lo: "day_from_year (y - 1) \<le> d"
    using y int_div_bounds [of 4 "y - 1970"] int_div_bounds [of 100 "y - 1902"]
      int_div_bounds [of 400 "y - 1602"] by (simp add: day_from_year_def)
  have hi: "d < day_from_year (y + 1 + 1)"
    using y int_div_bounds [of 4 "y - 1967"] int_div_bounds [of 100 "y - 1899"]
      int_div_bounds [of 400 "y - 1599"] by (simp add: day_from_year_def)
  show ?thesis
    using lo hi by (auto simp: year_from_day_def Let_def y_def [symmetric])
qed

lemma year_from_day_eq:
  assumes "day_from_year y \<le> d" "d < day_from_year (y + 1)"
  shows "year_from_day d = y"
proof (rule ccontr)
  let ?z = "year_from_day d"
  assume "?z \<noteq> y"
  then consider "?z + 1 \<le> y" | "y + 1 \<le> ?z" by linarith
  then show False
  proof cases
    case 1
    then have "day_from_year (?z + 1) \<le> day_from_year y" by (rule day_from_year_mono)
    with assms year_from_day_bounds [of d] show False by linarith
  next
    case 2
    then have "day_from_year (y + 1) \<le> day_from_year ?z" by (rule day_from_year_mono)
    with assms year_from_day_bounds [of d] show False by linarith
  qed
qed

lemma month_cases:
  assumes "0 \<le> (m::int)" "m \<le> 11"
  obtains "m = 0" | "m = 1" | "m = 2" | "m = 3" | "m = 4" | "m = 5"
    | "m = 6" | "m = 7" | "m = 8" | "m = 9" | "m = 10" | "m = 11"
proof -
  from assms have "m \<in> set [0..11]" by simp
  then show thesis using that by (auto simp: upto_rec1 simp del: set_upto)
qed

lemma days_in_month_bounds:
  "0 \<le> m \<Longrightarrow> m \<le> 11 \<Longrightarrow> 28 \<le> days_in_month l m \<and> days_in_month l m \<le> 31"
  by (erule (1) month_cases) (simp_all add: days_in_month_def days_before_month_def)

lemma month_from_yday_range: "0 \<le> month_from_yday l k \<and> month_from_yday l k \<le> 11"
  by (simp add: month_from_yday_def Let_def)

lemma month_from_yday_spec:
  assumes "0 \<le> k" "k < 365 + (if l then 1 else 0)"
  shows "days_before_month l (month_from_yday l k) \<le> k
    \<and> k < days_before_month l (month_from_yday l k + 1)"
  using assms by (cases l) (auto simp: month_from_yday_def days_before_month_def Let_def)

lemma month_from_yday_inverse:
  assumes "0 \<le> m" "m \<le> 11" "1 \<le> dt" "dt \<le> days_in_month l m"
  shows "month_from_yday l (days_before_month l m + dt - 1) = m"
  using assms(1,2)
  by (rule month_cases)
     (use assms(3,4) in \<open>auto simp: month_from_yday_def days_before_month_def days_in_month_def Let_def
        split: if_splits\<close>)

lemma days_before_month_bounds:
  assumes "0 \<le> m" "m \<le> 11" "1 \<le> dt" "dt \<le> days_in_month l m"
  shows "0 \<le> days_before_month l m + dt - 1
    \<and> days_before_month l m + dt - 1 < 365 + (if l then 1 else 0)"
  using assms(1,2)
  by (rule month_cases)
     (use assms(3,4) in \<open>auto simp: days_before_month_def days_in_month_def split: if_splits\<close>)

subsection \<open>Reading back what \<open>Date.UTC\<close> made\<close>

definition valid_date :: "int \<Rightarrow> int \<Rightarrow> int \<Rightarrow> bool" where
  "valid_date y m d \<longleftrightarrow> 1 \<le> m \<and> m \<le> 12 \<and> 1 \<le> d \<and> d \<le> days_in_month (leap_year y) (m - 1)"

definition valid_clock :: "int \<Rightarrow> int \<Rightarrow> int \<Rightarrow> bool" where
  "valid_clock h mi s \<longleftrightarrow> 0 \<le> h \<and> h \<le> 23 \<and> 0 \<le> mi \<and> mi \<le> 59 \<and> 0 \<le> s \<and> s \<le> 59"

lemma clock_of_instant:
  assumes "valid_clock h mi s" "0 \<le> ms" "ms < 1000"
    and t_def: "t = d * 86400000 + make_time h mi s ms"
  shows "day_of t = d" "getUTCHours t = h" "getUTCMinutes t = mi" "getUTCSeconds t = s"
    "getUTCMilliseconds t = ms"
proof -
  have *: "0 \<le> h" "h \<le> 23" "0 \<le> mi" "mi \<le> 59" "0 \<le> s" "s \<le> 59"
    using assms(1) by (auto simp: valid_clock_def)
  have t1: "t = 86400000 * d + (h * 3600000 + mi * 60000 + s * 1000 + ms)"
    by (simp add: t_def make_time_def)
  have "t div 86400000 = d"
    by (rule int_div_pos_eq [OF t1]) (use * assms(2,3) in linarith)+
  then show "day_of t = d" by (simp add: day_of_def)
  have "t div 3600000 = 24 * d + h"
    by (rule int_div_pos_eq [where r = "mi * 60000 + s * 1000 + ms"], simp add: t1 distrib_left)
       (use * assms(2,3) in linarith)+
  moreover have "(24 * d + h) mod 24 = h"
    by (rule int_mod_pos_eq [where q = d]) (use * in linarith)+
  ultimately show "getUTCHours t = h" by (simp add: getUTCHours_def)
  have "t div 60000 = 60 * (24 * d + h) + mi"
    by (rule int_div_pos_eq [where r = "s * 1000 + ms"], simp add: t1 distrib_left)
       (use * assms(2,3) in linarith)+
  moreover have "(60 * (24 * d + h) + mi) mod 60 = mi"
    by (rule int_mod_pos_eq [where q = "24 * d + h"]) (use * in linarith)+
  ultimately show "getUTCMinutes t = mi" by (simp add: getUTCMinutes_def)
  have "t div 1000 = 60 * (60 * (24 * d + h) + mi) + s"
    by (rule int_div_pos_eq [where r = ms], simp add: t1 distrib_left) (use assms(2,3) in linarith)+
  moreover have "(60 * (60 * (24 * d + h) + mi) + s) mod 60 = s"
    by (rule int_mod_pos_eq [where q = "60 * (24 * d + h) + mi"]) (use * in linarith)+
  ultimately show "getUTCSeconds t = s" by (simp add: getUTCSeconds_def)
  have "t mod 1000 = ms"
    by (rule int_mod_pos_eq [where q = "60 * (60 * (24 * d + h) + mi) + s"],
        simp add: t1 distrib_left) (use assms(2,3) in linarith)+
  then show "getUTCMilliseconds t = ms" by (simp add: getUTCMilliseconds_def)
qed

lemma date_of_day:
  assumes "valid_date y m d" "day_of t = make_day y (m - 1) d"
  shows "getUTCFullYear t = y" "getUTCMonth t = m - 1" "getUTCDate t = d"
proof -
  let ?l = "leap_year y"
  have m: "0 \<le> m - 1" "m - 1 \<le> 11" and d: "1 \<le> d" "d \<le> days_in_month ?l (m - 1)"
    using assms(1) by (auto simp: valid_date_def)
  have "(m - 1) div 12 = 0" "(m - 1) mod 12 = m - 1" using m by simp_all
  then have day: "day_of t = day_from_year y + days_before_month ?l (m - 1) + d - 1"
    using assms(2) by (simp add: make_day_def Let_def)
  note b = days_before_month_bounds [OF m d]
  show y: "getUTCFullYear t = y"
    unfolding getUTCFullYear_def day
    by (rule year_from_day_eq) (use b day_from_year_Suc [of y] in auto)
  have yday: "yday_of t = days_before_month ?l (m - 1) + d - 1"
    by (simp add: yday_of_def y day)
  show mo: "getUTCMonth t = m - 1"
    using month_from_yday_inverse [OF m d] by (simp add: getUTCMonth_def y yday)
  show "getUTCDate t = d" by (simp add: getUTCDate_def y yday mo)
qed

text \<open>What the accessors return is always a date of the calendar.\<close>

lemma accessors_valid:
  "valid_date (getUTCFullYear t) (getUTCMonth t + 1) (getUTCDate t)
    \<and> valid_clock (getUTCHours t) (getUTCMinutes t) (getUTCSeconds t)"
proof -
  let ?y = "getUTCFullYear t" and ?k = "yday_of t"
  have "0 \<le> ?k" "?k < 365 + (if leap_year ?y then 1 else 0)"
    using year_from_day_bounds [of "day_of t"] day_from_year_Suc [of ?y]
    by (auto simp: yday_of_def getUTCFullYear_def)
  note month_from_yday_spec [OF this]
  then have "valid_date ?y (getUTCMonth t + 1) (getUTCDate t)"
    using month_from_yday_range [of "leap_year ?y" ?k]
    by (auto simp: valid_date_def getUTCDate_def getUTCMonth_def days_in_month_def)
  moreover have "valid_clock (getUTCHours t) (getUTCMinutes t) (getUTCSeconds t)"
    using pos_mod_bound [of 24 "t div 3600000"] pos_mod_bound [of 60 "t div 60000"]
      pos_mod_bound [of 60 "t div 1000"]
    by (simp_all add: valid_clock_def getUTCHours_def getUTCMinutes_def getUTCSeconds_def
        del: pos_mod_bound)
  ultimately show ?thesis by blast
qed

subsection \<open>\<open>componentsToUtcIso\<close>\<close>

record utc_components =
  uc_day :: int
  uc_hour :: int
  uc_minute :: int
  uc_month :: int
  uc_second :: "int option"
  uc_year :: int

definition padTwo :: "int \<Rightarrow> string" where
  "padTwo v = pad_start 2 (CHR ''0'') (show_int v)"

definition padFour :: "int \<Rightarrow> string" where
  "padFour v = pad_start 4 (CHR ''0'') (show_int v)"

definition iso_text :: "int \<Rightarrow> int \<Rightarrow> int \<Rightarrow> int \<Rightarrow> int \<Rightarrow> int \<Rightarrow> string" where
  "iso_text y m d h mi s =
     padFour y @ ''-'' @ padTwo m @ ''-'' @ padTwo d @ ''T'' @ padTwo h @ '':'' @ padTwo mi
       @ '':'' @ padTwo s @ ''.000Z''"

definition componentsToUtcIso :: "utc_components \<Rightarrow> string option" where
  "componentsToUtcIso c =
     (let second = (case uc_second c of None \<Rightarrow> 0 | Some s \<Rightarrow> s)
      in case date_UTC (uc_year c) (uc_month c - 1) (uc_day c) (uc_hour c) (uc_minute c) second of
           None \<Rightarrow> None
         | Some ms \<Rightarrow>
             if getUTCFullYear ms \<noteq> uc_year c \<or> getUTCMonth ms \<noteq> uc_month c - 1
               \<or> getUTCDate ms \<noteq> uc_day c \<or> getUTCHours ms \<noteq> uc_hour c
               \<or> getUTCMinutes ms \<noteq> uc_minute c \<or> getUTCSeconds ms \<noteq> second
             then None
             else Some (iso_text (uc_year c) (uc_month c) (uc_day c) (uc_hour c) (uc_minute c) second))"

text \<open>The acceptance condition in the words of the calendar, and the whole function by it.\<close>

definition calendar_accepts :: "utc_components \<Rightarrow> bool" where
  "calendar_accepts c \<longleftrightarrow>
     100 \<le> uc_year c \<and> valid_date (uc_year c) (uc_month c) (uc_day c)
     \<and> valid_clock (uc_hour c) (uc_minute c) (case uc_second c of None \<Rightarrow> 0 | Some s \<Rightarrow> s)"

lemma make_day_bounds:
  assumes "valid_date y m d" "0 \<le> y" "y \<le> 9999"
  shows "- 800000 \<le> make_day y (m - 1) d \<and> make_day y (m - 1) d \<le> 3000000"
proof -
  have m: "0 \<le> m - 1" "m - 1 \<le> 11" "1 \<le> d" "d \<le> days_in_month (leap_year y) (m - 1)"
    using assms(1) by (auto simp: valid_date_def)
  then have "make_day y (m - 1) d = day_from_year y + days_before_month (leap_year y) (m - 1) + d - 1"
    by (simp add: make_day_def Let_def)
  moreover have "day_from_year 0 \<le> day_from_year y" "day_from_year y \<le> day_from_year 9999"
    using assms(2,3) by (auto intro: day_from_year_mono)
  then have "- 719528 \<le> day_from_year y" "day_from_year y \<le> 2932532"
    by (simp_all add: day_from_year_def)
  ultimately show ?thesis
    using days_before_month_bounds [OF m] by (auto split: if_splits)
qed

lemma date_UTC_valid:
  assumes "valid_date y m d" "valid_clock h mi s" "100 \<le> y" "y \<le> 9999"
  obtains t where "date_UTC y (m - 1) d h mi s = Some t" "getUTCFullYear t = y"
    "getUTCMonth t = m - 1" "getUTCDate t = d" "getUTCHours t = h" "getUTCMinutes t = mi"
    "getUTCSeconds t = s"
proof -
  define t where "t = make_day y (m - 1) d * 86400000 + make_time h mi s 0"
  note clock = clock_of_instant [OF assms(2) order_refl zero_less_numeral t_def]
  have b: "0 \<le> h" "h \<le> 23" "0 \<le> mi" "mi \<le> 59" "0 \<le> s" "s \<le> 59"
    using assms(2) by (auto simp: valid_clock_def)
  have "\<bar>t\<bar> \<le> 8640000000000000"
    using make_day_bounds [OF assms(1)] assms(3,4) b
    unfolding t_def make_time_def abs_le_iff by linarith
  then have "date_UTC y (m - 1) d h mi s = Some t"
    using assms(3) by (simp add: date_UTC_def time_clip_def t_def)
  then show thesis using that date_of_day [OF assms(1) clock(1)] clock by blast
qed

lemma date_UTC_SomeD: "date_UTC y m d h mi s = Some t \<Longrightarrow>
   t = make_day (if 0 \<le> y \<and> y \<le> 99 then 1900 + y else y) m d * 86400000 + make_time h mi s 0"
  by (auto simp: date_UTC_def time_clip_def Let_def split: if_split_asm)

lemma two_digit_year_lost:
  assumes "date_UTC y (m - 1) d h mi s = Some t" "valid_date y m d" "valid_clock h mi s"
    "0 \<le> y" "y \<le> 99" "getUTCFullYear t = y" "getUTCMonth t = m - 1" "getUTCDate t = d"
  shows False
proof -
  have t: "t = make_day (1900 + y) (m - 1) d * 86400000 + make_time h mi s 0"
    using date_UTC_SomeD [OF assms(1)] assms(4,5) by simp
  have day: "day_of t = make_day (1900 + y) (m - 1) d"
    by (rule clock_of_instant(1) [OF assms(3) order_refl zero_less_numeral t])
  have m: "0 \<le> m - 1" "m - 1 \<le> 11" "1 \<le> d" "d \<le> 31"
    using assms(2) days_in_month_bounds [of "m - 1" "leap_year y"]
    by (auto simp: valid_date_def)
  then have "day_of t \<ge> day_from_year (1900 + y)"
    by (simp add: day make_day_def Let_def days_before_month_def)
  then have "day_from_year (y + 1) \<le> day_of t"
    using day_from_year_mono [of "y + 1" "1900 + y"] by linarith
  with year_from_day_bounds [of "day_of t"] assms(6) show False
    by (simp add: getUTCFullYear_def)
qed

lemma componentsToUtcIso_calendar_aux:
  assumes "0 \<le> uc_year c" "uc_year c \<le> 9999"
  shows "componentsToUtcIso c =
    (if calendar_accepts c
     then Some (iso_text (uc_year c) (uc_month c) (uc_day c) (uc_hour c) (uc_minute c)
       (case uc_second c of None \<Rightarrow> 0 | Some s \<Rightarrow> s))
     else None)"
proof (cases "calendar_accepts c")
  case True
  define second where "second = (case uc_second c of None \<Rightarrow> 0 | Some s \<Rightarrow> s)"
  from True have *: "valid_date (uc_year c) (uc_month c) (uc_day c)"
    "valid_clock (uc_hour c) (uc_minute c) second" "100 \<le> uc_year c"
    by (simp_all add: calendar_accepts_def second_def)
  obtain t where "date_UTC (uc_year c) (uc_month c - 1) (uc_day c) (uc_hour c) (uc_minute c) second
      = Some t" "getUTCFullYear t = uc_year c" "getUTCMonth t = uc_month c - 1"
    "getUTCDate t = uc_day c" "getUTCHours t = uc_hour c" "getUTCMinutes t = uc_minute c"
    "getUTCSeconds t = second"
    using * assms(2) by (rule date_UTC_valid)
  with True show ?thesis
    by (simp add: componentsToUtcIso_def second_def [symmetric])
next
  case False
  have "componentsToUtcIso c = None"
  proof (rule ccontr)
    assume "componentsToUtcIso c \<noteq> None"
    then obtain t where t: "date_UTC (uc_year c) (uc_month c - 1) (uc_day c) (uc_hour c)
          (uc_minute c) (case uc_second c of None \<Rightarrow> 0 | Some s \<Rightarrow> s) = Some t"
      and eq: "getUTCFullYear t = uc_year c" "getUTCMonth t = uc_month c - 1"
        "getUTCDate t = uc_day c" "getUTCHours t = uc_hour c" "getUTCMinutes t = uc_minute c"
        "getUTCSeconds t = (case uc_second c of None \<Rightarrow> 0 | Some s \<Rightarrow> s)"
      by (auto simp: componentsToUtcIso_def Let_def split: option.splits if_splits)
    from accessors_valid [of t] eq
    have v: "valid_date (uc_year c) (uc_month c) (uc_day c)"
      "valid_clock (uc_hour c) (uc_minute c) (case uc_second c of None \<Rightarrow> 0 | Some s \<Rightarrow> s)"
      by simp_all
    with False have "uc_year c \<le> 99" by (simp add: calendar_accepts_def)
    from two_digit_year_lost [OF t v assms(1) this eq(1-3)] show False .
  qed
  with False show ?thesis by simp
qed

text \<open>
  For every year of four digits or fewer the function answers exactly when the components
  name an instant of the Gregorian calendar with a year of at least 100, and then with those
  components in ISO form. (Years below 100 are lost to the century offset of \<open>Date.UTC\<close>.)
\<close>
theorem componentsToUtcIso_calendar:
  assumes "0 \<le> uc_year c" "uc_year c \<le> 9999"
  shows "componentsToUtcIso c =
    (if calendar_accepts c
     then Some (iso_text (uc_year c) (uc_month c) (uc_day c) (uc_hour c) (uc_minute c)
       (case uc_second c of None \<Rightarrow> 0 | Some s \<Rightarrow> s))
     else None)"
  using assms by (rule componentsToUtcIso_calendar_aux)

theorem componentsToUtcIso_calendar_witness:
  "componentsToUtcIso \<lparr>uc_day = 29, uc_hour = 13, uc_minute = 5, uc_month = 2, uc_second = None,
      uc_year = 2024\<rparr> = Some ''2024-02-29T13:05:00.000Z''
   \<and> componentsToUtcIso \<lparr>uc_day = 31, uc_hour = 13, uc_minute = 5, uc_month = 4, uc_second = None,
      uc_year = 2026\<rparr> = None"
  by (subst (1 2) componentsToUtcIso_calendar) (simp_all, code_simp)

subsection \<open>\<open>epochToUtcIso\<close>\<close>

definition iso_year :: "int \<Rightarrow> string" where
  "iso_year y =
     (if 0 \<le> y \<and> y \<le> 9999 then padFour y
      else (if y < 0 then ''-'' else ''+'') @ pad_start 6 (CHR ''0'') (show_nat (nat \<bar>y\<bar>)))"

definition toISOString :: "int \<Rightarrow> string" where
  "toISOString t =
     iso_year (getUTCFullYear t) @ ''-'' @ padTwo (getUTCMonth t + 1) @ ''-'' @ padTwo (getUTCDate t)
       @ ''T'' @ padTwo (getUTCHours t) @ '':'' @ padTwo (getUTCMinutes t) @ '':''
       @ padTwo (getUTCSeconds t) @ ''.'' @ pad_start 3 (CHR ''0'') (show_int (getUTCMilliseconds t))
       @ ''Z''"

definition EPOCH_LOWER_BOUND_SECONDS :: nat where
  "EPOCH_LOWER_BOUND_SECONDS = 1420070400"

definition EPOCH_UPPER_BOUND_SECONDS :: nat where
  "EPOCH_UPPER_BOUND_SECONDS = 2051222400"

text \<open>
  \<open>Number(externalId)\<close> of a string of digits is read as the exact natural number; beyond
  \<open>2\<^sup>5\<^sup>3\<close> the language rounds, where the code has already refused the value as out of range.
\<close>

definition epochToUtcIso :: "string \<Rightarrow> string option" where
  "epochToUtcIso externalId =
     (if \<not> all_digits externalId then None
      else let seconds = nat_of_digits externalId
           in if show_nat seconds \<noteq> externalId then None
              else if seconds < EPOCH_LOWER_BOUND_SECONDS \<or> seconds > EPOCH_UPPER_BOUND_SECONDS
              then None
              else Some (toISOString (int seconds * 1000)))"

lemma epochToUtcIso_Some_iff:
  "epochToUtcIso s = Some stamp \<longleftrightarrow>
     (\<exists>n. EPOCH_LOWER_BOUND_SECONDS \<le> n \<and> n \<le> EPOCH_UPPER_BOUND_SECONDS \<and> s = show_nat n
        \<and> stamp = toISOString (int n * 1000))"
proof
  assume "epochToUtcIso s = Some stamp"
  then show "\<exists>n. EPOCH_LOWER_BOUND_SECONDS \<le> n \<and> n \<le> EPOCH_UPPER_BOUND_SECONDS \<and> s = show_nat n
      \<and> stamp = toISOString (int n * 1000)"
    by (intro exI [of _ "nat_of_digits s"])
       (auto simp: epochToUtcIso_def Let_def split: if_split_asm)
qed (auto simp: epochToUtcIso_def Let_def)

subsection \<open>The text determines the instant\<close>

lemma make_day_of_accessors:
  "make_day (getUTCFullYear t) (getUTCMonth t) (getUTCDate t) = day_of t"
  using month_from_yday_range [of "leap_year (getUTCFullYear t)" "yday_of t"]
  by (simp add: make_day_def getUTCDate_def getUTCMonth_def yday_of_def Let_def)

lemma instant_of_accessors:
  "t = day_of t * 86400000
     + make_time (getUTCHours t) (getUTCMinutes t) (getUTCSeconds t) (getUTCMilliseconds t)"
proof -
  have a: "t = 1000 * (t div 1000) + t mod 1000"
    "t div 1000 = 60 * (t div 1000 div 60) + t div 1000 mod 60"
    "t div 60000 = 60 * (t div 60000 div 60) + t div 60000 mod 60"
    "t div 3600000 = 24 * (t div 3600000 div 24) + t div 3600000 mod 24" by simp_all
  have "t div 1000 div 60 = t div 60000" "t div 60000 div 60 = t div 3600000"
    "t div 3600000 div 24 = t div 86400000" by (simp_all add: zdiv_zmult2_eq [symmetric])
  note b = a [unfolded this]
  show ?thesis
    unfolding make_time_def day_of_def getUTCHours_def getUTCMinutes_def getUTCSeconds_def
      getUTCMilliseconds_def
    using b by linarith
qed

lemma pad_inj:
  assumes "0 \<le> x" "0 \<le> y"
    "pad_start k (CHR ''0'') (show_int x) = pad_start k (CHR ''0'') (show_int y)"
  shows "x = y"
proof -
  have "nat x = nat y"
    using arg_cong [OF assms(3), of nat_of_digits] assms(1,2)
    by (simp add: show_int_def nat_of_digits_pad)
  with assms(1,2) show ?thesis by simp
qed

lemma length_padTwo: "0 \<le> v \<Longrightarrow> v \<le> 99 \<Longrightarrow> length (padTwo v) = 2"
  using length_show_nat_le [of 2 "nat v"] by (simp add: padTwo_def length_pad_start show_int_def)

lemma length_padFour: "0 \<le> v \<Longrightarrow> v \<le> 9999 \<Longrightarrow> length (padFour v) = 4"
  using length_show_nat_le [of 4 "nat v"] by (simp add: padFour_def length_pad_start show_int_def)

lemma append_pad_inj:
  assumes "padTwo x @ r = padTwo y @ r'" "0 \<le> x" "x \<le> 99" "0 \<le> y" "y \<le> 99"
  shows "x = y \<and> r = r'"
proof -
  have "length (padTwo x) = length (padTwo y)"
    using length_padTwo [OF assms(2,3)] length_padTwo [OF assms(4,5)] by (simp only:)
  then have e: "padTwo x = padTwo y" "r = r'"
    using assms(1) append_eq_append_conv [of "padTwo x" "padTwo y" r r'] by blast+
  have "x = y" by (rule pad_inj [OF assms(2,4) e(1) [unfolded padTwo_def]])
  with e show ?thesis by simp
qed

lemma epoch_instant:
  assumes "EPOCH_LOWER_BOUND_SECONDS \<le> n" "n \<le> EPOCH_UPPER_BOUND_SECONDS"
  defines "t \<equiv> int n * 1000"
  shows "2015 \<le> getUTCFullYear t \<and> getUTCFullYear t \<le> 2035" "getUTCMilliseconds t = 0"
    "toISOString t = iso_text (getUTCFullYear t) (getUTCMonth t + 1) (getUTCDate t) (getUTCHours t)
       (getUTCMinutes t) (getUTCSeconds t)"
proof -
  let ?y = "getUTCFullYear t"
  have n: "1420070400 \<le> int n" "int n \<le> 2051222400"
    using assms(1,2) by (simp_all add: EPOCH_LOWER_BOUND_SECONDS_def EPOCH_UPPER_BOUND_SECONDS_def)
  then have d: "16436 \<le> day_of t" "day_of t \<le> 23741"
    using int_div_bounds [of 86400000 t] unfolding day_of_def t_def by linarith+
  have b: "day_from_year 2015 = 16436" "day_from_year 2036 = 24106"
    by (simp_all add: day_from_year_def)
  show y: "2015 \<le> ?y \<and> ?y \<le> 2035"
    using year_from_day_bounds [of "day_of t"] d b day_from_year_mono [of "?y + 1" 2015]
      day_from_year_mono [of 2036 ?y]
    unfolding getUTCFullYear_def by linarith
  show ms: "getUTCMilliseconds t = 0" by (simp add: getUTCMilliseconds_def t_def)
  have "pad_start 3 (CHR ''0'') (show_int 0) = ''000''" by code_simp
  with y show "toISOString t = iso_text (getUTCFullYear t) (getUTCMonth t + 1) (getUTCDate t)
      (getUTCHours t) (getUTCMinutes t) (getUTCSeconds t)"
    by (simp add: toISOString_def iso_text_def iso_year_def ms)
qed

lemma append_padFour_inj:
  assumes "padFour x @ r = padFour y @ r'" "0 \<le> x" "x \<le> 9999" "0 \<le> y" "y \<le> 9999"
  shows "x = y \<and> r = r'"
proof -
  have "length (padFour x) = length (padFour y)"
    using length_padFour [OF assms(2,3)] length_padFour [OF assms(4,5)] by (simp only:)
  then have e: "padFour x = padFour y" "r = r'"
    using assms(1) append_eq_append_conv [of "padFour x" "padFour y" r r'] by blast+
  have "x = y" by (rule pad_inj [OF assms(2,4) e(1) [unfolded padFour_def]])
  with e show ?thesis by simp
qed

lemma padTwo_inj: "padTwo x = padTwo y \<Longrightarrow> 0 \<le> x \<Longrightarrow> x \<le> 99 \<Longrightarrow> 0 \<le> y \<Longrightarrow> y \<le> 99 \<Longrightarrow> x = y"
  using append_pad_inj [of x "[]" y "[]"] by simp

lemma iso_text_inj:
  assumes "iso_text y m d h mi s = iso_text y' m' d' h' mi' s'"
    and v: "valid_date y m d" "valid_clock h mi s" "0 \<le> y" "y \<le> 9999"
      "valid_date y' m' d'" "valid_clock h' mi' s'" "0 \<le> y'" "y' \<le> 9999"
  shows "y = y' \<and> m = m' \<and> d = d' \<and> h = h' \<and> mi = mi' \<and> s = s'"
proof -
  have r: "0 \<le> m" "m \<le> 99" "0 \<le> d" "d \<le> 99" "0 \<le> m'" "m' \<le> 99" "0 \<le> d'" "d' \<le> 99"
    using v days_in_month_bounds [of "m - 1" "leap_year y"]
      days_in_month_bounds [of "m' - 1" "leap_year y'"] by (auto simp: valid_date_def)
  have c: "0 \<le> h" "h \<le> 99" "0 \<le> mi" "mi \<le> 99" "0 \<le> s" "s \<le> 99"
    "0 \<le> h'" "h' \<le> 99" "0 \<le> mi'" "mi' \<le> 99" "0 \<le> s'" "s' \<le> 99"
    using v by (auto simp: valid_clock_def)
  show ?thesis
    using assms(1) r c v(3,4,7,8)
    unfolding iso_text_def
    by (auto dest!: append_padFour_inj append_pad_inj dest: padTwo_inj)
qed

lemma epoch_components:
  assumes "EPOCH_LOWER_BOUND_SECONDS \<le> n" "n \<le> EPOCH_UPPER_BOUND_SECONDS"
  defines "t \<equiv> int n * 1000"
  shows "componentsToUtcIso \<lparr>uc_day = getUTCDate t, uc_hour = getUTCHours t,
      uc_minute = getUTCMinutes t, uc_month = getUTCMonth t + 1,
      uc_second = Some (getUTCSeconds t), uc_year = getUTCFullYear t\<rparr> = Some (toISOString t)"
  using epoch_instant [OF assms(1,2)] accessors_valid [of t]
  by (subst componentsToUtcIso_calendar_aux) (simp_all add: t_def calendar_accepts_def)

lemma toISOString_epoch_inj:
  assumes "EPOCH_LOWER_BOUND_SECONDS \<le> n" "n \<le> EPOCH_UPPER_BOUND_SECONDS"
    "EPOCH_LOWER_BOUND_SECONDS \<le> k" "k \<le> EPOCH_UPPER_BOUND_SECONDS"
    "toISOString (int n * 1000) = toISOString (int k * 1000)"
  shows "n = k"
proof -
  let ?t = "int n * 1000" and ?u = "int k * 1000"
  note t = epoch_instant [OF assms(1,2)] and u = epoch_instant [OF assms(3,4)]
  have "getUTCFullYear ?t = getUTCFullYear ?u \<and> getUTCMonth ?t + 1 = getUTCMonth ?u + 1
      \<and> getUTCDate ?t = getUTCDate ?u \<and> getUTCHours ?t = getUTCHours ?u
      \<and> getUTCMinutes ?t = getUTCMinutes ?u \<and> getUTCSeconds ?t = getUTCSeconds ?u"
    by (rule iso_text_inj)
       (use assms(5) t u accessors_valid [of ?t] accessors_valid [of ?u] in auto)
  then have "?t = ?u"
    using make_day_of_accessors [of ?t] make_day_of_accessors [of ?u] t(2) u(2)
      instant_of_accessors [of ?t] instant_of_accessors [of ?u] by simp
  then show ?thesis by simp
qed

lemma epochToUtcIso_inj:
  assumes "epochToUtcIso s = Some stamp" "epochToUtcIso s' = Some stamp"
  shows "s = s'"
proof -
  obtain n k where "s = show_nat n" "s' = show_nat k" "stamp = toISOString (int n * 1000)"
    "stamp = toISOString (int k * 1000)" "EPOCH_LOWER_BOUND_SECONDS \<le> n"
    "n \<le> EPOCH_UPPER_BOUND_SECONDS" "EPOCH_LOWER_BOUND_SECONDS \<le> k" "k \<le> EPOCH_UPPER_BOUND_SECONDS"
    using assms by (auto simp: epochToUtcIso_Some_iff)
  then show ?thesis using toISOString_epoch_inj [of n k] by simp
qed

text \<open>
  The identifiers that become timestamps are exactly the canonical decimal numbers of
  seconds in the window 2015 to 2035; the timestamp is the text \<open>componentsToUtcIso\<close> gives the
  same instant, and two different identifiers never share one.
\<close>
theorem epochToUtcIso_exact:
  "(epochToUtcIso s = Some stamp \<longleftrightarrow>
     (\<exists>n. 1420070400 \<le> n \<and> n \<le> 2051222400 \<and> s = show_nat n
        \<and> (let t = int n * 1000 in
           componentsToUtcIso \<lparr>uc_day = getUTCDate t, uc_hour = getUTCHours t,
             uc_minute = getUTCMinutes t, uc_month = getUTCMonth t + 1,
             uc_second = Some (getUTCSeconds t), uc_year = getUTCFullYear t\<rparr> = Some stamp)))
   \<and> (epochToUtcIso s = None \<or> (epochToUtcIso s = epochToUtcIso s') = (s = s'))"
proof (intro conjI)
  note bounds = EPOCH_LOWER_BOUND_SECONDS_def EPOCH_UPPER_BOUND_SECONDS_def
  show "epochToUtcIso s = Some stamp \<longleftrightarrow>
     (\<exists>n. 1420070400 \<le> n \<and> n \<le> 2051222400 \<and> s = show_nat n
        \<and> (let t = int n * 1000 in
           componentsToUtcIso \<lparr>uc_day = getUTCDate t, uc_hour = getUTCHours t,
             uc_minute = getUTCMinutes t, uc_month = getUTCMonth t + 1,
             uc_second = Some (getUTCSeconds t), uc_year = getUTCFullYear t\<rparr> = Some stamp))"
    using epoch_components by (auto simp: epochToUtcIso_Some_iff bounds Let_def)
  show "epochToUtcIso s = None \<or> (epochToUtcIso s = epochToUtcIso s') = (s = s')"
    using epochToUtcIso_inj [of s _ s'] by (cases "epochToUtcIso s") auto
qed

subsection \<open>Dates in listings and in filenames\<close>

text \<open>
  The regular expressions of the two parsers, as scanners that consume a prefix: \<open>\\d{n}\<close>,
  a literal text, and \<open>\\s+\<close> (whose class is that of \<open>trim\<close>). No expression can match in
  two ways: a run of spaces ends where a digit begins.
\<close>

definition scan_digits :: "nat \<Rightarrow> string \<Rightarrow> (int \<times> string) option" where
  "scan_digits n s =
     (if length (take n s) = n \<and> list_all is_digit (take n s)
      then Some (int (nat_of_digits (take n s)), drop n s) else None)"

definition scan_text :: "string \<Rightarrow> string \<Rightarrow> string option" where
  "scan_text p s = (if starts_with s p then Some (drop (length p) s) else None)"

definition scan_spaces :: "string \<Rightarrow> string option" where
  "scan_spaces s =
     (case s of [] \<Rightarrow> None | c # _ \<Rightarrow> if js_space c then Some (dropWhile js_space s) else None)"

definition parseGameDateToUtcIso :: "string \<Rightarrow> string option" where
  "parseGameDateToUtcIso cell =
     do { (day, s) \<leftarrow> scan_digits 2 (js_trim cell);
          s \<leftarrow> scan_text ''.'' s;
          (month, s) \<leftarrow> scan_digits 2 s;
          s \<leftarrow> scan_text ''.'' s;
          (year, s) \<leftarrow> scan_digits 4 s;
          s \<leftarrow> scan_spaces s;
          (hour, s) \<leftarrow> scan_digits 2 s;
          s \<leftarrow> scan_text '':'' s;
          (minute, s) \<leftarrow> scan_digits 2 s;
          if s \<noteq> [] then None
          else componentsToUtcIso \<lparr>uc_day = day, uc_hour = hour, uc_minute = minute,
                 uc_month = month, uc_second = None, uc_year = year\<rparr> }"

definition replayTimestampFromFilename :: "string \<Rightarrow> string option" where
  "replayTimestampFromFilename filename =
     do { (year, s) \<leftarrow> scan_digits 4 filename;
          s \<leftarrow> scan_text ''_'' s;
          (month, s) \<leftarrow> scan_digits 2 s;
          s \<leftarrow> scan_text ''_'' s;
          (day, s) \<leftarrow> scan_digits 2 s;
          s \<leftarrow> scan_text ''__'' s;
          (hour, s) \<leftarrow> scan_digits 2 s;
          s \<leftarrow> scan_text ''_'' s;
          (minute, s) \<leftarrow> scan_digits 2 s;
          s \<leftarrow> scan_text ''_'' s;
          (second, s) \<leftarrow> scan_digits 2 s;
          s \<leftarrow> scan_text ''__'' s;
          componentsToUtcIso \<lparr>uc_day = day, uc_hour = hour, uc_minute = minute,
            uc_month = month, uc_second = Some second, uc_year = year\<rparr> }"

lemma scan_text_append [simp]: "scan_text p (p @ s) = Some s"
  by (simp add: scan_text_def starts_with_def)

lemma pad_digits: "0 \<le> v \<Longrightarrow> list_all is_digit (pad_start k (CHR ''0'') (show_int v))"
  using show_nat_digits [of "nat v"]
  by (auto simp: pad_start_def show_int_def list_all_iff is_digit_def [of "CHR ''0''"])

lemma nat_of_digits_pad_int: "0 \<le> v \<Longrightarrow> int (nat_of_digits (pad_start k (CHR ''0'') (show_int v))) = v"
  by (simp add: show_int_def nat_of_digits_pad)

lemma scan_padTwo: "0 \<le> v \<Longrightarrow> v \<le> 99 \<Longrightarrow> scan_digits 2 (padTwo v @ s) = Some (v, s)"
  using length_padTwo [of v] pad_digits [of v 2] nat_of_digits_pad_int [of v 2]
  by (simp add: scan_digits_def padTwo_def)

lemma scan_padFour: "0 \<le> v \<Longrightarrow> v \<le> 9999 \<Longrightarrow> scan_digits 4 (padFour v @ s) = Some (v, s)"
  using length_padFour [of v] pad_digits [of v 4] nat_of_digits_pad_int [of v 4]
  by (simp add: scan_digits_def padFour_def)

lemma digit_not_space: "is_digit c \<Longrightarrow> \<not> js_space c"
  by (auto simp: is_digit_def js_space_def Let_def)

lemma trim_game_date:
  assumes "s \<noteq> []" "\<not> js_space (hd s)" "\<not> js_space (last s)"
    "list_all js_space pre" "list_all js_space post"
  shows "js_trim (pre @ s @ post) = s"
proof -
  have "dropWhile js_space (pre @ s @ post) = s @ post"
    using assms(1,2,4) by (cases s) (auto simp: list_all_iff dropWhile_append2)
  moreover have "dropWhile js_space (rev (s @ post)) = rev s"
    using assms(1,3) dropWhile_append2 [of "rev post" js_space] assms(5)
    by (cases s rule: rev_cases) (simp_all add: list_all_iff)
  ultimately show ?thesis by (simp add: js_trim_def)
qed

lemma scan_spaces_one: "\<not> js_space c \<Longrightarrow> scan_spaces ('' '' @ c # s) = Some (c # s)"
  by (simp add: scan_spaces_def js_space_def)

lemma padTwo_ends:
  assumes "0 \<le> v" "v \<le> 99"
  shows "padTwo v \<noteq> [] \<and> \<not> js_space (hd (padTwo v)) \<and> \<not> js_space (last (padTwo v))"
proof -
  have l: "length (padTwo v) = 2" using assms by (rule length_padTwo)
  then have "padTwo v \<noteq> []" by auto
  moreover have "\<forall>c\<in>set (padTwo v). \<not> js_space c"
    using pad_digits [OF assms(1), of 2] by (simp add: padTwo_def list_all_iff digit_not_space)
  ultimately show ?thesis by simp
qed

text \<open>
  Both parsers read back what the two source formats write. A game-date cell (with any white
  space around it) and a filename that carry the same fields give the same answer, that of
  \<open>componentsToUtcIso\<close> on these fields.
\<close>
theorem date_parsers_read_fields:
  assumes "0 \<le> y" "y \<le> 9999" "0 \<le> m" "m \<le> 99" "0 \<le> d" "d \<le> 99" "0 \<le> h" "h \<le> 99"
    "0 \<le> mi" "mi \<le> 99" "0 \<le> s" "s \<le> 99" "list_all js_space pre" "list_all js_space post"
  shows "parseGameDateToUtcIso (pre @ (padTwo d @ ''.'' @ padTwo m @ ''.'' @ padFour y @ '' ''
             @ padTwo h @ '':'' @ padTwo mi) @ post) =
           componentsToUtcIso \<lparr>uc_day = d, uc_hour = h, uc_minute = mi, uc_month = m,
             uc_second = None, uc_year = y\<rparr>
       \<and> replayTimestampFromFilename (padFour y @ ''_'' @ padTwo m @ ''_'' @ padTwo d @ ''__''
             @ padTwo h @ ''_'' @ padTwo mi @ ''_'' @ padTwo s @ ''__'' @ rest) =
           componentsToUtcIso \<lparr>uc_day = d, uc_hour = h, uc_minute = mi, uc_month = m,
             uc_second = Some s, uc_year = y\<rparr>"
proof
  let ?cell = "padTwo d @ ''.'' @ padTwo m @ ''.'' @ padFour y @ '' '' @ padTwo h @ '':'' @ padTwo mi"
  note ends = padTwo_ends [OF assms(5,6)] padTwo_ends [OF assms(7,8)] padTwo_ends [OF assms(9,10)]
  have trim: "js_trim (pre @ ?cell @ post) = ?cell"
    by (rule trim_game_date) (use ends assms(13,14) in auto)
  have sp: "scan_spaces ('' '' @ padTwo h @ r) = Some (padTwo h @ r)" for r
    using ends(2) scan_spaces_one [of "hd (padTwo h)" "tl (padTwo h) @ r"]
    by (metis append_Cons list.collapse)
  have last2: "scan_digits 2 (padTwo mi) = Some (mi, [])"
    using scan_padTwo [OF assms(9,10), of "[]"] by simp
  show "parseGameDateToUtcIso (pre @ ?cell @ post) =
      componentsToUtcIso \<lparr>uc_day = d, uc_hour = h, uc_minute = mi, uc_month = m,
        uc_second = None, uc_year = y\<rparr>"
    unfolding parseGameDateToUtcIso_def trim
    by (simp only: scan_padTwo scan_padFour scan_text_append sp last2 assms(1-10)
        Option.bind_lunit prod.case not_True_eq_False if_False refl)
  show "replayTimestampFromFilename (padFour y @ ''_'' @ padTwo m @ ''_'' @ padTwo d @ ''__''
         @ padTwo h @ ''_'' @ padTwo mi @ ''_'' @ padTwo s @ ''__'' @ rest) =
       componentsToUtcIso \<lparr>uc_day = d, uc_hour = h, uc_minute = mi, uc_month = m,
         uc_second = Some s, uc_year = y\<rparr>"
    unfolding replayTimestampFromFilename_def
    by (simp only: scan_padTwo scan_padFour scan_text_append assms(1-12) Option.bind_lunit prod.case)
qed

theorem date_parsers_read_fields_witness:
  "parseGameDateToUtcIso '' 09.05.2026 18:04  '' = Some ''2026-05-09T18:04:00.000Z''
   \<and> replayTimestampFromFilename ''2026_05_09__18_04_07__mission'' = Some ''2026-05-09T18:04:07.000Z''"
proof -
  have "parseGameDateToUtcIso ('' '' @ (padTwo 9 @ ''.'' @ padTwo 5 @ ''.'' @ padFour 2026 @ '' ''
      @ padTwo 18 @ '':'' @ padTwo 4) @ ''  '') = componentsToUtcIso \<lparr>uc_day = 9, uc_hour = 18,
        uc_minute = 4, uc_month = 5, uc_second = None, uc_year = 2026\<rparr>
    \<and> replayTimestampFromFilename (padFour 2026 @ ''_'' @ padTwo 5 @ ''_'' @ padTwo 9 @ ''__''
        @ padTwo 18 @ ''_'' @ padTwo 4 @ ''_'' @ padTwo 7 @ ''__'' @ ''mission'') =
      componentsToUtcIso \<lparr>uc_day = 9, uc_hour = 18, uc_minute = 4, uc_month = 5,
        uc_second = Some 7, uc_year = 2026\<rparr>"
    by (rule date_parsers_read_fields) (simp_all add: js_space_def)
  moreover have "padTwo 9 = ''09''" "padTwo 5 = ''05''" "padTwo 18 = ''18''" "padTwo 4 = ''04''"
    "padTwo 7 = ''07''" "padFour 2026 = ''2026''"
    by code_simp+
  moreover have "componentsToUtcIso \<lparr>uc_day = 9, uc_hour = 18, uc_minute = 4, uc_month = 5,
      uc_second = None, uc_year = 2026\<rparr> = Some ''2026-05-09T18:04:00.000Z''"
    "componentsToUtcIso \<lparr>uc_day = 9, uc_hour = 18, uc_minute = 4, uc_month = 5,
      uc_second = Some 7, uc_year = 2026\<rparr> = Some ''2026-05-09T18:04:07.000Z''"
    by code_simp+
  ultimately show ?thesis by simp
qed

end
