(* ===== verification/Staging.thy ===== *)
theory Staging
  imports Raw_Storage Calendar_Time
begin

text \<open>
  From raw evidence to a staging row: the payload of \<open>src/staging/payload.ts\<close>, the repository of
  \<open>src/staging/postgres-staging-repository.ts\<close> and the step of \<open>src/staging/stage-raw-replay.ts\<close>.

  The table is the list of its rows, with the two unique keys that the statements rely on
  (\<open>src/staging/staging-schema.fixtures.ts\<close>), and each statement is the SQL of the source over
  that list. What the database server does around a statement is a turn of an environment
  \<open>env\<close>: the rows other sessions manage to insert before it, the identifier it would generate,
  and whether the statement fails, before or after taking effect. Statements count their turns.
\<close>

subsection \<open>The payload\<close>

record promotion_evidence =
  pe_bucket :: string
  pe_byteSize :: nat
  pe_checksum :: string
  pe_discoveredAt :: "string option"
  pe_fetchedAt :: string
  pe_objectKey :: string
  pe_rawStorageStatus :: raw_status
  pe_run_id :: "string option"
  pe_sourceExternalId :: "string option"
  pe_sourceFilename :: string
  pe_sourceUrl :: string

record staging_payload =
  pl_checksum :: string
  pl_objectKey :: string
  pl_promotionEvidence :: promotion_evidence
  pl_replayTimestamp :: "string option"
  pl_sizeBytes :: nat
  pl_sourceReplayId :: string
  pl_sourceSystem :: string

definition defaultSourceSystem :: string where "defaultSourceSystem = ''sg-zone''"

definition isStageable :: "raw_evidence \<Rightarrow> bool" where
  "isStageable e \<longleftrightarrow> rv_status e = RawStored \<or> rv_status e = RawSkipped"

definition sanitizeSourceUrl :: "(string \<Rightarrow> url option) \<Rightarrow> string \<Rightarrow> string" where
  "sanitizeSourceUrl parse_url sourceUrl = (case parse_url sourceUrl of
       Some cleaned \<Rightarrow> href (cleaned\<lparr>url_username := [], url_password := []\<rparr>)
     | None \<Rightarrow> sourceUrl)"

definition derived_text :: "raw_evidence \<Rightarrow> string" where
  "derived_text e = rs_url (rv_source e) @ [CHR 0x0A] @ rv_sourceFilename e @ [CHR 0x0A] @ rv_checksum e"

definition toSourceReplayId :: "(bytes \<Rightarrow> string) \<Rightarrow> raw_evidence \<Rightarrow> string" where
  "toSourceReplayId sha256 e = (case rs_externalId (rv_source e) of
       Some externalId \<Rightarrow> externalId
     | None \<Rightarrow> ''derived:'' @ sha256 (utf8_bytes (derived_text e)))"

definition first_some :: "'a option \<Rightarrow> 'a option \<Rightarrow> 'a option" where
  "first_some a b = (case a of Some x \<Rightarrow> Some x | None \<Rightarrow> b)"

definition replay_timestamp :: "raw_evidence \<Rightarrow> string option" where
  "replay_timestamp e =
     first_some (Option.bind (rs_externalId (rv_source e)) epochToUtcIso)
       (first_some (replayTimestampFromFilename (rv_sourceFilename e)) (rv_discoveredAt e))"

definition basePayload ::
    "(bytes \<Rightarrow> string) \<Rightarrow> raw_evidence \<Rightarrow> string \<Rightarrow> promotion_evidence \<Rightarrow> staging_payload" where
  "basePayload sha256 e sourceSystem promotion =
     \<lparr>pl_checksum = rv_checksum e, pl_objectKey = rv_objectKey e, pl_promotionEvidence = promotion,
      pl_replayTimestamp = replay_timestamp e, pl_sizeBytes = rv_byteSize e,
      pl_sourceReplayId = toSourceReplayId sha256 e, pl_sourceSystem = sourceSystem\<rparr>"

definition toPayload ::
    "(string \<Rightarrow> url option) \<Rightarrow> (bytes \<Rightarrow> string) \<Rightarrow> raw_evidence \<Rightarrow> string \<Rightarrow> string option \<Rightarrow> staging_payload" where
  "toPayload parse_url sha256 e sourceSystem runId =
     basePayload sha256 e sourceSystem
       \<lparr>pe_bucket = rv_bucket e, pe_byteSize = rv_byteSize e, pe_checksum = rv_checksum e,
        pe_discoveredAt = rv_discoveredAt e, pe_fetchedAt = rv_fetchedAt e,
        pe_objectKey = rv_objectKey e, pe_rawStorageStatus = rv_status e, pe_run_id = runId,
        pe_sourceExternalId = rs_externalId (rv_source e), pe_sourceFilename = rv_sourceFilename e,
        pe_sourceUrl = sanitizeSourceUrl parse_url (rs_url (rv_source e))\<rparr>"

definition raw_status_name :: "raw_status \<Rightarrow> string" where
  "raw_status_name st = (case st of RawStored \<Rightarrow> ''stored'' | RawSkipped \<Rightarrow> ''skipped''
     | RawConflict \<Rightarrow> ''conflict'' | RawFailed \<Rightarrow> ''failed'')"

definition not_stageable_reason :: "raw_status \<Rightarrow> string" where
  "not_stageable_reason st = ''Raw storage status '' @ raw_status_name st @ '' is not stageable''"

definition toIngestStagingPayload ::
    "(string \<Rightarrow> url option) \<Rightarrow> (bytes \<Rightarrow> string) \<Rightarrow> raw_evidence \<Rightarrow> string option \<Rightarrow> string option
      \<Rightarrow> string + staging_payload" where
  "toIngestStagingPayload parse_url sha256 e runId sourceSystem =
     (if \<not> isStageable e then Inl (not_stageable_reason (rv_status e))
      else Inr (toPayload parse_url sha256 e
        (case sourceSystem of Some sys \<Rightarrow> sys | None \<Rightarrow> defaultSourceSystem) runId))"

subsection \<open>The table\<close>

record staging_row =
  sg_checksum :: string
  sg_id :: string
  sg_objectKey :: string
  sg_sourceReplayId :: string
  sg_sourceSystem :: string
  sg_status :: string

datatype db_fault = NoFault | FailsBefore "string option" | FailsAfter "string option"

record db_turn =
  dt_others :: "staging_row list"
  dt_id :: string
  dt_fault :: db_fault

record staging_db =
  db_rows :: "staging_row list"
  db_turns :: nat

definition same_object :: "string \<Rightarrow> string \<Rightarrow> staging_row \<Rightarrow> bool" where
  "same_object checksum objectKey row \<longleftrightarrow> sg_checksum row = checksum \<and> sg_objectKey row = objectKey"

definition same_source :: "string \<Rightarrow> string \<Rightarrow> staging_row \<Rightarrow> bool" where
  "same_source sourceSystem sourceReplayId row \<longleftrightarrow>
     sg_sourceSystem row = sourceSystem \<and> sg_sourceReplayId row = sourceReplayId"

definition admits :: "staging_row list \<Rightarrow> staging_row \<Rightarrow> bool" where
  "admits rows row \<longleftrightarrow>
     \<not> list_ex (same_object (sg_checksum row) (sg_objectKey row)) rows \<and>
     \<not> list_ex (same_source (sg_sourceSystem row) (sg_sourceReplayId row)) rows"

definition insert_if_admitted :: "staging_row list \<Rightarrow> staging_row \<Rightarrow> staging_row list" where
  "insert_if_admitted rows row = (if admits rows row then rows @ [row] else rows)"

definition begin_turn :: "(nat \<Rightarrow> db_turn) \<Rightarrow> staging_db \<Rightarrow> db_turn \<times> staging_db" where
  "begin_turn env db =
     (let t = env (db_turns db)
      in (t, db\<lparr>db_rows := foldl insert_if_admitted (db_rows db) (dt_others t), db_turns := db_turns db + 1\<rparr>))"

definition unique_violation :: "string option" where "unique_violation = Some ''23505''"

definition isUniqueViolation :: "string option \<Rightarrow> bool" where
  "isUniqueViolation code \<longleftrightarrow> code = unique_violation"

subsection \<open>The statements\<close>

definition row_of :: "staging_payload \<Rightarrow> string \<Rightarrow> staging_row" where
  "row_of p i = \<lparr>sg_checksum = pl_checksum p, sg_id = i, sg_objectKey = pl_objectKey p,
     sg_sourceReplayId = pl_sourceReplayId p, sg_sourceSystem = pl_sourceSystem p,
     sg_status = ''pending''\<rparr>"

definition run_insert :: "staging_payload \<Rightarrow> string \<Rightarrow> staging_row list
    \<Rightarrow> (string option + string option) \<times> staging_row list" where
  "run_insert p i rows =
     (if list_ex (same_object (pl_checksum p) (pl_objectKey p)) rows then (Inr None, rows)
      else if list_ex (same_source (pl_sourceSystem p) (pl_sourceReplayId p)) rows
      then (Inl unique_violation, rows)
      else (Inr (Some i), rows @ [row_of p i]))"

definition insertStaging :: "(nat \<Rightarrow> db_turn) \<Rightarrow> staging_payload \<Rightarrow> staging_db
    \<Rightarrow> (string option + string option) \<times> staging_db" where
  "insertStaging env p db =
     (case begin_turn env db of (t, db) \<Rightarrow>
        (case dt_fault t of
           FailsBefore code \<Rightarrow> (Inl code, db)
         | NoFault \<Rightarrow> apsnd (\<lambda>rows. db\<lparr>db_rows := rows\<rparr>) (run_insert p (dt_id t) (db_rows db))
         | FailsAfter code \<Rightarrow> (Inl code, db\<lparr>db_rows := snd (run_insert p (dt_id t) (db_rows db))\<rparr>)))"

definition run_select :: "(staging_row \<Rightarrow> bool) \<Rightarrow> (nat \<Rightarrow> db_turn) \<Rightarrow> staging_db
    \<Rightarrow> (string option + staging_row option) \<times> staging_db" where
  "run_select wanted env db =
     (case begin_turn env db of (t, db) \<Rightarrow>
        (case dt_fault t of
           NoFault \<Rightarrow> (Inr (List.find wanted (db_rows db)), db)
         | FailsBefore code \<Rightarrow> (Inl code, db)
         | FailsAfter code \<Rightarrow> (Inl code, db)))"

definition findBySourceIdentity where
  "findBySourceIdentity env p = run_select (same_source (pl_sourceSystem p) (pl_sourceReplayId p)) env"

definition findByObjectIdentity where
  "findByObjectIdentity env p = run_select (same_object (pl_checksum p) (pl_objectKey p)) env"

definition existsBySourceIdentity :: "(nat \<Rightarrow> db_turn) \<Rightarrow> string \<Rightarrow> string \<Rightarrow> staging_db
    \<Rightarrow> (string option + bool) \<times> staging_db" where
  "existsBySourceIdentity env sourceSystem sourceReplayId db =
     apfst (map_sum id (\<lambda>r. r \<noteq> None)) (run_select (same_source sourceSystem sourceReplayId) env db)"

subsection \<open>The repository\<close>

datatype staging_status = AlreadyStaged | Conflict | StagingFailed | NotStageable | Staged

record staging_result =
  sr_existing :: "staging_row option"
  sr_payload :: "staging_payload option"
  sr_reason :: "string option"
  sr_stagingId :: "string option"
  sr_status :: staging_status

definition staging_outcome ::
    "staging_status \<Rightarrow> staging_payload \<Rightarrow> staging_row option \<Rightarrow> string option \<Rightarrow> string option \<Rightarrow> staging_result" where
  "staging_outcome st p existing stagingId reason =
     \<lparr>sr_existing = existing, sr_payload = Some p, sr_reason = reason, sr_stagingId = stagingId, sr_status = st\<rparr>"

definition matchesPayload :: "staging_row \<Rightarrow> staging_payload \<Rightarrow> bool" where
  "matchesPayload row p \<longleftrightarrow> sg_checksum row = pl_checksum p \<and> sg_objectKey row = pl_objectKey p"

text \<open>A failed query rejects the promise: the left result carries the database's error code.\<close>

definition classifyExistingStaging :: "(nat \<Rightarrow> db_turn) \<Rightarrow> staging_payload \<Rightarrow> staging_db
    \<Rightarrow> (string option + staging_result) \<times> staging_db" where
  "classifyExistingStaging env p db =
     (case findBySourceIdentity env p db of
        (Inl code, db1) \<Rightarrow> (Inl code, db1)
      | (Inr (Some row), db1) \<Rightarrow>
          (if matchesPayload row p
           then Inr (staging_outcome AlreadyStaged p (Some row) (Some (sg_id row)) None)
           else Inr (staging_outcome Conflict p (Some row) None (Some ''source_identity_conflict'')), db1)
      | (Inr None, db1) \<Rightarrow>
          (case findByObjectIdentity env p db1 of
             (Inl code, db2) \<Rightarrow> (Inl code, db2)
           | (Inr (Some row), db2) \<Rightarrow>
               (Inr (staging_outcome Conflict p (Some row) None (Some ''raw_object_identity_conflict'')), db2)
           | (Inr None, db2) \<Rightarrow>
               (Inr (staging_outcome StagingFailed p None None (Some ''unique_violation_without_existing_staging'')), db2)))"

text \<open>
  The handler catches what the insert and the first lookup throw. It returns the promise of
  \<open>classifyExistingStaging\<close> without awaiting it, so what that throws is not caught.
\<close>

definition on_query_error :: "(nat \<Rightarrow> db_turn) \<Rightarrow> staging_payload \<Rightarrow> string option \<Rightarrow> staging_db
    \<Rightarrow> (string option + staging_result) \<times> staging_db" where
  "on_query_error env p code db =
     (if \<not> isUniqueViolation code
      then (Inr (staging_outcome StagingFailed p None None (Some ''staging_write_failed'')), db)
      else classifyExistingStaging env p db)"

definition stage :: "(nat \<Rightarrow> db_turn) \<Rightarrow> staging_payload \<Rightarrow> staging_db
    \<Rightarrow> (string option + staging_result) \<times> staging_db" where
  "stage env p db =
     (case insertStaging env p db of
        (Inl code, db1) \<Rightarrow> on_query_error env p code db1
      | (Inr (Some i), db1) \<Rightarrow> (Inr (staging_outcome Staged p None (Some i) None), db1)
      | (Inr None, db1) \<Rightarrow>
          (case findByObjectIdentity env p db1 of
             (Inl code, db2) \<Rightarrow> on_query_error env p code db2
           | (Inr (Some row), db2) \<Rightarrow>
               (Inr (staging_outcome AlreadyStaged p (Some row) (Some (sg_id row)) None), db2)
           | (Inr None, db2) \<Rightarrow> classifyExistingStaging env p db2))"

definition stageRawReplay ::
    "(string \<Rightarrow> url option) \<Rightarrow> (bytes \<Rightarrow> string) \<Rightarrow> (staging_payload \<Rightarrow> 's \<Rightarrow> (string option + staging_result) \<times> 's)
      \<Rightarrow> store_result \<Rightarrow> string option \<Rightarrow> 's \<Rightarrow> (string option + staging_result) \<times> 's" where
  "stageRawReplay parse_url sha256 repository rawResult runId s =
     (let rejected = (\<lambda>reason. Inr \<lparr>sr_existing = None, sr_payload = None, sr_reason = Some reason,
            sr_stagingId = None, sr_status = NotStageable\<rparr>)
      in case rawResult of
           FetchFailed _ \<Rightarrow> (rejected (not_stageable_reason RawFailed), s)
         | Evidence e \<Rightarrow>
             (case toIngestStagingPayload parse_url sha256 e runId None of
                Inl reason \<Rightarrow> (rejected reason, s)
              | Inr payload \<Rightarrow> repository payload s))"

subsection \<open>The contract of a staging repository\<close>

text \<open>
  What a caller that stages replay after replay relies on: a payload reported as staged or
  already staged is recorded, and nothing that is recorded is ever dropped.
\<close>

locale staging_repository =
  fixes stage_one :: "'p \<Rightarrow> 's \<Rightarrow> ('e + staging_result) \<times> 's"
    and recorded :: "'s \<Rightarrow> 'p \<Rightarrow> bool"
  assumes success_recorded: "stage_one p s = (Inr r, s') \<Longrightarrow> sr_status r \<in> {Staged, AlreadyStaged} \<Longrightarrow> recorded s' p"
    and recorded_kept: "recorded s q \<Longrightarrow> recorded (snd (stage_one p s)) q"
begin

text \<open>Staging a list of payloads one after the other, with what each reported.\<close>

fun stage_all :: "'p list \<Rightarrow> 's \<Rightarrow> ('p \<times> ('e + staging_result)) list \<times> 's" where
  "stage_all [] s = ([], s)"
| "stage_all (p # ps) s =
     (case stage_one p s of (r, s1) \<Rightarrow> apfst (Cons (p, r)) (stage_all ps s1))"

lemma stage_all_keeps: "recorded s q \<Longrightarrow> recorded (snd (stage_all ps s)) q"
proof (induction ps arbitrary: s)
  case (Cons p ps)
  then show ?case using recorded_kept [of s q p] by (simp add: case_prod_beta)
qed simp

lemma stage_all_recorded:
  "(q, Inr r) \<in> set (fst (stage_all ps s)) \<Longrightarrow> sr_status r \<in> {Staged, AlreadyStaged} \<Longrightarrow>
     recorded (snd (stage_all ps s)) q"
proof (induction ps arbitrary: s)
  case (Cons p ps)
  obtain r1 s1 where step: "stage_one p s = (r1, s1)" by (cases "stage_one p s")
  with Cons show ?case
    using success_recorded [of p s r s1] stage_all_keeps [of s1 q ps] by auto
qed simp

end

subsection \<open>The repository meets the contract\<close>

definition rows_extend :: "staging_row list \<Rightarrow> staging_row list \<Rightarrow> bool" where
  "rows_extend rows rows' \<longleftrightarrow> (\<exists>new. rows' = rows @ new)"

lemma rows_extend_refl [simp]: "rows_extend rows rows"
  by (simp add: rows_extend_def)

lemma rows_extend_trans: "rows_extend a b \<Longrightarrow> rows_extend b c \<Longrightarrow> rows_extend a c"
  by (auto simp: rows_extend_def)

lemma insert_if_admitted_extends: "rows_extend rows (insert_if_admitted rows r)"
  by (simp add: rows_extend_def insert_if_admitted_def)

lemma others_extend: "rows_extend rows (foldl insert_if_admitted rows rs)"
  by (induction rs arbitrary: rows) (auto intro: rows_extend_trans insert_if_admitted_extends)

lemma begin_turn_extends: "begin_turn env db = (t, db') \<Longrightarrow> rows_extend (db_rows db) (db_rows db')"
  by (auto simp: begin_turn_def Let_def others_extend)

lemma run_insert_extends: "rows_extend rows (snd (run_insert p i rows))"
  by (simp add: run_insert_def rows_extend_def)

lemma insertStaging_extends: "rows_extend (db_rows db) (db_rows (snd (insertStaging env p db)))"
proof -
  obtain t db1 where b: "begin_turn env db = (t, db1)" by (cases "begin_turn env db")
  show ?thesis
    using begin_turn_extends [OF b] run_insert_extends [of "db_rows db1" p "dt_id t"]
    by (auto simp: insertStaging_def b intro: rows_extend_trans split: db_fault.splits)
qed

lemma run_select_extends: "rows_extend (db_rows db) (db_rows (snd (run_select w env db)))"
proof -
  obtain t db1 where b: "begin_turn env db = (t, db1)" by (cases "begin_turn env db")
  show ?thesis using begin_turn_extends [OF b] by (auto simp: run_select_def b split: db_fault.splits)
qed

lemma run_select_found:
  "run_select w env db = (Inr (Some row), db') \<Longrightarrow> row \<in> set (db_rows db') \<and> w row"
  by (auto simp: run_select_def dest: find_Some_iff' split: prod.splits db_fault.splits)

lemmas find_extends = run_select_extends [of _ "same_source _ _", folded findBySourceIdentity_def]
  run_select_extends [of _ "same_object _ _", folded findByObjectIdentity_def]

lemma classify_extends: "rows_extend (db_rows db) (db_rows (snd (classifyExistingStaging env p db)))"
proof -
  obtain r1 db1 where 1: "findBySourceIdentity env p db = (r1, db1)" by (cases "findBySourceIdentity env p db")
  obtain r2 db2 where 2: "findByObjectIdentity env p db1 = (r2, db2)" by (cases "findByObjectIdentity env p db1")
  have "rows_extend (db_rows db) (db_rows db1)" "rows_extend (db_rows db1) (db_rows db2)"
    using run_select_extends 1 2 unfolding findBySourceIdentity_def findByObjectIdentity_def
    by (metis snd_conv)+
  then show ?thesis
    by (auto simp: classifyExistingStaging_def 1 2 split: sum.splits option.splits intro: rows_extend_trans)
qed

lemma on_query_error_extends: "rows_extend (db_rows db) (db_rows (snd (on_query_error env p code db)))"
  by (simp add: on_query_error_def classify_extends)

lemma stage_extends: "rows_extend (db_rows db) (db_rows (snd (stage env p db)))"
proof -
  obtain r1 db1 where 1: "insertStaging env p db = (r1, db1)" by (cases "insertStaging env p db")
  obtain r2 db2 where 2: "findByObjectIdentity env p db1 = (r2, db2)" by (cases "findByObjectIdentity env p db1")
  have e1: "rows_extend (db_rows db) (db_rows db1)" using insertStaging_extends [of db env p] 1 by simp
  have e2: "rows_extend (db_rows db1) (db_rows db2)"
    using run_select_extends 2 unfolding findByObjectIdentity_def by (metis snd_conv)
  show ?thesis
    using e1 rows_extend_trans [OF e1 e2] rows_extend_trans [OF e1 on_query_error_extends]
      rows_extend_trans [OF rows_extend_trans [OF e1 e2] on_query_error_extends]
      rows_extend_trans [OF rows_extend_trans [OF e1 e2] classify_extends]
    by (auto simp: stage_def 1 2 split: sum.splits option.splits)
qed

definition holds_object :: "staging_db \<Rightarrow> staging_payload \<Rightarrow> bool" where
  "holds_object db p \<longleftrightarrow> list_ex (same_object (pl_checksum p) (pl_objectKey p)) (db_rows db)"

lemma holds_object_kept: "holds_object db q \<Longrightarrow> rows_extend (db_rows db) (db_rows db') \<Longrightarrow> holds_object db' q"
  by (auto simp: holds_object_def rows_extend_def)

lemma insertStaging_inserted:
  "insertStaging env p db = (Inr (Some i), db') \<Longrightarrow> row_of p i \<in> set (db_rows db')"
  by (auto simp: insertStaging_def run_insert_def apsnd_def map_prod_def
    split: prod.splits db_fault.splits if_splits)

lemma found_object_holds:
  "findByObjectIdentity env p db = (Inr (Some row), db') \<Longrightarrow> holds_object db' p"
  by (auto simp: findByObjectIdentity_def holds_object_def list_ex_iff dest!: run_select_found)

lemma classify_recorded:
  assumes "classifyExistingStaging env p db = (Inr r, db')" "sr_status r \<in> {Staged, AlreadyStaged}"
  shows "holds_object db' p"
proof -
  from assms obtain row where "findBySourceIdentity env p db = (Inr (Some row), db')" "matchesPayload row p"
    by (auto simp: classifyExistingStaging_def staging_outcome_def split: sum.splits prod.splits option.splits if_splits)
  then show ?thesis
    by (auto simp: findBySourceIdentity_def holds_object_def list_ex_iff matchesPayload_def same_object_def
      dest!: run_select_found)
qed

lemma on_query_error_recorded:
  "on_query_error env p code db = (Inr r, db') \<Longrightarrow> sr_status r \<in> {Staged, AlreadyStaged} \<Longrightarrow> holds_object db' p"
  by (auto simp: on_query_error_def staging_outcome_def split: if_splits dest: classify_recorded)

lemma stage_recorded:
  assumes "stage env p db = (Inr r, db')" "sr_status r \<in> {Staged, AlreadyStaged}"
  shows "holds_object db' p"
proof -
  obtain r1 db1 where 1: "insertStaging env p db = (r1, db1)" by (cases "insertStaging env p db")
  obtain r2 db2 where 2: "findByObjectIdentity env p db1 = (r2, db2)" by (cases "findByObjectIdentity env p db1")
  consider (err) code where "r1 = Inl code" | (new) i where "r1 = Inr (Some i)" | (old) "r1 = Inr None"
    by (cases r1) auto
  then show ?thesis
  proof cases
    case err
    with assms 1 show ?thesis by (auto simp: stage_def intro: on_query_error_recorded)
  next
    case new
    with assms(1) 1 have "row_of p i \<in> set (db_rows db')"
      using insertStaging_inserted [of env p db i db1] by (simp add: stage_def)
    then show ?thesis
      unfolding holds_object_def list_ex_iff
      by (rule bexI [rotated]) (simp add: same_object_def row_of_def)
  next
    case old
    with assms 1 2 found_object_holds [of env p db1 _ db2] show ?thesis
      by (auto simp: stage_def intro: on_query_error_recorded classify_recorded split: sum.splits option.splits)
  qed
qed

interpretation pg: staging_repository "stage env" holds_object for env
  by unfold_locales (auto simp: stage_recorded intro: holds_object_kept stage_extends)

text \<open>
  Staging is at least once and never forgets. Whatever other sessions insert and however
  statements fail in between, when a list of payloads is staged one after the other, every
  payload that was reported \<open>staged\<close> or \<open>already_staged\<close> has its object recorded in the table at
  the end.
\<close>

theorem staging_run_records:
  assumes "(p, Inr r) \<in> set (fst (pg.stage_all env ps db))" "sr_status r \<in> {Staged, AlreadyStaged}"
  shows "list_ex (\<lambda>row. sg_checksum row = pl_checksum p \<and> sg_objectKey row = pl_objectKey p)
    (db_rows (snd (pg.stage_all env ps db)))"
  using pg.stage_all_recorded [OF assms] by (simp add: holds_object_def same_object_def [abs_def])

subsection \<open>What is decided\<close>

text \<open>A server on its own: no other session, no failure.\<close>

definition quiet :: "(nat \<Rightarrow> string) \<Rightarrow> nat \<Rightarrow> db_turn" where
  "quiet ids n = \<lparr>dt_others = [], dt_id = ids n, dt_fault = NoFault\<rparr>"

lemma begin_turn_quiet [simp]:
  "begin_turn (quiet ids) db = (quiet ids (db_turns db), db\<lparr>db_turns := db_turns db + 1\<rparr>)"
  by (simp add: begin_turn_def quiet_def Let_def)

lemma quiet_sel [simp]: "dt_fault (quiet ids n) = NoFault" "dt_id (quiet ids n) = ids n"
  by (simp_all add: quiet_def)

lemma find_eq_None_list_ex: "List.find P xs = None \<longleftrightarrow> \<not> list_ex P xs"
  by (auto simp: find_None_iff list_ex_iff)

lemma find_Some_list_ex: "List.find P xs = Some x \<Longrightarrow> list_ex P xs"
  using find_eq_None_list_ex [of P xs] by simp

definition by_object :: "staging_db \<Rightarrow> staging_payload \<Rightarrow> staging_row option" where
  "by_object db p = List.find (same_object (pl_checksum p) (pl_objectKey p)) (db_rows db)"

definition by_source :: "staging_db \<Rightarrow> staging_payload \<Rightarrow> staging_row option" where
  "by_source db p = List.find (same_source (pl_sourceSystem p) (pl_sourceReplayId p)) (db_rows db)"

text \<open>
  The decision of the repository. On a server of its own, a payload whose checksum and
  object key are already in the table is \<open>already_staged\<close> with the identifier of that row;
  otherwise one whose source identity is in the table is a \<open>conflict\<close>; otherwise it is staged as
  a new row. Only the last case changes the table, and the reason
  \<open>raw_object_identity_conflict\<close> never occurs.
\<close>

theorem stage_decides:
  "stage (quiet ids) p db =
     (case by_object db p of
        Some row \<Rightarrow> (Inr (staging_outcome AlreadyStaged p (Some row) (Some (sg_id row)) None),
          db\<lparr>db_turns := db_turns db + 2\<rparr>)
      | None \<Rightarrow>
          (case by_source db p of
             Some row \<Rightarrow> (Inr (staging_outcome Conflict p (Some row) None (Some ''source_identity_conflict'')),
               db\<lparr>db_turns := db_turns db + 2\<rparr>)
           | None \<Rightarrow> (Inr (staging_outcome Staged p None (Some (ids (db_turns db))) None),
               db\<lparr>db_rows := db_rows db @ [row_of p (ids (db_turns db))], db_turns := db_turns db + 1\<rparr>)))"
proof (cases "by_object db p")
  case (Some row)
  then have "list_ex (same_object (pl_checksum p) (pl_objectKey p)) (db_rows db)"
    by (simp add: by_object_def find_Some_list_ex)
  with Some show ?thesis
    by (simp add: stage_def insertStaging_def run_insert_def findByObjectIdentity_def run_select_def by_object_def)
next
  case None
  then have no_object: "\<not> list_ex (same_object (pl_checksum p) (pl_objectKey p)) (db_rows db)"
    by (simp add: by_object_def find_eq_None_list_ex)
  show ?thesis
  proof (cases "by_source db p")
    case (Some row)
    then have "list_ex (same_source (pl_sourceSystem p) (pl_sourceReplayId p)) (db_rows db)"
      by (simp add: by_source_def find_Some_list_ex)
    moreover have "\<not> matchesPayload row p"
      using Some no_object
      by (auto simp: by_source_def matchesPayload_def same_object_def list_ex_iff dest!: find_Some_iff')
    ultimately show ?thesis
      using None Some no_object
      by (simp add: stage_def insertStaging_def run_insert_def on_query_error_def isUniqueViolation_def
        classifyExistingStaging_def findBySourceIdentity_def run_select_def by_source_def)
  next
    case no_source: None
    then have "\<not> list_ex (same_source (pl_sourceSystem p) (pl_sourceReplayId p)) (db_rows db)"
      by (simp add: by_source_def find_eq_None_list_ex)
    with None no_object no_source show ?thesis
      by (simp add: stage_def insertStaging_def run_insert_def)
  qed
qed

subsection \<open>Uniqueness\<close>

definition unique_rows :: "staging_row list \<Rightarrow> bool" where
  "unique_rows rows \<longleftrightarrow>
     distinct (map (\<lambda>r. (sg_checksum r, sg_objectKey r)) rows) \<and>
     distinct (map (\<lambda>r. (sg_sourceSystem r, sg_sourceReplayId r)) rows)"

lemma admits_unique: "unique_rows rows \<Longrightarrow> admits rows r \<Longrightarrow> unique_rows (rows @ [r])"
  by (auto simp: unique_rows_def admits_def list_ex_iff same_object_def same_source_def)

lemma others_unique: "unique_rows rows \<Longrightarrow> unique_rows (foldl insert_if_admitted rows rs)"
  by (induction rs arbitrary: rows) (simp_all add: insert_if_admitted_def admits_unique)

lemma begin_turn_unique:
  "begin_turn env db = (t, db') \<Longrightarrow> unique_rows (db_rows db) \<Longrightarrow> unique_rows (db_rows db')"
  by (auto simp: begin_turn_def Let_def others_unique)

lemma run_insert_unique: "unique_rows rows \<Longrightarrow> unique_rows (snd (run_insert p i rows))"
proof -
  assume "unique_rows rows"
  moreover have "admits rows (row_of p i)"
    if "\<not> list_ex (same_object (pl_checksum p) (pl_objectKey p)) rows"
      "\<not> list_ex (same_source (pl_sourceSystem p) (pl_sourceReplayId p)) rows"
    using that by (simp add: admits_def row_of_def)
  ultimately show ?thesis by (simp add: run_insert_def admits_unique)
qed

lemma run_select_unique:
  "unique_rows (db_rows db) \<Longrightarrow> unique_rows (db_rows (snd (run_select w env db)))"
  by (cases "begin_turn env db")
    (auto simp: run_select_def split: db_fault.splits dest: begin_turn_unique)

lemma insertStaging_unique:
  assumes "unique_rows (db_rows db)"
  shows "unique_rows (db_rows (snd (insertStaging env p db)))"
proof -
  obtain t db1 where b: "begin_turn env db = (t, db1)" by (cases "begin_turn env db")
  with assms run_insert_unique [OF begin_turn_unique [OF b assms]] begin_turn_unique [OF b assms]
  show ?thesis by (auto simp: insertStaging_def split: db_fault.splits)
qed

lemma classify_unique:
  assumes "unique_rows (db_rows db)"
  shows "unique_rows (db_rows (snd (classifyExistingStaging env p db)))"
proof -
  obtain r1 db1 where 1: "findBySourceIdentity env p db = (r1, db1)" by (cases "findBySourceIdentity env p db")
  obtain r2 db2 where 2: "findByObjectIdentity env p db1 = (r2, db2)" by (cases "findByObjectIdentity env p db1")
  have u1: "unique_rows (db_rows db1)"
    using run_select_unique [OF assms] 1 unfolding findBySourceIdentity_def by (metis snd_conv)
  have "unique_rows (db_rows db2)"
    using run_select_unique [OF u1] 2 unfolding findByObjectIdentity_def by (metis snd_conv)
  with u1 show ?thesis
    by (auto simp: classifyExistingStaging_def 1 2 split: sum.splits option.splits)
qed

lemma on_query_error_unique:
  "unique_rows (db_rows db) \<Longrightarrow> unique_rows (db_rows (snd (on_query_error env p code db)))"
  by (simp add: on_query_error_def classify_unique)

text \<open>
  Staging keeps both unique keys of the table, whatever other sessions and failures do in
  between: no two rows ever share a checksum and object key, or a source system and source
  replay identifier.
\<close>

theorem stage_keeps_unique:
  assumes "unique_rows (db_rows db)"
  shows "unique_rows (db_rows (snd (stage env p db)))"
proof -
  obtain r1 db1 where 1: "insertStaging env p db = (r1, db1)" by (cases "insertStaging env p db")
  obtain r2 db2 where 2: "findByObjectIdentity env p db1 = (r2, db2)" by (cases "findByObjectIdentity env p db1")
  have u1: "unique_rows (db_rows db1)" using insertStaging_unique [OF assms, of env p] 1 by simp
  have u2: "unique_rows (db_rows db2)"
    using run_select_unique [OF u1] 2 unfolding findByObjectIdentity_def by (metis snd_conv)
  show ?thesis
    using u1 u2 on_query_error_unique [OF u1] on_query_error_unique [OF u2] classify_unique [OF u2]
    by (auto simp: stage_def 1 2 split: sum.splits option.splits)
qed

definition example_evidence :: raw_evidence where
  "example_evidence = \<lparr>rv_bucket = ''b'', rv_byteSize = 3, rv_checksum = ''c'', rv_discoveredAt = None,
     rv_failureCategory = None, rv_fetchedAt = ''t'', rv_objectKey = ''k'',
     rv_source = \<lparr>rs_externalId = Some ''1781460116'', rs_page = Some 1, rs_rawUrl = None, rs_url = ''u''\<rparr>,
     rv_sourceFilename = ''f'', rv_status = RawStored\<rparr>"

definition example_payload :: staging_payload where
  "example_payload = toPayload example_parse toy_sha example_evidence ''sg-zone'' None"

definition empty_db :: staging_db where
  "empty_db = \<lparr>db_rows = [], db_turns = 0\<rparr>"

definition busy_turn :: "nat \<Rightarrow> db_turn" where
  "busy_turn n = \<lparr>dt_others = [\<lparr>sg_checksum = ''x'', sg_id = ''other'', sg_objectKey = ''y'',
     sg_sourceReplayId = ''z'', sg_sourceSystem = ''sg-zone'', sg_status = ''pending''\<rparr>],
     dt_id = ''new'', dt_fault = NoFault\<rparr>"

lemma stage_keeps_unique_witness:
  "unique_rows (db_rows (snd (stage busy_turn example_payload empty_db)))"
  by (rule stage_keeps_unique) (simp add: empty_db_def unique_rows_def)

lemma staging_run_records_witness:
  "list_ex (\<lambda>row. sg_checksum row = ''c'' \<and> sg_objectKey row = ''k'')
     (db_rows (snd (pg.stage_all busy_turn [example_payload] empty_db)))"
proof -
  have keys: "pl_checksum example_payload = ''c''" "pl_objectKey example_payload = ''k''"
      "pl_sourceSystem example_payload = ''sg-zone''" "pl_sourceReplayId example_payload = ''1781460116''"
    by (simp_all add: example_payload_def toPayload_def basePayload_def example_evidence_def toSourceReplayId_def)
  have "(example_payload, Inr (staging_outcome Staged example_payload None (Some ''new'') None))
      \<in> set (fst (pg.stage_all busy_turn [example_payload] empty_db))"
    by (simp add: stage_def insertStaging_def begin_turn_def busy_turn_def empty_db_def
      insert_if_admitted_def admits_def run_insert_def same_object_def same_source_def keys)
  from staging_run_records [OF this] show ?thesis by (simp add: keys staging_outcome_def)
qed

subsection \<open>Divergences from the documentation\<close>

text \<open>
  A replay whose checksum and object key are already staged under another source identity
  is reported \<open>already_staged\<close>, not as the \<open>conflict\<close> that the reference manual promises to
  \<open>server-2\<close>, and the second identity is recorded nowhere.
\<close>

theorem object_under_other_identity_already_staged:
  "(case stage (quiet ids) p empty_db of (_, db) \<Rightarrow>
      apfst (map_sum id sr_status) (apsnd db_rows
        (stage (quiet ids) (p\<lparr>pl_sourceSystem := sys, pl_sourceReplayId := other\<rparr>) db)))
   = (Inr AlreadyStaged, [row_of p (ids 0)])"
  by (simp add: stage_def insertStaging_def run_insert_def empty_db_def findByObjectIdentity_def
    run_select_def same_object_def row_of_def staging_outcome_def)

text \<open>
  An empty or blank external identifier is used as it is. The comment on the pre-fetch gate
  says that the identifier staged for such a candidate is a \<open>derived:\<close> one; the payload takes any
  external identifier that is present, so that two different replays with an empty one collide
  and the second is reported as a conflict of source identities.
\<close>

theorem blank_external_id_is_not_derived:
  "toSourceReplayId sha256 (e\<lparr>rv_source := (rv_source e)\<lparr>rs_externalId := Some blank\<rparr>\<rparr>) = blank
   \<and> map_sum id sr_status (fst (case stage (quiet ids) p empty_db of (_, db) \<Rightarrow>
       stage (quiet ids) (p\<lparr>pl_checksum := pl_checksum p @ ''x''\<rparr>) db)) = Inr Conflict"
  by (simp add: toSourceReplayId_def stage_def insertStaging_def run_insert_def empty_db_def
    findBySourceIdentity_def run_select_def same_object_def same_source_def row_of_def staging_outcome_def
    on_query_error_def isUniqueViolation_def classifyExistingStaging_def matchesPayload_def)

text \<open>A server on which the insert meets a duplicate source identity and the next statement fails.\<close>

definition failing_lookup :: "nat \<Rightarrow> db_turn" where
  "failing_lookup n = \<lparr>dt_others = [], dt_id = ''i'', dt_fault = (if n = 0 then NoFault else FailsBefore (Some ''57P01''))\<rparr>"

text \<open>
  A database failure is normally the result \<open>staging_write_failed\<close>, but not while an
  existing row is being classified: there \<open>stage\<close> rejects, because the promise of
  \<open>classifyExistingStaging\<close> is returned without being awaited inside the \<open>try\<close>.
\<close>

theorem lookup_failure_rejects:
  "fst (stage failing_lookup p \<lparr>db_rows = [(row_of p i)\<lparr>sg_checksum := pl_checksum p @ ''x''\<rparr>], db_turns = 0\<rparr>)
     = Inl (Some ''57P01'')
   \<and> map_sum id (\<lambda>r. (sr_status r, sr_reason r)) (fst (stage failing_lookup p \<lparr>db_rows = [row_of p i], db_turns = 0\<rparr>))
     = Inr (StagingFailed, Some ''staging_write_failed'')"
  by (simp add: stage_def insertStaging_def run_insert_def begin_turn_def failing_lookup_def
    same_object_def same_source_def row_of_def on_query_error_def isUniqueViolation_def unique_violation_def
    classifyExistingStaging_def findBySourceIdentity_def findByObjectIdentity_def run_select_def staging_outcome_def)

subsection \<open>The payload\<close>

text \<open>
  What is staged. A payload exists exactly for a stored or skipped replay, and then it is
  keyed by the evidence's checksum and object key, its timestamp is the instant of a numeric
  external identifier in range, else the filename's, else the listing's, and the source URL it
  carries, when it parses, is the serialisation of the URL without user name and password.
\<close>

theorem toIngestStagingPayload_exact:
  "case toIngestStagingPayload parse_url sha256 e runId sourceSystem of
     Inl reason \<Rightarrow> rv_status e \<notin> {RawStored, RawSkipped}
   | Inr p \<Rightarrow> rv_status e \<in> {RawStored, RawSkipped}
       \<and> pl_checksum p = rv_checksum e \<and> pl_objectKey p = rv_objectKey e
       \<and> pl_sourceSystem p = (case sourceSystem of None \<Rightarrow> ''sg-zone'' | Some sys \<Rightarrow> sys)
       \<and> pe_run_id (pl_promotionEvidence p) = runId
       \<and> pl_replayTimestamp p =
           (case Option.bind (rs_externalId (rv_source e)) epochToUtcIso of
              Some stamp \<Rightarrow> Some stamp
            | None \<Rightarrow> (case replayTimestampFromFilename (rv_sourceFilename e) of
                Some stamp \<Rightarrow> Some stamp | None \<Rightarrow> rv_discoveredAt e))
       \<and> pe_sourceUrl (pl_promotionEvidence p) =
           (case parse_url (rs_url (rv_source e)) of
              None \<Rightarrow> rs_url (rv_source e)
            | Some u \<Rightarrow> url_protocol u @ ''//'' @ url_host u @ url_pathname u @ url_search u @ url_hash u)"
  by (auto simp: toIngestStagingPayload_def isStageable_def toPayload_def basePayload_def
    defaultSourceSystem_def replay_timestamp_def first_some_def sanitizeSourceUrl_def href_def
    url_userinfo_def split: option.splits)

lemma append_sep_inj:
  assumes "xs @ [c] @ ys = xs' @ [c] @ ys'" "c \<notin> set xs" "c \<notin> set xs'"
  shows "xs = xs' \<and> ys = ys'"
  using assms
proof (induction xs arbitrary: xs')
  case Nil
  then show ?case by (cases xs') auto
next
  case (Cons x xs)
  then show ?case by (cases xs') auto
qed

lemma append_sep_inj_last:
  assumes "xs @ [c] @ ys = xs' @ [c] @ ys'" "c \<notin> set ys" "c \<notin> set ys'"
  shows "xs = xs' \<and> ys = ys'"
proof -
  have "rev ys @ [c] @ rev xs = rev ys' @ [c] @ rev xs'"
    using arg_cong [OF assms(1), of rev] by simp
  from append_sep_inj [OF this] assms(2,3) show ?thesis by simp
qed

text \<open>
  Derived identifiers tell replays apart. When SHA-256 does not collide on the two texts
  that are hashed and neither the page addresses nor the checksums contain a line break, two
  evidences without external identifier get the same source replay identifier only if address,
  filename and checksum all agree.
\<close>

theorem derived_ids_distinguish:
  assumes "rs_externalId (rv_source e) = None" "rs_externalId (rv_source f) = None"
    and "toSourceReplayId sha256 e = toSourceReplayId sha256 f"
    and "sha256 (utf8_bytes (derived_text e)) = sha256 (utf8_bytes (derived_text f)) \<Longrightarrow> derived_text e = derived_text f"
    and "CHR 0x0A \<notin> set (rs_url (rv_source e))" "CHR 0x0A \<notin> set (rs_url (rv_source f))"
    and "CHR 0x0A \<notin> set (rv_checksum e)" "CHR 0x0A \<notin> set (rv_checksum f)"
  shows "rs_url (rv_source e) = rs_url (rv_source f) \<and> rv_sourceFilename e = rv_sourceFilename f
    \<and> rv_checksum e = rv_checksum f"
proof -
  have "derived_text e = derived_text f"
    using assms(1-3) by (intro assms(4)) (simp add: toSourceReplayId_def)
  then have "rs_url (rv_source e) = rs_url (rv_source f) \<and>
      rv_sourceFilename e @ [CHR 0x0A] @ rv_checksum e = rv_sourceFilename f @ [CHR 0x0A] @ rv_checksum f"
    unfolding derived_text_def by (rule append_sep_inj) (rule assms(5), rule assms(6))
  with append_sep_inj_last [OF _ assms(7,8)] show ?thesis by blast
qed

definition spelled :: "bytes \<Rightarrow> string" where
  "spelled bs = map (\<lambda>w. char_of (unat w)) bs"

definition evidence_named :: "string \<Rightarrow> raw_evidence" where
  "evidence_named filename = example_evidence\<lparr>rv_sourceFilename := filename,
     rv_source := (rv_source example_evidence)\<lparr>rs_externalId := None\<rparr>\<rparr>"

lemma derived_ids_distinguish_witness:
  "toSourceReplayId spelled (evidence_named ''f'') \<noteq> toSourceReplayId spelled (evidence_named ''g'')"
proof
  assume same: "toSourceReplayId spelled (evidence_named ''f'') = toSourceReplayId spelled (evidence_named ''g'')"
  have "spelled (utf8_bytes (derived_text (evidence_named ''f''))) \<noteq> spelled (utf8_bytes (derived_text (evidence_named ''g'')))"
    by code_simp
  with derived_ids_distinguish [OF _ _ same]
  show False by (simp add: evidence_named_def example_evidence_def)
qed

end
