(* ===== verification/Ingest.thy ===== *)
theory Ingest
  imports Staging
begin

text \<open>
  The fan-out over one page of candidates, \<open>src/run/ingest-page.ts\<close>, under the shared limiter of
  \<open>src/source/concurrency.ts\<close>.

  Every candidate is a task that checks for an existing row (watch only), stores and stages. The
  limiter (\<open>p-limit\<close>) starts tasks in order and keeps at most \<open>concurrency\<close> of them running; how
  the running ones interleave is up to the event loop. So a page is a machine: the state of
  every task and the world they share, moved by a schedule, a list of task indices whose turn it
  is. A turn of a waiting task is its start, if the limiter allows it now; a turn of a running
  one is its next call. The world \<open>'s\<close> and the three calls are parameters here; the end of the
  theory puts in the repository of \<open>Staging\<close>.
\<close>

subsection \<open>One candidate\<close>

datatype settled = Skipped | Settled store_result staging_result

datatype task = Waiting | Checking | Storing | StagingOf store_result | Done "thrown + settled"

record 's ingest_calls =
  ic_prefetchDedup :: bool
  ic_exists :: "(string \<Rightarrow> string \<Rightarrow> 's \<Rightarrow> (thrown + bool) \<times> 's) option"
  ic_sourceSystem :: "string option"
  ic_store :: "replay_candidate \<Rightarrow> 's \<Rightarrow> (thrown + store_result) \<times> 's"
  ic_stage :: "store_result \<Rightarrow> 's \<Rightarrow> (thrown + staging_result) \<times> 's"

definition isTrustworthyId :: "string option \<Rightarrow> bool" where
  "isTrustworthyId i = (case i of None \<Rightarrow> False | Some s \<Rightarrow> js_trim s \<noteq> [])"

text \<open>The guard of the pre-fetch check: the call to make, when all conditions before it hold.\<close>

definition prefetch_check ::
    "'s ingest_calls \<Rightarrow> replay_candidate \<Rightarrow> ('s \<Rightarrow> (thrown + bool) \<times> 's) option" where
  "prefetch_check calls candidate =
     (let externalId = rs_externalId (rc_source candidate) in
      if ic_prefetchDedup calls \<and> isTrustworthyId externalId
      then map_option (\<lambda>exists. exists
             (case ic_sourceSystem calls of Some sys \<Rightarrow> sys | None \<Rightarrow> defaultSourceSystem)
             (the externalId)) (ic_exists calls)
      else None)"

definition task_step :: "'s ingest_calls \<Rightarrow> replay_candidate \<Rightarrow> task \<Rightarrow> 's \<Rightarrow> task \<times> 's" where
  "task_step calls candidate t s = (case t of
       Waiting \<Rightarrow> (t, s)
     | Checking \<Rightarrow>
         (case prefetch_check calls candidate of
            None \<Rightarrow> (Storing, s)
          | Some check \<Rightarrow> (case check s of
                (Inl e, s') \<Rightarrow> (Done (Inl e), s')
              | (Inr True, s') \<Rightarrow> (Done (Inr Skipped), s')
              | (Inr False, s') \<Rightarrow> (Storing, s')))
     | Storing \<Rightarrow> (case ic_store calls candidate s of
           (Inl e, s') \<Rightarrow> (Done (Inl e), s')
         | (Inr r, s') \<Rightarrow> (StagingOf r, s'))
     | StagingOf r \<Rightarrow> (case ic_stage calls r s of
           (Inl e, s') \<Rightarrow> (Done (Inl e), s')
         | (Inr g, s') \<Rightarrow> (Done (Inr (Settled r g)), s'))
     | Done _ \<Rightarrow> (t, s))"

subsection \<open>The limiter\<close>

fun running :: "task \<Rightarrow> bool" where
  "running Waiting = False"
| "running (Done r) = False"
| "running _ = True"

definition active_count :: "task list \<Rightarrow> nat" where
  "active_count ts = length (filter running ts)"

record 's page_machine =
  pm_tasks :: "task list"
  pm_world :: 's

text \<open>The limiter starts tasks in the order they were added, while a slot is free.\<close>

definition may_start :: "nat \<Rightarrow> task list \<Rightarrow> nat \<Rightarrow> bool" where
  "may_start concurrency ts i \<longleftrightarrow>
     active_count ts < concurrency \<and> list_all (\<lambda>t. t \<noteq> Waiting) (take i ts)"

definition page_turn ::
    "'s ingest_calls \<Rightarrow> nat \<Rightarrow> replay_candidate list \<Rightarrow> 's page_machine \<Rightarrow> nat \<Rightarrow> 's page_machine" where
  "page_turn calls concurrency candidates m i =
     (if length (pm_tasks m) \<le> i then m
      else if pm_tasks m ! i = Waiting
      then (if may_start concurrency (pm_tasks m) i
            then m\<lparr>pm_tasks := (pm_tasks m)[i := Checking]\<rparr> else m)
      else (case task_step calls (candidates ! i) (pm_tasks m ! i) (pm_world m) of
              (t, s) \<Rightarrow> \<lparr>pm_tasks = (pm_tasks m)[i := t], pm_world = s\<rparr>))"

definition page_start :: "replay_candidate list \<Rightarrow> 's \<Rightarrow> 's page_machine" where
  "page_start candidates s = \<lparr>pm_tasks = replicate (length candidates) Waiting, pm_world = s\<rparr>"

definition page_run ::
    "'s ingest_calls \<Rightarrow> nat \<Rightarrow> replay_candidate list \<Rightarrow> 's \<Rightarrow> nat list \<Rightarrow> 's page_machine" where
  "page_run calls concurrency candidates s schedule =
     foldl (page_turn calls concurrency candidates) (page_start candidates s) schedule"

subsection \<open>The result of a page\<close>

record page_tally =
  pt_discovered :: nat
  pt_failed :: nat
  pt_skippedBySourceId :: nat
  pt_staged :: nat
  pt_stored :: nat

record page_result =
  pr_counts :: page_tally
  pr_rawStorage :: "store_result list"
  pr_staging :: "staging_result list"

definition newPageCounts :: "nat \<Rightarrow> page_tally" where
  "newPageCounts discovered = \<lparr>pt_discovered = discovered, pt_failed = 0, pt_skippedBySourceId = 0,
     pt_staged = 0, pt_stored = 0\<rparr>"

definition tallyRawResult :: "page_tally \<Rightarrow> store_result \<Rightarrow> page_tally" where
  "tallyRawResult counts r =
     (if result_status r = RawStored then counts\<lparr>pt_stored := pt_stored counts + 1\<rparr>
      else if result_status r = RawFailed then counts\<lparr>pt_failed := pt_failed counts + 1\<rparr>
      else counts)"

definition tallyStagingResult :: "page_tally \<Rightarrow> staging_result \<Rightarrow> page_tally" where
  "tallyStagingResult counts r =
     (if sr_status r = Staged then counts\<lparr>pt_staged := pt_staged counts + 1\<rparr>
      else if sr_status r = StagingFailed then counts\<lparr>pt_failed := pt_failed counts + 1\<rparr>
      else counts)"

definition fulfilledInOrder :: "(nat \<times> (thrown + settled)) list \<Rightarrow> (nat \<times> settled) list" where
  "fulfilledInOrder outcomes =
     sort_key fst (List.map_filter (\<lambda>(i, o'). case o' of Inl _ \<Rightarrow> None | Inr v \<Rightarrow> Some (i, v)) outcomes)"

definition add_settled :: "page_result \<Rightarrow> nat \<times> settled \<Rightarrow> page_result" where
  "add_settled r iv = (case snd iv of
       Skipped \<Rightarrow> r\<lparr>pr_counts := (pr_counts r)\<lparr>pt_skippedBySourceId := pt_skippedBySourceId (pr_counts r) + 1\<rparr>\<rparr>
     | Settled raw staged \<Rightarrow>
         r\<lparr>pr_rawStorage := pr_rawStorage r @ [raw], pr_staging := pr_staging r @ [staged],
           pr_counts := tallyStagingResult (tallyRawResult (pr_counts r) raw) staged\<rparr>)"

definition rethrowProgrammerError :: "(nat \<times> (thrown + settled)) list \<Rightarrow> thrown option" where
  "rethrowProgrammerError outcomes =
     (case List.find (\<lambda>(_, o'). \<not> is_ok o') outcomes of
        Some (_, Inl e) \<Rightarrow> Some e
      | _ \<Rightarrow> None)"

text \<open>\<open>Promise.allSettled\<close> gives the outcomes in the order of the candidates.\<close>

definition settle_page :: "(thrown + settled) list \<Rightarrow> thrown + page_result" where
  "settle_page outcomes =
     (let indexed = zip [0..<length outcomes] outcomes in
      case rethrowProgrammerError indexed of
        Some e \<Rightarrow> Inl e
      | None \<Rightarrow> Inr (foldl add_settled
          \<lparr>pr_counts = newPageCounts (length outcomes), pr_rawStorage = [], pr_staging = []\<rparr>
          (fulfilledInOrder indexed)))"

definition task_outcome :: "task \<Rightarrow> (thrown + settled) option" where
  "task_outcome t = (case t of Done o' \<Rightarrow> Some o' | _ \<Rightarrow> None)"

text \<open>The page as a whole: \<open>None\<close> until every task of the schedule has come to its end.\<close>

definition ingestPage ::
    "'s ingest_calls \<Rightarrow> nat \<Rightarrow> replay_candidate list \<Rightarrow> 's \<Rightarrow> nat list \<Rightarrow> ((thrown + page_result) \<times> 's) option" where
  "ingestPage calls concurrency candidates s schedule =
     (let m = page_run calls concurrency candidates s schedule;
          outcomes = map task_outcome (pm_tasks m)
      in if list_all (\<lambda>x. x \<noteq> None) outcomes
         then Some (settle_page (map the outcomes), pm_world m) else None)"

subsection \<open>The limit holds\<close>

lemma active_count_update:
  "i < length ts \<Longrightarrow> \<not> running (ts ! i) \<Longrightarrow> active_count (ts[i := t]) \<le> active_count ts + 1"
  "i < length ts \<Longrightarrow> running (ts ! i) \<Longrightarrow> active_count (ts[i := t]) \<le> active_count ts"
proof -
  have split: "active_count (ts[i := t]) + (if running (ts ! i) then 1 else 0)
      = active_count ts + (if running t then 1 else 0)" if "i < length ts"
  proof -
    have "active_count ts = active_count (take i ts) + (if running (ts ! i) then 1 else 0) + active_count (drop (Suc i) ts)"
      using that by (subst id_take_nth_drop [OF that]) (simp add: active_count_def)
    moreover have "active_count (ts[i := t]) = active_count (take i ts) + (if running t then 1 else 0) + active_count (drop (Suc i) ts)"
      using that by (simp add: upd_conv_take_nth_drop active_count_def)
    ultimately show ?thesis by simp
  qed
  then show "i < length ts \<Longrightarrow> \<not> running (ts ! i) \<Longrightarrow> active_count (ts[i := t]) \<le> active_count ts + 1"
    and "i < length ts \<Longrightarrow> running (ts ! i) \<Longrightarrow> active_count (ts[i := t]) \<le> active_count ts"
    by (auto split: if_splits)
qed

lemma length_page_turn [simp]: "length (pm_tasks (page_turn calls c cs m i)) = length (pm_tasks m)"
  by (auto simp: page_turn_def split: prod.splits)

lemma page_turn_active:
  assumes "active_count (pm_tasks m) \<le> c"
  shows "active_count (pm_tasks (page_turn calls c cs m i)) \<le> c"
proof (cases "length (pm_tasks m) \<le> i")
  case False
  then have i: "i < length (pm_tasks m)" by simp
  show ?thesis
  proof (cases "pm_tasks m ! i")
    case Waiting
    with i assms active_count_update(1) [of i "pm_tasks m" Checking] show ?thesis
      by (simp add: page_turn_def may_start_def)
  next
    case (Done r)
    then have "(pm_tasks m)[i := Done r] = pm_tasks m" using i by (metis list_update_id)
    with Done i assms show ?thesis by (simp add: page_turn_def task_step_def)
  qed (use i assms active_count_update(2) [of i "pm_tasks m"] in
       \<open>auto simp: page_turn_def split: prod.splits intro: order_trans\<close>)
qed (use assms in \<open>simp add: page_turn_def\<close>)

lemma length_page_run [simp]: "length (pm_tasks (page_run calls c cs s sched)) = length cs"
proof -
  have "length (pm_tasks (foldl (page_turn calls c cs) m sched)) = length (pm_tasks m)" for m
    by (induction sched arbitrary: m) simp_all
  then show ?thesis by (simp add: page_run_def page_start_def)
qed

text \<open>
  The limiter's bound. Whatever the order in which the event loop serves the tasks of a
  page, at most \<open>concurrency\<close> of them are between their start and their end at any moment.
\<close>

theorem page_concurrency_bound:
  "active_count (pm_tasks (page_run calls concurrency candidates s schedule)) \<le> concurrency"
proof -
  have "active_count (pm_tasks m) \<le> concurrency \<Longrightarrow>
      active_count (pm_tasks (foldl (page_turn calls concurrency candidates) m schedule)) \<le> concurrency" for m
    by (induction schedule arbitrary: m) (simp_all add: page_turn_active)
  then show ?thesis by (simp add: page_run_def page_start_def active_count_def)
qed

subsection \<open>Every page ends\<close>

fun calls_left :: "task \<Rightarrow> nat" where
  "calls_left Waiting = 4"
| "calls_left Checking = 3"
| "calls_left Storing = 2"
| "calls_left (StagingOf r) = 1"
| "calls_left (Done r) = 0"

definition work_left :: "task list \<Rightarrow> nat" where
  "work_left ts = sum_list (map calls_left ts)"

lemma work_left_update:
  "i < length ts \<Longrightarrow> work_left (ts[i := t]) + calls_left (ts ! i) = work_left ts + calls_left t"
proof -
  assume i: "i < length ts"
  have "work_left ts = work_left (take i ts) + calls_left (ts ! i) + work_left (drop (Suc i) ts)"
    by (subst id_take_nth_drop [OF i]) (simp add: work_left_def)
  moreover have "work_left (ts[i := t]) = work_left (take i ts) + calls_left t + work_left (drop (Suc i) ts)"
    using i by (simp add: upd_conv_take_nth_drop work_left_def)
  ultimately show ?thesis by simp
qed

lemma task_step_left:
  "running t \<Longrightarrow> calls_left (fst (task_step calls c t s)) < calls_left t"
  by (cases t) (auto simp: task_step_def split: option.splits prod.splits sum.splits bool.splits)

lemma page_turn_left:
  "work_left (pm_tasks (page_turn calls c cs m i)) \<le> work_left (pm_tasks m)"
proof (cases "length (pm_tasks m) \<le> i")
  case False
  then have i: "i < length (pm_tasks m)" by simp
  have le: "calls_left (fst (task_step calls (cs ! i) (pm_tasks m ! i) (pm_world m))) \<le> calls_left (pm_tasks m ! i)"
    using task_step_left [of "pm_tasks m ! i" calls "cs ! i" "pm_world m"]
    by (cases "pm_tasks m ! i") (auto simp: task_step_def)
  obtain t s where ts: "task_step calls (cs ! i) (pm_tasks m ! i) (pm_world m) = (t, s)"
    by (cases "task_step calls (cs ! i) (pm_tasks m ! i) (pm_world m)")
  show ?thesis
  proof (cases "pm_tasks m ! i = Waiting")
    case True
    with False work_left_update [OF i, of Checking] show ?thesis by (simp add: page_turn_def)
  next
    case moving: False
    have "pm_tasks (page_turn calls c cs m i) = (pm_tasks m)[i := t]"
      using moving False ts by (simp add: page_turn_def)
    moreover have "calls_left t \<le> calls_left (pm_tasks m ! i)"
      using le by (simp only: ts fst_conv)
    then have "work_left ((pm_tasks m)[i := t]) \<le> work_left (pm_tasks m)"
      using work_left_update [OF i, of t] by linarith
    ultimately show ?thesis by (simp only:)
  qed
qed (simp add: page_turn_def)

lemma page_turn_running_left:
  assumes "i < length (pm_tasks m)" "running (pm_tasks m ! i)"
  shows "work_left (pm_tasks (page_turn calls c cs m i)) < work_left (pm_tasks m)"
proof -
  obtain t s where ts: "task_step calls (cs ! i) (pm_tasks m ! i) (pm_world m) = (t, s)"
    by (cases "task_step calls (cs ! i) (pm_tasks m ! i) (pm_world m)")
  have "pm_tasks m ! i \<noteq> Waiting" using assms(2) by auto
  then have "pm_tasks (page_turn calls c cs m i) = (pm_tasks m)[i := t]"
    using assms(1) ts by (simp add: page_turn_def)
  moreover have "calls_left t < calls_left (pm_tasks m ! i)"
    using task_step_left [OF assms(2), of calls "cs ! i" "pm_world m"] by (simp only: ts fst_conv)
  then have "work_left ((pm_tasks m)[i := t]) < work_left (pm_tasks m)"
    using work_left_update [OF assms(1), of t] by linarith
  ultimately show ?thesis by (simp only:)
qed

lemma page_turn_start_left:
  assumes "i < length (pm_tasks m)" "pm_tasks m ! i = Waiting" "may_start c (pm_tasks m) i"
  shows "work_left (pm_tasks (page_turn calls c cs m i)) < work_left (pm_tasks m)"
  using assms work_left_update [OF assms(1), of Checking] by (simp add: page_turn_def)

lemma page_turn_other: "j \<noteq> i \<Longrightarrow> pm_tasks (page_turn calls c cs m i) ! j = pm_tasks m ! j"
  by (auto simp: page_turn_def split: prod.splits)

definition all_done :: "task list \<Rightarrow> bool" where
  "all_done ts \<longleftrightarrow> list_all (\<lambda>t. task_outcome t \<noteq> None) ts"

lemma task_outcome_None: "task_outcome t = None \<longleftrightarrow> t = Waiting \<or> running t"
  by (cases t) (simp_all add: task_outcome_def)

text \<open>One pass over the indices \<open>i..<n\<close>, seen from a state in which task \<open>k\<close> can move.\<close>

definition movable :: "nat \<Rightarrow> task list \<Rightarrow> nat \<Rightarrow> bool" where
  "movable c ts k \<longleftrightarrow> running (ts ! k) \<or> ts ! k = Waiting \<and> may_start c ts k"

lemma movable_exists:
  assumes "0 < c" "\<not> all_done ts"
  obtains k where "k < length ts" "movable c ts k" "running (ts ! k) \<or> list_all (\<lambda>t. task_outcome t \<noteq> None) (take k ts)"
proof (cases "\<exists>k < length ts. running (ts ! k)")
  case True
  with that show thesis by (auto simp: movable_def)
next
  case False
  then have none: "\<forall>t \<in> set ts. \<not> running t" by (auto simp: in_set_conv_nth)
  let ?w = "\<lambda>k. k < length ts \<and> ts ! k = Waiting"
  from assms(2) obtain t where "t \<in> set ts" "task_outcome t = None"
    by (auto simp: all_done_def list_all_iff)
  with none have "\<exists>k. ?w k" by (auto simp: task_outcome_None in_set_conv_nth)
  then obtain k where k: "k < length ts" "ts ! k = Waiting" and least: "\<And>j. j < k \<Longrightarrow> \<not> ?w j"
    using exists_least_iff [of ?w] by blast
  have before: "\<forall>t \<in> set (take k ts). t \<noteq> Waiting"
  proof
    fix t assume "t \<in> set (take k ts)"
    then obtain j where "j < k" "j < length ts" "t = ts ! j" by (auto simp: in_set_conv_nth)
    with least [of j] show "t \<noteq> Waiting" by simp
  qed
  have "active_count ts = 0" using none by (simp add: active_count_def filter_empty_conv)
  with before assms(1) have "may_start c ts k" by (simp add: may_start_def list_all_iff)
  moreover have "list_all (\<lambda>t. task_outcome t \<noteq> None) (take k ts)"
    unfolding list_all_iff task_outcome_None
    using before none by (metis in_set_takeD)
  ultimately show thesis using that [of k] k by (simp add: movable_def)
qed

lemma foldl_turn_left:
  "work_left (pm_tasks (foldl (page_turn calls c cs) m js)) \<le> work_left (pm_tasks m)"
  by (induction js arbitrary: m) (auto intro: order_trans page_turn_left)

lemma length_foldl_turn [simp]: "length (pm_tasks (foldl (page_turn calls c cs) m js)) = length (pm_tasks m)"
  by (induction js arbitrary: m) simp_all

lemma page_turn_done:
  assumes "i < length (pm_tasks m)" "task_outcome (pm_tasks m ! i) \<noteq> None"
  shows "page_turn calls c cs m i = m"
proof -
  from assms(2) obtain r where r: "pm_tasks m ! i = Done r"
    by (cases "pm_tasks m ! i") (auto simp: task_outcome_def)
  then have same: "(pm_tasks m)[i := Done r] = pm_tasks m" by (metis list_update_id)
  with r assms(1) show ?thesis by (simp add: page_turn_def task_step_def)
qed

lemma foldl_turn_other:
  "k \<notin> set js \<Longrightarrow> pm_tasks (foldl (page_turn calls c cs) m js) ! k = pm_tasks m ! k"
  by (induction js arbitrary: m) (simp_all add: page_turn_other)

lemma foldl_turn_done:
  assumes "list_all (\<lambda>t. task_outcome t \<noteq> None) (take k (pm_tasks m))" "k \<le> length (pm_tasks m)"
  shows "foldl (page_turn calls c cs) m [0..<k] = m"
  using assms
proof (induction k)
  case (Suc k)
  then have "task_outcome (pm_tasks m ! k) \<noteq> None"
    by (simp add: take_Suc_conv_app_nth)
  with Suc show ?case by (simp add: page_turn_done take_Suc_conv_app_nth)
qed simp

lemma pass_left:
  assumes "0 < c" "\<not> all_done (pm_tasks m)" "length (pm_tasks m) = n"
  shows "work_left (pm_tasks (foldl (page_turn calls c cs) m [0..<n])) < work_left (pm_tasks m)"
proof -
  obtain k where k: "k < length (pm_tasks m)" "movable c (pm_tasks m) k"
    and how: "running (pm_tasks m ! k) \<or> list_all (\<lambda>t. task_outcome t \<noteq> None) (take k (pm_tasks m))"
    using movable_exists [OF assms(1,2)] by blast
  let ?m = "foldl (page_turn calls c cs) m [0..<k]"
  have "work_left (pm_tasks (page_turn calls c cs ?m k)) < work_left (pm_tasks m)"
  proof (cases "running (pm_tasks m ! k)")
    case True
    then have "running (pm_tasks ?m ! k)" by (simp add: foldl_turn_other)
    with page_turn_running_left [of k ?m calls c cs] k foldl_turn_left [of calls c cs m "[0..<k]"]
    show ?thesis by simp
  next
    case False
    with how k have "?m = m" by (intro foldl_turn_done) simp_all
    moreover from False k have "pm_tasks m ! k = Waiting" "may_start c (pm_tasks m) k"
      by (simp_all add: movable_def)
    ultimately show ?thesis using page_turn_start_left [of k m c calls cs] k by simp
  qed
  moreover have "[0..<n] = [0..<k] @ k # [Suc k..<n]"
    using k assms(3) by (metis le_add_diff_inverse less_imp_le_nat upt_add_eq_append upt_conv_Cons zero_le)
  ultimately show ?thesis
    using foldl_turn_left [of calls c cs "page_turn calls c cs ?m k" "[Suc k..<n]"] by simp
qed

lemma passes_left:
  assumes "0 < c" "length (pm_tasks m) = n"
  shows "all_done (pm_tasks (foldl (page_turn calls c cs) m (concat (replicate p [0..<n]))))
    \<or> work_left (pm_tasks (foldl (page_turn calls c cs) m (concat (replicate p [0..<n])))) + p \<le> work_left (pm_tasks m)"
  using assms(2)
proof (induction p arbitrary: m)
  case (Suc p)
  show ?case
  proof (cases "all_done (pm_tasks m)")
    case True
    then have "foldl (page_turn calls c cs) m [0..<n] = m"
      using Suc.prems by (intro foldl_turn_done) (simp_all add: all_done_def)
    then have "foldl (page_turn calls c cs) m (concat (replicate q [0..<n])) = m" for q
      by (induction q) simp_all
    with True show ?thesis by metis
  next
    case False
    from pass_left [OF assms(1) False Suc.prems, of calls cs] Suc.IH [of "foldl (page_turn calls c cs) m [0..<n]"] Suc.prems
    show ?thesis by auto
  qed
qed simp

lemma fair_page_ends:
  assumes "0 < concurrency"
  shows "ingestPage calls concurrency candidates s
    (concat (replicate (4 * length candidates) [0..<length candidates])) \<noteq> None"
proof -
  let ?n = "length candidates"
  let ?m = "page_run calls concurrency candidates s (concat (replicate (4 * ?n) [0..<?n]))"
  have start: "work_left (pm_tasks (page_start candidates s)) = 4 * ?n"
    by (simp add: page_start_def work_left_def sum_list_replicate)
  have "all_done (pm_tasks ?m) \<or> work_left (pm_tasks ?m) = 0"
    using passes_left [OF assms, of "page_start candidates s" ?n calls candidates "4 * ?n"] start
    by (auto simp: page_run_def page_start_def)
  moreover have "all_done ts" if "work_left ts = 0" for ts
  proof -
    have zero: "\<forall>t \<in> set ts. calls_left t = 0" using that by (simp add: work_left_def)
    have "task_outcome t \<noteq> None" if "calls_left t = 0" for t
      using that by (cases t) (simp_all add: task_outcome_def)
    with zero have "\<forall>t \<in> set ts. task_outcome t \<noteq> None" by blast
    then show ?thesis by (simp add: all_done_def list_all_iff)
  qed
  ultimately have "all_done (pm_tasks ?m)" by blast
  then show ?thesis by (simp add: ingestPage_def Let_def all_done_def list.pred_map o_def)
qed

text \<open>
  Every page ends. With a positive concurrency, serving the tasks of a page of \<open>n\<close>
  candidates in turn, \<open>4 n\<close> times over, brings every one of them to its end, whatever the calls
  answer; so the page has a result.
\<close>

theorem page_ends:
  assumes "0 < concurrency"
  shows "ingestPage calls concurrency candidates s
    (concat (replicate (4 * length candidates) [0..<length candidates])) \<noteq> None"
  using assms by (rule fair_page_ends)

subsection \<open>What a page reports\<close>

definition raws_of :: "settled list \<Rightarrow> store_result list" where
  "raws_of vs = concat (map (\<lambda>v. case v of Skipped \<Rightarrow> [] | Settled r g \<Rightarrow> [r]) vs)"

definition stagings_of :: "settled list \<Rightarrow> staging_result list" where
  "stagings_of vs = concat (map (\<lambda>v. case v of Skipped \<Rightarrow> [] | Settled r g \<Rightarrow> [g]) vs)"

definition count_where :: "('a \<Rightarrow> bool) \<Rightarrow> 'a list \<Rightarrow> nat" where
  "count_where P xs = length (filter P xs)"

text \<open>The counts of a page, read off its settled candidates.\<close>

definition tally_of :: "nat \<Rightarrow> settled list \<Rightarrow> page_tally" where
  "tally_of n vs =
     \<lparr>pt_discovered = n,
      pt_failed = count_where (\<lambda>r. result_status r = RawFailed) (raws_of vs)
        + count_where (\<lambda>g. sr_status g = StagingFailed) (stagings_of vs),
      pt_skippedBySourceId = count_where (\<lambda>v. v = Skipped) vs,
      pt_staged = count_where (\<lambda>g. sr_status g = Staged) (stagings_of vs),
      pt_stored = count_where (\<lambda>r. result_status r = RawStored) (raws_of vs)\<rparr>"

lemma fulfilledInOrder_Inr:
  "fulfilledInOrder (zip [0..<length vs] (map Inr vs)) = zip [0..<length vs] vs"
proof -
  have "List.map_filter (\<lambda>(i, o'). case o' of Inl _ \<Rightarrow> None | Inr v \<Rightarrow> Some (i, v)) (zip is (map Inr vs :: (thrown + settled) list)) = zip is vs"
    for "is" :: "nat list" and vs :: "settled list"
    by (induction "is" vs rule: list_induct2') simp_all
  moreover have "sort_key fst (zip [0..<length vs] vs) = zip [0..<length vs] vs"
    by (rule sort_key_id_if_sorted) simp
  ultimately show ?thesis by (simp only: fulfilledInOrder_def)
qed

lemma add_settled_all:
  assumes "length is = length vs"
  shows "foldl add_settled \<lparr>pr_counts = tally_of n us, pr_rawStorage = raws_of us, pr_staging = stagings_of us\<rparr> (zip is vs)
    = \<lparr>pr_counts = tally_of n (us @ vs), pr_rawStorage = raws_of (us @ vs), pr_staging = stagings_of (us @ vs)\<rparr>"
  using assms
proof (induction "is" vs arbitrary: us rule: list_induct2)
  case (Cons i js v vs)
  have "add_settled \<lparr>pr_counts = tally_of n us, pr_rawStorage = raws_of us, pr_staging = stagings_of us\<rparr> (i, v)
      = \<lparr>pr_counts = tally_of n (us @ [v]), pr_rawStorage = raws_of (us @ [v]), pr_staging = stagings_of (us @ [v])\<rparr>"
    by (cases v) (auto simp: add_settled_def tally_of_def raws_of_def stagings_of_def count_where_def
      tallyRawResult_def tallyStagingResult_def)
  with Cons.IH [of "us @ [v]"] show ?case by simp
qed simp

lemma settle_page_Inr:
  "settle_page (map Inr vs) =
     Inr \<lparr>pr_counts = tally_of (length vs) vs, pr_rawStorage = raws_of vs, pr_staging = stagings_of vs\<rparr>"
proof -
  have "List.find (\<lambda>(_, o'). \<not> is_ok o') (zip is (map Inr vs :: (thrown + settled) list)) = None" for "is" :: "nat list" and vs :: "settled list"
    using set_zip_rightD by (fastforce simp: find_None_iff)
  then have ok: "rethrowProgrammerError (zip [0..<length vs] (map Inr vs)) = None"
    by (simp add: rethrowProgrammerError_def)
  have "foldl add_settled \<lparr>pr_counts = newPageCounts (length vs), pr_rawStorage = [], pr_staging = []\<rparr> (zip [0..<length vs] vs)
      = \<lparr>pr_counts = tally_of (length vs) vs, pr_rawStorage = raws_of vs, pr_staging = stagings_of vs\<rparr>"
    using add_settled_all [of "[0..<length vs]" vs "length vs" "[]"]
    by (simp add: tally_of_def raws_of_def stagings_of_def count_where_def newPageCounts_def)
  with ok show ?thesis
    by (simp only: settle_page_def Let_def length_map fulfilledInOrder_Inr option.case)
qed

lemma settle_page_Inl:
  assumes "settle_page os = Inl e"
  shows "Inl e \<in> set os"
proof -
  from assms have "rethrowProgrammerError (zip [0..<length os] os) = Some e"
    by (auto simp: settle_page_def Let_def split: option.splits)
  then obtain i where "(i, Inl e) \<in> set (zip [0..<length os] os)"
    by (auto simp: rethrowProgrammerError_def dest: find_Some_iff' split: option.splits sum.splits)
  then show ?thesis by (rule set_zip_rightD)
qed

lemma settle_page_ok:
  assumes "settle_page os = Inr r"
  obtains vs where "os = map Inr vs"
proof -
  have "rethrowProgrammerError (zip [0..<length os] os) = None"
    using assms by (auto simp: settle_page_def Let_def split: option.splits)
  then have "List.find (\<lambda>(_, o'). \<not> is_ok o') (zip [0..<length os] os) = None"
    by (auto simp: rethrowProgrammerError_def dest!: find_Some_iff' split: option.splits sum.splits)
  then have "\<forall>p \<in> set (zip [0..<length os] os). is_ok (snd p)"
    by (auto simp: find_None_iff)
  then have "\<forall>o' \<in> snd ` set (zip [0..<length os] os). is_ok o'" by blast
  moreover have "snd ` set (zip [0..<length os] os) = set os"
    by (metis length_map map_nth map_snd_zip set_map)
  ultimately have "\<forall>o' \<in> set os. is_ok o'" by simp
  then have "os = map Inr (map (\<lambda>o'. the (case o' of Inr v \<Rightarrow> Some v | Inl _ \<Rightarrow> None)) os)"
    by (auto simp: is_ok_iff intro!: map_idI [symmetric])
  then show thesis by (rule that)
qed

lemma ingest_outcome:
  obtains (unfinished) "ingestPage calls concurrency candidates s schedule = None"
  | (settled) os where "ingestPage calls concurrency candidates s schedule
        = Some (settle_page os, pm_world (page_run calls concurrency candidates s schedule))"
      "pm_tasks (page_run calls concurrency candidates s schedule) = map Done os" "length os = length candidates"
proof (cases "all_done (pm_tasks (page_run calls concurrency candidates s schedule))")
  case False
  then show thesis by (intro unfinished) (simp add: ingestPage_def Let_def all_done_def list.pred_map o_def)
next
  case True
  let ?ts = "pm_tasks (page_run calls concurrency candidates s schedule)"
  define os where "os = map the (map task_outcome ?ts)"
  have "\<forall>t \<in> set ?ts. t = Done (the (task_outcome t))"
  proof
    fix t assume "t \<in> set ?ts"
    with True show "t = Done (the (task_outcome t))"
      by (cases t) (auto simp: all_done_def list_all_iff task_outcome_def)
  qed
  then have ts: "?ts = map Done os" by (auto simp: os_def intro!: map_idI [symmetric])
  have result: "ingestPage calls concurrency candidates s schedule
      = Some (settle_page os, pm_world (page_run calls concurrency candidates s schedule))"
    using True by (simp add: ingestPage_def Let_def all_done_def list.pred_map o_def os_def)
  show thesis by (rule settled [OF result ts]) (simp add: os_def)
qed

lemma ingest_settled:
  assumes "ingestPage calls concurrency candidates s schedule = Some (Inr r, s')"
  shows "\<exists>vs. pm_tasks (page_run calls concurrency candidates s schedule) = map (\<lambda>v. Done (Inr v)) vs \<and>
    length vs = length candidates \<and> s' = pm_world (page_run calls concurrency candidates s schedule) \<and>
    r = \<lparr>pr_counts = tally_of (length vs) vs, pr_rawStorage = raws_of vs, pr_staging = stagings_of vs\<rparr>"
proof (rule ingest_outcome [of calls concurrency candidates s schedule])
  fix os
  assume os: "ingestPage calls concurrency candidates s schedule
      = Some (settle_page os, pm_world (page_run calls concurrency candidates s schedule))"
    "pm_tasks (page_run calls concurrency candidates s schedule) = map Done os" "length os = length candidates"
  with assms have "settle_page os = Inr r" by simp
  moreover from this obtain vs where "os = map Inr vs" by (rule settle_page_ok)
  ultimately show ?thesis using os assms by (intro exI [of _ vs]) (simp add: settle_page_Inr)
qed (use assms in simp)

text \<open>
  C28: what a page reports does not depend on the order in which its tasks finish. When a page
  has a result, either some candidate's task threw and the page rethrows that, or the raw and
  staging results are those of the candidates that were not skipped, in the candidates' order,
  and the counts are their numbers: stored, staged and failed as reported, every candidate either
  skipped before the fetch or accounted for by exactly one result.
\<close>

theorem page_reports_in_order:
  "case ingestPage calls concurrency candidates s schedule of
     None \<Rightarrow> True
   | Some (Inl e, _) \<Rightarrow>
       Done (Inl e) \<in> set (pm_tasks (page_run calls concurrency candidates s schedule))
   | Some (Inr r, _) \<Rightarrow> (\<exists>vs.
       pm_tasks (page_run calls concurrency candidates s schedule) = map (\<lambda>v. Done (Inr v)) vs
       \<and> pr_rawStorage r = raws_of vs \<and> pr_staging r = stagings_of vs
       \<and> pr_counts r = tally_of (length candidates) vs
       \<and> pt_skippedBySourceId (pr_counts r) + length (pr_rawStorage r) = length candidates
       \<and> length (pr_staging r) = length (pr_rawStorage r))"
proof (rule ingest_outcome [of calls concurrency candidates s schedule])
  fix os
  assume os: "ingestPage calls concurrency candidates s schedule
      = Some (settle_page os, pm_world (page_run calls concurrency candidates s schedule))"
    "pm_tasks (page_run calls concurrency candidates s schedule) = map Done os" "length os = length candidates"
  show ?thesis
  proof (cases "settle_page os")
    case (Inl e)
    with settle_page_Inl [OF Inl] os show ?thesis by auto
  next
    case (Inr r)
    with os(1) ingest_settled [of calls concurrency candidates s schedule r] obtain vs where
      vs: "pm_tasks (page_run calls concurrency candidates s schedule) = map (\<lambda>v. Done (Inr v)) vs"
        "length vs = length candidates"
      and r: "r = \<lparr>pr_counts = tally_of (length vs) vs, pr_rawStorage = raws_of vs, pr_staging = stagings_of vs\<rparr>"
      by auto
    have "count_where (\<lambda>v. v = Skipped) us + length (raws_of us) = length us"
      "length (stagings_of us) = length (raws_of us)" for us
      by (induction us) (auto simp: count_where_def raws_of_def stagings_of_def split: settled.splits)
    with r vs show ?thesis
      unfolding os(1) option.case prod.case Inr sum.case
      by (intro exI [of _ vs]) (simp add: tally_of_def)
  qed
qed simp

subsection \<open>The cannot-miss guard\<close>

definition skips_fit :: "'s ingest_calls \<Rightarrow> replay_candidate list \<Rightarrow> task list \<Rightarrow> bool" where
  "skips_fit calls cs ts \<longleftrightarrow>
     {i. i < length ts \<and> ts ! i = Done (Inr Skipped)} \<subseteq> {i. prefetch_check calls (cs ! i) \<noteq> None}"

lemma task_step_skipped:
  "fst (task_step calls c t s) = Done (Inr Skipped) \<Longrightarrow> t = Done (Inr Skipped) \<or> prefetch_check calls c \<noteq> None"
  by (cases t) (auto simp: task_step_def split: option.splits prod.splits sum.splits bool.splits)

lemma page_turn_skips: "skips_fit calls cs (pm_tasks m) \<Longrightarrow> skips_fit calls cs (pm_tasks (page_turn calls c cs m i))"
proof -
  assume fit: "skips_fit calls cs (pm_tasks m)"
  have "prefetch_check calls (cs ! j) \<noteq> None"
    if j: "j < length (pm_tasks m)" and skipped: "pm_tasks (page_turn calls c cs m i) ! j = Done (Inr Skipped)" for j
  proof (cases "j = i")
    case True
    obtain t s where ts: "task_step calls (cs ! i) (pm_tasks m ! i) (pm_world m) = (t, s)"
      by (cases "task_step calls (cs ! i) (pm_tasks m ! i) (pm_world m)")
    have "pm_tasks m ! i \<noteq> Waiting \<and> t = Done (Inr Skipped) \<or> pm_tasks m ! i = Done (Inr Skipped)"
      using skipped True j by (auto simp: page_turn_def ts split: if_splits)
    with task_step_skipped [of calls "cs ! i" "pm_tasks m ! i" "pm_world m"] fit True j
    show ?thesis by (auto simp: ts skips_fit_def)
  next
    case False
    with skipped fit j show ?thesis by (auto simp: page_turn_other skips_fit_def)
  qed
  then show ?thesis by (auto simp: skips_fit_def)
qed

lemma page_run_skips: "skips_fit calls candidates (pm_tasks (page_run calls concurrency candidates s schedule))"
proof -
  have "skips_fit calls candidates (pm_tasks m) \<Longrightarrow>
      skips_fit calls candidates (pm_tasks (foldl (page_turn calls concurrency candidates) m schedule))" for m
    by (induction schedule arbitrary: m) (simp_all add: page_turn_skips)
  moreover have "skips_fit calls candidates (pm_tasks (page_start candidates s))"
    by (auto simp: page_start_def skips_fit_def)
  ultimately show ?thesis by (simp add: page_run_def)
qed

text \<open>
  The pre-fetch check cannot make a page miss a replay. A candidate is skipped without being
  fetched only when the caller opted in, gave the check, and the candidate has an external
  identifier that is not blank; without the opt-in no candidate is ever skipped.
\<close>

theorem skipped_only_when_trusted:
  "{i. i < length candidates
       \<and> pm_tasks (page_run calls concurrency candidates s schedule) ! i = Done (Inr Skipped)}
   \<subseteq> {i. ic_prefetchDedup calls \<and> ic_exists calls \<noteq> None
       \<and> isTrustworthyId (rs_externalId (rc_source (candidates ! i)))}"
  using page_run_skips [of calls candidates concurrency s schedule]
  by (auto simp: skips_fit_def prefetch_check_def Let_def split: if_splits)

subsection \<open>What a page leaves behind\<close>

text \<open>
  The contract between a page and the world its calls work on: a result that staging reports as
  successful is recorded there, and no call of any task drops a recorded one.
\<close>

locale recording_world =
  fixes calls :: "'s ingest_calls" and recorded :: "'s \<Rightarrow> store_result \<Rightarrow> bool"
  assumes stage_records:
      "ic_stage calls r s = (Inr g, s') \<Longrightarrow> sr_status g \<in> {Staged, AlreadyStaged} \<Longrightarrow> recorded s' r"
    and stage_keeps: "recorded s q \<Longrightarrow> recorded (snd (ic_stage calls r s)) q"
    and store_keeps: "recorded s q \<Longrightarrow> recorded (snd (ic_store calls c s)) q"
    and check_keeps: "ic_exists calls = Some check \<Longrightarrow> recorded s q \<Longrightarrow> recorded (snd (check sys i s)) q"
begin

definition settled_recorded :: "'s page_machine \<Rightarrow> bool" where
  "settled_recorded m \<longleftrightarrow> (\<forall>r g. Done (Inr (Settled r g)) \<in> set (pm_tasks m) \<longrightarrow>
     sr_status g \<in> {Staged, AlreadyStaged} \<longrightarrow> recorded (pm_world m) r)"

lemma task_step_keeps: "recorded s q \<Longrightarrow> recorded (snd (task_step calls c t s)) q"
  using stage_keeps [of s q] store_keeps [of s q c]
  by (cases t)
    (auto simp: task_step_def prefetch_check_def Let_def split: option.splits prod.splits sum.splits bool.splits if_splits,
     (metis check_keeps snd_conv)+)

lemma task_step_records:
  "task_step calls c t s = (Done (Inr (Settled r g)), s') \<Longrightarrow> sr_status g \<in> {Staged, AlreadyStaged} \<Longrightarrow>
     t = Done (Inr (Settled r g)) \<and> s' = s \<or> recorded s' r"
  using stage_records
  by (cases t) (auto simp: task_step_def split: option.splits prod.splits sum.splits bool.splits)

lemma page_turn_recorded: "settled_recorded m \<Longrightarrow> settled_recorded (page_turn calls c cs m i)"
proof -
  assume rec: "settled_recorded m"
  consider (out) "length (pm_tasks m) \<le> i" | (start) "i < length (pm_tasks m)" "pm_tasks m ! i = Waiting"
    | (move) "i < length (pm_tasks m)" "pm_tasks m ! i \<noteq> Waiting" by linarith
  then show ?thesis
  proof cases
    case out
    with rec show ?thesis by (simp add: page_turn_def)
  next
    case start
    then have "set ((pm_tasks m)[i := Checking]) \<subseteq> insert Checking (set (pm_tasks m))"
      by (intro set_update_subset_insert)
    with start rec show ?thesis by (auto simp: page_turn_def settled_recorded_def)
  next
    case move
    obtain t s where ts: "task_step calls (cs ! i) (pm_tasks m ! i) (pm_world m) = (t, s)"
      by (cases "task_step calls (cs ! i) (pm_tasks m ! i) (pm_world m)")
    have kept: "recorded (pm_world m) q \<Longrightarrow> recorded s q" for q
      using task_step_keeps [of "pm_world m" q "cs ! i" "pm_tasks m ! i"] ts by simp
    have sub: "set ((pm_tasks m)[i := t]) \<subseteq> insert t (set (pm_tasks m))"
      by (rule set_update_subset_insert)
    have "recorded s r" if "Done (Inr (Settled r g)) \<in> insert t (set (pm_tasks m))"
      "sr_status g \<in> {Staged, AlreadyStaged}" for r g
    proof (cases "Done (Inr (Settled r g)) \<in> set (pm_tasks m)")
      case True
      with rec that(2) kept show ?thesis unfolding settled_recorded_def by blast
    next
      case False
      with that(1) have t: "t = Done (Inr (Settled r g))" by simp
      have "pm_tasks m ! i \<in> set (pm_tasks m)" using move(1) by simp
      with False task_step_records [OF ts [unfolded t] that(2)] show ?thesis by auto
    qed
    with sub move ts show ?thesis by (auto simp: page_turn_def settled_recorded_def)
  qed
qed

lemma page_run_recorded: "settled_recorded (page_run calls c cs s schedule)"
proof -
  have "settled_recorded m \<Longrightarrow> settled_recorded (foldl (page_turn calls c cs) m schedule)" for m
    by (induction schedule arbitrary: m) (simp_all add: page_turn_recorded)
  moreover have "settled_recorded (page_start cs s)"
    by (auto simp: page_start_def settled_recorded_def)
  ultimately show ?thesis by (simp add: page_run_def)
qed

end

text \<open>What every call keeps, the page keeps.\<close>

lemma page_run_keeps:
  assumes store: "\<And>c s. I s \<Longrightarrow> I (snd (ic_store calls c s))"
    and stg: "\<And>r s. I s \<Longrightarrow> I (snd (ic_stage calls r s))"
    and check: "\<And>check sys i s. ic_exists calls = Some check \<Longrightarrow> I s \<Longrightarrow> I (snd (check sys i s))"
    and start: "I s"
  shows "I (pm_world (page_run calls c cs s schedule))"
proof -
  have chk: "I (snd (f s))" if "prefetch_check calls cand = Some f" "I s" for cand f s
    using that by (auto simp: prefetch_check_def Let_def split: if_splits intro: check)
  have step: "I (snd (task_step calls cand t s))" if "I s" for cand t s
  proof (cases t)
    case Checking
    show ?thesis
    proof (cases "prefetch_check calls cand")
      case (Some f)
      obtain r s' where f: "f s = (r, s')" by fastforce
      with chk [OF Some that] have "I s'" by simp
      with Checking Some f show ?thesis
        by (cases r) (simp_all add: task_step_def split: bool.split)
    qed (simp add: Checking task_step_def that)
  next
    case Storing
    obtain r s' where f: "ic_store calls cand s = (r, s')" by fastforce
    with store [OF that, of cand] have "I s'" by simp
    with Storing f show ?thesis by (cases r) (simp_all add: task_step_def)
  next
    case (StagingOf q)
    obtain r s' where f: "ic_stage calls q s = (r, s')" by fastforce
    with stg [OF that, of q] have "I s'" by simp
    with StagingOf f show ?thesis by (cases r) (simp_all add: task_step_def)
  qed (simp_all add: task_step_def that)
  have turn: "I (pm_world m) \<Longrightarrow> I (pm_world (page_turn calls c cs m i))" for m i
    using step [of "pm_world m" "cs ! i" "pm_tasks m ! i"]
    by (auto simp: page_turn_def split: prod.splits)
  have "I (pm_world m) \<Longrightarrow> I (pm_world (foldl (page_turn calls c cs) m schedule))" for m
    by (induction schedule arbitrary: m) (simp_all add: turn)
  with start show ?thesis by (simp add: page_run_def page_start_def)
qed

subsection \<open>The page over the bucket and the table\<close>

definition db_error :: "string option \<Rightarrow> thrown" where
  "db_error code = Error PlainError (map_option CodeText code) ''database error'' ''error'' None None None"

definition in_bucket :: "('b \<Rightarrow> 'r \<times> 'b) \<Rightarrow> 'b \<times> 'd \<Rightarrow> 'r \<times> ('b \<times> 'd)" where
  "in_bucket f w = (case f (fst w) of (r, b) \<Rightarrow> (r, (b, snd w)))"

definition in_table :: "('d \<Rightarrow> (string option + 'r) \<times> 'd) \<Rightarrow> 'b \<times> 'd \<Rightarrow> (thrown + 'r) \<times> ('b \<times> 'd)" where
  "in_table f w = (case f (snd w) of (r, d) \<Rightarrow> (map_sum db_error id r, (fst w, d)))"

definition page_calls ::
    "(string \<Rightarrow> url option) \<Rightarrow> (bytes \<Rightarrow> string) \<Rightarrow> 'b byte_client \<Rightarrow> 'b raw_sender \<Rightarrow> string
      \<Rightarrow> (replay_candidate \<Rightarrow> string) \<Rightarrow> (nat \<Rightarrow> db_turn) \<Rightarrow> string \<Rightarrow> bool \<Rightarrow> ('b \<times> staging_db) ingest_calls" where
  "page_calls parse_url sha256 byte_client sender bucket now env runId dedup =
     \<lparr>ic_prefetchDedup = dedup,
      ic_exists = (if dedup then Some (\<lambda>sys i. in_table (existsBySourceIdentity env sys i)) else None),
      ic_sourceSystem = None,
      ic_store = (\<lambda>c. in_bucket (storeRawReplay parse_url sha256 byte_client sender bucket (now c) c)),
      ic_stage = (\<lambda>r. in_table (stageRawReplay parse_url sha256 (stage env) r (Some runId)))\<rparr>"

definition row_for :: "'b \<times> staging_db \<Rightarrow> store_result \<Rightarrow> bool" where
  "row_for w r \<longleftrightarrow> (case r of FetchFailed _ \<Rightarrow> False
     | Evidence e \<Rightarrow> list_ex (same_object (rv_checksum e) (rv_objectKey e)) (db_rows (snd w)))"

lemma row_for_extends: "row_for (b, d) r \<Longrightarrow> rows_extend (db_rows d) (db_rows d') \<Longrightarrow> row_for (b', d') r"
  by (auto simp: row_for_def rows_extend_def split: store_result.splits)

lemma stageRawReplay_extends:
  "rows_extend (db_rows d) (db_rows (snd (stageRawReplay parse_url sha256 (stage env) r runId d)))"
  by (auto simp: stageRawReplay_def Let_def stage_extends split: store_result.splits sum.splits)

lemma stageRawReplay_row:
  assumes "stageRawReplay parse_url sha256 (stage env) r runId d = (Inr g, d')" "sr_status g \<in> {Staged, AlreadyStaged}"
  shows "row_for (b, d') r"
proof -
  from assms obtain e p where r: "r = Evidence e"
    and p: "toIngestStagingPayload parse_url sha256 e runId None = Inr p" and st: "stage env p d = (Inr g, d')"
    by (auto simp: stageRawReplay_def Let_def split: store_result.splits sum.splits)
  have "pl_checksum p = rv_checksum e \<and> pl_objectKey p = rv_objectKey e"
    using p by (auto simp: toIngestStagingPayload_def toPayload_def basePayload_def split: if_splits)
  with stage_recorded [OF st assms(2)] show ?thesis by (simp add: row_for_def r holds_object_def)
qed

lemma in_table_Inr: "in_table f w = (Inr g, w') \<longleftrightarrow> (\<exists>d. f (snd w) = (Inr g, d) \<and> w' = (fst w, d))"
  by (cases "f (snd w)"; cases "fst (f (snd w))") (auto simp: in_table_def)

lemma in_table_row:
  assumes "rows_extend (db_rows (snd w)) (db_rows (snd (f (snd w))))" "row_for w q"
  shows "row_for (snd (in_table f w)) q"
  using assms by (cases w; cases "f (snd w)") (auto simp: in_table_def intro: row_for_extends)

lemma in_bucket_row: "row_for w q \<Longrightarrow> row_for (snd (in_bucket f w)) q"
  by (cases w; cases "f (fst w)") (auto simp: in_bucket_def row_for_def split: store_result.splits)

lemma exists_extends: "rows_extend (db_rows d) (db_rows (snd (existsBySourceIdentity env sys i d)))"
  by (simp add: existsBySourceIdentity_def run_select_extends)

interpretation page_world: recording_world
    "page_calls parse_url sha256 byte_client sender bucket now env runId dedup" row_for
  for parse_url sha256 byte_client sender bucket now env runId dedup
  by unfold_locales
    (auto simp: page_calls_def in_table_Inr stageRawReplay_row split: if_splits
      intro: in_table_row in_bucket_row stageRawReplay_extends exists_extends)

text \<open>
  C7: no result without its row. For the page over the real store, repository and limiter, with
  any interleaving of its tasks, any other sessions and any failures: every candidate that was
  settled as \<open>staged\<close> or \<open>already_staged\<close> with raw evidence has a row with that evidence's
  checksum and object key in the table when the page is over.
\<close>

theorem page_settles_recorded:
  assumes "Done (Inr (Settled (Evidence e) g)) \<in> set (pm_tasks (page_run
        (page_calls parse_url sha256 byte_client sender bucket now env runId dedup) concurrency candidates w schedule))"
    and "sr_status g \<in> {Staged, AlreadyStaged}"
  shows "list_ex (\<lambda>row. sg_checksum row = rv_checksum e \<and> sg_objectKey row = rv_objectKey e)
    (db_rows (snd (pm_world (page_run
        (page_calls parse_url sha256 byte_client sender bucket now env runId dedup) concurrency candidates w schedule))))"
proof -
  let ?m = "page_run (page_calls parse_url sha256 byte_client sender bucket now env runId dedup)
      concurrency candidates w schedule"
  have "row_for (pm_world ?m) (Evidence e)"
    using page_world.page_run_recorded assms unfolding page_world.settled_recorded_def by blast
  then show ?thesis by (simp add: row_for_def same_object_def [abs_def])
qed

definition toy_calls :: "(toy_bucket \<times> staging_db) ingest_calls" where
  "toy_calls = page_calls example_parse toy_sha toy_client toy_sender ''b'' (\<lambda>_. ''t'') (quiet show_nat) ''run-1'' False"

definition toy_evidence :: raw_evidence where
  "toy_evidence = toBaseEvidence ''b'' \<lparr>ri_bytes = [1, 2, 3], ri_candidate = toy_candidate,
     ri_checksum = toy_sha [1, 2, 3], ri_fetchedAt = ''t'',
     ri_objectKey = ''raw/sha256/'' @ replicate 64 (CHR ''a'') @ ''.ocap''\<rparr> RawStored None"

lemma toy_stored:
  "storeRawReplay example_parse toy_sha toy_client toy_sender ''b'' ''t'' toy_candidate [] =
     (Inr (Evidence toy_evidence), [(''raw/sha256/'' @ replicate 64 (CHR ''a'') @ ''.ocap'', ([1, 2, 3], toy_sha [1, 2, 3]))])"
proof -
  have "toRawReplayObjectKey (toy_sha [1, 2, 3]) = Inr (''raw/sha256/'' @ replicate 64 (CHR ''a'') @ ''.ocap'')"
    by (rule toy_key)
  then show ?thesis
    unfolding toy_evidence_def
    by (simp add: storeRawReplay_def example_parse_def toy_client_def toy_candidate_def Let_def
      s3_storeRawReplay_def toy_sender_def isNotFound_def del: append.simps)
qed

lemma stage_empty:
  "stage (quiet ids) p empty_db =
     (Inr (staging_outcome Staged p None (Some (ids 0)) None), \<lparr>db_rows = [row_of p (ids 0)], db_turns = 1\<rparr>)"
  by (simp add: stage_def insertStaging_def run_insert_def empty_db_def)

lemma toy_page:
  "\<exists>g. sr_status g = Staged \<and> Done (Inr (Settled (Evidence toy_evidence) g))
     \<in> set (pm_tasks (page_run toy_calls 1 [toy_candidate] ([], empty_db) [0, 0, 0, 0]))"
proof -
  have stageable: "isStageable toy_evidence"
    by (simp add: toy_evidence_def toBaseEvidence_def isStageable_def)
  show ?thesis
    unfolding toy_calls_def
    by (simp add: page_run_def page_start_def page_turn_def may_start_def active_count_def task_step_def
      page_calls_def prefetch_check_def in_bucket_def in_table_def toy_stored stageRawReplay_def
      toIngestStagingPayload_def stageable stage_empty)
      (simp add: staging_outcome_def)
qed

lemma page_settles_recorded_witness:
  "list_ex (\<lambda>row. sg_checksum row = rv_checksum toy_evidence \<and> sg_objectKey row = rv_objectKey toy_evidence)
    (db_rows (snd (pm_world (page_run toy_calls 1 [toy_candidate] ([], empty_db) [0, 0, 0, 0]))))"
proof -
  obtain g where g: "sr_status g = Staged"
    "Done (Inr (Settled (Evidence toy_evidence) g))
       \<in> set (pm_tasks (page_run toy_calls 1 [toy_candidate] ([], empty_db) [0, 0, 0, 0]))"
    using toy_page by blast
  from page_settles_recorded [OF g(2) [unfolded toy_calls_def]] g(1) show ?thesis
    unfolding toy_calls_def by simp
qed

lemma page_ends_witness:
  "ingestPage toy_calls 1 [toy_candidate] ([], empty_db) (concat (replicate 4 [0])) \<noteq> None"
  using page_ends [of 1 toy_calls "[toy_candidate]" "([], empty_db)"] by (simp del: not_None_eq)

end
