(* ===== verification/Discovery_Report.thy ===== *)
theory Discovery_Report
  imports Source_Clients Checkpoint_State Raw_Storage
begin

text \<open>
  Discovery reports and their diagnostics: \<open>src/discovery/discover-diagnostics.ts\<close> over the
  types of \<open>src/types/discovery-diagnostic.ts\<close> and \<open>src/discovery/types.ts\<close>.

  A source failure reaches the report as one diagnostic of severity \<open>error\<close> that repeats the
  identifiers of the thrown \<open>SourceFetchError\<close>.
\<close>

datatype severity = Info | Warning | SeverityError

record diagnostic =
  dg_attempts :: "nat option"
  dg_candidateIndex :: "nat option"
  dg_causeCode :: "string option"
  dg_causeMessage :: "string option"
  dg_cfChallenge :: bool
  dg_code :: discovery_code
  dg_externalId :: "string option"
  dg_httpStatus :: "int option"
  dg_message :: string
  dg_page :: "nat option"
  dg_phase :: "phase option"
  dg_severity :: severity
  dg_sourceUrl :: "string option"

record report_counts =
  rp_candidates :: nat
  rp_diagnostics :: nat
  rp_discovered :: nat
  rp_skippedPreDetail :: nat

record report =
  dr_candidates :: "replay_candidate list"
  dr_counts :: report_counts
  dr_diagnostics :: "diagnostic list"
  dr_generatedAt :: string
  dr_maxPages :: "nat option"
  dr_ok :: bool
  dr_sourceUrl :: string

subsection \<open>Reports\<close>

definition buildReport ::
    "replay_candidate list \<Rightarrow> diagnostic list \<Rightarrow> bool \<Rightarrow> nat \<Rightarrow> string \<Rightarrow> nat option \<Rightarrow> string \<Rightarrow> report" where
  "buildReport candidates diagnostics ok skippedPreDetail generatedAt maxPages sourceUrl =
     \<lparr>dr_candidates = candidates,
      dr_counts = \<lparr>rp_candidates = length candidates, rp_diagnostics = length diagnostics,
        rp_discovered = length candidates, rp_skippedPreDetail = skippedPreDetail\<rparr>,
      dr_diagnostics = diagnostics, dr_generatedAt = generatedAt, dr_maxPages = maxPages,
      dr_ok = ok, dr_sourceUrl = sourceUrl\<rparr>"

subsection \<open>Diagnostics\<close>

definition plain_diagnostic :: "discovery_code \<Rightarrow> string \<Rightarrow> severity \<Rightarrow> diagnostic" where
  "plain_diagnostic code message sev =
     \<lparr>dg_attempts = None, dg_candidateIndex = None, dg_causeCode = None, dg_causeMessage = None,
      dg_cfChallenge = False, dg_code = code, dg_externalId = None, dg_httpStatus = None,
      dg_message = message, dg_page = None, dg_phase = None, dg_severity = sev,
      dg_sourceUrl = None\<rparr>"

text \<open>An absent id or page leaves the diagnostic as it was.\<close>

definition keep :: "'a option \<Rightarrow> 'a option \<Rightarrow> 'a option" where
  "keep new old = (case new of None \<Rightarrow> old | Some x \<Rightarrow> Some x)"

lemma keep_None [simp]: "keep None old = old"
  by (simp add: keep_def)

lemma keep_Some [simp]: "keep (Some x) old = Some x"
  by (simp add: keep_def)

lemma keep_None_right [simp]: "keep x None = x"
  by (simp add: keep_def split: option.split)

definition withOptionalDiagnosticEvidence :: "diagnostic \<Rightarrow> string option \<Rightarrow> nat option \<Rightarrow> diagnostic" where
  "withOptionalDiagnosticEvidence d externalId page =
     d\<lparr>dg_externalId := keep externalId (dg_externalId d), dg_page := keep page (dg_page d)\<rparr>"

definition withSourceFailureEvidence :: "diagnostic \<Rightarrow> failure_details option \<Rightarrow> diagnostic" where
  "withSourceFailureEvidence diag details = (case details of
       None \<Rightarrow> diag
     | Some d \<Rightarrow>
         diag\<lparr>dg_attempts := keep (d_attempts d) (dg_attempts diag),
           dg_httpStatus := keep (d_httpStatus d) (dg_httpStatus diag),
           dg_page := keep (d_page d) (dg_page diag),
           dg_causeCode := keep (d_causeCode d) (dg_causeCode diag),
           dg_causeMessage := keep (d_causeMessage d) (dg_causeMessage diag),
           dg_phase := Some (d_phase d),
           dg_cfChallenge := d_cfChallenge d \<or> dg_cfChallenge diag\<rparr>)"

definition detailUrlOrSource :: "thrown \<Rightarrow> string \<Rightarrow> string" where
  "detailUrlOrSource error sourceUrl =
     (case err_details error of Some d \<Rightarrow> d_url d | None \<Rightarrow> sourceUrl)"

text \<open>The \<open>code\<close> of a \<open>SourceFetchError\<close> is one of three texts.\<close>

definition fetch_code :: "thrown \<Rightarrow> discovery_code" where
  "fetch_code error =
     (if err_code error = Some (CodeText ''rate_limited'') then SourceRateLimited
      else if err_code error = Some (CodeText ''source_transient'') then SourceTransient
      else SourceUnavailable)"

definition buildSourceFailureDiagnostic :: "thrown \<Rightarrow> string \<Rightarrow> nat \<Rightarrow> diagnostic" where
  "buildSourceFailureDiagnostic error sourceUrl failedPage =
     withSourceFailureEvidence
       ((plain_diagnostic (fetch_code error) (err_message error) SeverityError)
         \<lparr>dg_page := Some failedPage, dg_sourceUrl := Some (detailUrlOrSource error sourceUrl)\<rparr>)
       (err_details error)"

subsection \<open>What the diagnostic says\<close>

lemma buildSourceFailureDiagnostic_sel [simp]:
  "dg_code (buildSourceFailureDiagnostic e u p) = fetch_code e"
  "dg_severity (buildSourceFailureDiagnostic e u p) = SeverityError"
  "dg_message (buildSourceFailureDiagnostic e u p) = err_message e"
  "dg_phase (buildSourceFailureDiagnostic e u p) = map_option d_phase (err_details e)"
  "dg_attempts (buildSourceFailureDiagnostic e u p) = Option.bind (err_details e) d_attempts"
  "dg_page (buildSourceFailureDiagnostic e u p) = keep (Option.bind (err_details e) d_page) (Some p)"
  by (simp_all add: buildSourceFailureDiagnostic_def withSourceFailureEvidence_def
      plain_diagnostic_def split: option.split)

text \<open>The error that a failed read throws carries the code of its classification.\<close>

lemma fetch_code_of_kind:
  "fetch_code (buildSourceFetchError n c m e pg ph u) =
     (case fc_kind c of RateLimited \<Rightarrow> SourceRateLimited | Transient \<Rightarrow> SourceTransient
      | Permanent \<Rightarrow> SourceUnavailable)"
  by (cases "fc_kind c") (simp_all add: fetch_code_def buildSourceFetchError_def toFetchCode_def)

end
