(* ===== verification/Summary.thy ===== *)
theory Summary
  imports Discovery_Report Staging "HOL-Library.Product_Lexorder" Complex_Main
begin

text \<open>
  The run summary, \<open>src/run/summary.ts\<close> with the types of \<open>src/types/run-summary.ts\<close>:
  counting, the failure categories, the status of a run, rate and estimate, the compact form
  and the exit code.

  JavaScript numbers of the rate computation are rationals here; \<open>Number.EPSILON\<close> is
  \<open>1 / 2 ^ 52\<close>.
\<close>

datatype failure_category = ConfigInvalid | CatFetchFailed | CatNotStageable | CatSourceUnavailable
  | StagingConflict | CatStagingFailed | StorageConflict | StorageFailed

definition category_text :: "failure_category \<Rightarrow> string" where
  "category_text c = (case c of
       ConfigInvalid \<Rightarrow> ''config_invalid'' | CatFetchFailed \<Rightarrow> ''fetch_failed''
     | CatNotStageable \<Rightarrow> ''not_stageable'' | CatSourceUnavailable \<Rightarrow> ''source_unavailable''
     | StagingConflict \<Rightarrow> ''staging_conflict'' | CatStagingFailed \<Rightarrow> ''staging_failed''
     | StorageConflict \<Rightarrow> ''storage_conflict'' | StorageFailed \<Rightarrow> ''storage_failed'')"

datatype run_status = RunComplete | RunFailed | RunPartial | RunResumable | RunTruncated

datatype run_mode = RunOnce | Watch

record run_counts =
  rn_conflict :: nat
  rn_diagnostics :: nat
  rn_discovered :: nat
  rn_duplicate :: nat
  rn_failed :: nat
  rn_fetched :: nat
  rn_skipped :: nat
  rn_skippedBySourceId :: nat
  rn_skippedPreDetail :: nat
  rn_staged :: nat
  rn_stored :: nat

record page_range =
  rg_firstPage :: nat
  rg_lastPage :: nat

record run_summary =
  su_candidates :: "replay_candidate list"
  su_candidatesPerMinute :: "rat option"
  su_counts :: run_counts
  su_diagnostics :: "diagnostic list"
  su_discoveredRange :: "page_range option"
  su_etaSeconds :: "rat option"
  su_failureCategories :: "failure_category list"
  su_finishedAt :: string
  su_mode :: run_mode
  su_ok :: bool
  su_pagesPerMinute :: "rat option"
  su_rawStorage :: "store_result list"
  su_resumeInvocation :: "string option"
  su_runId :: string
  su_sourceFailure :: "source_failure option"
  su_sourceUrl :: "string option"
  su_staging :: "staging_result list"
  su_startedAt :: string
  su_status :: "run_status option"

record compact_summary =
  co_counts :: run_counts
  co_failureCategories :: "failure_category list"
  co_finishedAt :: string
  co_mode :: run_mode
  co_ok :: bool
  co_runId :: string
  co_startedAt :: string
  co_discoveredRange :: "page_range option"
  co_resumeInvocation :: "string option"
  co_sourceFailure :: "source_failure option"
  co_sourceUrl :: "string option"
  co_status :: "run_status option"

record config_failure_summary =
  cs_counts :: run_counts
  cs_failureCategories :: "failure_category list"
  cs_finishedAt :: string
  cs_issues :: "string list"
  cs_mode :: run_mode
  cs_ok :: bool
  cs_runId :: string
  cs_startedAt :: string

record summary_input =
  si_candidateCount :: "nat option"
  si_discoveredLastPage :: "nat option"
  si_discoveredRange :: "page_range option"
  si_discoveryReport :: report
  si_finishedAt :: string
  si_lastCompletedPage :: "nat option"
  si_mode :: "run_mode option"
  si_pageTimestampsMs :: "int list option"
  si_rawStorage :: "store_result list"
  si_resumeInvocation :: "string option"
  si_runId :: string
  si_skippedBySourceId :: "nat option"
  si_staging :: "staging_result list"
  si_startedAt :: string
  si_status :: "run_status option"
  si_upperBoundLastPage :: "nat option"

definition emptyCounts :: run_counts where
  "emptyCounts = \<lparr>rn_conflict = 0, rn_diagnostics = 0, rn_discovered = 0, rn_duplicate = 0,
     rn_failed = 0, rn_fetched = 0, rn_skipped = 0, rn_skippedBySourceId = 0,
     rn_skippedPreDetail = 0, rn_staged = 0, rn_stored = 0\<rparr>"

subsection \<open>Failure categories\<close>

text \<open>The code sorts the category texts with the default comparison; the order below is the
  order of the texts, as \<open>less_category_text\<close> shows.\<close>

instantiation failure_category :: linorder
begin

definition category_rank :: "failure_category \<Rightarrow> nat" where
  "category_rank c = (case c of ConfigInvalid \<Rightarrow> 0 | CatFetchFailed \<Rightarrow> 1 | CatNotStageable \<Rightarrow> 2
     | CatSourceUnavailable \<Rightarrow> 3 | StagingConflict \<Rightarrow> 4 | CatStagingFailed \<Rightarrow> 5
     | StorageConflict \<Rightarrow> 6 | StorageFailed \<Rightarrow> 7)"

definition less_eq_failure_category :: "failure_category \<Rightarrow> failure_category \<Rightarrow> bool" where
  "less_eq_failure_category a b \<longleftrightarrow> category_rank a \<le> category_rank b"

definition less_failure_category :: "failure_category \<Rightarrow> failure_category \<Rightarrow> bool" where
  "less_failure_category a b \<longleftrightarrow> category_rank a < category_rank b"

instance
proof
  fix a b c :: failure_category
  show "a < b \<longleftrightarrow> a \<le> b \<and> \<not> b \<le> a"
    by (auto simp: less_eq_failure_category_def less_failure_category_def)
  show "a \<le> a" by (simp add: less_eq_failure_category_def)
  show "a \<le> b \<Longrightarrow> b \<le> c \<Longrightarrow> a \<le> c" by (simp add: less_eq_failure_category_def)
  show "a \<le> b \<Longrightarrow> b \<le> a \<Longrightarrow> a = b"
    by (cases a; cases b; simp add: less_eq_failure_category_def category_rank_def)
  show "a \<le> b \<or> b \<le> a" by (auto simp: less_eq_failure_category_def)
qed

end

definition codes :: "string \<Rightarrow> nat list" where "codes s = map of_char s"

lemma less_category_text:
  "a < b \<longleftrightarrow> (codes (category_text a), codes (category_text b)) \<in> lexord {(m, n). m < n}"
  by (cases a; cases b; simp add: less_failure_category_def category_rank_def category_text_def
      codes_def lexord_cons_cons)

definition countStatus :: "staging_result list \<Rightarrow> staging_status \<Rightarrow> nat" where
  "countStatus staging st = length (filter (\<lambda>r. sr_status r = st) staging)"

definition countRawStatus :: "store_result list \<Rightarrow> raw_status \<Rightarrow> nat" where
  "countRawStatus raw st = length (filter (\<lambda>r. result_status r = st) raw)"

definition uniqueCategories :: "failure_category list \<Rightarrow> failure_category list" where
  "uniqueCategories cs = sort (remdups cs)"

definition staging_category :: "staging_result \<Rightarrow> failure_category list" where
  "staging_category r =
     (if sr_status r = Conflict then [StagingConflict]
      else if sr_status r = StagingFailed then [CatStagingFailed]
      else if sr_status r = NotStageable then [CatNotStageable] else [])"

definition stagingFailureCategories :: "staging_result list \<Rightarrow> failure_category list" where
  "stagingFailureCategories staging = concat (map staging_category staging)"

definition raw_category :: "store_result \<Rightarrow> failure_category list" where
  "raw_category r =
     (if result_status r = RawConflict then [StorageConflict]
      else if result_status r \<noteq> RawFailed then []
      else (case r of FetchFailed _ \<Rightarrow> [CatFetchFailed] | Evidence _ \<Rightarrow> [StorageFailed]))"

definition rawFailureCategories :: "store_result list \<Rightarrow> failure_category list" where
  "rawFailureCategories raw = concat (map raw_category raw)"

definition sourceFailureCategories :: "report \<Rightarrow> failure_category list" where
  "sourceFailureCategories rep = (if dr_ok rep then [] else [CatSourceUnavailable])"

definition collectFailureCategories ::
    "report \<Rightarrow> store_result list \<Rightarrow> staging_result list \<Rightarrow> failure_category list" where
  "collectFailureCategories rep raw staging =
     uniqueCategories (sourceFailureCategories rep @ rawFailureCategories raw @
       stagingFailureCategories staging)"

subsection \<open>Counts, source failure, status\<close>

definition countRun ::
    "report \<Rightarrow> store_result list \<Rightarrow> nat \<Rightarrow> nat \<Rightarrow> staging_result list \<Rightarrow> run_counts" where
  "countRun rep raw skippedBySourceId skippedPreDetail staging =
     \<lparr>rn_conflict = countRawStatus raw RawConflict + countStatus staging Conflict,
      rn_diagnostics = length (dr_diagnostics rep), rn_discovered = length (dr_candidates rep),
      rn_duplicate = countStatus staging AlreadyStaged,
      rn_failed = countRawStatus raw RawFailed + countStatus staging StagingFailed,
      rn_fetched = length raw,
      rn_skipped = countRawStatus raw RawSkipped + countStatus staging NotStageable,
      rn_skippedBySourceId = skippedBySourceId, rn_skippedPreDetail = skippedPreDetail,
      rn_staged = countStatus staging Staged, rn_stored = countRawStatus raw RawStored\<rparr>"

definition sourceFailureClassification :: "discovery_code \<Rightarrow> failure_kind option" where
  "sourceFailureClassification code =
     (if code = SourceRateLimited then Some RateLimited
      else if code = SourceTransient then Some Transient
      else if code = SourceUnavailable then Some Permanent else None)"

definition buildSourceFailure :: "diagnostic \<Rightarrow> failure_kind \<Rightarrow> source_failure" where
  "buildSourceFailure d kind =
     \<lparr>sf_attempts = dg_attempts d, sf_classification = kind, sf_code = dg_code d,
      sf_phase = dg_phase d\<rparr>"

definition is_source_failure :: "diagnostic \<Rightarrow> bool" where
  "is_source_failure d \<longleftrightarrow>
     dg_severity d = SeverityError \<and> sourceFailureClassification (dg_code d) \<noteq> None"

definition deriveSourceFailure :: "report \<Rightarrow> source_failure option" where
  "deriveSourceFailure rep =
     (if dr_ok rep then None
      else case List.find is_source_failure (dr_diagnostics rep) of
        None \<Rightarrow> None
      | Some d \<Rightarrow>
          (case sourceFailureClassification (dg_code d) of
             None \<Rightarrow> None
           | Some kind \<Rightarrow> Some (buildSourceFailure d kind)))"

definition isRecoverable :: "source_failure option \<Rightarrow> bool" where
  "isRecoverable f \<longleftrightarrow> (case f of None \<Rightarrow> False
     | Some g \<Rightarrow> sf_classification g = RateLimited \<or> sf_classification g = Transient)"

definition deriveRunStatus ::
    "bool \<Rightarrow> nat \<Rightarrow> nat \<Rightarrow> bool option \<Rightarrow> source_failure option \<Rightarrow> run_status" where
  "deriveRunStatus ok lastCompletedPage discoveredLastPage reachedMaxPages sourceFailure =
     (if ok \<and> discoveredLastPage \<le> lastCompletedPage
      then (if reachedMaxPages = Some True then RunTruncated else RunComplete)
      else if isRecoverable sourceFailure then RunResumable
      else if 0 < lastCompletedPage then RunPartial
      else RunFailed)"

subsection \<open>Rate and estimate\<close>

definition number_epsilon :: rat where "number_epsilon = 1 / 2 ^ 52"

definition deriveRunRate :: "int list \<Rightarrow> nat \<Rightarrow> rat \<times> rat" where
  "deriveRunRate pageTimestampsMs candidateCount =
     (let first = (case pageTimestampsMs of [] \<Rightarrow> 0 | t # _ \<Rightarrow> t);
          lst = (case pageTimestampsMs of [] \<Rightarrow> 0 | _ \<Rightarrow> last pageTimestampsMs);
          minutes = max (of_int (lst - first) / 60000) number_epsilon
      in (of_nat candidateCount / minutes, of_nat (length pageTimestampsMs) / minutes))"

definition deriveEtaSeconds :: "summary_input \<Rightarrow> rat \<Rightarrow> rat option" where
  "deriveEtaSeconds input pagesPerMinute =
     (case si_upperBoundLastPage input of
        None \<Rightarrow> None
      | Some upper \<Rightarrow>
          (case si_lastCompletedPage input of
             None \<Rightarrow> None
           | Some lastPage \<Rightarrow>
               if pagesPerMinute \<le> 0 then None
               else Some (of_int (int upper - int lastPage) / pagesPerMinute * 60)))"

definition withRunStatus :: "run_summary \<Rightarrow> summary_input \<Rightarrow> run_summary" where
  "withRunStatus s input =
     s\<lparr>su_status := keep (si_status input) (su_status s),
       su_resumeInvocation := keep (si_resumeInvocation input) (su_resumeInvocation s)\<rparr>"

definition withRunMetrics :: "run_summary \<Rightarrow> summary_input \<Rightarrow> run_summary" where
  "withRunMetrics s input =
     (let next1 = s\<lparr>su_discoveredRange := keep (si_discoveredRange input) (su_discoveredRange s)\<rparr> in
      case si_pageTimestampsMs input of
        None \<Rightarrow> next1
      | Some [] \<Rightarrow> next1
      | Some (t # ts) \<Rightarrow>
          (let (cpm, ppm) = deriveRunRate (t # ts)
                 (case si_candidateCount input of None \<Rightarrow> 0 | Some n \<Rightarrow> n);
               next2 = next1\<lparr>su_candidatesPerMinute := Some cpm, su_pagesPerMinute := Some ppm\<rparr>
           in next2\<lparr>su_etaSeconds := keep (deriveEtaSeconds input ppm) (su_etaSeconds next2)\<rparr>))"

subsection \<open>The summary\<close>

definition base_summary :: "summary_input \<Rightarrow> run_summary" where
  "base_summary input =
     (let rep = si_discoveryReport input;
          failureCategories = collectFailureCategories rep (si_rawStorage input) (si_staging input)
      in \<lparr>su_candidates = dr_candidates rep, su_candidatesPerMinute = None,
          su_counts = countRun rep (si_rawStorage input)
            (case si_skippedBySourceId input of None \<Rightarrow> 0 | Some n \<Rightarrow> n)
            (rp_skippedPreDetail (dr_counts rep)) (si_staging input),
          su_diagnostics = dr_diagnostics rep, su_discoveredRange = None, su_etaSeconds = None,
          su_failureCategories = failureCategories, su_finishedAt = si_finishedAt input,
          su_mode = (case si_mode input of None \<Rightarrow> RunOnce | Some m \<Rightarrow> m),
          su_ok = (dr_ok rep \<and> length failureCategories = 0), su_pagesPerMinute = None,
          su_rawStorage = si_rawStorage input, su_resumeInvocation = None,
          su_runId = si_runId input, su_sourceFailure = None,
          su_sourceUrl = Some (dr_sourceUrl rep), su_staging = si_staging input,
          su_startedAt = si_startedAt input, su_status = None\<rparr>)"

definition buildRunSummary :: "summary_input \<Rightarrow> run_summary" where
  "buildRunSummary input =
     (let s = base_summary input in
      case deriveSourceFailure (si_discoveryReport input) of
        None \<Rightarrow> withRunMetrics (withRunStatus s input) input
      | Some f \<Rightarrow> withRunMetrics (withRunStatus (s\<lparr>su_sourceFailure := Some f\<rparr>) input) input)"

definition toCompactSummary :: "run_summary \<Rightarrow> compact_summary" where
  "toCompactSummary s =
     \<lparr>co_counts = su_counts s, co_failureCategories = su_failureCategories s,
      co_finishedAt = su_finishedAt s, co_mode = su_mode s, co_ok = su_ok s, co_runId = su_runId s,
      co_startedAt = su_startedAt s, co_discoveredRange = su_discoveredRange s,
      co_resumeInvocation = su_resumeInvocation s, co_sourceFailure = su_sourceFailure s,
      co_sourceUrl = su_sourceUrl s, co_status = su_status s\<rparr>"

definition buildConfigInvalidRunSummary ::
    "string \<Rightarrow> string list \<Rightarrow> string \<Rightarrow> string \<Rightarrow> config_failure_summary" where
  "buildConfigInvalidRunSummary finishedAt issues runId startedAt =
     \<lparr>cs_counts = emptyCounts, cs_failureCategories = [ConfigInvalid],
      cs_finishedAt = finishedAt, cs_issues = issues, cs_mode = RunOnce, cs_ok = False,
      cs_runId = runId, cs_startedAt = startedAt\<rparr>"

definition runExitCode :: "bool \<Rightarrow> run_status option \<Rightarrow> nat" where
  "runExitCode ok status =
     (if status \<noteq> None \<and> status \<noteq> Some RunComplete then 2
      else if ok then 0 else 2)"

definition summary_exit_code :: "run_summary \<Rightarrow> nat" where
  "summary_exit_code s = runExitCode (su_ok s) (su_status s)"

subsection \<open>What a summary says\<close>

lemma buildRunSummary_frame [simp]:
  "su_ok (buildRunSummary input) = su_ok (base_summary input)"
  "su_counts (buildRunSummary input) = su_counts (base_summary input)"
  "su_failureCategories (buildRunSummary input) = su_failureCategories (base_summary input)"
  "su_status (buildRunSummary input) = si_status input"
  "su_resumeInvocation (buildRunSummary input) = si_resumeInvocation input"
  "su_discoveredRange (buildRunSummary input) = si_discoveredRange input"
  "su_sourceFailure (buildRunSummary input) = deriveSourceFailure (si_discoveryReport input)"
  "su_rawStorage (buildRunSummary input) = si_rawStorage input"
  "su_staging (buildRunSummary input) = si_staging input"
  by (auto simp: buildRunSummary_def withRunMetrics_def withRunStatus_def base_summary_def Let_def
      split: option.splits list.splits prod.splits)

lemma set_collectFailureCategories:
  "set (collectFailureCategories rep raw staging) =
     (if dr_ok rep then {} else {CatSourceUnavailable}) \<union>
     (\<Union>r\<in>set raw. set (raw_category r)) \<union> (\<Union>r\<in>set staging. set (staging_category r))"
  by (simp add: collectFailureCategories_def uniqueCategories_def sourceFailureCategories_def
      rawFailureCategories_def stagingFailureCategories_def)

lemma raw_category_empty: "raw_category r = [] \<longleftrightarrow> result_status r \<in> {RawStored, RawSkipped}"
  by (cases "result_status r") (auto simp: raw_category_def split: store_result.split)

lemma staging_category_empty: "staging_category r = [] \<longleftrightarrow> sr_status r \<in> {Staged, AlreadyStaged}"
  by (cases "sr_status r") (auto simp: staging_category_def)

lemma collect_empty_iff:
  "collectFailureCategories rep raw staging = [] \<longleftrightarrow> dr_ok rep \<and>
     list_all (\<lambda>r. result_status r \<in> {RawStored, RawSkipped}) raw \<and>
     list_all (\<lambda>r. sr_status r \<in> {Staged, AlreadyStaged}) staging"
proof -
  have "collectFailureCategories rep raw staging = [] \<longleftrightarrow> set (collectFailureCategories rep raw staging) = {}"
    by simp
  also have "\<dots> \<longleftrightarrow> dr_ok rep \<and> (\<forall>r\<in>set raw. raw_category r = []) \<and> (\<forall>r\<in>set staging. staging_category r = [])"
    unfolding set_collectFailureCategories by auto
  finally show ?thesis by (simp add: raw_category_empty staging_category_empty list_all_iff)
qed

lemma base_ok: "su_ok (base_summary input) \<longleftrightarrow> su_failureCategories (base_summary input) = []"
  by (auto simp: base_summary_def Let_def collect_empty_iff)

text \<open>
  When a run is reported as \<open>ok\<close>. The flag, and with it an exit code of zero, is
  set exactly when discovery was ok, every fetched replay was stored or found to be stored, and every staging
  result is \<open>staged\<close> or \<open>already_staged\<close>; this is the case exactly when the list of failure
  categories is empty, and that list is sorted and free of repetitions. The process exits with
  0 or 2, and with 0 only for a run that is \<open>ok\<close> and not marked other than \<open>complete\<close>.
\<close>

theorem summary_ok_exact:
  "let s = buildRunSummary input in
     (su_ok s \<longleftrightarrow> dr_ok (si_discoveryReport input) \<and>
        list_all (\<lambda>r. result_status r \<in> {RawStored, RawSkipped}) (si_rawStorage input) \<and>
        list_all (\<lambda>r. sr_status r \<in> {Staged, AlreadyStaged}) (si_staging input)) \<and>
     (su_ok s \<longleftrightarrow> su_failureCategories s = []) \<and>
     sorted (su_failureCategories s) \<and> distinct (su_failureCategories s) \<and>
     (summary_exit_code s = 0 \<longleftrightarrow> su_ok s \<and> si_status input \<in> {None, Some RunComplete}) \<and>
     (summary_exit_code s = 2 \<longleftrightarrow> summary_exit_code s \<noteq> 0)"
proof -
  have "su_ok (base_summary input) \<longleftrightarrow> dr_ok (si_discoveryReport input) \<and>
        list_all (\<lambda>r. result_status r \<in> {RawStored, RawSkipped}) (si_rawStorage input) \<and>
        list_all (\<lambda>r. sr_status r \<in> {Staged, AlreadyStaged}) (si_staging input)"
    by (auto simp: base_summary_def Let_def collect_empty_iff)
  moreover have "sorted (su_failureCategories (base_summary input))"
    "distinct (su_failureCategories (base_summary input))"
    by (simp_all add: base_summary_def Let_def collectFailureCategories_def uniqueCategories_def)
  ultimately show ?thesis
    by (auto simp: Let_def base_ok summary_exit_code_def runExitCode_def)
qed

lemma filter_partition_raw:
  "countRawStatus raw RawStored + countRawStatus raw RawSkipped + countRawStatus raw RawConflict
     + countRawStatus raw RawFailed = length raw"
proof (induction raw)
  case (Cons r raw)
  then show ?case by (cases "result_status r") (simp_all add: countRawStatus_def)
qed (simp add: countRawStatus_def)

lemma filter_partition_staging:
  "countStatus st Staged + countStatus st AlreadyStaged + countStatus st Conflict
     + countStatus st StagingFailed + countStatus st NotStageable = length st"
proof (induction st)
  case (Cons r st)
  then show ?case by (cases "sr_status r") (simp_all add: countStatus_def)
qed (simp add: countStatus_def)

text \<open>
  No outcome is dropped from the counts. Every storage result and every staging result of
  a run is counted exactly once among \<open>stored\<close>, \<open>skipped\<close>, \<open>conflict\<close>, \<open>failed\<close>, \<open>staged\<close> and
  \<open>duplicate\<close>, and a count of the failing kinds is positive exactly when the list of failure
  categories shows it.
\<close>

theorem counts_account_for_everything:
  "let s = buildRunSummary input; c = su_counts s; cats = set (su_failureCategories s) in
     rn_stored c + rn_skipped c + rn_conflict c + rn_failed c + rn_staged c + rn_duplicate c
       = length (su_rawStorage s) + length (su_staging s) \<and>
     rn_fetched c = length (su_rawStorage s) \<and>
     (0 < rn_conflict c \<longleftrightarrow> \<not> disjnt cats {StorageConflict, StagingConflict}) \<and>
     (0 < rn_failed c \<longleftrightarrow> \<not> disjnt cats {CatFetchFailed, StorageFailed, CatStagingFailed})"
proof -
  let ?raw = "si_rawStorage input" and ?st = "si_staging input"
  let ?cats = "set (collectFailureCategories (si_discoveryReport input) ?raw ?st)"
  have raw: "c \<in> set (raw_category r) \<longleftrightarrow>
      (c = StorageConflict \<and> result_status r = RawConflict) \<or>
      (c = CatFetchFailed \<and> result_status r = RawFailed \<and> (\<exists>f. r = FetchFailed f)) \<or>
      (c = StorageFailed \<and> result_status r = RawFailed \<and> (\<exists>e. r = Evidence e))" for c r
    by (auto simp: raw_category_def split: store_result.splits)
  have staged: "c \<in> set (staging_category r) \<longleftrightarrow>
      (c = StagingConflict \<and> sr_status r = Conflict) \<or>
      (c = CatStagingFailed \<and> sr_status r = StagingFailed) \<or>
      (c = CatNotStageable \<and> sr_status r = NotStageable)" for c r
    by (auto simp: staging_category_def)
  have conflict: "\<not> disjnt ?cats {StorageConflict, StagingConflict} \<longleftrightarrow>
      (\<exists>r\<in>set ?raw. result_status r = RawConflict) \<or> (\<exists>r\<in>set ?st. sr_status r = Conflict)"
    unfolding set_collectFailureCategories disjnt_def by (auto simp: raw staged)
  have failed: "\<not> disjnt ?cats {CatFetchFailed, StorageFailed, CatStagingFailed} \<longleftrightarrow>
      (\<exists>r\<in>set ?raw. result_status r = RawFailed) \<or> (\<exists>r\<in>set ?st. sr_status r = StagingFailed)"
    unfolding set_collectFailureCategories disjnt_def
    by (auto simp: raw staged) (metis store_result.exhaust)+
  have counts: "su_counts (base_summary input) = countRun (si_discoveryReport input) ?raw
      (case si_skippedBySourceId input of None \<Rightarrow> 0 | Some n \<Rightarrow> n)
      (rp_skippedPreDetail (dr_counts (si_discoveryReport input))) ?st"
    and cats: "su_failureCategories (base_summary input) = collectFailureCategories (si_discoveryReport input) ?raw ?st"
    by (simp_all add: base_summary_def Let_def)
  show ?thesis
    unfolding Let_def buildRunSummary_frame counts cats conflict failed
    using filter_partition_raw [of ?raw] filter_partition_staging [of ?st]
    by (auto simp: countRun_def countRawStatus_def countStatus_def filter_empty_conv)
qed

subsection \<open>Source failures and the status of a run\<close>

lemma find_append_last:
  "list_all (\<lambda>x. \<not> P x) xs \<Longrightarrow> List.find P (xs @ [y]) = (if P y then Some y else None)"
  by (induction xs) auto

text \<open>
  From a failed read to the status of the run. A discovery report that ends with the
  diagnostic of a failed source read, after any diagnostics that are not errors, yields a source
  failure with the allowed tries and the phase of that read, classified as the classifier
  classified the error; the run is then \<open>resumable\<close> exactly when the classification is
  retryable, and otherwise \<open>partial\<close> or \<open>failed\<close> by whether a page was completed.
\<close>

theorem failed_read_decides_status:
  assumes "list_all (\<lambda>d. dg_severity d \<noteq> SeverityError) warnings"
  shows "let e = buildSourceFetchError tries c message cause page ph u;
             rep = buildReport cs (warnings @ [buildSourceFailureDiagnostic e sourceUrl failedPage])
               False skipped generated maxPages sourceUrl;
             f = deriveSourceFailure rep in
     f = Some \<lparr>sf_attempts = Some tries, sf_classification = fc_kind c,
               sf_code = fetch_code e, sf_phase = Some ph\<rparr> \<and>
     deriveRunStatus (dr_ok rep) completed found cap f =
       (if isRetryable c then RunResumable else if 0 < completed then RunPartial else RunFailed)"
proof -
  define e where "e = buildSourceFetchError tries c message cause page ph u"
  have details: "err_details e = Some (failure_details_of tries c page ph u)"
    by (simp add: e_def buildSourceFetchError_def)
  have kind: "sourceFailureClassification (fetch_code e) = Some (fc_kind c)"
    unfolding e_def fetch_code_of_kind by (cases "fc_kind c") (simp_all add: sourceFailureClassification_def)
  have "List.find is_source_failure (warnings @ [buildSourceFailureDiagnostic e sourceUrl failedPage])
      = Some (buildSourceFailureDiagnostic e sourceUrl failedPage)"
    using assms by (subst find_append_last) (auto simp: list_all_iff is_source_failure_def kind)
  then have "deriveSourceFailure (buildReport cs (warnings @ [buildSourceFailureDiagnostic e sourceUrl failedPage])
        False skipped generated maxPages sourceUrl)
      = Some \<lparr>sf_attempts = Some tries, sf_classification = fc_kind c, sf_code = fetch_code e, sf_phase = Some ph\<rparr>"
    by (simp add: deriveSourceFailure_def buildReport_def kind buildSourceFailure_def details
        failure_details_of_def)
  moreover have "dr_ok (buildReport cs ds False skipped generated maxPages sourceUrl) = False" for ds
    by (simp add: buildReport_def)
  ultimately show ?thesis
    unfolding e_def [symmetric] Let_def
    by (cases "fc_kind c") (simp_all add: deriveRunStatus_def isRecoverable_def isRetryable_iff)
qed

definition example_503 :: failure_classification where
  "example_503 = \<lparr>fc_causeCode = None, fc_causeMessage = None, fc_cfChallenge = False,
     fc_httpStatus = Some 503, fc_kind = Transient\<rparr>"

definition example_source :: url where
  "example_source = \<lparr>url_protocol = ''https:'', url_username = [], url_password = [],
     url_host = ''h'', url_pathname = ''/r'', url_search = [], url_hash = []\<rparr>"

definition example_failed_report :: report where
  "example_failed_report =
     buildReport [] ([plain_diagnostic MalformedRow ''m'' Warning] @
       [buildSourceFailureDiagnostic
          (buildSourceFetchError 4 example_503 ''m'' Undefined (Some 2) ListPhase example_source)
          ''https://h/r'' 2]) False 0 ''t'' (Some 1) ''https://h/r''"

lemma failed_read_decides_status_witness:
  "deriveRunStatus (dr_ok example_failed_report) 1 2 (Some False)
     (deriveSourceFailure example_failed_report) = RunResumable"
proof -
  have "list_all (\<lambda>d. dg_severity d \<noteq> SeverityError) [plain_diagnostic MalformedRow ''m'' Warning]"
    by (simp add: plain_diagnostic_def)
  note failed_read_decides_status [OF this, where tries = 4 and c = example_503 and message = "''m''"
      and cause = Undefined and page = "Some 2" and ph = ListPhase and u = example_source
      and cs = "[]" and skipped = 0 and generated = "''t''" and maxPages = "Some 1"
      and sourceUrl = "''https://h/r''" and failedPage = 2 and completed = 1 and found = 2
      and cap = "Some False"]
  from conjunct2 [OF this [unfolded Let_def]] show ?thesis
    unfolding example_failed_report_def by (simp add: isRetryable_def example_503_def)
qed

subsection \<open>Rates\<close>

lemma minutes_positive: "0 < max (x :: rat) number_epsilon"
  by (simp add: number_epsilon_def less_max_iff_disj)

text \<open>
  The estimate. Rates are never negative and never divide by zero, even for a single page
  or a clock that runs backwards; with at least one completed page the page rate is positive, so
  an estimate is given exactly when an upper bound and a last completed page are known, and
  at the reported rate the remaining pages take exactly the estimated time.
\<close>

theorem rate_and_estimate:
  "let (cpm, ppm) = deriveRunRate ts candidates; eta = deriveEtaSeconds input ppm in
     0 \<le> cpm \<and> 0 \<le> ppm \<and> (0 < ppm \<longleftrightarrow> ts \<noteq> []) \<and>
     (eta \<noteq> None \<longleftrightarrow> ts \<noteq> [] \<and> si_upperBoundLastPage input \<noteq> None \<and> si_lastCompletedPage input \<noteq> None) \<and>
     (case (eta, si_upperBoundLastPage input, si_lastCompletedPage input) of
        (Some seconds, Some upper, Some lastPage) \<Rightarrow>
          seconds / 60 * ppm = of_int (int upper - int lastPage)
      | _ \<Rightarrow> True)"
proof -
  obtain cpm ppm where r: "deriveRunRate ts candidates = (cpm, ppm)" by fastforce
  define m where "m = max (of_int ((case ts of [] \<Rightarrow> 0 | _ \<Rightarrow> last ts) - (case ts of [] \<Rightarrow> 0 | t # _ \<Rightarrow> t))
     / 60000) number_epsilon"
  have m: "0 < m" by (simp add: m_def minutes_positive)
  from r have eqs: "cpm = of_nat candidates / m" "ppm = of_nat (length ts) / m"
    by (simp_all add: deriveRunRate_def Let_def m_def)
  with m have pos: "0 \<le> cpm" "0 \<le> ppm" "0 < ppm \<longleftrightarrow> ts \<noteq> []"
    by (auto simp: zero_less_divide_iff)
  show ?thesis
    unfolding r using pos
    by (auto simp: deriveEtaSeconds_def Let_def split: option.splits)
qed

end
