(* ===== verification/Rate_Control.thy ===== *)
theory Rate_Control
  imports Prelude
begin

text \<open>
  Politeness towards the source: the adaptive concurrency of \<open>src/source/throttle.ts\<close> and the
  request spacing of \<open>src/source/pacing.ts\<close>.

  A controller is the record of the variables that its closure holds; concurrencies and
  milliseconds are integers, so that \<open>Math.floor(c * 0.5)\<close> is \<open>c div 2\<close>. A pacer keeps the time
  of the last call. What the timers add is the parameter \<open>now\<close> of each call; a pause of \<open>d\<close>
  milliseconds releases the caller \<open>d\<close> milliseconds later.
\<close>

subsection \<open>The throttle controller\<close>

record throttle_options =
  to_baseConcurrency :: int
  to_min :: int
  to_max :: int
  to_baseSpacingMs :: int

record throttle =
  th_concurrency :: int
  th_pacingFloorMs :: int
  th_rateLimitedStreak :: nat
  th_cleanStreak :: nat
  th_lastSignalAtMs :: "int option"

definition CONCURRENCY_FLOOR :: int where "CONCURRENCY_FLOOR = 1"
definition RATE_LIMITED_WINDOW :: nat where "RATE_LIMITED_WINDOW = 2"
definition CLEAN_WINDOW :: nat where "CLEAN_WINDOW = 3"
definition PACING_FLOOR_STEP_MS :: int where "PACING_FLOOR_STEP_MS = 100"
definition AI_STEP :: int where "AI_STEP = 1"

lemmas throttle_constants = CONCURRENCY_FLOOR_def RATE_LIMITED_WINDOW_def CLEAN_WINDOW_def
  PACING_FLOOR_STEP_MS_def AI_STEP_def

definition throttle_floor :: "throttle_options \<Rightarrow> int" where
  "throttle_floor options = max CONCURRENCY_FLOOR (to_min options)"

definition createThrottleController :: "throttle_options \<Rightarrow> throttle" where
  "createThrottleController options =
     \<lparr>th_concurrency = to_baseConcurrency options, th_pacingFloorMs = to_baseSpacingMs options,
      th_rateLimitedStreak = 0, th_cleanStreak = 0, th_lastSignalAtMs = None\<rparr>"

definition onRateLimited :: "throttle_options \<Rightarrow> int \<Rightarrow> throttle \<Rightarrow> throttle" where
  "onRateLimited options nowMs s =
     (let s = s\<lparr>th_lastSignalAtMs := Some nowMs, th_cleanStreak := 0,
                th_rateLimitedStreak := th_rateLimitedStreak s + 1\<rparr>
      in if th_rateLimitedStreak s < RATE_LIMITED_WINDOW then s
         else s\<lparr>th_rateLimitedStreak := 0,
                th_concurrency := max (throttle_floor options) (th_concurrency s div 2),
                th_pacingFloorMs := th_pacingFloorMs s + PACING_FLOOR_STEP_MS\<rparr>)"

definition onCleanWindow :: "throttle_options \<Rightarrow> int \<Rightarrow> throttle \<Rightarrow> throttle" where
  "onCleanWindow options nowMs s =
     (let s = s\<lparr>th_lastSignalAtMs := Some nowMs, th_rateLimitedStreak := 0,
                th_cleanStreak := th_cleanStreak s + 1\<rparr>
      in if th_cleanStreak s < CLEAN_WINDOW then s
         else s\<lparr>th_cleanStreak := 0,
                th_concurrency := min (to_max options) (th_concurrency s + AI_STEP)\<rparr>)"

datatype throttle_signal = RateLimitedAt int | CleanAt int

definition throttle_step :: "throttle_options \<Rightarrow> throttle \<Rightarrow> throttle_signal \<Rightarrow> throttle" where
  "throttle_step options s sig = (case sig of
       RateLimitedAt now \<Rightarrow> onRateLimited options now s
     | CleanAt now \<Rightarrow> onCleanWindow options now s)"

definition throttle_run :: "throttle_options \<Rightarrow> throttle \<Rightarrow> throttle_signal list \<Rightarrow> throttle" where
  "throttle_run options = foldl (throttle_step options)"

text \<open>The contract on which a user of the controller relies: from a good start, whatever the
  signals, the concurrency that it reads stays within the two limits.\<close>

locale concurrency_controller =
  fixes step :: "'s \<Rightarrow> 'sig \<Rightarrow> 's" and concurrency :: "'s \<Rightarrow> int" and good :: "'s \<Rightarrow> bool"
    and lowest :: int and highest :: int
  assumes step_good: "good s \<Longrightarrow> good (step s sig)"
    and good_bounds: "good s \<Longrightarrow> lowest \<le> concurrency s \<and> concurrency s \<le> highest"
begin

lemma run_good: "good s \<Longrightarrow> good (foldl step s sigs)"
  by (induction sigs arbitrary: s) (simp_all add: step_good)

lemma run_bounds: "good s \<Longrightarrow> concurrency (foldl step s sigs) \<in> {lowest..highest}"
  using good_bounds run_good by simp

end

definition throttle_good :: "throttle_options \<Rightarrow> throttle \<Rightarrow> bool" where
  "throttle_good options s \<longleftrightarrow>
     throttle_floor options \<le> th_concurrency s \<and> th_concurrency s \<le> to_max options \<and>
     th_rateLimitedStreak s < RATE_LIMITED_WINDOW \<and> th_cleanStreak s < CLEAN_WINDOW \<and>
     (th_rateLimitedStreak s = 0 \<or> th_cleanStreak s = 0) \<and>
     to_baseSpacingMs options \<le> th_pacingFloorMs s"

lemma throttle_step_good: "throttle_good options s \<Longrightarrow> throttle_good options (throttle_step options s sig)"
  by (cases sig) (auto simp: throttle_good_def throttle_step_def onRateLimited_def
    onCleanWindow_def Let_def throttle_constants throttle_floor_def)

interpretation aimd: concurrency_controller "throttle_step options" th_concurrency
    "throttle_good options" "throttle_floor options" "to_max options"
  for options
  by unfold_locales (simp_all add: throttle_step_good, simp_all add: throttle_good_def)

text \<open>
  A controller whose base concurrency lies between the floor and the maximum keeps its
  concurrency there for ever, whatever the sequence of rate-limited and clean pages, and its
  pacing floor never falls below the base spacing.
\<close>

theorem throttle_stays_in_range:
  assumes "throttle_floor options \<le> to_baseConcurrency options"
    and "to_baseConcurrency options \<le> to_max options"
  shows "th_concurrency (throttle_run options (createThrottleController options) signals)
           \<in> {throttle_floor options .. to_max options}
    \<and> to_baseSpacingMs options
        \<le> th_pacingFloorMs (throttle_run options (createThrottleController options) signals)"
proof -
  have good: "throttle_good options (createThrottleController options)"
    using assms by (simp add: throttle_good_def createThrottleController_def throttle_constants)
  from aimd.run_bounds [OF good, of signals] aimd.run_good [OF good, of signals]
  show ?thesis by (simp add: throttle_run_def throttle_good_def)
qed

lemma throttle_stays_in_range_witness:
  "th_concurrency (throttle_run \<lparr>to_baseConcurrency = 4, to_min = 1, to_max = 4, to_baseSpacingMs = 0\<rparr>
      (createThrottleController \<lparr>to_baseConcurrency = 4, to_min = 1, to_max = 4, to_baseSpacingMs = 0\<rparr>)
      [RateLimitedAt 1, RateLimitedAt 2, CleanAt 3]) \<in> {1..4}"
  using throttle_stays_in_range [of "\<lparr>to_baseConcurrency = 4, to_min = 1, to_max = 4, to_baseSpacingMs = 0\<rparr>"
      "[RateLimitedAt 1, RateLimitedAt 2, CleanAt 3]"]
  by (simp add: throttle_floor_def throttle_constants)

lemma two_limited_halve:
  assumes "th_rateLimitedStreak s = 0"
  shows "throttle_run options s [RateLimitedAt t1, RateLimitedAt t2] =
    s\<lparr>th_lastSignalAtMs := Some t2, th_cleanStreak := 0,
      th_concurrency := max (throttle_floor options) (th_concurrency s div 2),
      th_pacingFloorMs := th_pacingFloorMs s + 100\<rparr>"
  using assms by (simp add: throttle_run_def throttle_step_def onRateLimited_def Let_def
      throttle_constants)

lemma three_clean_raise:
  assumes "th_cleanStreak s = 0"
  shows "throttle_run options s [CleanAt t1, CleanAt t2, CleanAt t3] =
    s\<lparr>th_lastSignalAtMs := Some t3, th_rateLimitedStreak := 0,
      th_concurrency := min (to_max options) (th_concurrency s + 1)\<rparr>"
  using assms by (simp add: throttle_run_def throttle_step_def onCleanWindow_def Let_def
      throttle_constants)

definition same_signals :: "(int \<Rightarrow> throttle_signal) \<Rightarrow> nat \<Rightarrow> throttle_signal list" where
  "same_signals sig n = map (\<lambda>k. sig (int k)) [0..<n]"

lemma throttle_run_Cons: "throttle_run options s (sig # sigs) = throttle_run options (throttle_step options s sig) sigs"
  by (simp add: throttle_run_def)

lemma throttle_run_append:
  "throttle_run options s (xs @ ys) = throttle_run options (throttle_run options s xs) ys"
  by (simp add: throttle_run_def)

lemma limited_trajectory:
  assumes "th_rateLimitedStreak s = 0" "throttle_floor options \<le> th_concurrency s"
  shows "th_rateLimitedStreak (throttle_run options s (same_signals RateLimitedAt n)) = n mod 2
    \<and> th_concurrency (throttle_run options s (same_signals RateLimitedAt n))
        = max (throttle_floor options) (th_concurrency s div 2 ^ (n div 2))
    \<and> th_pacingFloorMs (throttle_run options s (same_signals RateLimitedAt n))
        = th_pacingFloorMs s + 100 * int (n div 2)"
proof (induction n)
  case 0
  then show ?case using assms by (simp add: same_signals_def throttle_run_def)
next
  case (Suc n)
  have fl: "1 \<le> throttle_floor options" by (simp add: throttle_floor_def throttle_constants)
  have halve: "max f (max f c div 2) = max f (c div 2)" if "1 \<le> f" for f c :: int
    using that by (auto simp: max_def)
  have again: "x div 2 ^ k div 2 = x div 2 div 2 ^ k" for x :: int and k :: nat
    by (simp only: zdiv_zmult2_eq [symmetric] mult.commute zero_le_power zero_le_numeral)
  show ?case
  proof (cases "even n")
    case True
    then have "Suc n div 2 = n div 2" "Suc n mod 2 = 1" "n mod 2 = 0" by presburger+
    with Suc.IH show ?thesis
      by (simp add: same_signals_def throttle_run_append throttle_run_Cons)
        (simp add: throttle_run_def throttle_step_def onRateLimited_def Let_def throttle_constants)
  next
    case False
    then have n: "Suc n div 2 = Suc (n div 2)" "Suc n mod 2 = 0" "n mod 2 = 1" by presburger+
    with Suc.IH have "max (throttle_floor options)
        (th_concurrency (throttle_run options s (same_signals RateLimitedAt n)) div 2) =
        max (throttle_floor options) (th_concurrency s div 2 ^ (n div 2) div 2)"
      using halve [OF fl] by simp
    with Suc.IH n show ?thesis
      by (simp add: same_signals_def throttle_run_append throttle_run_Cons)
        (simp add: throttle_run_def throttle_step_def onRateLimited_def Let_def throttle_constants
          zdiv_zmult2_eq mult.commute again)
  qed
qed

lemma clean_trajectory:
  assumes "th_cleanStreak s = 0" "th_concurrency s \<le> to_max options"
  shows "th_cleanStreak (throttle_run options s (same_signals CleanAt n)) = n mod 3
    \<and> th_concurrency (throttle_run options s (same_signals CleanAt n))
        = min (to_max options) (th_concurrency s + int (n div 3))
    \<and> th_pacingFloorMs (throttle_run options s (same_signals CleanAt n)) = th_pacingFloorMs s"
proof (induction n)
  case 0
  then show ?case using assms by (simp add: same_signals_def throttle_run_def)
next
  case (Suc n)
  show ?case
  proof (cases "n mod 3 = 2")
    case True
    then have "Suc n div 3 = Suc (n div 3)" "Suc n mod 3 = 0" by presburger+
    with True Suc.IH show ?thesis
      by (simp add: same_signals_def throttle_run_append throttle_run_Cons)
        (simp add: throttle_run_def throttle_step_def onCleanWindow_def Let_def throttle_constants)
  next
    case False
    then have "Suc n div 3 = n div 3" "Suc n mod 3 = Suc (n mod 3)" "n mod 3 < 2" by presburger+
    with Suc.IH show ?thesis
      by (simp add: same_signals_def throttle_run_append throttle_run_Cons)
        (simp add: throttle_run_def throttle_step_def onCleanWindow_def Let_def throttle_constants)
  qed
qed

text \<open>
  C29: the adaptive rule, for a controller started at its maximum. After \<open>n\<close> consecutive
  rate-limited pages the concurrency has been halved \<open>n div 2\<close> times (never below the floor)
  and the pacing floor raised by 100 ms as often; \<open>m\<close> consecutive clean pages then give back
  \<open>m div 3\<close> slots, up to the maximum, and leave the pacing floor where it is.
\<close>

theorem throttle_aimd:
  fixes options :: throttle_options
  assumes "to_baseConcurrency options = to_max options" "throttle_floor options \<le> to_max options"
  shows "th_concurrency (throttle_run options (createThrottleController options)
        (same_signals RateLimitedAt n @ same_signals CleanAt m))
      = min (to_max options) (max (throttle_floor options) (to_max options div 2 ^ (n div 2)) + int (m div 3))
    \<and> th_pacingFloorMs (throttle_run options (createThrottleController options)
        (same_signals RateLimitedAt n @ same_signals CleanAt m))
      = to_baseSpacingMs options + 100 * int (n div 2)"
proof -
  let ?s = "createThrottleController options"
  let ?s' = "throttle_run options ?s (same_signals RateLimitedAt n)"
  have lim: "th_concurrency ?s' = max (throttle_floor options) (to_max options div 2 ^ (n div 2))"
    "th_pacingFloorMs ?s' = to_baseSpacingMs options + 100 * int (n div 2)"
    using limited_trajectory [of ?s options n] assms by (simp_all add: createThrottleController_def)
  have good: "throttle_good options ?s"
    using assms by (simp add: throttle_good_def createThrottleController_def throttle_constants)
  from aimd.run_good [OF good] have "throttle_good options ?s'" by (simp add: throttle_run_def)
  then have le: "th_concurrency ?s' \<le> to_max options" by (simp add: throttle_good_def)
  have clean: "th_cleanStreak ?s' = 0"
    by (induction n) (simp_all add: same_signals_def createThrottleController_def throttle_run_def
      throttle_step_def onRateLimited_def Let_def)
  from clean_trajectory [OF clean le, of m] lim show ?thesis
    by (simp add: throttle_run_append)
qed

lemma throttle_aimd_witness:
  "th_concurrency (throttle_run \<lparr>to_baseConcurrency = 10, to_min = 1, to_max = 10, to_baseSpacingMs = 50\<rparr>
      (createThrottleController \<lparr>to_baseConcurrency = 10, to_min = 1, to_max = 10, to_baseSpacingMs = 50\<rparr>)
      (same_signals RateLimitedAt 4 @ same_signals CleanAt 3)) = 3"
  using throttle_aimd [of "\<lparr>to_baseConcurrency = 10, to_min = 1, to_max = 10, to_baseSpacingMs = 50\<rparr>" 4 3]
  by (simp add: throttle_floor_def throttle_constants)

subsection \<open>The pacer\<close>

type_synonym pacer = "int option"

definition createPacer :: pacer where "createPacer = None"

text \<open>One \<open>awaitFloor\<close>: the pause, \<open>0\<close> when there is none, and the new state.\<close>

definition awaitFloor :: "int \<Rightarrow> int \<Rightarrow> pacer \<Rightarrow> int \<times> pacer" where
  "awaitFloor spacingMs now lastRequestAt =
     (let dispatchAt = now;
          remaining = map_option (\<lambda>prev. spacingMs - (dispatchAt - prev)) lastRequestAt;
          pause = (case remaining of None \<Rightarrow> 0 | Some r \<Rightarrow> if 0 < r then r else 0)
      in (pause, Some dispatchAt))"

text \<open>When the calls made at the given times are released.\<close>

fun releases_from :: "int \<Rightarrow> pacer \<Rightarrow> int list \<Rightarrow> int list" where
  "releases_from spacingMs p [] = []"
| "releases_from spacingMs p (t # ts) =
     (let (pause, p') = awaitFloor spacingMs t p in (t + pause) # releases_from spacingMs p' ts)"

definition releases :: "int \<Rightarrow> int list \<Rightarrow> int list" where
  "releases spacingMs ts = releases_from spacingMs createPacer ts"

lemma awaitFloor_None [simp]: "awaitFloor spacing t None = (0, Some t)"
  by (simp add: awaitFloor_def)

lemma awaitFloor_Some [simp]: "awaitFloor spacing t (Some l) = (max 0 (l + spacing - t), Some t)"
  by (auto simp: awaitFloor_def Let_def)

lemma length_releases_from [simp]: "length (releases_from spacing p ts) = length ts"
  by (induction ts arbitrary: p) (simp_all split: prod.splits)

lemma releases_from_nth:
  "i < length ts \<Longrightarrow> releases_from spacing p ts ! i =
     (case (if i = 0 then p else Some (ts ! (i - 1))) of None \<Rightarrow> ts ! i
      | Some l \<Rightarrow> max (ts ! i) (l + spacing))"
proof (induction ts arbitrary: p i)
  case (Cons t ts)
  show ?case
  proof (cases i)
    case 0
    then show ?thesis by (cases p) (auto simp: max_def)
  next
    case (Suc j)
    with Cons.prems have "j < length ts" by simp
    from Cons.IH [OF this, of "Some t"] Suc show ?thesis
      by (cases p; cases j) simp_all
  qed
qed simp

lemma releases_nth:
  "0 < i \<Longrightarrow> i < length ts \<Longrightarrow> releases spacing ts ! i = max (ts ! i) (ts ! (i - 1) + spacing)"
  "0 < length ts \<Longrightarrow> releases spacing ts ! 0 = ts ! 0"
  by (simp_all add: releases_def releases_from_nth createPacer_def)

text \<open>
  What the pacer does guarantee to a caller that reads one page after another. A request
  is released no earlier than the spacing after the previous one was \<open>asked for\<close>, so any two
  requests that are two apart are at least the spacing apart.
\<close>

theorem pacer_two_apart:
  assumes sequential: "releases spacing ts ! i \<le> ts ! Suc i"
    and "Suc (Suc i) < length ts"
  shows "releases spacing ts ! i + spacing \<le> releases spacing ts ! Suc (Suc i)
    \<and> ts ! Suc i + spacing \<le> releases spacing ts ! Suc (Suc i)"
  using assms releases_nth(1) [of "Suc (Suc i)" ts spacing] by simp

lemma pacer_two_apart_witness:
  "releases 10 [0, 3, 10] ! 0 + 10 \<le> releases 10 [0, 3, 10] ! 2"
  using pacer_two_apart [of 10 "[0, 3, 10]" 0]
  by (simp add: releases_def createPacer_def numeral_2_eq_2)

text \<open>
  The spacing itself is not enforced between neighbours. For every spacing above one
  millisecond there is a sequence of calls, each made only after the previous one was released,
  in which a call that had to wait is followed by a release one millisecond later: the pacer
  remembers when the waiting call was made, not when it was let go.
\<close>

theorem pacer_neighbours_too_close:
  "releases (int k + 2) [0, 1, int k + 3] = [0, int k + 2, int k + 3]"
  by (simp add: releases_def createPacer_def)

end
