(* ===== verification/Page_Url.thy ===== *)
theory Page_Url
  imports Object_Keys
begin

text \<open>
  The address of a list page: \<open>toPageUrl\<close>, which \<open>src/run/run-once-page.ts\<close>,
  \<open>src/run/watch-loop.ts\<close> and \<open>src/discovery/discover.ts\<close> each define in the same words.

  \<open>searchParams.set\<close> of the URL standard is written out: the query is read as
  \<open>application/x-www-form-urlencoded\<close> pairs, the first pair of the name gets the value and the
  other pairs of that name go, a missing one is appended, and the pairs are written back. Names and
  values are taken as the bytes that the percent-decoding gives, which is exact for bytes that are
  valid UTF-8.
\<close>

type_synonym params = "(string \<times> string) list"

subsection \<open>Form-urlencoded text\<close>

definition upper_hex :: "nat \<Rightarrow> char" where
  "upper_hex n = (if n < 10 then char_of (48 + n) else char_of (55 + n))"

definition any_hex :: "char \<Rightarrow> nat option" where
  "any_hex c = (let n = (of_char c :: nat) in
     if 48 \<le> n \<and> n \<le> 57 then Some (n - 48)
     else if 65 \<le> n \<and> n \<le> 70 then Some (n - 55)
     else if 97 \<le> n \<and> n \<le> 102 then Some (n - 87) else None)"

definition form_safe :: "char \<Rightarrow> bool" where
  "form_safe c \<longleftrightarrow> (let n = (of_char c :: nat) in
     48 \<le> n \<and> n \<le> 57 \<or> 65 \<le> n \<and> n \<le> 90 \<or> 97 \<le> n \<and> n \<le> 122 \<or>
     n = 42 \<or> n = 45 \<or> n = 46 \<or> n = 95)"

definition form_char :: "char \<Rightarrow> string" where
  "form_char c =
     (if form_safe c then [c]
      else if c = CHR '' '' then ''+''
      else [CHR ''%'', upper_hex (of_char c div 16), upper_hex (of_char c mod 16)])"

definition form_encode :: "string \<Rightarrow> string" where
  "form_encode s = concat (map form_char s)"

definition percent_at :: "string \<Rightarrow> (char \<times> string) option" where
  "percent_at s = (case s of
       h # l # rest \<Rightarrow>
         (case (any_hex h, any_hex l) of (Some a, Some b) \<Rightarrow> Some (char_of (16 * a + b), rest) | _ \<Rightarrow> None)
     | _ \<Rightarrow> None)"

lemma percent_at_shorter [termination_simp]: "percent_at s = Some (c, rest) \<Longrightarrow> length rest < length s"
  by (auto simp: percent_at_def split: list.splits option.splits)

fun form_decode :: "string \<Rightarrow> string" where
  "form_decode [] = []"
| "form_decode (c # s) =
     (if c = CHR ''+'' then CHR '' '' # form_decode s
      else if c = CHR ''%'' then
        (case percent_at s of Some (b, rest) \<Rightarrow> b # form_decode rest | None \<Rightarrow> c # form_decode s)
      else c # form_decode s)"

fun split_on :: "char \<Rightarrow> string \<Rightarrow> string list" where
  "split_on d [] = [[]]"
| "split_on d (c # s) =
     (if c = d then [] # split_on d s
      else (case split_on d s of p # ps \<Rightarrow> (c # p) # ps | [] \<Rightarrow> [[c]]))"

definition pair_of :: "string \<Rightarrow> string \<times> string" where
  "pair_of piece =
     (form_decode (takeWhile (\<lambda>c. c \<noteq> CHR ''='') piece),
      form_decode (drop 1 (dropWhile (\<lambda>c. c \<noteq> CHR ''='') piece)))"

definition parse_params :: "string \<Rightarrow> params" where
  "parse_params s = map pair_of (filter (\<lambda>p. p \<noteq> []) (split_on (CHR ''&'') s))"

definition pair_text :: "string \<times> string \<Rightarrow> string" where
  "pair_text nv = form_encode (fst nv) @ CHR ''='' # form_encode (snd nv)"

fun join_with :: "char \<Rightarrow> string list \<Rightarrow> string" where
  "join_with d [] = []"
| "join_with d [p] = p"
| "join_with d (p # q # ps) = p @ d # join_with d (q # ps)"

definition params_text :: "params \<Rightarrow> string" where
  "params_text ps = join_with (CHR ''&'') (map pair_text ps)"

subsection \<open>Setting a parameter\<close>

fun set_param :: "string \<Rightarrow> string \<Rightarrow> params \<Rightarrow> params" where
  "set_param n v [] = [(n, v)]"
| "set_param n v ((m, w) # ps) =
     (if m = n then (n, v) # filter (\<lambda>p. fst p \<noteq> n) ps else (m, w) # set_param n v ps)"

definition searchParams :: "url \<Rightarrow> params" where
  "searchParams u = parse_params (drop 1 (url_search u))"

definition searchParams_set :: "string \<Rightarrow> string \<Rightarrow> url \<Rightarrow> url" where
  "searchParams_set n v u =
     (let text = params_text (set_param n v (searchParams u))
      in u\<lparr>url_search := (if text = [] then [] else CHR ''?'' # text)\<rparr>)"

definition toPageUrl :: "url \<Rightarrow> nat \<Rightarrow> url" where
  "toPageUrl sourceUrl page =
     (if page = 1 then sourceUrl else searchParams_set ''p'' (show_nat page) sourceUrl)"

subsection \<open>Reading back what was written\<close>

lemma any_hex_upper: "n < 16 \<Longrightarrow> any_hex (upper_hex n) = Some n"
  by (auto simp: any_hex_def upper_hex_def Let_def)

lemma form_char_decodes: "form_decode (form_char c @ s) = c # form_decode s"
proof (cases "form_safe c \<or> c = CHR '' ''")
  case True
  then show ?thesis by (auto simp: form_char_def form_safe_def)
next
  case False
  have "(of_char c :: nat) < 256" by simp
  then have "(of_char c :: nat) div 16 < 16" by (simp add: div_less_iff_less_mult)
  then have "percent_at (upper_hex (of_char c div 16) # upper_hex (of_char c mod 16) # s) = Some (c, s)"
    by (simp add: percent_at_def any_hex_upper)
  with False show ?thesis by (simp add: form_char_def)
qed

lemma form_decode_encode: "form_decode (form_encode s) = s"
  by (induction s) (simp_all add: form_encode_def form_char_decodes)

lemma upper_hex_plain: "n < 16 \<Longrightarrow> upper_hex n \<noteq> CHR ''&'' \<and> upper_hex n \<noteq> CHR ''=''"
  by (auto simp: upper_hex_def dest!: arg_cong [where f = "of_char :: char \<Rightarrow> nat"])

lemma form_encode_plain: "c \<in> set (form_encode s) \<Longrightarrow> c \<noteq> CHR ''&'' \<and> c \<noteq> CHR ''=''"
proof -
  have "c \<in> set (form_char d) \<Longrightarrow> c \<noteq> CHR ''&'' \<and> c \<noteq> CHR ''=''" for d
    using upper_hex_plain [of "of_char d div 16"] upper_hex_plain [of "of_char d mod 16"]
    by (auto simp: form_char_def form_safe_def div_less_iff_less_mult split: if_splits)
  then show "c \<in> set (form_encode s) \<Longrightarrow> ?thesis" by (auto simp: form_encode_def)
qed

lemma split_on_nonempty [simp]: "split_on d s \<noteq> []"
  by (induction s) (auto split: list.splits)

lemma split_on_plain: "d \<notin> set p \<Longrightarrow> split_on d p = [p]"
  by (induction p) auto

lemma split_on_append: "d \<notin> set p \<Longrightarrow> split_on d (p @ d # s) = p # split_on d s"
  by (induction p) auto

lemma split_on_join:
  "list_all (\<lambda>p. d \<notin> set p) ps \<Longrightarrow> ps \<noteq> [] \<Longrightarrow> split_on d (join_with d ps) = ps"
  by (induction d ps rule: join_with.induct) (simp_all add: split_on_plain split_on_append)

lemma takeWhile_upto: "d \<notin> set p \<Longrightarrow> takeWhile (\<lambda>c. c \<noteq> d) (p @ d # s) = p"
  by (induction p) auto

lemma dropWhile_upto: "d \<notin> set p \<Longrightarrow> dropWhile (\<lambda>c. c \<noteq> d) (p @ d # s) = d # s"
  by (induction p) auto

lemma pair_of_text: "pair_of (pair_text nv) = nv"
proof -
  have "CHR ''='' \<notin> set (form_encode (fst nv))" using form_encode_plain by blast
  then show ?thesis
    by (simp add: pair_of_def pair_text_def takeWhile_upto dropWhile_upto form_decode_encode)
qed

lemma pair_text_plain: "CHR ''&'' \<notin> set (pair_text nv)" "pair_text nv \<noteq> []"
  using form_encode_plain [of "CHR ''&''"] by (auto simp: pair_text_def)

lemma parse_params_text: "parse_params (params_text ps) = ps"
proof (cases "ps = []")
  case False
  have "split_on (CHR ''&'') (params_text ps) = map pair_text ps"
    unfolding params_text_def
    by (rule split_on_join) (use False in \<open>simp_all add: list_all_iff pair_text_plain\<close>)
  moreover have "filter (\<lambda>p. p \<noteq> []) (map pair_text ps) = map pair_text ps"
    by (rule list_all_filter_idem) (simp add: list_all_iff pair_text_plain)
  ultimately show ?thesis by (simp add: parse_params_def pair_of_text comp_def)
qed (simp add: parse_params_def params_text_def)

lemma searchParams_set_read: "searchParams (searchParams_set n v u) = set_param n v (searchParams u)"
  by (simp add: searchParams_def searchParams_set_def Let_def parse_params_text)
    (metis list.simps(8) params_text_def parse_params_text join_with.simps(1))

lemma map_of_set_param: "map_of (set_param n v ps) m = (if m = n then Some v else map_of ps m)"
proof (induction ps)
  case (Cons p ps)
  have "m \<noteq> n \<Longrightarrow> map_of (filter (\<lambda>p. fst p \<noteq> n) ps) m = map_of ps m"
    by (induction ps) auto
  with Cons show ?case by (cases p) auto
qed simp

lemma set_param_others: "filter (\<lambda>p. fst p \<noteq> n) (set_param n v ps) = filter (\<lambda>p. fst p \<noteq> n) ps"
  by (induction ps) auto

lemma set_param_once: "length (filter (\<lambda>p. fst p = n) (set_param n v ps)) = 1"
  by (induction ps) (auto simp: filter_empty_conv)

lemma toPageUrl_param: "k \<noteq> 1 \<Longrightarrow> map_of (searchParams (toPageUrl u k)) ''p'' = Some (show_nat k)"
  by (simp add: toPageUrl_def searchParams_set_read map_of_set_param)

text \<open>
  The address of a list page. The first page is the source address itself; every later page
  differs from it in the query alone, where the parameter \<open>p\<close> occurs exactly once and is the page
  number in decimal, and all other parameters are those of the source address in their order. So
  no two pages after the first have the same address.
\<close>

theorem toPageUrl_exact:
  "(toPageUrl u k)\<lparr>url_search := url_search u\<rparr> = u \<and>
   (if k = 1 then toPageUrl u k = u
    else map_of (searchParams (toPageUrl u k)) ''p'' = Some (show_nat k) \<and>
      length (filter (\<lambda>p. fst p = ''p'') (searchParams (toPageUrl u k))) = 1 \<and>
      filter (\<lambda>p. fst p \<noteq> ''p'') (searchParams (toPageUrl u k))
        = filter (\<lambda>p. fst p \<noteq> ''p'') (searchParams u)) \<and>
   inj_on (toPageUrl u) (- {1})"
proof -
  note read = toPageUrl_param
  then have "inj_on (toPageUrl u) (- {1})"
    by (intro inj_onI) (metis ComplD insertCI option.inject show_nat_inj)
  moreover have "(toPageUrl u k)\<lparr>url_search := url_search u\<rparr> = u"
    by (simp add: toPageUrl_def searchParams_set_def Let_def)
  ultimately show ?thesis
    using read [of k]
    by (simp add: toPageUrl_def searchParams_set_read set_param_others set_param_once)
qed

end
