(* ===== verification/Run_State.thy ===== *)
theory Run_State
  imports Ingest Summary Rate_Control Checkpoint_Store Page_Url
begin

text \<open>
  What a \<open>run-once\<close> is given and what it keeps: \<open>src/run/run-once-types.ts\<close>, and the checkpoint side
  of the run, \<open>src/run/run-once-checkpoint.ts\<close>.

  The surroundings of a run are one state \<open>'s\<close>. Everything the run is handed to work on them is
  a field of its input: the clock (\<open>rx_now\<close> is the injected one, \<open>rx_wall\<close> is \<open>Date.now\<close>), the
  timer, the logger, the checkpoint store, discovery, the store and stage steps and the evidence
  writers. \<open>rx_schedule\<close> is the order in which the event loop serves the tasks of a page.
\<close>

subsection \<open>Input and state\<close>

datatype failure_event = PageFailedEvent | SourceUnavailableEvent

datatype run_event =
    RunStart string string
  | CheckpointMissing string
  | CompleteRerun bool string
  | CheckpointWriteFailed "nat option" string thrown
  | PageComplete nat page_counts rat rat
  | PageFailure failure_event nat source_failure
  | RunDone run_status run_counts
  | EvidenceWriteFailed thrown

record 's run_input =
  rx_concurrency :: nat
  rx_maxPages :: "nat option"
  rx_requestSpacingMs :: int
  rx_resume :: bool
  rx_runId :: string
  rx_sourceUrl :: url
  rx_now :: "'s \<Rightarrow> int \<times> 's"
  rx_wall :: "'s \<Rightarrow> int \<times> 's"
  rx_sleep :: "int \<Rightarrow> 's \<Rightarrow> 's"
  rx_log :: "run_event \<Rightarrow> 's \<Rightarrow> 's"
  rx_read :: "string \<Rightarrow> 's \<Rightarrow> (thrown + read_result) \<times> 's"
  rx_write :: "checkpoint \<Rightarrow> string option \<Rightarrow> string \<Rightarrow> 's \<Rightarrow> (thrown + string option) \<times> 's"
  rx_discover :: "url \<Rightarrow> 's \<Rightarrow> (thrown + report) \<times> 's"
  rx_store :: "replay_candidate \<Rightarrow> 's \<Rightarrow> (thrown + store_result) \<times> 's"
  rx_stage :: "string option \<Rightarrow> store_result \<Rightarrow> 's \<Rightarrow> (thrown + staging_result) \<times> 's"
  rx_schedule :: "nat \<Rightarrow> nat \<Rightarrow> nat list"
  rx_emitEvidence :: bool
  rx_evidenceStore :: "(string \<Rightarrow> run_summary \<Rightarrow> 's \<Rightarrow> (thrown + unit) \<times> 's) option"
  rx_evidenceFile :: "string option"
  rx_writeEvidenceFile :: "(string \<Rightarrow> run_summary \<Rightarrow> 's \<Rightarrow> (thrown + unit) \<times> 's) option"

definition FIRST_PAGE :: nat where "FIRST_PAGE = 1"

definition emptyDiscoveryReport :: "string \<Rightarrow> int \<Rightarrow> report" where
  "emptyDiscoveryReport sourceUrl wall =
     \<lparr>dr_candidates = [],
      dr_counts = \<lparr>rp_candidates = 0, rp_diagnostics = 0, rp_discovered = 0, rp_skippedPreDetail = 0\<rparr>,
      dr_diagnostics = [], dr_generatedAt = toISOString wall, dr_maxPages = None, dr_ok = True,
      dr_sourceUrl = sourceUrl\<rparr>"

record loop_state =
  ls_report :: report
  ls_etag :: "string option"
  ls_lastCompletedPage :: nat
  ls_pageTimestampsMs :: "int list"
  ls_pages :: checkpoint_pages
  ls_rawStorage :: "store_result list"
  ls_reachedMaxPages :: bool
  ls_staging :: "staging_result list"

record resume_state =
  rm_etag :: "string option"
  rm_pages :: checkpoint_pages
  rm_startPage :: nat

subsection \<open>Where a run resumes\<close>

definition RESUME_INVOCATION :: string where
  "RESUME_INVOCATION = ''replays-fetcher run-once --resume''"

definition startFresh :: "string option \<Rightarrow> resume_state" where
  "startFresh etag = \<lparr>rm_etag = etag, rm_pages = [], rm_startPage = FIRST_PAGE\<rparr>"

definition resumeFrom :: "string option \<Rightarrow> checkpoint \<Rightarrow> resume_state" where
  "resumeFrom etag c =
     \<lparr>rm_etag = etag, rm_pages = ck_pages c, rm_startPage = ck_lastCompletedPage c + FIRST_PAGE\<rparr>"

definition resolveResumeState :: "'s run_input \<Rightarrow> string \<Rightarrow> 's \<Rightarrow> (thrown + resume_state) \<times> 's" where
  "resolveResumeState input slug s =
     (case rx_read input slug s of
        (Inl e, s) \<Rightarrow> (Inl e, s)
      | (Inr rd, s) \<Rightarrow>
          (case rd_checkpoint rd of
             None \<Rightarrow>
               (Inr \<lparr>rm_etag = None, rm_pages = [], rm_startPage = FIRST_PAGE\<rparr>,
                rx_log input (CheckpointMissing slug) s)
           | Some c \<Rightarrow>
               if ck_status c = CkComplete
               then (Inr (startFresh (rd_etag rd)), rx_log input (CompleteRerun (rx_resume input) slug) s)
               else (Inr (resumeFrom (rd_etag rd) c), s)))"

definition buildLoopState :: "'s run_input \<Rightarrow> string \<Rightarrow> 's \<Rightarrow> (thrown + loop_state) \<times> 's" where
  "buildLoopState input slug s =
     (case resolveResumeState input slug s of
        (Inl e, s) \<Rightarrow> (Inl e, s)
      | (Inr r, s) \<Rightarrow>
          (let (wall, s) = rx_wall input s in
           (Inr \<lparr>ls_report = emptyDiscoveryReport slug wall, ls_etag = rm_etag r,
                 ls_lastCompletedPage = rm_startPage r - FIRST_PAGE, ls_pageTimestampsMs = [],
                 ls_pages = rm_pages r, ls_rawStorage = [], ls_reachedMaxPages = False,
                 ls_staging = []\<rparr>, s)))"

subsection \<open>Optional parts of the summary\<close>

definition resumeInvocationOption :: "run_status \<Rightarrow> string option" where
  "resumeInvocationOption status = (if status = RunComplete then None else Some RESUME_INVOCATION)"

definition discoveredRangeOption :: "nat \<Rightarrow> page_range option" where
  "discoveredRangeOption lastCompletedPage =
     (if lastCompletedPage < FIRST_PAGE then None
      else Some \<lparr>rg_firstPage = FIRST_PAGE, rg_lastPage = lastCompletedPage\<rparr>)"

subsection \<open>Writing the checkpoint\<close>

definition add_counts :: "page_counts \<Rightarrow> page_counts \<Rightarrow> page_counts" where
  "add_counts a b =
     \<lparr>pc_discovered = pc_discovered a + pc_discovered b, pc_failed = pc_failed a + pc_failed b,
      pc_staged = pc_staged a + pc_staged b, pc_stored = pc_stored a + pc_stored b\<rparr>"

definition zero_counts :: page_counts where
  "zero_counts = \<lparr>pc_discovered = 0, pc_failed = 0, pc_staged = 0, pc_stored = 0\<rparr>"

definition aggregatePageCounts :: "checkpoint_pages \<Rightarrow> page_counts" where
  "aggregatePageCounts pages = foldl (\<lambda>counts page. add_counts counts (cp_counts (snd page))) zero_counts pages"

definition buildCheckpoint ::
    "'s run_input \<Rightarrow> nat option \<Rightarrow> nat \<Rightarrow> checkpoint_pages \<Rightarrow> string \<Rightarrow> string \<Rightarrow> checkpoint_status \<Rightarrow> 's
      \<Rightarrow> checkpoint \<times> 's" where
  "buildCheckpoint input discoveredLastPage lastCompletedPage pages slug startedAt status s =
     (let (updatedAt, s) = rx_now input s in
      (\<lparr>ck_counts = aggregatePageCounts pages, ck_createdAt = startedAt,
        ck_discoveredLastPage = (case discoveredLastPage of Some p \<Rightarrow> p | None \<Rightarrow> lastCompletedPage),
        ck_lastCompletedPage = lastCompletedPage, ck_lastSourceFailure = None, ck_pages = pages,
        ck_runId = rx_runId input, ck_sourceUrl = slug, ck_status = status,
        ck_updatedAt = toISOString updatedAt\<rparr>, s))"

definition writePageCheckpoint ::
    "'s run_input \<Rightarrow> string option \<Rightarrow> nat \<Rightarrow> checkpoint_pages \<Rightarrow> string \<Rightarrow> string \<Rightarrow> 's \<Rightarrow> string option \<times> 's" where
  "writePageCheckpoint input etag lastCompletedPage pages slug startedAt s =
     (let (c, s) = buildCheckpoint input None lastCompletedPage pages slug startedAt CkRunning s in
      case rx_write input c etag slug s of
        (Inr etag', s) \<Rightarrow> (etag', s)
      | (Inl e, s) \<Rightarrow> (etag, rx_log input (CheckpointWriteFailed (Some lastCompletedPage) slug e) s))"

definition writeFinalCheckpoint ::
    "'s run_input \<Rightarrow> loop_state \<Rightarrow> nat \<Rightarrow> string \<Rightarrow> string \<Rightarrow> 's \<Rightarrow> 's" where
  "writeFinalCheckpoint input st discoveredLastPage slug startedAt s =
     (let (c, s) = buildCheckpoint input (Some discoveredLastPage) (ls_lastCompletedPage st)
        (ls_pages st) slug startedAt CkComplete s in
      case rx_write input c (ls_etag st) slug s of
        (Inr _, s) \<Rightarrow> s
      | (Inl e, s) \<Rightarrow> rx_log input (CheckpointWriteFailed None slug e) s)"

subsection \<open>The start of a run\<close>

lemma resolveResumeState_Inr:
  "resolveResumeState input slug s = (Inr r, s') \<Longrightarrow>
     (\<exists>rd s1. rx_read input slug s = (Inr rd, s1) \<and>
        (case rd_checkpoint rd of
           None \<Rightarrow> rm_startPage r = 1 \<and> rm_pages r = [] \<and> rm_etag r = None
         | Some c \<Rightarrow> rm_etag r = rd_etag rd \<and>
             (if ck_status c = CkComplete then rm_startPage r = 1 \<and> rm_pages r = []
              else rm_startPage r = ck_lastCompletedPage c + 1 \<and> rm_pages r = ck_pages c)))"
  by (auto simp: resolveResumeState_def startFresh_def resumeFrom_def FIRST_PAGE_def
      split: prod.splits sum.splits option.splits if_splits)

text \<open>The cursor of the run agrees with the cursor that the checkpoint module computes.\<close>

lemma resume_cursor_agrees:
  "ck_status c \<noteq> CkComplete \<Longrightarrow> rm_startPage (resumeFrom etag c) = resumeStartPage (Some c)"
  by (simp add: resumeFrom_def resumeStartPage_def FIRST_PAGE_def)

definition sum_counts :: "page_counts list \<Rightarrow> page_counts" where
  "sum_counts cs =
     \<lparr>pc_discovered = sum_list (map pc_discovered cs), pc_failed = sum_list (map pc_failed cs),
      pc_staged = sum_list (map pc_staged cs), pc_stored = sum_list (map pc_stored cs)\<rparr>"

lemma aggregatePageCounts_sum: "aggregatePageCounts pages = sum_counts (map (cp_counts \<circ> snd) pages)"
proof -
  have "foldl (\<lambda>counts page. add_counts counts (cp_counts (snd page))) c pages
      = add_counts c (sum_counts (map (cp_counts \<circ> snd) pages))" for c
    by (induction pages arbitrary: c) (simp_all add: add_counts_def sum_counts_def)
  then show ?thesis
    by (simp add: aggregatePageCounts_def add_counts_def zero_counts_def sum_counts_def)
qed

end
