(* ===== verification/Run_Loop.thy ===== *)
theory Run_Loop
  imports Run_State
begin

text \<open>
  The run: \<open>src/run/run-once.ts\<close>, its page loop \<open>src/run/run-once-page.ts\<close>, the completion of a page
  \<open>src/run/run-once-page-rate.ts\<close> and the result \<open>src/run/run-once-summary.ts\<close>.

  The loop may be unbounded, so it is a partial function: \<open>None\<close> is a run that does not
  return. A \<open>Left\<close> result is what the run rejects with.
\<close>

subsection \<open>Runtime of a run\<close>

record run_runtime =
  rt_limit :: nat
  rt_pacer :: pacer
  rt_throttle :: throttle

definition run_throttle_options :: "'s run_input \<Rightarrow> throttle_options" where
  "run_throttle_options input =
     \<lparr>to_baseConcurrency = int (rx_concurrency input), to_min = CONCURRENCY_FLOOR,
      to_max = int (rx_concurrency input), to_baseSpacingMs = rx_requestSpacingMs input\<rparr>"

definition buildRunRuntime :: "'s run_input \<Rightarrow> run_runtime" where
  "buildRunRuntime input =
     \<lparr>rt_limit = rx_concurrency input, rt_pacer = createPacer,
      rt_throttle = createThrottleController (run_throttle_options input)\<rparr>"

definition pacer_wait :: "'s run_input \<Rightarrow> run_runtime \<Rightarrow> 's \<Rightarrow> run_runtime \<times> 's" where
  "pacer_wait input rt s =
     (let (now, s) = rx_wall input s;
          (pause, pacer) = awaitFloor (rx_requestSpacingMs input) now (rt_pacer rt)
      in (rt\<lparr>rt_pacer := pacer\<rparr>, if 0 < pause then rx_sleep input pause s else s))"

definition appendDiscoveryReport :: "report \<Rightarrow> report \<Rightarrow> report" where
  "appendDiscoveryReport target page =
     (let candidates = dr_candidates target @ dr_candidates page;
          diagnostics = dr_diagnostics target @ dr_diagnostics page
      in target\<lparr>dr_candidates := candidates, dr_diagnostics := diagnostics,
           dr_counts := \<lparr>rp_candidates = length candidates, rp_diagnostics = length diagnostics,
             rp_discovered = length candidates, rp_skippedPreDetail = 0\<rparr>,
           dr_ok := dr_ok target \<and> dr_ok page\<rparr>)"

subsection \<open>Rates and events\<close>

definition derivePagesPerMinute :: "int list \<Rightarrow> rat" where
  "derivePagesPerMinute ts = (case ts of [] \<Rightarrow> 0
     | first # _ \<Rightarrow> of_nat (length ts) / max (of_int (last ts - first) / 60000) number_epsilon)"

definition deriveCandidatesPerMinute :: "int list \<Rightarrow> nat \<Rightarrow> rat" where
  "deriveCandidatesPerMinute ts discovered = (case ts of [] \<Rightarrow> 0
     | first # _ \<Rightarrow> of_nat discovered / max (of_int (last ts - first) / 60000) number_epsilon)"

definition emitPageRateLine :: "'s run_input \<Rightarrow> nat \<Rightarrow> int list \<Rightarrow> page_counts \<Rightarrow> 's \<Rightarrow> 's" where
  "emitPageRateLine input page ts counts =
     rx_log input (PageComplete page counts (derivePagesPerMinute ts)
       (deriveCandidatesPerMinute ts (pc_discovered counts)))"

definition derivePageFailureEventName :: "failure_kind \<Rightarrow> failure_event" where
  "derivePageFailureEventName kind = (if kind = Permanent then SourceUnavailableEvent else PageFailedEvent)"

definition emitPageFailureEvent :: "'s run_input \<Rightarrow> nat \<Rightarrow> report \<Rightarrow> 's \<Rightarrow> 's" where
  "emitPageFailureEvent input page pageReport s = (case deriveSourceFailure pageReport of
       None \<Rightarrow> s
     | Some f \<Rightarrow> rx_log input (PageFailure (derivePageFailureEventName (sf_classification f)) page f) s)"

definition applyRateLimitThrottle :: "'s run_input \<Rightarrow> report \<Rightarrow> run_runtime \<Rightarrow> 's \<Rightarrow> run_runtime \<times> 's" where
  "applyRateLimitThrottle input pageReport rt s =
     (case deriveSourceFailure pageReport of
        None \<Rightarrow> (rt, s)
      | Some f \<Rightarrow>
          if sf_classification f = RateLimited
          then (let (now, s) = rx_now input s;
                    throttle = onRateLimited (run_throttle_options input) now (rt_throttle rt)
                in (rt\<lparr>rt_throttle := throttle, rt_limit := nat (th_concurrency throttle)\<rparr>, s))
          else (rt, s))"

subsection \<open>One page\<close>

text \<open>A run never checks before it fetches: it hands \<open>ingestPage\<close> neither flag nor check.\<close>

definition run_calls :: "'s run_input \<Rightarrow> 's ingest_calls" where
  "run_calls input =
     \<lparr>ic_prefetchDedup = False, ic_exists = None, ic_sourceSystem = None,
      ic_store = rx_store input, ic_stage = rx_stage input (Some (rx_runId input))\<rparr>"

text \<open>The counts that a page is given for the loop and the checkpoint. The object also has the
  \<open>skippedBySourceId\<close> of the page, which is 0 here and which the checkpoint's schema drops.\<close>

definition page_counts_of :: "page_tally \<Rightarrow> page_counts" where
  "page_counts_of t =
     \<lparr>pc_discovered = pt_discovered t, pc_failed = pt_failed t, pc_staged = pt_staged t,
      pc_stored = pt_stored t\<rparr>"

definition processPage ::
    "'s run_input \<Rightarrow> nat \<Rightarrow> nat \<Rightarrow> replay_candidate list \<Rightarrow> loop_state \<Rightarrow> 's
      \<Rightarrow> ((thrown + (page_counts \<times> loop_state)) \<times> 's) option" where
  "processPage input limit page candidates st s =
     (case ingestPage (run_calls input) limit candidates s (rx_schedule input page (length candidates)) of
        None \<Rightarrow> None
      | Some (Inl e, s) \<Rightarrow> Some (Inl e, s)
      | Some (Inr r, s) \<Rightarrow>
          Some (Inr (page_counts_of (pr_counts r),
                     st\<lparr>ls_rawStorage := ls_rawStorage st @ pr_rawStorage r,
                        ls_staging := ls_staging st @ pr_staging r\<rparr>), s))"

definition completeOkPage ::
    "'s run_input \<Rightarrow> string \<Rightarrow> string \<Rightarrow> nat \<Rightarrow> replay_candidate list \<Rightarrow> loop_state \<Rightarrow> run_runtime \<Rightarrow> 's
      \<Rightarrow> ((thrown + (string option \<times> page_counts \<times> loop_state \<times> run_runtime)) \<times> 's) option" where
  "completeOkPage input slug startedAt page candidates st rt s =
     (let (now, s) = rx_now input s;
          throttle = onCleanWindow (run_throttle_options input) now (rt_throttle rt);
          rt = rt\<lparr>rt_throttle := throttle, rt_limit := nat (th_concurrency throttle)\<rparr>
      in case processPage input (rt_limit rt) page candidates st s of
           None \<Rightarrow> None
         | Some (Inl e, s) \<Rightarrow> Some (Inl e, s)
         | Some (Inr (counts, st), s) \<Rightarrow>
             (let (done_at, s) = rx_now input s;
                  st = st\<lparr>ls_pageTimestampsMs := ls_pageTimestampsMs st @ [done_at]\<rparr>;
                  s = emitPageRateLine input page (ls_pageTimestampsMs st) counts s;
                  st = st\<lparr>ls_pages := AList.update (show_nat page)
                       \<lparr>cp_counts = counts, cp_status = ''running''\<rparr> (ls_pages st)\<rparr>;
                  (etag, s) = writePageCheckpoint input (ls_etag st) page (ls_pages st) slug startedAt s
              in Some (Inr (etag, counts, st, rt), s)))"

datatype stop_reason = AllDuplicate | Cap | EmptyPage | PageFailed

definition nothing_new :: "page_counts \<Rightarrow> bool" where
  "nothing_new c \<longleftrightarrow> pc_stored c = 0 \<and> pc_staged c = 0 \<and> pc_failed c = 0"

text \<open>One turn of the loop: why it stops, if it does, and the new state.\<close>

definition page_body ::
    "'s run_input \<Rightarrow> string \<Rightarrow> string \<Rightarrow> nat \<Rightarrow> loop_state \<Rightarrow> run_runtime \<Rightarrow> 's
      \<Rightarrow> ((thrown + (stop_reason option \<times> loop_state \<times> run_runtime)) \<times> 's) option" where
  "page_body input slug startedAt page st rt s =
     (let (rt, s) = pacer_wait input rt s in
      case rx_discover input (toPageUrl (rx_sourceUrl input) page) s of
        (Inl e, s) \<Rightarrow> Some (Inl e, s)
      | (Inr pageReport, s) \<Rightarrow>
          (let st = st\<lparr>ls_report := appendDiscoveryReport (ls_report st) pageReport\<rparr> in
           if \<not> dr_ok pageReport
           then (let (rt, s) = applyRateLimitThrottle input pageReport rt s;
                     s = emitPageFailureEvent input page pageReport s
                 in Some (Inr (Some PageFailed, st, rt), s))
           else if dr_candidates pageReport = [] then Some (Inr (Some EmptyPage, st, rt), s)
           else (case completeOkPage input slug startedAt page (dr_candidates pageReport) st rt s of
                   None \<Rightarrow> None
                 | Some (Inl e, s) \<Rightarrow> Some (Inl e, s)
                 | Some (Inr (etag, counts, st, rt), s) \<Rightarrow>
                     (let st = st\<lparr>ls_etag := etag, ls_lastCompletedPage := page\<rparr> in
                      Some (Inr (if nothing_new counts then Some AllDuplicate else None, st, rt), s)))))"

definition beyond_cap :: "'s run_input \<Rightarrow> nat \<Rightarrow> bool" where
  "beyond_cap input page \<longleftrightarrow> (case rx_maxPages input of None \<Rightarrow> False | Some n \<Rightarrow> n < page)"

partial_function (option) page_loop ::
    "'s run_input \<Rightarrow> string \<Rightarrow> string \<Rightarrow> nat \<Rightarrow> loop_state \<Rightarrow> run_runtime \<Rightarrow> 's
      \<Rightarrow> ((thrown + (stop_reason \<times> loop_state \<times> run_runtime)) \<times> 's) option" where
  "page_loop input slug startedAt page st rt s =
     (if beyond_cap input page then Some (Inr (Cap, st, rt), s)
      else Option.bind (page_body input slug startedAt page st rt s)
        (\<lambda>(r, s). case r of
           Inl e \<Rightarrow> Some (Inl e, s)
         | Inr (stop, st, rt) \<Rightarrow>
             (case stop of
                Some why \<Rightarrow> Some (Inr (why, st, rt), s)
              | None \<Rightarrow> page_loop input slug startedAt (Suc page) st rt s)))"

definition runPageLoop ::
    "'s run_input \<Rightarrow> string \<Rightarrow> string \<Rightarrow> loop_state \<Rightarrow> run_runtime \<Rightarrow> 's
      \<Rightarrow> ((thrown + (stop_reason \<times> loop_state \<times> run_runtime)) \<times> 's) option" where
  "runPageLoop input slug startedAt st rt s =
     map_option (apfst (map_sum id (\<lambda>(why, st, rt). (why, st\<lparr>ls_reachedMaxPages := (why = Cap)\<rparr>, rt))))
       (page_loop input slug startedAt (ls_lastCompletedPage st + FIRST_PAGE) st rt s)"

subsection \<open>The result\<close>

definition deriveDiscoveredLastPage :: "loop_state \<Rightarrow> nat" where
  "deriveDiscoveredLastPage st =
     (if dr_ok (ls_report st) then ls_lastCompletedPage st else ls_lastCompletedPage st + FIRST_PAGE)"

definition logged_write :: "'s run_input \<Rightarrow> (thrown + unit) \<times> 's \<Rightarrow> 's" where
  "logged_write input r = (case r of (Inl e, s) \<Rightarrow> rx_log input (EvidenceWriteFailed e) s | (Inr _, s) \<Rightarrow> s)"

definition writeEvidence :: "'s run_input \<Rightarrow> run_summary \<Rightarrow> 's \<Rightarrow> 's" where
  "writeEvidence input sm s =
     (let s = (case rx_evidenceStore input of
                 Some write \<Rightarrow> if rx_emitEvidence input then logged_write input (write (rx_runId input) sm s) else s
               | None \<Rightarrow> s)
      in case (rx_evidenceFile input, rx_writeEvidenceFile input) of
           (Some path, Some write) \<Rightarrow> logged_write input (write path sm s)
         | _ \<Rightarrow> s)"

definition run_status_of :: "loop_state \<Rightarrow> run_status" where
  "run_status_of st = deriveRunStatus (dr_ok (ls_report st)) (ls_lastCompletedPage st)
     (deriveDiscoveredLastPage st) (Some (ls_reachedMaxPages st)) (deriveSourceFailure (ls_report st))"

definition summary_of :: "'s run_input \<Rightarrow> loop_state \<Rightarrow> string \<Rightarrow> string \<Rightarrow> run_summary" where
  "summary_of input st startedAt finishedAt =
     buildRunSummary
       \<lparr>si_candidateCount = Some (length (dr_candidates (ls_report st))),
        si_discoveredLastPage = Some (deriveDiscoveredLastPage st),
        si_discoveredRange = discoveredRangeOption (ls_lastCompletedPage st),
        si_discoveryReport = ls_report st, si_finishedAt = finishedAt,
        si_lastCompletedPage = Some (ls_lastCompletedPage st), si_mode = None,
        si_pageTimestampsMs = Some (ls_pageTimestampsMs st), si_rawStorage = ls_rawStorage st,
        si_resumeInvocation = resumeInvocationOption (run_status_of st), si_runId = rx_runId input,
        si_skippedBySourceId = None, si_staging = ls_staging st, si_startedAt = startedAt,
        si_status = Some (run_status_of st), si_upperBoundLastPage = None\<rparr>"

definition assembleResult ::
    "'s run_input \<Rightarrow> loop_state \<Rightarrow> string \<Rightarrow> string \<Rightarrow> 's \<Rightarrow> (nat \<times> run_summary) \<times> 's" where
  "assembleResult input st slug startedAt s =
     (let status = run_status_of st;
          s = (if status = RunComplete
               then writeFinalCheckpoint input st (deriveDiscoveredLastPage st) slug startedAt s else s);
          (finishedAt, s) = rx_now input s;
          sm = summary_of input st startedAt (toISOString finishedAt);
          s = rx_log input (RunDone status (su_counts sm)) s;
          s = writeEvidence input sm s
      in ((summary_exit_code sm, sm), s))"

text \<open>\<open>sanitizeSourceUrl\<close> of the run works on a parsed address, not on a text.\<close>

definition run_slug :: "url \<Rightarrow> string" where
  "run_slug u = href (u\<lparr>url_username := [], url_password := []\<rparr>)"

definition runOnce :: "'s run_input \<Rightarrow> 's \<Rightarrow> ((thrown + (nat \<times> run_summary)) \<times> 's) option" where
  "runOnce input s =
     (let (started, s) = rx_now input s;
          startedAt = toISOString started;
          slug = run_slug (rx_sourceUrl input);
          s = rx_log input (RunStart (rx_runId input) slug) s;
          rt = buildRunRuntime input
      in case buildLoopState input slug s of
           (Inl e, s) \<Rightarrow> Some (Inl e, s)
         | (Inr st, s) \<Rightarrow>
             (case runPageLoop input slug startedAt st rt s of
                None \<Rightarrow> None
              | Some (Inl e, s) \<Rightarrow> Some (Inl e, s)
              | Some (Inr (_, st, _), s) \<Rightarrow>
                  (case assembleResult input st slug startedAt s of (r, s) \<Rightarrow> Some (Inr r, s))))"

subsection \<open>Reasoning about the loop\<close>

text \<open>A loop rule: an invariant that a turn which does not stop carries to the next page.\<close>

lemma page_loop_rule:
  assumes ret: "page_loop input slug startedAt page st rt s = Some (Inr (why, st', rt'), s')"
    and init: "I page st rt s"
    and turn: "\<And>page st rt s st1 rt1 s1. I page st rt s \<Longrightarrow> \<not> beyond_cap input page \<Longrightarrow>
      page_body input slug startedAt page st rt s = Some (Inr (None, st1, rt1), s1) \<Longrightarrow> I (Suc page) st1 rt1 s1"
    and stop: "\<And>page st rt s why st1 rt1 s1. I page st rt s \<Longrightarrow> \<not> beyond_cap input page \<Longrightarrow>
      page_body input slug startedAt page st rt s = Some (Inr (Some why, st1, rt1), s1) \<Longrightarrow> Q why st1 rt1 s1"
    and cap: "\<And>page st rt s. I page st rt s \<Longrightarrow> beyond_cap input page \<Longrightarrow> Q Cap st rt s"
  shows "Q why st' rt' s'"
proof -
  define P where "P = (\<lambda>input' slug' startedAt' page st rt s y.
     input' = input \<longrightarrow> slug' = slug \<longrightarrow> startedAt' = startedAt \<longrightarrow> I page st rt s \<longrightarrow>
     (case y of (Inr (why, st', rt'), s') \<Rightarrow> Q why st' rt' s' | (Inl (e :: thrown), _) \<Rightarrow> True))"
  have "P input slug startedAt page st rt s (Inr (why, st', rt'), s')"
  proof (rule page_loop.raw_induct [where P = P, OF _ ret])
    fix loop input' slug' startedAt' page st rt s y
    assume IH: "\<And>input slug startedAt page st rt s y. loop input slug startedAt page st rt s = Some y \<Longrightarrow>
        P input slug startedAt page st rt s y"
      and eq: "(if beyond_cap input' page then Some (Inr (Cap, st, rt), s)
         else Option.bind (page_body input' slug' startedAt' page st rt s)
           (\<lambda>(r, s). case r of Inl e \<Rightarrow> Some (Inl e, s)
              | Inr (stop, st, rt) \<Rightarrow> (case stop of Some why \<Rightarrow> Some (Inr (why, st, rt), s)
                  | None \<Rightarrow> loop input' slug' startedAt' (Suc page) st rt s))) = Some y"
    show "P input' slug' startedAt' page st rt s y"
      unfolding P_def
    proof (intro impI)
      assume same: "input' = input" "slug' = slug" "startedAt' = startedAt" and inv: "I page st rt s"
      show "case y of (Inr (why, st', rt'), s') \<Rightarrow> Q why st' rt' s' | (Inl (e :: thrown), _) \<Rightarrow> True"
      proof (cases "beyond_cap input page")
        case True
        with eq same cap [OF inv] show ?thesis by auto
      next
        case False
        with eq same obtain r s1 where body: "page_body input slug startedAt page st rt s = Some (r, s1)"
          by (cases "page_body input slug startedAt page st rt s") auto
        show ?thesis
        proof (cases r)
          case (Inl e)
          with eq same False body show ?thesis by auto
        next
          case (Inr t)
          obtain stp st1 rt1 where t: "t = (stp, st1, rt1)" by (cases t)
          show ?thesis
          proof (cases stp)
            case None
            with eq same False body Inr t have "loop input slug startedAt (Suc page) st1 rt1 s1 = Some y"
              by simp
            from IH [OF this] turn [OF inv False] body Inr t None show ?thesis
              by (simp add: P_def)
          next
            case (Some w)
            with eq same False body Inr t stop [OF inv False] show ?thesis by auto
          qed
        qed
      qed
    qed
  qed
  with init show ?thesis by (simp add: P_def)
qed

lemma runPageLoop_Inr:
  "runPageLoop input slug startedAt st rt s = Some (Inr (why, st', rt'), s') \<longleftrightarrow>
     (\<exists>st0. page_loop input slug startedAt (ls_lastCompletedPage st + FIRST_PAGE) st rt s
        = Some (Inr (why, st0, rt'), s') \<and> st' = st0\<lparr>ls_reachedMaxPages := (why = Cap)\<rparr>)"
proof (cases "page_loop input slug startedAt (ls_lastCompletedPage st + FIRST_PAGE) st rt s")
  case (Some r)
  then show ?thesis by (cases r; cases "fst r") (auto simp: runPageLoop_def)
qed (simp add: runPageLoop_def)

lemma case_returned:
  "(case r of Some (Inr (why, st', rt'), s') \<Rightarrow> P why st' rt' s' | _ \<Rightarrow> True) \<longleftrightarrow>
     (\<forall>why st' rt' s'. r = Some (Inr (why, st', rt'), s') \<longrightarrow> P why st' rt' s')"
  by (auto split: option.splits sum.splits)

text \<open>What one turn does, by how it ends.\<close>

lemma completeOkPage_Inr:
  assumes "completeOkPage input slug startedAt page cs st rt s = Some (Inr (etag, counts, st1, rt1), s1)"
  shows "ls_report st1 = ls_report st" "ls_lastCompletedPage st1 = ls_lastCompletedPage st"
    "ls_pages st1 = AList.update (show_nat page) \<lparr>cp_counts = counts, cp_status = ''running''\<rparr> (ls_pages st)"
    "length (ls_pageTimestampsMs st1) = Suc (length (ls_pageTimestampsMs st))"
    "\<exists>now. rt1 = rt\<lparr>rt_throttle := onCleanWindow (run_throttle_options input) now (rt_throttle rt),
       rt_limit := nat (th_concurrency (onCleanWindow (run_throttle_options input) now (rt_throttle rt)))\<rparr>"
  using assms
  by (auto simp: completeOkPage_def processPage_def Let_def split: prod.splits option.splits sum.splits)

definition page_kept :: "nat \<Rightarrow> loop_state \<Rightarrow> loop_state \<Rightarrow> bool" where
  "page_kept page st st1 \<longleftrightarrow>
     ls_lastCompletedPage st1 = page \<and> dr_ok (ls_report st1) = dr_ok (ls_report st) \<and>
     length (ls_pageTimestampsMs st1) = Suc (length (ls_pageTimestampsMs st)) \<and>
     (\<exists>counts. map_of (ls_pages st1) =
        (map_of (ls_pages st))(show_nat page \<mapsto> \<lparr>cp_counts = counts, cp_status = ''running''\<rparr>))"

definition page_left :: "loop_state \<Rightarrow> loop_state \<Rightarrow> bool" where
  "page_left st st1 \<longleftrightarrow>
     ls_lastCompletedPage st1 = ls_lastCompletedPage st \<and> ls_pages st1 = ls_pages st \<and>
     ls_pageTimestampsMs st1 = ls_pageTimestampsMs st"

lemma page_body_Inr:
  assumes "page_body input slug startedAt page st rt s = Some (Inr (stop, st1, rt1), s1)"
  shows "case stop of
       None \<Rightarrow> page_kept page st st1
     | Some AllDuplicate \<Rightarrow> page_kept page st st1
     | Some EmptyPage \<Rightarrow> page_left st st1 \<and> dr_ok (ls_report st1) = dr_ok (ls_report st)
     | Some PageFailed \<Rightarrow> page_left st st1 \<and> \<not> dr_ok (ls_report st1)
     | Some Cap \<Rightarrow> False"
proof -
  obtain rt0 s0 where w: "pacer_wait input rt s = (rt0, s0)" by fastforce
  obtain d s2 where d: "rx_discover input (toPageUrl (rx_sourceUrl input) page) s0 = (d, s2)" by fastforce
  show ?thesis
  proof (cases d)
    case (Inl e)
    with assms w d show ?thesis by (simp add: page_body_def)
  next
    case (Inr rep)
    show ?thesis
    proof (cases "dr_ok rep \<and> dr_candidates rep \<noteq> []")
      case False
      with assms w d Inr show ?thesis
        by (auto simp: page_body_def Let_def page_left_def appendDiscoveryReport_def
            split: if_splits prod.splits)
    next
      case True
      define st0 where "st0 = st\<lparr>ls_report := appendDiscoveryReport (ls_report st) rep\<rparr>"
      from True assms w d Inr obtain etag counts st2 s3 where
        c: "completeOkPage input slug startedAt page (dr_candidates rep) st0 rt0 s2 = Some (Inr (etag, counts, st2, rt1), s1)"
        and st1: "st1 = st2\<lparr>ls_etag := etag, ls_lastCompletedPage := page\<rparr>"
        and stop: "stop = (if nothing_new counts then Some AllDuplicate else None)"
        by (auto simp: page_body_def Let_def st0_def split: option.splits sum.splits prod.splits)
      have "map_of (ls_pages st1) =
          (map_of (ls_pages st))(show_nat page \<mapsto> \<lparr>cp_counts = counts, cp_status = ''running''\<rparr>)"
        using completeOkPage_Inr(3) [OF c] by (simp add: st1 st0_def update_conv')
      with completeOkPage_Inr(1,2,4) [OF c] True have "page_kept page st st1"
        unfolding page_kept_def by (auto simp: st1 st0_def appendDiscoveryReport_def Let_def)
      with stop show ?thesis by simp
    qed
  qed
qed

lemma page_body_runtime:
  assumes "page_body input slug startedAt page st rt s = Some (Inr (stop, st1, rt1), s1)"
  shows "\<exists>now. rt_throttle rt1 \<in> {rt_throttle rt} \<union>
      (if stop \<in> {None, Some AllDuplicate} then {onCleanWindow (run_throttle_options input) now (rt_throttle rt)}
       else {onRateLimited (run_throttle_options input) now (rt_throttle rt)}) \<and>
    (rt_limit rt1 = rt_limit rt \<and> rt_throttle rt1 = rt_throttle rt \<or>
     rt_limit rt1 = nat (th_concurrency (rt_throttle rt1)))"
proof -
  obtain rt0 s0 where w: "pacer_wait input rt s = (rt0, s0)" by fastforce
  then have rt0: "rt_throttle rt0 = rt_throttle rt" "rt_limit rt0 = rt_limit rt"
    by (auto simp: pacer_wait_def Let_def split: prod.splits)
  obtain d s2 where d: "rx_discover input (toPageUrl (rx_sourceUrl input) page) s0 = (d, s2)" by fastforce
  show ?thesis
  proof (cases d)
    case (Inl e)
    with assms w d show ?thesis by (simp add: page_body_def)
  next
    case (Inr rep)
    show ?thesis
    proof (cases "dr_ok rep \<and> dr_candidates rep \<noteq> []")
      case False
      with assms w d Inr rt0 show ?thesis
        by (auto simp: page_body_def Let_def applyRateLimitThrottle_def
            split: if_splits prod.splits option.splits)
    next
      case True
      with assms w d Inr obtain etag counts st2 where
        c: "completeOkPage input slug startedAt page (dr_candidates rep)
          (st\<lparr>ls_report := appendDiscoveryReport (ls_report st) rep\<rparr>) rt0 s2 = Some (Inr (etag, counts, st2, rt1), s1)"
        and stop: "stop = (if nothing_new counts then Some AllDuplicate else None)"
        by (auto simp: page_body_def Let_def split: option.splits sum.splits prod.splits)
      from completeOkPage_Inr(5) [OF c] stop rt0 show ?thesis by auto
    qed
  qed
qed

end
