(* ===== verification/Run_Results.thy ===== *)
theory Run_Results
  imports Run_Loop
begin

text \<open>
  What a run guarantees: which pages it covers, what its status and exit code mean, that it
  returns, and what it can and cannot do to its own progress and to the limiter.
\<close>

subsection \<open>One source of rates\<close>

text \<open>
  The log line of a page and the final summary agree on their rates: the two places that
  compute pages per minute compute the same function, and so do the two for candidates whenever a
  page was completed.
\<close>

theorem one_rate_source:
  "derivePagesPerMinute ts = snd (deriveRunRate ts n) \<and>
   (if ts = [] then deriveCandidatesPerMinute ts n = 0
    else deriveCandidatesPerMinute ts n = fst (deriveRunRate ts n))"
  by (cases ts) (simp_all add: derivePagesPerMinute_def deriveCandidatesPerMinute_def
      deriveRunRate_def Let_def)

subsection \<open>The pages of a run\<close>

definition new_pages :: "loop_state \<Rightarrow> loop_state \<Rightarrow> string set" where
  "new_pages st st' = show_nat ` {ls_lastCompletedPage st <.. ls_lastCompletedPage st'}"

definition progressed :: "loop_state \<Rightarrow> loop_state \<Rightarrow> bool" where
  "progressed st st' \<longleftrightarrow>
     ls_lastCompletedPage st \<le> ls_lastCompletedPage st' \<and>
     length (ls_pageTimestampsMs st') + ls_lastCompletedPage st =
       length (ls_pageTimestampsMs st) + ls_lastCompletedPage st' \<and>
     dom (map_of (ls_pages st')) = dom (map_of (ls_pages st)) \<union> new_pages st st' \<and>
     map_of (ls_pages st') |` (- new_pages st st') = map_of (ls_pages st) |` (- new_pages st st')"

lemma progressed_refl: "progressed st st"
  by (simp add: progressed_def new_pages_def)

lemma progressed_left: "progressed st st1 \<Longrightarrow> page_left st1 st2 \<Longrightarrow> progressed st st2"
  by (simp add: progressed_def page_left_def new_pages_def)

lemma progressed_kept:
  assumes "progressed st st1" "page_kept (Suc (ls_lastCompletedPage st1)) st1 st2"
  shows "progressed st st2"
proof -
  have "{ls_lastCompletedPage st <.. ls_lastCompletedPage st2}
      = insert (ls_lastCompletedPage st2) {ls_lastCompletedPage st <.. ls_lastCompletedPage st1}"
    using assms by (auto simp: progressed_def page_kept_def)
  then have new: "new_pages st st2 = insert (show_nat (ls_lastCompletedPage st2)) (new_pages st st1)"
    by (simp add: new_pages_def)
  from assms(2) obtain entry where
    pages: "map_of (ls_pages st2) = (map_of (ls_pages st1))(show_nat (ls_lastCompletedPage st2) \<mapsto> entry)"
    by (auto simp: page_kept_def)
  have "map_of (ls_pages st2) |` (- new_pages st st2) = map_of (ls_pages st) |` (- new_pages st st2)"
  proof
    fix k
    have "map_of (ls_pages st1) k = map_of (ls_pages st) k" if "k \<notin> new_pages st st1"
      using assms(1) that by (auto simp: progressed_def restrict_map_def dest: fun_cong [of _ _ k])
    then show "(map_of (ls_pages st2) |` (- new_pages st st2)) k = (map_of (ls_pages st) |` (- new_pages st st2)) k"
      by (auto simp: restrict_map_def pages new)
  qed
  moreover have "dom (map_of (ls_pages st2)) = dom (map_of (ls_pages st)) \<union> new_pages st st2"
    using assms(1) by (auto simp: progressed_def pages new)
  ultimately show ?thesis
    using assms by (simp add: progressed_def page_kept_def)
qed

lemma progressed_flag [simp]: "progressed st (st'\<lparr>ls_reachedMaxPages := b\<rparr>) = progressed st st'"
  by (simp add: progressed_def new_pages_def)

definition within_cap :: "'s run_input \<Rightarrow> loop_state \<Rightarrow> loop_state \<Rightarrow> bool" where
  "within_cap input st st' \<longleftrightarrow> (case rx_maxPages input of None \<Rightarrow> True
     | Some n \<Rightarrow> ls_lastCompletedPage st' \<le> max (ls_lastCompletedPage st) n)"

definition at_cap :: "'s run_input \<Rightarrow> loop_state \<Rightarrow> loop_state \<Rightarrow> bool" where
  "at_cap input st st' \<longleftrightarrow> (case rx_maxPages input of None \<Rightarrow> False
     | Some n \<Rightarrow> ls_lastCompletedPage st' = max (ls_lastCompletedPage st) n)"

lemma cap_flag [simp]:
  "within_cap input st (st'\<lparr>ls_reachedMaxPages := b\<rparr>) = within_cap input st st'"
  "at_cap input st (st'\<lparr>ls_reachedMaxPages := b\<rparr>) = at_cap input st st'"
  by (simp_all add: within_cap_def at_cap_def split: option.split)

lemma page_loop_covers:
  assumes "page_loop input slug startedAt (ls_lastCompletedPage st + FIRST_PAGE) st rt s = Some (Inr (why, st', rt'), s')"
  shows "progressed st st' \<and> within_cap input st st' \<and> (if why = Cap then at_cap input st st' else True)"
proof -
  define I where "I = (\<lambda>page (st1 :: loop_state) (rt1 :: run_runtime) (s1 :: 'a). page = Suc (ls_lastCompletedPage st1) \<and>
      progressed st st1 \<and> within_cap input st st1)"
  define Q where "Q = (\<lambda>why st1 (rt1 :: run_runtime) (s1 :: 'a). progressed st st1 \<and> within_cap input st st1 \<and>
      (why = Cap \<longrightarrow> at_cap input st st1))"
  have step: "progressed st st2 \<and> within_cap input st st2 \<and> page = ls_lastCompletedPage st2"
    if "I page st1 rt1 s1" "\<not> beyond_cap input page" "page_kept page st1 st2" for page st1 rt1 s1 st2
  proof -
    have "page = ls_lastCompletedPage st2" using that(3) by (simp add: page_kept_def)
    moreover from that have "progressed st st2" by (auto simp: I_def intro: progressed_kept)
    ultimately show ?thesis
      using that(2) by (auto simp: within_cap_def beyond_cap_def split: option.splits)
  qed
  have "Q why st' rt' s'"
  proof (rule page_loop_rule [where I = I and Q = Q, OF assms])
    show "I (ls_lastCompletedPage st + FIRST_PAGE) st rt s"
      by (auto simp: I_def progressed_refl within_cap_def FIRST_PAGE_def split: option.split)
  next
    fix page st1 rt1 s1 st2 rt2 s2
    assume I: "I page st1 rt1 s1" and nb: "\<not> beyond_cap input page"
      and body: "page_body input slug startedAt page st1 rt1 s1 = Some (Inr (None, st2, rt2), s2)"
    show "I (Suc page) st2 rt2 s2"
      using step [OF I nb] page_body_Inr [OF body] by (simp add: I_def)
  next
    fix page st1 rt1 s1 why st2 rt2 s2
    assume I: "I page st1 rt1 s1" and nb: "\<not> beyond_cap input page"
      and body: "page_body input slug startedAt page st1 rt1 s1 = Some (Inr (Some why, st2, rt2), s2)"
    have left: "page_left st1 st2 \<Longrightarrow> progressed st st2 \<and> within_cap input st st2"
      using I by (auto simp: I_def within_cap_def page_left_def intro: progressed_left split: option.splits)
    show "Q why st2 rt2 s2"
      using step [OF I nb] left page_body_Inr [OF body]
      by (cases why) (auto simp: Q_def)
  next
    fix page st1 rt1 s1
    assume "I page st1 rt1 s1" and "beyond_cap input page"
    then show "Q Cap st1 rt1 s1"
      by (auto simp: I_def Q_def at_cap_def within_cap_def beyond_cap_def progressed_def max_def
          split: option.splits if_splits)
  qed
  then show ?thesis by (simp add: Q_def)
qed

text \<open>
  C3: a run covers its pages without a gap. The pages completed by a loop are the ones right after
  the page it started from, in order and each once: one timestamp and one entry in the record
  of pages for every page up to the last completed one, and no other entry touched. With a cap the
  last page never passes it, and a loop that ends at the cap has completed every page up to it.
\<close>

theorem run_pages_contiguous:
  "case runPageLoop input slug startedAt st rt s of
     Some (Inr (why, st', rt'), s') \<Rightarrow>
       progressed st st' \<and> within_cap input st st' \<and>
       (case why of Cap \<Rightarrow> at_cap input st st' \<and> ls_reachedMaxPages st' | _ \<Rightarrow> \<not> ls_reachedMaxPages st')
   | _ \<Rightarrow> True"
  unfolding case_returned runPageLoop_Inr
  using page_loop_covers [of input slug startedAt st rt s] by (fastforce split: stop_reason.split if_splits)

subsection \<open>The status of a run\<close>

lemma deriveSourceFailure_ok: "dr_ok rep \<Longrightarrow> deriveSourceFailure rep = None"
  by (simp add: deriveSourceFailure_def)

definition status_for :: "stop_reason \<Rightarrow> loop_state \<Rightarrow> run_status" where
  "status_for why st = (case why of
       AllDuplicate \<Rightarrow> RunComplete
     | EmptyPage \<Rightarrow> RunComplete
     | Cap \<Rightarrow> RunTruncated
     | PageFailed \<Rightarrow> if isRecoverable (deriveSourceFailure (ls_report st)) then RunResumable
         else if ls_lastCompletedPage st = 0 then RunFailed else RunPartial)"

lemma page_loop_ok:
  assumes "page_loop input slug startedAt page st rt s = Some (Inr (why, st', rt'), s')" "dr_ok (ls_report st)"
  shows "dr_ok (ls_report st') \<longleftrightarrow> why \<noteq> PageFailed"
proof (rule page_loop_rule [where I = "\<lambda>page st rt s. dr_ok (ls_report st)"
      and Q = "\<lambda>why st rt s. dr_ok (ls_report st) \<longleftrightarrow> why \<noteq> PageFailed", OF assms])
  fix page st rt s st1 rt1 s1
  assume "dr_ok (ls_report st)" "page_body input slug startedAt page st rt s = Some (Inr (None, st1, rt1), s1)"
  then show "dr_ok (ls_report st1)" using page_body_Inr by (fastforce simp: page_kept_def)
next
  fix page st rt s why st1 rt1 s1
  assume "dr_ok (ls_report st)" "page_body input slug startedAt page st rt s = Some (Inr (Some why, st1, rt1), s1)"
  then show "dr_ok (ls_report st1) \<longleftrightarrow> why \<noteq> PageFailed"
    using page_body_Inr [of input slug startedAt page st rt s "Some why" st1 rt1 s1]
    by (cases why) (auto simp: page_kept_def)
qed simp

text \<open>
  C4: why a run stopped decides its status, and nothing else does. A run that met an empty page
  or a page without anything new is \<open>complete\<close>, whatever failed on the pages before; one that used
  up its cap is \<open>truncated\<close>; one that stopped at a page that could not be read is \<open>resumable\<close> when
  the cause can pass, else \<open>partial\<close> or \<open>failed\<close> by whether any page was ever completed.
\<close>

theorem stop_reason_decides_status:
  "case runPageLoop input slug startedAt (st\<lparr>ls_report := emptyDiscoveryReport slug wall\<rparr>) rt s of
     Some (Inr (why, st', rt'), s') \<Rightarrow>
       run_status_of st' = status_for why st' \<and> (dr_ok (ls_report st') \<longleftrightarrow> why \<noteq> PageFailed)
   | _ \<Rightarrow> True"
proof -
  have "run_status_of (st0\<lparr>ls_reachedMaxPages := (why = Cap)\<rparr>) = status_for why (st0\<lparr>ls_reachedMaxPages := (why = Cap)\<rparr>)
      \<and> (dr_ok (ls_report st0) \<longleftrightarrow> why \<noteq> PageFailed)"
    if "page_loop input slug startedAt page (st\<lparr>ls_report := emptyDiscoveryReport slug wall\<rparr>) rt s = Some (Inr (why, st0, rt'), s')"
    for why page st0 rt' s'
  proof -
    have ok: "dr_ok (ls_report st0) \<longleftrightarrow> why \<noteq> PageFailed"
      using page_loop_ok [OF that] by (simp add: emptyDiscoveryReport_def)
    then show ?thesis
      by (cases why) (auto simp: run_status_of_def status_for_def deriveRunStatus_def
        deriveDiscoveredLastPage_def FIRST_PAGE_def deriveSourceFailure_ok isRecoverable_def)
  qed
  then show ?thesis
    unfolding case_returned runPageLoop_Inr by auto
qed

lemma assembleResult_fst:
  "\<exists>finishedAt. fst (assembleResult input st slug startedAt s) =
     (summary_exit_code (summary_of input st startedAt finishedAt), summary_of input st startedAt finishedAt)"
  by (auto simp: assembleResult_def Let_def split: prod.split)

text \<open>
  C19: what the exit code of a run tells its scheduler. A run exits with 0 or 2; it exits with 0
  exactly when it is \<open>complete\<close>, every page was read, every replay was stored or already
  there, and every staging was new or already done. Otherwise the summary names a failure category
  or a status other than \<open>complete\<close>; and the resume command is given exactly when the run is not
  complete.
\<close>

theorem runOnce_exit_code:
  "case runOnce input s of
     Some (Inr (code, sm), s') \<Rightarrow>
       code \<in> {0, 2} \<and>
       (code = 0 \<longleftrightarrow> su_status sm = Some RunComplete \<and> su_failureCategories sm = []) \<and>
       (su_failureCategories sm = [] \<longleftrightarrow> su_ok sm) \<and>
       (su_ok sm \<longleftrightarrow> CatSourceUnavailable \<notin> set (su_failureCategories sm) \<and>
          list_all (\<lambda>r. result_status r \<in> {RawStored, RawSkipped}) (su_rawStorage sm) \<and>
          list_all (\<lambda>r. sr_status r \<in> {Staged, AlreadyStaged}) (su_staging sm)) \<and>
       (su_resumeInvocation sm = None \<longleftrightarrow> su_status sm = Some RunComplete)
   | _ \<Rightarrow> True"
proof -
  define good where "good = (\<lambda>(code, sm :: run_summary). code \<in> {0, 2 :: nat} \<and>
       (code = 0 \<longleftrightarrow> su_status sm = Some RunComplete \<and> su_failureCategories sm = []) \<and>
       (su_failureCategories sm = [] \<longleftrightarrow> su_ok sm) \<and>
       (su_ok sm \<longleftrightarrow> CatSourceUnavailable \<notin> set (su_failureCategories sm) \<and>
          list_all (\<lambda>r. result_status r \<in> {RawStored, RawSkipped}) (su_rawStorage sm) \<and>
          list_all (\<lambda>r. sr_status r \<in> {Staged, AlreadyStaged}) (su_staging sm)) \<and>
       (su_resumeInvocation sm = None \<longleftrightarrow> su_status sm = Some RunComplete))"
  have source: "CatSourceUnavailable \<notin> set (collectFailureCategories rep raw staging) \<longleftrightarrow> dr_ok rep"
    for rep raw staging
    by (auto simp: set_collectFailureCategories raw_category_def staging_category_def
        split: store_result.splits if_splits)
  have "good (summary_exit_code (summary_of input st a b), summary_of input st a b)" for st a b
    by (auto simp: good_def summary_of_def summary_exit_code_def runExitCode_def base_summary_def Let_def
        collect_empty_iff source resumeInvocationOption_def)
  then have "good (fst (assembleResult input st slug a s))" for st slug a s
    using assembleResult_fst by metis
  then have "good r" if "assembleResult input st slug a s = (r, s')" for r st slug a s s'
    using that by (metis fst_conv)
  then have "good r" if "runOnce input s = Some (Inr r, s')" for r s'
    using that by (auto simp: runOnce_def Let_def split: prod.splits sum.splits option.splits)
  then show ?thesis
    by (auto simp: good_def split: option.splits sum.splits prod.splits)
qed

subsection \<open>The limiter during a run\<close>

definition full_speed :: "'s run_input \<Rightarrow> run_runtime \<Rightarrow> bool" where
  "full_speed input rt \<longleftrightarrow> rt_limit rt = rx_concurrency input \<and>
     th_concurrency (rt_throttle rt) = int (rx_concurrency input) \<and>
     th_pacingFloorMs (rt_throttle rt) = rx_requestSpacingMs input"

lemma full_speed_start: "full_speed input (buildRunRuntime input) \<and> th_rateLimitedStreak (rt_throttle (buildRunRuntime input)) = 0"
  by (simp add: full_speed_def buildRunRuntime_def createThrottleController_def run_throttle_options_def)

lemma clean_keeps_speed:
  assumes "th_concurrency th = int (rx_concurrency input)"
  shows "th_concurrency (onCleanWindow (run_throttle_options input) now th) = int (rx_concurrency input)"
    "th_pacingFloorMs (onCleanWindow (run_throttle_options input) now th) = th_pacingFloorMs th"
    "th_rateLimitedStreak (onCleanWindow (run_throttle_options input) now th) = 0"
  using assms by (simp_all add: onCleanWindow_def Let_def run_throttle_options_def AI_STEP_def)

lemma limited_once_keeps_speed:
  assumes "th_rateLimitedStreak th = 0"
  shows "th_concurrency (onRateLimited (run_throttle_options input) now th) = th_concurrency th"
    "th_pacingFloorMs (onRateLimited (run_throttle_options input) now th) = th_pacingFloorMs th"
  using assms by (simp_all add: onRateLimited_def Let_def RATE_LIMITED_WINDOW_def)

lemma page_body_speed:
  assumes "page_body input slug startedAt page st rt s = Some (Inr (stop, st1, rt1), s1)"
    and "full_speed input rt" "th_rateLimitedStreak (rt_throttle rt) = 0"
  shows "full_speed input rt1 \<and> (stop = None \<longrightarrow> th_rateLimitedStreak (rt_throttle rt1) = 0)"
  using page_body_runtime [OF assms(1)] assms(2,3)
  by (auto simp: full_speed_def clean_keeps_speed limited_once_keeps_speed split: if_splits)

text \<open>
  C38: the adaptive limiter never slows a run down. However often and in whatever way the source
  limits its rate, every page of a run is ingested at the configured concurrency and the pacing
  floor stays where it was: the controller acts on the second rate-limited page in a row, but the
  first one ends the loop.
\<close>

theorem throttle_never_acts:
  "case runPageLoop input slug startedAt st (buildRunRuntime input) s of
     Some (Inr (why, st', rt'), s') \<Rightarrow>
       rt_limit rt' = rx_concurrency input \<and>
       th_concurrency (rt_throttle rt') = int (rx_concurrency input) \<and>
       th_pacingFloorMs (rt_throttle rt') = rx_requestSpacingMs input
   | _ \<Rightarrow> True"
proof -
  have "full_speed input rt'"
    if "page_loop input slug startedAt page st (buildRunRuntime input) s = Some (Inr (why, st', rt'), s')"
    for page why st' rt' s'
  proof (rule page_loop_rule [where Q = "\<lambda>why st rt s. full_speed input rt"
        and I = "\<lambda>page st rt s. full_speed input rt \<and> th_rateLimitedStreak (rt_throttle rt) = 0", OF that])
    show "full_speed input (buildRunRuntime input) \<and> th_rateLimitedStreak (rt_throttle (buildRunRuntime input)) = 0"
      by (rule full_speed_start)
  next
    fix page st rt s st1 rt1 s1
    assume "full_speed input rt \<and> th_rateLimitedStreak (rt_throttle rt) = 0"
      and "page_body input slug startedAt page st rt s = Some (Inr (None, st1, rt1), s1)"
    then show "full_speed input rt1 \<and> th_rateLimitedStreak (rt_throttle rt1) = 0"
      using page_body_speed [of input slug startedAt page st rt s None st1 rt1 s1] by simp
  next
    fix page st rt s why st1 rt1 s1
    assume "full_speed input rt \<and> th_rateLimitedStreak (rt_throttle rt) = 0"
      and "page_body input slug startedAt page st rt s = Some (Inr (Some why, st1, rt1), s1)"
    then show "full_speed input rt1"
      using page_body_speed [of input slug startedAt page st rt s "Some why" st1 rt1 s1] by simp
  qed simp
  then show ?thesis
    unfolding case_returned runPageLoop_Inr full_speed_def by blast
qed

subsection \<open>A run returns\<close>

definition serves_in_turn :: "'s run_input \<Rightarrow> bool" where
  "serves_in_turn input \<longleftrightarrow> (\<forall>page n. rx_schedule input page n = concat (replicate (4 * n) [0..<n]))"

definition ends_run :: "thrown + report \<Rightarrow> bool" where
  "ends_run answer = (case answer of Inl e \<Rightarrow> True | Inr rep \<Rightarrow> \<not> dr_ok rep \<or> dr_candidates rep = [])"

lemma completeOkPage_returns:
  assumes "serves_in_turn input" "0 < rx_concurrency input" "full_speed input rt"
  shows "completeOkPage input slug startedAt page cs st rt s \<noteq> None"
proof -
  obtain now s1 where now: "rx_now input s = (now, s1)" by fastforce
  let ?th = "onCleanWindow (run_throttle_options input) now (rt_throttle rt)"
  have "nat (th_concurrency ?th) = rx_concurrency input"
    using assms(3) by (simp add: full_speed_def clean_keeps_speed)
  moreover have "ingestPage (run_calls input) (rx_concurrency input) cs s1
      (rx_schedule input page (length cs)) \<noteq> None"
    using assms(1) fair_page_ends [OF assms(2), of "run_calls input" cs s1]
    by (simp add: serves_in_turn_def)
  ultimately show ?thesis
    by (auto simp: completeOkPage_def now processPage_def Let_def split: option.splits sum.splits prod.splits)
qed

lemma page_body_returns:
  assumes "serves_in_turn input" "0 < rx_concurrency input" "full_speed input rt"
  shows "page_body input slug startedAt page st rt s \<noteq> None"
proof -
  obtain rt0 s0 where w: "pacer_wait input rt s = (rt0, s0)" by fastforce
  then have "full_speed input rt0"
    using assms(3) by (auto simp: pacer_wait_def full_speed_def Let_def split: prod.splits)
  from completeOkPage_returns [OF assms(1,2) this] w show ?thesis
    by (auto simp: page_body_def Let_def simp del: not_None_eq split: prod.splits sum.splits option.splits)
qed

lemma page_body_ends:
  assumes "page_body input slug startedAt page st rt s = Some (Inr (None, st1, rt1), s1)"
  shows "\<exists>s0. \<not> ends_run (fst (rx_discover input (toPageUrl (rx_sourceUrl input) page) s0))"
proof -
  obtain rt0 s0 where w: "pacer_wait input rt s = (rt0, s0)" by fastforce
  have "\<not> ends_run (fst (rx_discover input (toPageUrl (rx_sourceUrl input) page) s0))"
    using assms w by (auto simp: page_body_def ends_run_def Let_def split: prod.splits sum.splits if_splits)
  then show ?thesis by blast
qed

lemma page_loop_returns:
  assumes serves: "serves_in_turn input" "0 < rx_concurrency input"
    and ends: "\<And>page s. P \<le> page \<Longrightarrow> beyond_cap input page \<or>
      ends_run (fst (rx_discover input (toPageUrl (rx_sourceUrl input) page) s))"
  shows "full_speed input rt \<Longrightarrow> th_rateLimitedStreak (rt_throttle rt) = 0 \<Longrightarrow>
    page_loop input slug startedAt page st rt s \<noteq> None"
proof (induction "Suc P - page" arbitrary: page st rt s rule: less_induct)
  case less
  show ?case
  proof (cases "beyond_cap input page")
    case True
    then show ?thesis by (simp add: page_loop.simps [of input slug startedAt page])
  next
    case False
    from page_body_returns [OF serves less.prems(1)] obtain r s1 where
      body: "page_body input slug startedAt page st rt s = Some (r, s1)" by fastforce
    show ?thesis
    proof (cases "\<exists>st1 rt1. r = Inr (None, st1, rt1)")
      case True
      then obtain st1 rt1 where r: "r = Inr (None, st1, rt1)" by blast
      with page_body_ends body ends [of page] False have "page < P" by (metis not_le)
      then have "page_loop input slug startedAt (Suc page) st1 rt1 s1 \<noteq> None"
        using page_body_speed [of input slug startedAt page st rt s None st1 rt1 s1] body r less.prems
        by (intro less.hyps) auto
      with False body r show ?thesis by (simp add: page_loop.simps [of input slug startedAt page])
    next
      case False': False
      then show ?thesis
        using False body by (auto simp: page_loop.simps [of input slug startedAt page]
          split: sum.splits option.splits)
    qed
  qed
qed

text \<open>
  C11: a run returns. When the event loop serves the tasks of a page in turn and from some page on
  every page is beyond the cap or, whenever it is read, empty, unreadable or refused, the run comes
  to its end: with an exit code and a summary, or with the error that it rejects with.
\<close>

theorem runOnce_returns:
  assumes "serves_in_turn input" "0 < rx_concurrency input"
    and "\<And>page s. P \<le> page \<Longrightarrow> beyond_cap input page \<or>
      ends_run (fst (rx_discover input (toPageUrl (rx_sourceUrl input) page) s))"
  shows "runOnce input s \<noteq> None"
proof -
  have "runPageLoop input slug startedAt st (buildRunRuntime input) s1 \<noteq> None" for slug startedAt st s1
    using page_loop_returns [OF assms] full_speed_start [of input] by (simp add: runPageLoop_def del: not_None_eq)
  then show ?thesis
    by (auto simp: runOnce_def Let_def simp del: not_None_eq split: prod.splits sum.splits option.splits)
qed

subsection \<open>A cap that is used up\<close>


subsection \<open>Evidence\<close>

lemma page_loop_same:
  assumes "page_body i = page_body j" "beyond_cap i = beyond_cap j"
  shows "page_loop i slug startedAt page st rt s = Some y \<Longrightarrow> page_loop j slug startedAt page st rt s = Some y"
proof -
  define P where "P = (\<lambda>i' slug startedAt page st rt s y. i' = i \<longrightarrow> page_loop j slug startedAt page st rt s = Some y)"
  assume "page_loop i slug startedAt page st rt s = Some y"
  then have "P i slug startedAt page st rt s y"
  proof (rule page_loop.raw_induct [rotated])
    fix loop i' slug startedAt page st rt s y
    assume IH: "\<And>i slug startedAt page st rt s y. loop i slug startedAt page st rt s = Some y \<Longrightarrow>
        P i slug startedAt page st rt s y"
      and eq: "(if beyond_cap i' page then Some (Inr (Cap, st, rt), s)
         else Option.bind (page_body i' slug startedAt page st rt s)
           (\<lambda>(r, s). case r of Inl e \<Rightarrow> Some (Inl e, s)
              | Inr (stop, st, rt) \<Rightarrow> (case stop of Some why \<Rightarrow> Some (Inr (why, st, rt), s)
                  | None \<Rightarrow> loop i' slug startedAt (Suc page) st rt s))) = Some y"
    show "P i' slug startedAt page st rt s y"
      unfolding P_def
    proof
      assume i': "i' = i"
      note unfold = page_loop.simps [of j slug startedAt page st rt s]
      show "page_loop j slug startedAt page st rt s = Some y"
      proof (cases "beyond_cap i page")
        case True
        with eq assms(2) i' show ?thesis by (simp add: unfold)
      next
        case False
        with eq i' obtain r s1 where body: "page_body i slug startedAt page st rt s = Some (r, s1)"
          by (cases "page_body i slug startedAt page st rt s") auto
        show ?thesis
        proof (cases "\<exists>st1 rt1. r = Inr (None, st1, rt1)")
          case True
          then obtain st1 rt1 where r: "r = Inr (None, st1, rt1)" by blast
          with eq False body i' IH [of i slug startedAt "Suc page" st1 rt1 s1 y]
          have "page_loop j slug startedAt (Suc page) st1 rt1 s1 = Some y" by (simp add: P_def)
          with False body r assms show ?thesis by (simp add: unfold)
        next
          case False': False
          with False body eq assms i' show ?thesis
            by (auto simp: unfold split: sum.splits option.splits)
        qed
      qed
    qed
  qed
  then show ?thesis by (simp add: P_def)
qed

lemma page_loop_cong:
  assumes "page_body i = page_body j" "beyond_cap i = beyond_cap j"
  shows "page_loop i = page_loop j"
proof (intro ext)
  fix slug startedAt page st rt s
  show "page_loop i slug startedAt page st rt s = page_loop j slug startedAt page st rt s"
    using page_loop_same [OF assms, of slug startedAt page st rt s]
      page_loop_same [OF assms [symmetric], of slug startedAt page st rt s]
    by (cases "page_loop i slug startedAt page st rt s"; cases "page_loop j slug startedAt page st rt s") auto
qed

abbreviation other_evidence where
  "other_evidence input emit store file write_file \<equiv>
     input\<lparr>rx_emitEvidence := emit, rx_evidenceStore := store,
     rx_evidenceFile := file, rx_writeEvidenceFile := write_file\<rparr>"

lemma evidence_unused:
  fixes input :: "'s run_input"
  shows "runPageLoop (other_evidence input emit store file write_file) = runPageLoop input"
    and "buildRunRuntime (other_evidence input emit store file write_file) = buildRunRuntime input"
    and "buildLoopState (other_evidence input emit store file write_file) slug s1 = buildLoopState input slug s1"
    and "fst (assembleResult (other_evidence input emit store file write_file) st slug startedAt s1) =
      fst (assembleResult input st slug startedAt s1)"
proof -
  let ?i = "other_evidence input emit store file write_file"
  have fields: "rx_wall ?i = rx_wall input" "rx_now ?i = rx_now input" "rx_sleep ?i = rx_sleep input"
    "rx_log ?i = rx_log input" "rx_write ?i = rx_write input" "rx_discover ?i = rx_discover input"
    "rx_store ?i = rx_store input" "rx_stage ?i = rx_stage input" "rx_schedule ?i = rx_schedule input"
    "rx_runId ?i = rx_runId input" "rx_sourceUrl ?i = rx_sourceUrl input"
    "rx_concurrency ?i = rx_concurrency input" "rx_requestSpacingMs ?i = rx_requestSpacingMs input"
    "rx_maxPages ?i = rx_maxPages input" "rx_read ?i = rx_read input" "rx_resume ?i = rx_resume input"
    by simp_all
  have "page_body ?i = page_body input"
    unfolding page_body_def [abs_def] pacer_wait_def applyRateLimitThrottle_def emitPageFailureEvent_def
      completeOkPage_def processPage_def run_calls_def run_throttle_options_def emitPageRateLine_def
      writePageCheckpoint_def buildCheckpoint_def fields ..
  moreover have "beyond_cap ?i = beyond_cap input"
    unfolding beyond_cap_def [abs_def] fields ..
  ultimately show "runPageLoop ?i = runPageLoop input"
    by (intro ext) (simp add: runPageLoop_def page_loop_cong [of ?i input])
  show "buildRunRuntime ?i = buildRunRuntime input"
    unfolding buildRunRuntime_def run_throttle_options_def fields ..
  show "buildLoopState ?i slug s1 = buildLoopState input slug s1"
    unfolding buildLoopState_def resolveResumeState_def fields ..
  have final: "writeFinalCheckpoint ?i = writeFinalCheckpoint input"
    unfolding writeFinalCheckpoint_def [abs_def] buildCheckpoint_def fields ..
  show "fst (assembleResult ?i st slug startedAt s1) = fst (assembleResult input st slug startedAt s1)"
    unfolding assembleResult_def final summary_of_def fields
    by (simp add: Let_def split: prod.split)
qed

text \<open>
  Writing evidence never changes a run. Whether the full summary is also written to the
  evidence store or to a file, and whether those writes succeed or fail, the run returns the same
  exit code and the same summary.
\<close>

theorem evidence_cannot_fail_run:
  fixes input :: "'s run_input"
  shows "map_option fst (runOnce input s) =
   map_option fst (runOnce (input\<lparr>rx_emitEvidence := emit, rx_evidenceStore := store,
     rx_evidenceFile := file, rx_writeEvidenceFile := write_file\<rparr>) s)"
proof -
  let ?i = "other_evidence input emit store file write_file"
  have fields: "rx_now ?i = rx_now input" "rx_log ?i = rx_log input" "rx_runId ?i = rx_runId input"
    "rx_sourceUrl ?i = rx_sourceUrl input" by simp_all
  define slug where "slug = run_slug (rx_sourceUrl input)"
  obtain t s1 where now: "rx_now input s = (t, s1)" by fastforce
  obtain r s2 where st: "buildLoopState input slug (rx_log input (RunStart (rx_runId input) slug) s1) = (r, s2)"
    by fastforce
  show ?thesis
  proof (cases r)
    case (Inl e)
    with st show ?thesis
      unfolding runOnce_def Let_def fields evidence_unused slug_def [symmetric] by (simp add: now)
  next
    case (Inr st0)
    have "map_option fst (case q of None \<Rightarrow> None
        | Some (Inl e, s) \<Rightarrow> Some (Inl e, s)
        | Some (Inr (_, st', _), s) \<Rightarrow> (case assembleResult input st' slug a s of (r, s) \<Rightarrow> Some (Inr r, s)))
      = map_option fst (case q of None \<Rightarrow> None
        | Some (Inl e, s) \<Rightarrow> Some (Inl e, s)
        | Some (Inr (_, st', _), s) \<Rightarrow> (case assembleResult ?i st' slug a s of (r, s) \<Rightarrow> Some (Inr r, s)))"
      for a and q :: "((thrown + (stop_reason \<times> loop_state \<times> run_runtime)) \<times> 's) option"
      using evidence_unused(4) [of write_file "file" store emit input]
      by (cases q) (auto simp: case_prod_unfold split: sum.split)
    with st Inr show ?thesis
      unfolding runOnce_def Let_def fields evidence_unused slug_def [symmetric] by (simp add: now)
  qed
qed

end
