(* ===== verification/Run_Examples.thy ===== *)
theory Run_Examples
  imports Run_Results
begin

text \<open>
  A small world in which runs are carried out: a source of two pages with one replay each, a
  store and a table that are lists of names, and a checkpoint that is one cell. It witnesses that
  the hypotheses of the results about runs can hold, and shows one consequence of the stop rule.
\<close>

record tiny_world =
  tw_checkpoint :: "checkpoint option"
  tw_stored :: "string list"
  tw_staged :: "string list"
  tw_visited :: "string list"
  tw_down :: bool

definition tiny_source :: url where
  "tiny_source = \<lparr>url_protocol = ''https:'', url_username = ''u'', url_password = ''x'', url_host = ''h'',
     url_pathname = ''/r'', url_search = [], url_hash = []\<rparr>"

definition tiny_candidate :: "string \<Rightarrow> replay_candidate" where
  "tiny_candidate name = \<lparr>rc_filename = name, rc_metadata = None,
     rc_source = \<lparr>rs_externalId = None, rs_page = None, rs_rawUrl = None, rs_url = ''https://h/d''\<rparr>\<rparr>"

definition tiny_evidence :: "string \<Rightarrow> raw_status \<Rightarrow> raw_evidence" where
  "tiny_evidence name status =
     \<lparr>rv_bucket = ''b'', rv_byteSize = 1, rv_checksum = name, rv_discoveredAt = None,
      rv_failureCategory = None, rv_fetchedAt = ''t'', rv_objectKey = name,
      rv_source = rc_source (tiny_candidate name), rv_sourceFilename = name, rv_status = status\<rparr>"

definition tiny_discover :: "url \<Rightarrow> tiny_world \<Rightarrow> (thrown + report) \<times> tiny_world" where
  "tiny_discover u w =
     (let cs = (if url_search u = [] then [tiny_candidate ''A'']
                else if url_search u = ''?p=2'' then [tiny_candidate ''B''] else [])
      in (Inr (buildReport cs [] True 0 ''t'' (Some 1) (href u)),
          w\<lparr>tw_visited := tw_visited w @ [url_search u]\<rparr>))"

definition tiny_store :: "replay_candidate \<Rightarrow> tiny_world \<Rightarrow> (thrown + store_result) \<times> tiny_world" where
  "tiny_store c w =
     (let name = rc_filename c in
      if tw_down w \<and> name = ''B''
      then (Inr (FetchFailed (fetch_failure_of c ''t'' Undefined)), w)
      else if name \<in> set (tw_stored w) then (Inr (Evidence (tiny_evidence name RawSkipped)), w)
      else (Inr (Evidence (tiny_evidence name RawStored)), w\<lparr>tw_stored := name # tw_stored w\<rparr>))"

definition tiny_stage :: "string option \<Rightarrow> store_result \<Rightarrow> tiny_world \<Rightarrow> (thrown + staging_result) \<times> tiny_world" where
  "tiny_stage runId r w = (case r of
       FetchFailed _ \<Rightarrow> (Inr \<lparr>sr_existing = None, sr_payload = None, sr_reason = Some ''failed'',
           sr_stagingId = None, sr_status = NotStageable\<rparr>, w)
     | Evidence e \<Rightarrow>
         (if rv_checksum e \<in> set (tw_staged w)
          then (Inr \<lparr>sr_existing = None, sr_payload = None, sr_reason = None, sr_stagingId = None,
                  sr_status = AlreadyStaged\<rparr>, w)
          else (Inr \<lparr>sr_existing = None, sr_payload = None, sr_reason = None, sr_stagingId = None,
                  sr_status = Staged\<rparr>, w\<lparr>tw_staged := rv_checksum e # tw_staged w\<rparr>)))"

definition tiny_input :: "nat option \<Rightarrow> tiny_world run_input" where
  "tiny_input maxPages =
     \<lparr>rx_concurrency = 1, rx_maxPages = maxPages, rx_requestSpacingMs = 0, rx_resume = False,
      rx_runId = ''run'', rx_sourceUrl = tiny_source, rx_now = Pair 0, rx_wall = Pair 0,
      rx_sleep = (\<lambda>_ w. w), rx_log = (\<lambda>_ w. w),
      rx_read = (\<lambda>_ w. (Inr \<lparr>rd_checkpoint = tw_checkpoint w, rd_etag = None\<rparr>, w)),
      rx_write = (\<lambda>c _ _ w. (Inr None, w\<lparr>tw_checkpoint := Some c\<rparr>)),
      rx_discover = tiny_discover, rx_store = tiny_store, rx_stage = tiny_stage,
      rx_schedule = (\<lambda>page n. concat (replicate (4 * n) [0..<n])), rx_emitEvidence = False,
      rx_evidenceStore = None, rx_evidenceFile = None, rx_writeEvidenceFile = None\<rparr>"

definition tiny_start :: tiny_world where
  "tiny_start = \<lparr>tw_checkpoint = None, tw_stored = [], tw_staged = [], tw_visited = [], tw_down = True\<rparr>"

definition outcome :: "((thrown + (nat \<times> run_summary)) \<times> tiny_world) option \<Rightarrow> (nat \<times> run_status option \<times> string list \<times> string list) option" where
  "outcome r = (case r of Some (Inr (code, sm), w) \<Rightarrow> Some (code, su_status sm, tw_visited w, tw_stored w) | _ \<Rightarrow> None)"

definition after_run :: "((thrown + (nat \<times> run_summary)) \<times> tiny_world) option \<Rightarrow> tiny_world" where
  "after_run r = (case r of Some (_, w) \<Rightarrow> w | None \<Rightarrow> tiny_start)"

subsection \<open>Its pages\<close>

lemma one_candidate_page:
  assumes "\<not> ic_prefetchDedup calls"
  shows "ingestPage calls 1 [c] w (concat (replicate (4 * 1) [0..<1])) =
    (case ic_store calls c w of
       (Inl e, w) \<Rightarrow> Some (Inl e, w)
     | (Inr r, w) \<Rightarrow>
         (case ic_stage calls r w of
            (Inl e, w) \<Rightarrow> Some (Inl e, w)
          | (Inr g, w) \<Rightarrow> Some (Inr (add_settled
              \<lparr>pr_counts = newPageCounts 1, pr_rawStorage = [], pr_staging = []\<rparr> (0, Settled r g)), w)))"
proof -
  have four: "concat (replicate (4 * 1) [0..<1]) = [0, 0, 0, 0 :: nat]" by code_simp
  have settle: "settle_page [Inl e] = Inl e" "settle_page [Inr v] = Inr (add_settled
      \<lparr>pr_counts = newPageCounts 1, pr_rawStorage = [], pr_staging = []\<rparr> (0, v))" for e v
    by (simp_all add: settle_page_def rethrowProgrammerError_def fulfilledInOrder_def List.map_filter_def)
  show ?thesis
    unfolding four using assms
    by (auto simp: ingestPage_def page_run_def page_start_def page_turn_def may_start_def active_count_def
        task_step_def prefetch_check_def task_outcome_def settle split: prod.splits sum.splits)
qed

lemma tiny_fields [simp]:
  "rx_concurrency (tiny_input m) = 1" "rx_maxPages (tiny_input m) = m" "rx_now (tiny_input m) = Pair 0"
  "rx_wall (tiny_input m) = Pair 0" "rx_requestSpacingMs (tiny_input m) = 0"
  "rx_log (tiny_input m) = (\<lambda>_ w. w)" "rx_sleep (tiny_input m) = (\<lambda>_ w. w)"
  "rx_sourceUrl (tiny_input m) = tiny_source" "rx_discover (tiny_input m) = tiny_discover"
  "rx_store (tiny_input m) = tiny_store" "rx_stage (tiny_input m) = tiny_stage"
  "rx_read (tiny_input m) = (\<lambda>_ w. (Inr \<lparr>rd_checkpoint = tw_checkpoint w, rd_etag = None\<rparr>, w))"
  "rx_write (tiny_input m) = (\<lambda>c _ _ w. (Inr None, w\<lparr>tw_checkpoint := Some c\<rparr>))"
  "rx_runId (tiny_input m) = ''run''" "rx_evidenceStore (tiny_input m) = None"
  "rx_writeEvidenceFile (tiny_input m) = None"
  by (simp_all add: tiny_input_def)

lemma tiny_in_turn: "serves_in_turn (tiny_input m)"
  by (simp add: serves_in_turn_def tiny_input_def)

lemma tiny_ingest:
  "ingestPage (run_calls (tiny_input m)) (Suc 0) [c] w (rx_schedule (tiny_input m) p (Suc 0)) =
    (case tiny_store c w of
       (Inl e, w) \<Rightarrow> Some (Inl e, w)
     | (Inr r, w) \<Rightarrow>
         (case tiny_stage (Some ''run'') r w of
            (Inl e, w) \<Rightarrow> Some (Inl e, w)
          | (Inr g, w) \<Rightarrow> Some (Inr (add_settled
              \<lparr>pr_counts = newPageCounts 1, pr_rawStorage = [], pr_staging = []\<rparr> (0, Settled r g)), w)))"
proof -
  have turns: "rx_schedule (tiny_input m) p (Suc 0) = concat (replicate (4 * 1) [0..<1])"
    by (simp add: tiny_input_def)
  have calls: "\<not> ic_prefetchDedup (run_calls (tiny_input m))" "ic_store (run_calls (tiny_input m)) = tiny_store"
    "ic_stage (run_calls (tiny_input m)) = tiny_stage (Some ''run'')"
    by (simp_all add: run_calls_def)
  show ?thesis
    unfolding turns using one_candidate_page [OF calls(1), of c w] unfolding calls(2,3) by simp
qed

lemma tiny_urls:
  "url_search tiny_source = []"
  "toPageUrl tiny_source (Suc 0) = tiny_source"
  "url_search (toPageUrl tiny_source 2) = ''?p=2''" "url_search (toPageUrl tiny_source 3) = ''?p=3''"
  by code_simp+

lemma tiny_wait: "pacer_wait (tiny_input m) rt w = (rt\<lparr>rt_pacer := Some 0\<rparr>, w)"
  by (simp add: pacer_wait_def awaitFloor_def Let_def split: option.split)

definition tiny_result ::
    "((thrown + (stop_reason option \<times> loop_state \<times> run_runtime)) \<times> tiny_world) option \<Rightarrow> stop_reason option
      \<Rightarrow> loop_state \<Rightarrow> store_result list \<Rightarrow> staging_status list \<Rightarrow> tiny_world \<Rightarrow> bool" where
  "tiny_result r stop st raws stagings w \<longleftrightarrow> (case r of
       Some (Inr (stop', st', rt'), w') \<Rightarrow>
         stop' = stop \<and> ls_rawStorage st' = ls_rawStorage st @ raws \<and>
         map sr_status (ls_staging st') = map sr_status (ls_staging st) @ stagings \<and>
         w'\<lparr>tw_checkpoint := None\<rparr> = w\<lparr>tw_checkpoint := None\<rparr>
     | _ \<Rightarrow> False)"

lemmas tiny_eval = page_body_def tiny_wait tiny_discover_def completeOkPage_def processPage_def
  tiny_ingest tiny_store_def tiny_stage_def tiny_candidate_def Let_def
  emitPageRateLine_def writePageCheckpoint_def buildCheckpoint_def buildReport_def add_settled_def
  tallyRawResult_def tallyStagingResult_def newPageCounts_def page_counts_of_def result_status_def
  tiny_evidence_def nothing_new_def full_speed_def clean_keeps_speed tiny_urls

lemma tiny_first_page:
  assumes "full_speed (tiny_input m) rt" "tw_stored w = []" "tw_staged w = []"
  shows "tiny_result (page_body (tiny_input m) slug startedAt (Suc 0) st rt w) None st
    [Evidence (tiny_evidence ''A'' RawStored)] [Staged]
    (w\<lparr>tw_stored := [''A''], tw_staged := [''A''], tw_visited := tw_visited w @ [[]]\<rparr>)"
  using assms by (simp add: tiny_result_def tiny_eval)

lemma tiny_second_page:
  assumes "full_speed (tiny_input m) rt" "tw_stored w = [''A'']" "tw_staged w = [''A'']" "tw_down w"
  shows "\<exists>f. tiny_result (page_body (tiny_input m) slug startedAt 2 st rt w) None st
    [FetchFailed f] [NotStageable] (w\<lparr>tw_visited := tw_visited w @ [''?p=2'']\<rparr>)"
  using assms by (simp add: tiny_result_def tiny_eval)

lemma tiny_third_page:
  "tiny_result (page_body (tiny_input m) slug startedAt 3 st rt w) (Some EmptyPage) st [] []
    (w\<lparr>tw_visited := tw_visited w @ [''?p=3'']\<rparr>)"
  by (simp add: tiny_result_def tiny_eval)

lemma tiny_known_page:
  assumes "full_speed (tiny_input m) rt" "tw_stored w = [''A'']" "tw_staged w = [''A'']"
  shows "tiny_result (page_body (tiny_input m) slug startedAt (Suc 0) st rt w) (Some AllDuplicate) st
    [Evidence (tiny_evidence ''A'' RawSkipped)] [AlreadyStaged] (w\<lparr>tw_visited := tw_visited w @ [[]]\<rparr>)"
  using assms by (simp add: tiny_result_def tiny_eval)

lemma tiny_resultE:
  assumes "tiny_result r stop st raws stagings w"
  obtains st' rt' c where "r = Some (Inr (stop, st', rt'), w\<lparr>tw_checkpoint := c\<rparr>)"
    "ls_rawStorage st' = ls_rawStorage st @ raws"
    "map sr_status (ls_staging st') = map sr_status (ls_staging st) @ stagings"
proof -
  obtain q w' where q: "r = Some (q, w')" using assms by (cases r) (auto simp: tiny_result_def)
  then obtain stop' st' rt' where "q = Inr (stop', st', rt')"
    using assms by (cases q) (auto simp: tiny_result_def)
  with assms q have r: "r = Some (Inr (stop, st', rt'), w')"
    and eqs: "ls_rawStorage st' = ls_rawStorage st @ raws"
      "map sr_status (ls_staging st') = map sr_status (ls_staging st) @ stagings"
      "w'\<lparr>tw_checkpoint := None\<rparr> = w\<lparr>tw_checkpoint := None\<rparr>"
    by (simp_all add: tiny_result_def)
  have "w' = (w'\<lparr>tw_checkpoint := None\<rparr>)\<lparr>tw_checkpoint := tw_checkpoint w'\<rparr>" by simp
  then have "w' = w\<lparr>tw_checkpoint := tw_checkpoint w'\<rparr>" unfolding eqs(3) by simp
  with r eqs(1,2) show thesis by (intro that [of st' rt' "tw_checkpoint w'"]) simp_all
qed

lemma page_loop_next:
  assumes "page_body input slug startedAt page st rt s = Some (Inr (stop, st', rt'), s')" "\<not> beyond_cap input page"
  shows "page_loop input slug startedAt page st rt s =
    (case stop of Some why \<Rightarrow> Some (Inr (why, st', rt'), s')
     | None \<Rightarrow> page_loop input slug startedAt (Suc page) st' rt' s')"
  using assms by (subst page_loop.simps) simp

subsection \<open>Two runs\<close>

lemma no_cap [simp]: "\<not> beyond_cap (tiny_input None) page"
  by (simp add: beyond_cap_def)

lemma tiny_start_state:
  "buildLoopState (tiny_input m) slug w =
     (Inr (case tw_checkpoint w of
        None \<Rightarrow> \<lparr>ls_report = emptyDiscoveryReport slug 0, ls_etag = None, ls_lastCompletedPage = 0,
          ls_pageTimestampsMs = [], ls_pages = [], ls_rawStorage = [], ls_reachedMaxPages = False, ls_staging = []\<rparr>
      | Some c \<Rightarrow>
          if ck_status c = CkComplete
          then \<lparr>ls_report = emptyDiscoveryReport slug 0, ls_etag = None, ls_lastCompletedPage = 0,
            ls_pageTimestampsMs = [], ls_pages = [], ls_rawStorage = [], ls_reachedMaxPages = False, ls_staging = []\<rparr>
          else \<lparr>ls_report = emptyDiscoveryReport slug 0, ls_etag = None,
            ls_lastCompletedPage = ck_lastCompletedPage c, ls_pageTimestampsMs = [], ls_pages = ck_pages c,
            ls_rawStorage = [], ls_reachedMaxPages = False, ls_staging = []\<rparr>), w)"
  by (simp add: buildLoopState_def resolveResumeState_def startFresh_def resumeFrom_def FIRST_PAGE_def
      split: option.split)

lemma tiny_complete:
  assumes "runPageLoop (tiny_input None) slug startedAt (st\<lparr>ls_report := emptyDiscoveryReport slug' 0\<rparr>) rt w
      = Some (Inr (why, st', rt'), w')" "why \<in> {EmptyPage, AllDuplicate}"
  shows "\<exists>c sm. ck_status c = CkComplete \<and> su_status sm = Some RunComplete \<and>
    su_rawStorage sm = ls_rawStorage st' \<and> su_staging sm = ls_staging st' \<and>
    (su_ok sm \<longleftrightarrow> list_all (\<lambda>r. result_status r \<in> {RawStored, RawSkipped}) (ls_rawStorage st') \<and>
       list_all (\<lambda>r. r \<in> {Staged, AlreadyStaged}) (map sr_status (ls_staging st'))) \<and>
    assembleResult (tiny_input None) st' slug startedAt w' =
      ((if su_ok sm then 0 else 2, sm), w'\<lparr>tw_checkpoint := Some c\<rparr>)"
proof -
  obtain st0 where loop: "page_loop (tiny_input None) slug startedAt
      (ls_lastCompletedPage (st\<lparr>ls_report := emptyDiscoveryReport slug' 0\<rparr>) + FIRST_PAGE)
      (st\<lparr>ls_report := emptyDiscoveryReport slug' 0\<rparr>) rt w = Some (Inr (why, st0, rt'), w')"
    and st': "st' = st0\<lparr>ls_reachedMaxPages := (why = Cap)\<rparr>"
    using assms(1) [unfolded runPageLoop_Inr] by auto
  have ok: "dr_ok (ls_report st')"
    using page_loop_ok [OF loop] assms(2) by (auto simp: st' emptyDiscoveryReport_def)
  have status: "run_status_of st' = RunComplete"
    using ok assms(2) by (auto simp: run_status_of_def deriveRunStatus_def deriveDiscoveredLastPage_def st')
  define sm where "sm = summary_of (tiny_input None) st' startedAt (toISOString 0)"
  have sm: "su_status sm = Some RunComplete" "su_rawStorage sm = ls_rawStorage st'" "su_staging sm = ls_staging st'"
    "su_ok sm \<longleftrightarrow> list_all (\<lambda>r. result_status r \<in> {RawStored, RawSkipped}) (ls_rawStorage st') \<and>
       list_all (\<lambda>r. r \<in> {Staged, AlreadyStaged}) (map sr_status (ls_staging st'))"
    using ok by (auto simp: sm_def summary_of_def status base_summary_def Let_def collect_empty_iff list.pred_map comp_def)
  then have code: "summary_exit_code sm = (if su_ok sm then 0 else 2)"
    by (simp add: summary_exit_code_def runExitCode_def)
  define c where "c = fst (buildCheckpoint (tiny_input None) (Some (deriveDiscoveredLastPage st'))
    (ls_lastCompletedPage st') (ls_pages st') slug startedAt CkComplete w')"
  have c: "ck_status c = CkComplete"
    "writeFinalCheckpoint (tiny_input None) st' (deriveDiscoveredLastPage st') slug startedAt w'
      = w'\<lparr>tw_checkpoint := Some c\<rparr>"
    by (simp_all add: c_def writeFinalCheckpoint_def buildCheckpoint_def)
  have "assembleResult (tiny_input None) st' slug startedAt w' =
      ((if su_ok sm then 0 else 2, sm), w'\<lparr>tw_checkpoint := Some c\<rparr>)"
    using code c(2) status by (simp add: assembleResult_def sm_def [symmetric] writeEvidence_def Let_def split: option.split)
  with sm c(1) show ?thesis by blast
qed

definition tiny_fresh :: loop_state where
  "tiny_fresh = \<lparr>ls_report = emptyDiscoveryReport (run_slug tiny_source) 0, ls_etag = None,
     ls_lastCompletedPage = 0, ls_pageTimestampsMs = [], ls_pages = [], ls_rawStorage = [],
     ls_reachedMaxPages = False, ls_staging = []\<rparr>"

lemma tiny_fresh_report: "tiny_fresh\<lparr>ls_report := emptyDiscoveryReport (run_slug tiny_source) 0\<rparr> = tiny_fresh"
  by (simp add: tiny_fresh_def)

lemma tiny_run:
  assumes "case tw_checkpoint w of None \<Rightarrow> True | Some c \<Rightarrow> ck_status c = CkComplete"
    and loop: "page_loop (tiny_input None) (run_slug tiny_source) (toISOString 0) (Suc 0) tiny_fresh
      (buildRunRuntime (tiny_input None)) w = Some (Inr (why, st', rt'), w')"
    and why: "why \<in> {EmptyPage, AllDuplicate}"
  shows "\<exists>c sm. ck_status c = CkComplete \<and> su_status sm = Some RunComplete \<and>
    (su_ok sm \<longleftrightarrow> list_all (\<lambda>r. result_status r \<in> {RawStored, RawSkipped}) (ls_rawStorage st') \<and>
       list_all (\<lambda>r. r \<in> {Staged, AlreadyStaged}) (map sr_status (ls_staging st'))) \<and>
    runOnce (tiny_input None) w = Some (Inr (if su_ok sm then 0 else 2, sm), w'\<lparr>tw_checkpoint := Some c\<rparr>)"
proof -
  have start: "buildLoopState (tiny_input None) (run_slug tiny_source) w = (Inr tiny_fresh, w)"
    using assms(1) by (auto simp: tiny_start_state tiny_fresh_def split: option.splits)
  have run: "runPageLoop (tiny_input None) (run_slug tiny_source) (toISOString 0) tiny_fresh
      (buildRunRuntime (tiny_input None)) w
      = Some (Inr (why, st'\<lparr>ls_reachedMaxPages := (why = Cap)\<rparr>, rt'), w')"
    using loop by (simp add: runPageLoop_def tiny_fresh_def FIRST_PAGE_def)
  let ?st = "st'\<lparr>ls_reachedMaxPages := (why = Cap)\<rparr>"
  from tiny_complete [where st = tiny_fresh and slug' = "run_slug tiny_source", unfolded tiny_fresh_report, OF run why]
  obtain c sm where result: "ck_status c = CkComplete" "su_status sm = Some RunComplete"
    "su_ok sm \<longleftrightarrow> list_all (\<lambda>r. result_status r \<in> {RawStored, RawSkipped}) (ls_rawStorage ?st) \<and>
       list_all (\<lambda>r. r \<in> {Staged, AlreadyStaged}) (map sr_status (ls_staging ?st))"
    and assembled: "assembleResult (tiny_input None) ?st (run_slug tiny_source) (toISOString 0) w'
      = ((if su_ok sm then 0 else 2, sm), w'\<lparr>tw_checkpoint := Some c\<rparr>)"
    by blast
  have "runOnce (tiny_input None) w = Some (Inr (if su_ok sm then 0 else 2, sm), w'\<lparr>tw_checkpoint := Some c\<rparr>)"
    using start run assembled by (simp add: runOnce_def)
  with result show ?thesis by (intro exI [of _ c] exI [of _ sm]) simp
qed

lemma tiny_first_run:
  "\<exists>c sm. ck_status c = CkComplete \<and> su_status sm = Some RunComplete \<and>
     runOnce (tiny_input None) tiny_start = Some (Inr (2, sm),
       \<lparr>tw_checkpoint = Some c, tw_stored = [''A''], tw_staged = [''A''],
        tw_visited = [[], ''?p=2'', ''?p=3''], tw_down = True\<rparr>)"
proof -
  let ?i = "tiny_input None" and ?slug = "run_slug tiny_source" and ?at = "toISOString 0"
  let ?rt = "buildRunRuntime ?i"
  obtain st1 rt1 c1 where p1: "page_body ?i ?slug ?at (Suc 0) tiny_fresh ?rt tiny_start
      = Some (Inr (None, st1, rt1), tiny_start\<lparr>tw_stored := [''A''], tw_staged := [''A''], tw_visited := [[]], tw_checkpoint := c1\<rparr>)"
    and raw1: "ls_rawStorage st1 = [Evidence (tiny_evidence ''A'' RawStored)]"
    and stg1: "map sr_status (ls_staging st1) = [Staged]"
    using tiny_first_page [of None ?rt tiny_start ?slug ?at tiny_fresh] full_speed_start [of ?i]
    by (auto simp: tiny_start_def tiny_fresh_def elim: tiny_resultE)
  let ?w1 = "tiny_start\<lparr>tw_stored := [''A''], tw_staged := [''A''], tw_visited := [[]], tw_checkpoint := c1\<rparr>"
  have speed: "full_speed ?i rt1"
    using page_body_speed [OF p1] full_speed_start [of ?i] by simp
  obtain f st2 rt2 c2 where p2: "page_body ?i ?slug ?at 2 st1 rt1 ?w1
      = Some (Inr (None, st2, rt2), ?w1\<lparr>tw_visited := [[], ''?p=2''], tw_checkpoint := c2\<rparr>)"
    and raw2: "ls_rawStorage st2 = [Evidence (tiny_evidence ''A'' RawStored), FetchFailed f]"
    and stg2: "map sr_status (ls_staging st2) = [Staged, NotStageable]"
    using tiny_second_page [OF speed, of ?w1 ?slug ?at st1] raw1 stg1
    by (auto simp: tiny_start_def elim: tiny_resultE)
  let ?w2 = "?w1\<lparr>tw_visited := [[], ''?p=2''], tw_checkpoint := c2\<rparr>"
  obtain st3 rt3 c3 where p3: "page_body ?i ?slug ?at 3 st2 rt2 ?w2
      = Some (Inr (Some EmptyPage, st3, rt3), ?w2\<lparr>tw_visited := [[], ''?p=2'', ''?p=3''], tw_checkpoint := c3\<rparr>)"
    and raw3: "ls_rawStorage st3 = [Evidence (tiny_evidence ''A'' RawStored), FetchFailed f]"
    using tiny_third_page [of None ?slug ?at st2 rt2 ?w2] raw2
    by (auto elim: tiny_resultE)
  have "page_loop ?i ?slug ?at (Suc 0) tiny_fresh ?rt tiny_start
      = Some (Inr (EmptyPage, st3, rt3), ?w2\<lparr>tw_visited := [[], ''?p=2'', ''?p=3''], tw_checkpoint := c3\<rparr>)"
    using page_loop_next [OF p1] page_loop_next [OF p2] page_loop_next [OF p3]
    by (simp add: numeral_2_eq_2 numeral_3_eq_3)
  from tiny_run [OF _ this] obtain c sm where "ck_status c = CkComplete" "su_status sm = Some RunComplete"
    "\<not> su_ok sm" "runOnce ?i tiny_start = Some (Inr (if su_ok sm then 0 else 2, sm),
       ?w2\<lparr>tw_visited := [[], ''?p=2'', ''?p=3''], tw_checkpoint := Some c\<rparr>)"
    by (auto simp: raw3 result_status_def tiny_start_def)
  then show ?thesis by (auto simp: tiny_start_def)
qed

text \<open>
  A replay that failed can be forgotten. The first run stores page 1, fails to fetch the
  replay of page 2, reports exit code 2 and is \<open>complete\<close> at the empty page 3. In the next run, with
  the source healthy again, page 1 brings nothing new, so the run stops there and exits with 0:
  page 2 is not read, and its replay is in neither store, in this run or any later one.
\<close>

theorem failed_replay_forgotten:
  "case runOnce (tiny_input None) tiny_start of
     Some (Inr (code1, sm1), w1) \<Rightarrow>
       (case runOnce (tiny_input None) (w1\<lparr>tw_down := False\<rparr>) of
          Some (Inr (code2, sm2), w2) \<Rightarrow>
            (code1, su_status sm1) = (2, Some RunComplete) \<and> (code2, su_status sm2) = (0, Some RunComplete) \<and>
            tw_visited w1 = [[], ''?p=2'', ''?p=3''] \<and> tw_visited w2 = [[], ''?p=2'', ''?p=3'', []] \<and>
            tw_stored w2 = [''A''] \<and> tw_staged w2 = [''A'']
        | _ \<Rightarrow> False)
   | _ \<Rightarrow> False"
proof -
  let ?i = "tiny_input None" and ?slug = "run_slug tiny_source" and ?at = "toISOString 0"
  obtain c sm where c: "ck_status c = CkComplete" "su_status sm = Some RunComplete"
    and run1: "runOnce ?i tiny_start = Some (Inr (2, sm), \<lparr>tw_checkpoint = Some c, tw_stored = [''A''],
      tw_staged = [''A''], tw_visited = [[], ''?p=2'', ''?p=3''], tw_down = True\<rparr>)"
    using tiny_first_run by blast
  let ?w = "\<lparr>tw_checkpoint = Some c, tw_stored = [''A''], tw_staged = [''A''],
    tw_visited = [[], ''?p=2'', ''?p=3''], tw_down = False\<rparr>"
  obtain st rt c' where body: "page_body ?i ?slug ?at (Suc 0) tiny_fresh (buildRunRuntime ?i) ?w
      = Some (Inr (Some AllDuplicate, st, rt), ?w\<lparr>tw_visited := [[], ''?p=2'', ''?p=3'', []], tw_checkpoint := c'\<rparr>)"
    and raw: "ls_rawStorage st = [Evidence (tiny_evidence ''A'' RawSkipped)]"
    and stg: "map sr_status (ls_staging st) = [AlreadyStaged]"
    using tiny_known_page [of None "buildRunRuntime ?i" ?w ?slug ?at tiny_fresh] full_speed_start [of ?i]
    by (auto simp: tiny_fresh_def elim: tiny_resultE)
  have "page_loop ?i ?slug ?at (Suc 0) tiny_fresh (buildRunRuntime ?i) ?w
      = Some (Inr (AllDuplicate, st, rt), ?w\<lparr>tw_visited := [[], ''?p=2'', ''?p=3'', []], tw_checkpoint := c'\<rparr>)"
    using page_loop_next [OF body] by simp
  from tiny_run [OF _ this] c(1) obtain c2 sm2 where "su_status sm2 = Some RunComplete"
    "runOnce ?i ?w = Some (Inr (0, sm2), ?w\<lparr>tw_visited := [[], ''?p=2'', ''?p=3'', []], tw_checkpoint := Some c2\<rparr>)"
    by (auto simp: raw stg result_status_def tiny_evidence_def)
  with c run1 show ?thesis by simp
qed

subsection \<open>The hypotheses of the results about runs\<close>

lemma tiny_later_page:
  assumes "3 \<le> page"
  shows "ends_run (fst (tiny_discover (toPageUrl tiny_source page) w))"
proof -
  have "map_of (searchParams (toPageUrl tiny_source page)) ''p'' = Some (show_nat page)"
    using assms by (simp add: toPageUrl_param)
  moreover have "map_of (parse_params []) ''p'' = None" "map_of (parse_params ''p=2'') ''p'' = Some (show_nat 2)"
    by code_simp+
  ultimately have "url_search (toPageUrl tiny_source page) \<noteq> []" "url_search (toPageUrl tiny_source page) \<noteq> ''?p=2''"
    using assms by (auto simp: searchParams_def)
  then show ?thesis by (simp add: tiny_discover_def ends_run_def buildReport_def Let_def)
qed

lemma runOnce_returns_witness: "runOnce (tiny_input None) tiny_start \<noteq> None"
  by (rule runOnce_returns [where P = 3, OF tiny_in_turn]) (simp_all add: tiny_later_page)



end
