(* ===== verification/Run_Resume.thy ===== *)
theory Run_Resume
  imports Run_Results
begin

text \<open>
  What a run leaves for the next one to resume from. The contract between a run and its checkpoint
  store is the locale \<open>resumable_store\<close>: what is read is what is stored, and a write, whether it succeeds or fails
  half-way, moves the page at which the next run would start no further than the checkpoint that was
  to be written says. \<open>resuming_run\<close> adds that nothing else a run does touches the stored checkpoint.
  The store of \<open>Checkpoint_Store\<close> over a bucket with conditional requests provides the first, and
  a run over that bucket and any other surroundings the second.
\<close>

subsection \<open>Where the next run starts\<close>

definition next_start :: "checkpoint option \<Rightarrow> nat" where
  "next_start stored = (case stored of None \<Rightarrow> 1
     | Some c \<Rightarrow> if ck_status c = CkComplete then 1 else ck_lastCompletedPage c + 1)"

definition distinct_pages :: "checkpoint \<Rightarrow> bool" where
  "distinct_pages c \<longleftrightarrow> distinct (map fst (ck_pages c))"

lemma next_start_progress:
  "progress a = progress b \<Longrightarrow> next_start (Some a) = next_start (Some b)"
  by (simp add: progress_def next_start_def)

lemma next_start_merge:
  "next_start (Some (mergeCheckpoints a b)) \<le> max (next_start (Some a)) (next_start (Some b))"
proof -
  have "progress (mergeCheckpoints a b) = progress a \<or> progress (mergeCheckpoints a b) = progress b"
    by (simp add: progress_merge max_def)
  then show ?thesis using next_start_progress by (metis max.cobounded1 max.cobounded2)
qed

locale resumable_store =
  fixes read :: "string \<Rightarrow> 's \<Rightarrow> (thrown + read_result) \<times> 's"
    and write_op :: "checkpoint \<Rightarrow> string option \<Rightarrow> string \<Rightarrow> 's \<Rightarrow> (thrown + string option) \<times> 's"
    and stored :: "'s \<Rightarrow> checkpoint option"
    and slug :: string
  assumes read_shows: "read slug s = (Inr rd, s') \<Longrightarrow> rd_checkpoint rd = stored s \<and> stored s' = stored s"
    and stored_distinct: "stored s = Some c \<Longrightarrow> distinct_pages c"
    and write_bound: "distinct_pages c \<Longrightarrow>
      next_start (stored (snd (write_op c etag slug s))) \<le> max (next_start (stored s)) (next_start (Some c))"

text \<open>A part of the state that nothing but the checkpoint store and discovery touches.\<close>

locale run_view =
  fixes input :: "'s run_input" and view :: "'s \<Rightarrow> 'v"
  assumes clock_keeps: "view (snd (rx_now input s)) = view s" "view (snd (rx_wall input s)) = view s"
    and log_keeps: "view (rx_log input ev s) = view s"
    and sleep_keeps: "view (rx_sleep input d s) = view s"
    and store_keeps: "view (snd (rx_store input c s)) = view s"
    and stage_keeps: "view (snd (rx_stage input i r s)) = view s"
    and evidence_keeps:
      "rx_evidenceStore input = Some w \<Longrightarrow> view (snd (w path sm s)) = view s"
      "rx_writeEvidenceFile input = Some w \<Longrightarrow> view (snd (w path sm s)) = view s"
begin

lemma clock_eqs:
  "rx_now input s = (t, s') \<Longrightarrow> view s' = view s" "rx_wall input s = (t, s') \<Longrightarrow> view s' = view s"
  using clock_keeps [of s] by simp_all

lemma ingest_keeps:
  "ingestPage (run_calls input) limit cs s sched = Some (r, s') \<Longrightarrow> view s' = view s"
  using page_run_keeps [of "\<lambda>w. view w = view s" "run_calls input" s limit cs sched]
    store_keeps stage_keeps
  by (auto simp: ingestPage_def Let_def run_calls_def split: if_splits)

lemma throttle_keeps: "applyRateLimitThrottle input rep rt s = (rt', s') \<Longrightarrow> view s' = view s"
  by (auto simp: applyRateLimitThrottle_def Let_def clock_eqs split: option.splits if_splits prod.splits)

lemma failure_event_keeps: "view (emitPageFailureEvent input page rep s) = view s"
  by (simp add: emitPageFailureEvent_def log_keeps split: option.split)

lemma wait_keeps: "pacer_wait input rt s = (rt', s') \<Longrightarrow> view s' = view s"
  by (auto simp: pacer_wait_def Let_def clock_eqs sleep_keeps split: prod.splits if_splits)

lemma logged_keeps: "view (logged_write input q) = view (snd q)"
  by (cases q) (simp add: logged_write_def log_keeps split: sum.split)

lemma writeEvidence_keeps: "view (writeEvidence input sm s) = view s"
  by (auto simp: writeEvidence_def Let_def logged_keeps evidence_keeps split: option.split)

lemma built_keeps: "buildCheckpoint input found completed pages slug startedAt status s = (c, s') \<Longrightarrow> view s' = view s"
  by (auto simp: buildCheckpoint_def clock_eqs split: prod.splits)

end

locale resuming_run = resumable_store "rx_read input" "rx_write input" stored "run_slug (rx_sourceUrl input)" +
    run_view input stored for input :: "'s run_input" and stored :: "'s \<Rightarrow> checkpoint option" +
  assumes discover_keeps: "stored (snd (rx_discover input u s)) = stored s"
begin

definition behind :: "loop_state \<Rightarrow> 's \<Rightarrow> bool" where
  "behind st s \<longleftrightarrow> next_start (stored s) \<le> ls_lastCompletedPage st + 1 \<and> distinct (map fst (ls_pages st))"

lemma checkpoint_write_bound:
  assumes "buildCheckpoint input found completed pages slug startedAt status s = (c, s1)"
    and "distinct (map fst pages)" "next_start (stored s) \<le> completed + 1"
    and "slug = run_slug (rx_sourceUrl input)"
  shows "next_start (stored (snd (rx_write input c etag slug s1))) \<le> completed + 1"
proof -
  have c: "ck_pages c = pages" "ck_lastCompletedPage c = completed" "stored s1 = stored s"
    using assms(1) by (auto simp: buildCheckpoint_def clock_eqs split: prod.splits)
  then have "distinct_pages c" using assms(2) by (simp add: distinct_pages_def)
  from write_bound [OF this, of etag s1] c assms(3,4) show ?thesis
    by (auto simp: next_start_def split: if_splits)
qed

lemma page_checkpoint_bound:
  assumes "writePageCheckpoint input etag completed pages (run_slug (rx_sourceUrl input)) startedAt s = (e, s')"
    and "distinct (map fst pages)" "next_start (stored s) \<le> completed + 1"
  shows "next_start (stored s') \<le> completed + 1"
proof -
  obtain c s1 where c: "buildCheckpoint input None completed pages (run_slug (rx_sourceUrl input)) startedAt CkRunning s = (c, s1)"
    by fastforce
  from checkpoint_write_bound [OF c assms(2,3) refl, of etag] assms(1) show ?thesis
    by (auto simp: writePageCheckpoint_def c log_keeps split: prod.splits sum.splits)
qed

lemma completeOkPage_behind:
  assumes run: "completeOkPage input (run_slug (rx_sourceUrl input)) startedAt page cs st rt s
      = Some (Inr (etag, counts, st1, rt1), s1)"
    and "next_start (stored s) \<le> page + 1" "distinct (map fst (ls_pages st))"
  shows "next_start (stored s1) \<le> page + 1 \<and> distinct (map fst (ls_pages st1))"
proof -
  obtain t s2 where now: "rx_now input s = (t, s2)" by fastforce
  from run obtain limit r s3 t2 s4 where
    ingest: "ingestPage (run_calls input) limit cs s2 (rx_schedule input page (length cs)) = Some (Inr r, s3)"
    and now2: "rx_now input s3 = (t2, s4)"
    and wr: "writePageCheckpoint input (ls_etag st) page (ls_pages st1) (run_slug (rx_sourceUrl input)) startedAt
      (emitPageRateLine input page (ls_pageTimestampsMs st1) counts s4) = (etag, s1)"
    and pages: "ls_pages st1 = AList.update (show_nat page) \<lparr>cp_counts = counts, cp_status = ''running''\<rparr> (ls_pages st)"
    by (auto simp: completeOkPage_def processPage_def now Let_def split: option.splits sum.splits prod.splits)
  have "stored (emitPageRateLine input page (ls_pageTimestampsMs st1) counts s4) = stored s"
    using clock_eqs(1) [OF now] clock_eqs(1) [OF now2] ingest_keeps [OF ingest]
    by (simp add: emitPageRateLine_def log_keeps)
  moreover have d: "distinct (map fst (ls_pages st1))" using assms(3) by (simp add: pages distinct_update)
  ultimately show ?thesis
    using page_checkpoint_bound [OF wr d] assms(2) by simp
qed

lemma page_body_behind:
  assumes body: "page_body input (run_slug (rx_sourceUrl input)) startedAt page st rt s = Some (Inr (stop, st1, rt1), s1)"
    and "behind st s" "page = Suc (ls_lastCompletedPage st)"
  shows "behind st1 s1"
proof -
  obtain rt0 s0 where w: "pacer_wait input rt s = (rt0, s0)" by fastforce
  obtain d s2 where d: "rx_discover input (toPageUrl (rx_sourceUrl input) page) s0 = (d, s2)" by fastforce
  have s2: "stored s2 = stored s"
    using wait_keeps [OF w] discover_keeps [of "toPageUrl (rx_sourceUrl input) page" s0] d by simp
  obtain rep where rep: "d = Inr rep" using body w d by (cases d) (simp_all add: page_body_def)
  let ?st = "st\<lparr>ls_report := appendDiscoveryReport (ls_report st) rep\<rparr>"
  consider (failed) "\<not> dr_ok rep" | (empty) "dr_ok rep" "dr_candidates rep = []" | (full) "dr_ok rep" "dr_candidates rep \<noteq> []"
    by blast
  then show ?thesis
  proof cases
    case failed
    with body w d rep s2 assms(2) show ?thesis
      by (auto simp: page_body_def Let_def behind_def failure_event_keeps throttle_keeps split: prod.splits)
  next
    case empty
    with body w d rep s2 assms(2) show ?thesis by (auto simp: page_body_def Let_def behind_def)
  next
    case full
    with body w d rep obtain etag counts st2 where
      c: "completeOkPage input (run_slug (rx_sourceUrl input)) startedAt page (dr_candidates rep) ?st rt0 s2
        = Some (Inr (etag, counts, st2, rt1), s1)"
      and st1: "st1 = st2\<lparr>ls_etag := etag, ls_lastCompletedPage := page\<rparr>"
      by (auto simp: page_body_def Let_def split: option.splits sum.splits prod.splits)
    from completeOkPage_behind [OF c] s2 assms(2,3) show ?thesis
      by (simp add: behind_def st1)
  qed
qed

lemma page_loop_behind:
  assumes "page_loop input (run_slug (rx_sourceUrl input)) startedAt (Suc (ls_lastCompletedPage st)) st rt s
      = Some (Inr (why, st', rt'), s')" "behind st s"
  shows "behind st' s'"
proof (rule page_loop_rule [where I = "\<lambda>page st rt s. page = Suc (ls_lastCompletedPage st) \<and> behind st s"
      and Q = "\<lambda>why st rt s. behind st s", OF assms(1)])
  fix page st rt s st1 rt1 s1
  assume I: "page = Suc (ls_lastCompletedPage st) \<and> behind st s"
    and body: "page_body input (run_slug (rx_sourceUrl input)) startedAt page st rt s = Some (Inr (None, st1, rt1), s1)"
  show "Suc page = Suc (ls_lastCompletedPage st1) \<and> behind st1 s1"
    using page_body_behind [OF body] page_body_Inr [OF body] I by (simp add: page_kept_def)
next
  fix page st rt s why st1 rt1 s1
  assume I: "page = Suc (ls_lastCompletedPage st) \<and> behind st s"
    and body: "page_body input (run_slug (rx_sourceUrl input)) startedAt page st rt s = Some (Inr (Some why, st1, rt1), s1)"
  then show "behind st1 s1" using page_body_behind [OF body] by simp
qed (use assms(2) in simp_all)

lemma start_exact:
  assumes "buildLoopState input (run_slug (rx_sourceUrl input)) s = (Inr st, s')"
  shows "stored s' = stored s" "ls_lastCompletedPage st + 1 = next_start (stored s)" "distinct (map fst (ls_pages st))"
proof -
  obtain r s1 where r: "resolveResumeState input (run_slug (rx_sourceUrl input)) s = (Inr r, s1)"
    and st: "ls_lastCompletedPage st = rm_startPage r - 1" "ls_pages st = rm_pages r" "stored s' = stored s1"
    using assms by (auto simp: buildLoopState_def FIRST_PAGE_def clock_eqs split: prod.splits sum.splits)
  obtain rd s2 where rd: "rx_read input (run_slug (rx_sourceUrl input)) s = (Inr rd, s2)"
    using r by (auto simp: resolveResumeState_def split: prod.splits sum.splits)
  have kept: "rd_checkpoint rd = stored s" "stored s2 = stored s" "stored s1 = stored s"
    using read_shows [OF rd] r
    by (auto simp: resolveResumeState_def rd log_keeps split: option.splits if_splits)
  have start: "rm_startPage r = next_start (stored s) \<and> distinct (map fst (rm_pages r))"
    using r stored_distinct [of s]
    by (auto simp: resolveResumeState_def rd kept(1) next_start_def startFresh_def resumeFrom_def FIRST_PAGE_def
        distinct_pages_def split: option.splits if_splits)
  have "1 \<le> next_start (stored s)" by (simp add: next_start_def split: option.split)
  with st kept start show "stored s' = stored s" "ls_lastCompletedPage st + 1 = next_start (stored s)"
    "distinct (map fst (ls_pages st))" by simp_all
qed

lemma start_behind:
  "buildLoopState input (run_slug (rx_sourceUrl input)) s = (Inr st, s') \<Longrightarrow> behind st s'"
  using start_exact by (simp add: behind_def)

lemma assemble_behind:
  assumes "assembleResult input st (run_slug (rx_sourceUrl input)) startedAt s = (r, s')" "behind st s"
  shows "behind st s'"
proof -
  let ?slug = "run_slug (rx_sourceUrl input)"
  have final: "behind st (writeFinalCheckpoint input st found ?slug startedAt s)" for found
  proof -
    obtain c s1 where c: "buildCheckpoint input (Some found) (ls_lastCompletedPage st) (ls_pages st) ?slug startedAt CkComplete s = (c, s1)"
      by fastforce
    from checkpoint_write_bound [OF c _ _ refl, of "ls_etag st"] assms(2) show ?thesis
      by (auto simp: writeFinalCheckpoint_def c behind_def log_keeps split: prod.splits sum.splits)
  qed
  define s1 where "s1 = (if run_status_of st = RunComplete
      then writeFinalCheckpoint input st (deriveDiscoveredLastPage st) ?slug startedAt s else s)"
  obtain t s2 where now: "rx_now input s1 = (t, s2)" by fastforce
  have "stored s' = stored s1"
    using assms(1) clock_eqs(1) [OF now]
    by (auto simp: assembleResult_def Let_def s1_def [symmetric] now writeEvidence_keeps log_keeps)
  moreover have "behind st s1" using final assms(2) by (simp add: s1_def)
  ultimately show ?thesis by (simp add: behind_def)
qed

lemma run_start_bound:
  assumes "runOnce input s = Some (Inr (code, sm), s')"
  shows "next_start (stored s') \<le> (case su_discoveredRange sm of None \<Rightarrow> 1 | Some r \<Rightarrow> rg_lastPage r + 1)"
proof -
  let ?slug = "run_slug (rx_sourceUrl input)"
  obtain t s1 where now: "rx_now input s = (t, s1)" by fastforce
  from assms obtain st s2 where start: "buildLoopState input ?slug (rx_log input (RunStart (rx_runId input) ?slug) s1) = (Inr st, s2)"
    by (auto simp: runOnce_def Let_def now split: prod.splits sum.splits option.splits)
  from assms obtain why st' rt' s3 where loop: "runPageLoop input ?slug (toISOString t) st (buildRunRuntime input) s2
      = Some (Inr (why, st', rt'), s3)"
    and result: "assembleResult input st' ?slug (toISOString t) s3 = ((code, sm), s')"
    by (auto simp: runOnce_def Let_def now start split: prod.splits sum.splits option.splits)
  from loop obtain st0 where inner: "page_loop input ?slug (toISOString t) (Suc (ls_lastCompletedPage st)) st (buildRunRuntime input) s2
      = Some (Inr (why, st0, rt'), s3)" and st': "st' = st0\<lparr>ls_reachedMaxPages := (why = Cap)\<rparr>"
    unfolding runPageLoop_Inr by (auto simp: FIRST_PAGE_def)
  have "behind st' s3" using page_loop_behind [OF inner start_behind [OF start]] by (simp add: behind_def st')
  from assemble_behind [OF result this] have "next_start (stored s') \<le> ls_lastCompletedPage st' + 1"
    by (simp add: behind_def)
  moreover have "su_discoveredRange sm = discoveredRangeOption (ls_lastCompletedPage st')"
    using result by (auto simp: assembleResult_def Let_def summary_of_def split: prod.splits)
  ultimately show ?thesis by (simp add: discoveredRangeOption_def FIRST_PAGE_def split: if_splits)
qed

end

subsection \<open>The store over a bucket\<close>

text \<open>
  A bucket with S3's conditional requests and nobody else writing: the bodies by key, the ETag of an
  object standing for its body.
\<close>

type_synonym bucket = "string \<Rightarrow> string option"

definition bucket_get :: "string \<Rightarrow> bucket \<Rightarrow> (s3_error + get_output) \<times> bucket" where
  "bucket_get key b = (case b key of
       None \<Rightarrow> (Inl (S3Service ''NotFound'' (Some 404)), b)
     | Some body \<Rightarrow> (Inr \<lparr>go_Body = Some (Inr body), go_ETag = Some body\<rparr>, b))"

definition bucket_put :: "string \<Rightarrow> string \<Rightarrow> write_condition \<Rightarrow> bucket \<Rightarrow> (s3_error + string option) \<times> bucket" where
  "bucket_put key body cond b =
     (if condition_met cond (map_option (\<lambda>x. (x, x)) (b key)) then (Inr (Some body), b(key \<mapsto> body))
      else (Inl (S3Service ''PreconditionFailed'' (Some 412)), b))"

definition bucket_sender :: "bucket sender" where
  "bucket_sender = \<lparr>snd_get = bucket_get, snd_put = bucket_put, snd_delay = (\<lambda>_ b. b)\<rparr>"

definition stored_in :: "(string \<Rightarrow> url option) \<Rightarrow> store_options \<Rightarrow> string \<Rightarrow> bucket \<Rightarrow> checkpoint option" where
  "stored_in parse_url options slug b = (case object_key parse_url options slug of
       Inl _ \<Rightarrow> None
     | Inr key \<Rightarrow> Option.bind (b key) parseCheckpoint)"

lemma bucket_read:
  "readCheckpoint parse_url bucket_sender options slug b = (Inr rd, b') \<Longrightarrow>
     rd_checkpoint rd = stored_in parse_url options slug b \<and> b' = b"
  by (auto simp: readCheckpoint_def bucket_sender_def bucket_get_def stored_in_def no_result_def isNotFound_def
      split: sum.splits option.splits)

lemma parse_checkpoint_text:
  assumes "distinct_pages c" "parseCheckpoint (checkpoint_text c) = Some c'"
  shows "progress c' = progress c"
proof -
  have "json_parse [] = None" by code_simp
  with assms(2) obtain t where t: "stringify (json_of_checkpoint c) = Some t"
    by (cases "stringify (json_of_checkpoint c)") (auto simp: checkpoint_text_def parseCheckpoint_def)
  have "distinct_keys (json_of_checkpoint c)"
    using assms(1) by (simp add: distinct_pages_def distinct_keys_checkpoint)
  from json_parse_stringify [OF t this] assms(2) t have "checkpointSchema (json_of_checkpoint c) = Some c'"
    by (simp add: checkpoint_text_def parseCheckpoint_def)
  then show ?thesis
    by (auto simp: checkpointSchema_def json_of_checkpoint_def json_simps progress_def opt_member_def
        split: bind_splits if_splits option.splits)
qed

lemma parsed_distinct: "parseCheckpoint t = Some c \<Longrightarrow> distinct_pages c"
  using parseCheckpoint_wf [of t c] by (simp add: wf_checkpoint_def distinct_pages_def)

lemma merge_distinct: "distinct_pages a \<Longrightarrow> distinct_pages b \<Longrightarrow> distinct_pages (mergeCheckpoints a b)"
  using wf_pages_merge [of "ck_pages a" "\<lambda>_. True" "ck_pages b"]
  by (auto simp: distinct_pages_def mergeCheckpoints_def Let_def spread_pages_def list_all_iff)

lemma stored_in_distinct: "stored_in parse_url options slug b = Some c \<Longrightarrow> distinct_pages c"
  by (auto simp: stored_in_def bind_eq_Some_conv intro: parsed_distinct split: sum.splits)

lemma put_bound:
  assumes "distinct_pages c"
    and "putCheckpoint parse_url bucket_sender options c etag slug b = (r, b')"
  shows "next_start (stored_in parse_url options slug b')
    \<le> max (next_start (stored_in parse_url options slug b)) (next_start (Some c))"
proof (cases "object_key parse_url options slug")
  case (Inr key)
  have "next_start (parseCheckpoint (checkpoint_text c)) \<le> next_start (Some c)"
  proof (cases "parseCheckpoint (checkpoint_text c)")
    case (Some c')
    with next_start_progress [OF parse_checkpoint_text [OF assms(1) this]] show ?thesis by simp
  qed (simp add: next_start_def)
  with assms(2) Inr show ?thesis
    by (auto simp: putCheckpoint_def bucket_sender_def bucket_put_def stored_in_def
        split: if_splits)
qed (use assms(2) in \<open>simp add: putCheckpoint_def\<close>)

lemma write_rounds_bound:
  assumes "distinct_pages c"
    and "write_rounds parse_url bucket_sender options random slug n c etag b = (r, b')"
  shows "next_start (stored_in parse_url options slug b')
    \<le> max (next_start (stored_in parse_url options slug b)) (next_start (Some c))"
  using assms
proof (induction n arbitrary: c etag b)
  case (Suc n)
  let ?stored = "stored_in parse_url options slug"
  obtain p b1 where put: "putCheckpoint parse_url bucket_sender options c etag slug b = (p, b1)" by fastforce
  note bound = put_bound [OF Suc.prems(1) put]
  have delay: "snd_delay bucket_sender d b1 = b1" for d by (simp add: bucket_sender_def)
  show ?case
  proof (cases "(\<exists>e. p = Inl e \<and> isPreconditionFailed e)")
    case False
    with Suc.prems(2) put bound show ?thesis by (auto split: sum.splits if_splits)
  next
    case True
    then obtain e where e: "p = Inl e" "isPreconditionFailed e" by blast
    obtain q b2 where rd: "readCheckpoint parse_url bucket_sender options slug b1 = (q, b2)" by fastforce
    have b2: "b2 = b1"
      using rd by (auto simp: readCheckpoint_def bucket_sender_def bucket_get_def split: sum.splits option.splits)
    show ?thesis
    proof (cases q)
      case (Inl e')
      with Suc.prems(2) put e rd b2 bound show ?thesis by (simp add: delay Let_def)
    next
      case (Inr fresh)
      let ?c = "case rd_checkpoint fresh of Some remote \<Rightarrow> mergeCheckpoints c remote | None \<Rightarrow> c"
      have fresh: "rd_checkpoint fresh = ?stored b1" using bucket_read rd Inr by blast
      have d: "distinct_pages ?c"
        using Suc.prems(1) merge_distinct [OF Suc.prems(1) stored_in_distinct] fresh
        by (simp split: option.split)
      have le: "next_start (Some ?c) \<le> max (next_start (?stored b1)) (next_start (Some c))"
        using next_start_merge [of c] fresh by (auto simp: max.commute split: option.split)
      from Suc.prems(2) put e rd Inr b2
      have "write_rounds parse_url bucket_sender options random slug n ?c (rd_etag fresh) b1 = (r, b')"
        by (simp add: delay Let_def)
      from Suc.IH [OF d this] le bound show ?thesis by linarith
    qed
  qed
qed simp

subsection \<open>A run over the bucket\<close>

definition store_thrown :: "store_error \<Rightarrow> thrown" where
  "store_thrown e = Error PlainError None
     (case e of CheckpointConflict attempts page slug \<Rightarrow> ''Checkpoint CAS conflict'' | _ \<Rightarrow> ''checkpoint store failed'')
     ''Error'' None None None"

definition on_bucket :: "(bucket \<Rightarrow> (store_error + 'r) \<times> bucket) \<Rightarrow> bucket \<times> 'w \<Rightarrow> (thrown + 'r) \<times> (bucket \<times> 'w)" where
  "on_bucket f s = (case f (fst s) of (r, b) \<Rightarrow> (map_sum store_thrown id r, (b, snd s)))"

text \<open>The run of an input, with its checkpoint operations replaced by those of the store.\<close>

definition over_bucket ::
    "(string \<Rightarrow> url option) \<Rightarrow> store_options \<Rightarrow> (nat \<Rightarrow> rat) \<Rightarrow> 'w run_input \<Rightarrow> (bucket \<times> 'w) run_input" where
  "over_bucket parse_url options random input =
     \<lparr>rx_concurrency = rx_concurrency input, rx_maxPages = rx_maxPages input,
      rx_requestSpacingMs = rx_requestSpacingMs input, rx_resume = rx_resume input,
      rx_runId = rx_runId input, rx_sourceUrl = rx_sourceUrl input,
      rx_now = beside (rx_now input), rx_wall = beside (rx_wall input),
      rx_sleep = (\<lambda>d s. (fst s, rx_sleep input d (snd s))),
      rx_log = (\<lambda>ev s. (fst s, rx_log input ev (snd s))),
      rx_read = (\<lambda>slug. on_bucket (readCheckpoint parse_url bucket_sender options slug)),
      rx_write = (\<lambda>c etag slug. on_bucket (writeCheckpoint parse_url bucket_sender options random c etag slug)),
      rx_discover = (\<lambda>u. beside (rx_discover input u)), rx_store = (\<lambda>c. beside (rx_store input c)),
      rx_stage = (\<lambda>i r. beside (rx_stage input i r)), rx_schedule = rx_schedule input,
      rx_emitEvidence = rx_emitEvidence input,
      rx_evidenceStore = map_option (\<lambda>w i sm. beside (w i sm)) (rx_evidenceStore input),
      rx_evidenceFile = rx_evidenceFile input,
      rx_writeEvidenceFile = map_option (\<lambda>w i sm. beside (w i sm)) (rx_writeEvidenceFile input)\<rparr>"

interpretation bucket_run: resuming_run "over_bucket parse_url options random input"
    "\<lambda>s. stored_in parse_url options (run_slug (rx_sourceUrl input)) (fst s)"
  for parse_url options random and input :: "'w run_input"
proof unfold_locales
  fix rd s s'
  assume "rx_read (over_bucket parse_url options random input) (run_slug (rx_sourceUrl (over_bucket parse_url options random input))) s = (Inr rd, s')"
  then show "rd_checkpoint rd = stored_in parse_url options (run_slug (rx_sourceUrl input)) (fst s) \<and>
      stored_in parse_url options (run_slug (rx_sourceUrl input)) (fst s') =
      stored_in parse_url options (run_slug (rx_sourceUrl input)) (fst s)"
    using bucket_read [of parse_url options "run_slug (rx_sourceUrl input)" "fst s"]
    by (cases "fst (readCheckpoint parse_url bucket_sender options (run_slug (rx_sourceUrl input)) (fst s))")
      (auto simp: over_bucket_def on_bucket_def split: prod.splits)
next
  fix s c
  assume "stored_in parse_url options (run_slug (rx_sourceUrl input)) (fst s) = Some c"
  then show "distinct_pages c" by (rule stored_in_distinct)
next
  fix c etag and s :: "bucket \<times> 'w"
  assume "distinct_pages c"
  then show "next_start (stored_in parse_url options (run_slug (rx_sourceUrl input))
      (fst (snd (rx_write (over_bucket parse_url options random input) c etag (run_slug (rx_sourceUrl (over_bucket parse_url options random input))) s))))
      \<le> max (next_start (stored_in parse_url options (run_slug (rx_sourceUrl input)) (fst s))) (next_start (Some c))"
    using write_rounds_bound [of c parse_url options random "run_slug (rx_sourceUrl input)" MAX_CAS_ROUNDS etag "fst s"]
    by (simp add: over_bucket_def on_bucket_def writeCheckpoint_def split: prod.split)
qed (auto simp: over_bucket_def)

end
