(* ===== verification/Run_Requests.thy ===== *)
theory Run_Requests
  imports Run_Resume
begin

text \<open>
  Which pages a run asks its source for. The surroundings of a run are extended by the list of the
  addresses that it had discovered; the locale \<open>asking_run\<close> says what is needed of them, and that the
  addresses are those of consecutive pages. Over the checkpoint store the page that a run starts with is
  then the one the run before left behind: resuming never skips a page.
\<close>

subsection \<open>Consecutive pages\<close>

locale asking_run = run_view input asked for input :: "'s run_input" and asked :: "'s \<Rightarrow> url list" +
  assumes read_keeps: "asked (snd (rx_read input slug s)) = asked s"
    and write_keeps: "asked (snd (rx_write input c etag slug s)) = asked s"
    and discover_asks: "asked (snd (rx_discover input u s)) = asked s @ [u]"
begin

lemma read_eq: "rx_read input slug s = (r, s') \<Longrightarrow> asked s' = asked s"
  using read_keeps [of slug s] by simp

lemma write_eq: "rx_write input c etag slug s = (r, s') \<Longrightarrow> asked s' = asked s"
  using write_keeps [of c etag slug s] by simp

lemma page_checkpoint_asks:
  "writePageCheckpoint input etag completed pages slug startedAt s = (e, s') \<Longrightarrow> asked s' = asked s"
  by (auto simp: writePageCheckpoint_def log_keeps dest!: built_keeps write_eq split: prod.splits sum.splits)

lemma final_checkpoint_asks: "asked (writeFinalCheckpoint input st found slug startedAt s) = asked s"
  by (auto simp: writeFinalCheckpoint_def log_keeps dest!: built_keeps write_eq split: prod.splits sum.splits)

lemma complete_asks:
  assumes "completeOkPage input slug startedAt page cs st rt s = Some (r, s')"
  shows "asked s' = asked s"
  using assms
  by (auto simp: completeOkPage_def processPage_def Let_def emitPageRateLine_def log_keeps
      dest!: clock_eqs ingest_keeps page_checkpoint_asks split: prod.splits option.splits sum.splits)

lemma body_asks:
  assumes "page_body input slug startedAt page st rt s = Some (r, s')"
  shows "asked s' = asked s @ [toPageUrl (rx_sourceUrl input) page]"
proof -
  obtain rt0 s0 where wait: "pacer_wait input rt s = (rt0, s0)" by fastforce
  obtain d s2 where d: "rx_discover input (toPageUrl (rx_sourceUrl input) page) s0 = (d, s2)" by fastforce
  have s2: "asked s2 = asked s @ [toPageUrl (rx_sourceUrl input) page]"
    using wait_keeps [OF wait] discover_asks [of "toPageUrl (rx_sourceUrl input) page" s0] d by simp
  have "asked s' = asked s2"
    using assms wait d
    by (auto simp: page_body_def Let_def failure_event_keeps throttle_keeps dest!: complete_asks
        split: prod.splits sum.splits option.splits if_splits)
  with s2 show ?thesis by simp
qed

lemma loop_asks:
  assumes "page_loop input slug startedAt page st rt s = Some (r, s')"
  shows "\<exists>n. asked s' = asked s @ map (toPageUrl (rx_sourceUrl input)) [page..<page + n]"
proof -
  define P where "P = (\<lambda>input' (slug' :: string) (startedAt' :: string) page (st :: loop_state) (rt :: run_runtime) s
      (y :: (thrown + stop_reason \<times> loop_state \<times> run_runtime) \<times> 's). input' = input \<longrightarrow>
     (\<exists>n. asked (snd y) = asked s @ map (toPageUrl (rx_sourceUrl input)) [page..<page + n]))"
  have "P input slug startedAt page st rt s (r, s')"
  proof (rule page_loop.raw_induct [where P = P, OF _ assms])
    fix loop input' slug' startedAt' page st rt s y
    assume IH: "\<And>input slug startedAt page st rt s y. loop input slug startedAt page st rt s = Some y \<Longrightarrow>
        P input slug startedAt page st rt s y"
      and eq: "(if beyond_cap input' page then Some (Inr (Cap, st, rt), s)
         else Option.bind (page_body input' slug' startedAt' page st rt s)
           (\<lambda>(r, s). case r of Inl e \<Rightarrow> Some (Inl e, s)
              | Inr (stop, st, rt) \<Rightarrow> (case stop of Some why \<Rightarrow> Some (Inr (why, st, rt), s)
                  | None \<Rightarrow> loop input' slug' startedAt' (Suc page) st rt s))) = Some y"
    show "P input' slug' startedAt' page st rt s y"
      unfolding P_def
    proof
      assume same: "input' = input"
      show "\<exists>n. asked (snd y) = asked s @ map (toPageUrl (rx_sourceUrl input)) [page..<page + n]"
      proof (cases "beyond_cap input page")
        case True
        with eq same show ?thesis by (auto intro: exI [of _ 0])
      next
        case False
        with eq same obtain r s1 where body: "page_body input slug' startedAt' page st rt s = Some (r, s1)"
          by (cases "page_body input slug' startedAt' page st rt s") auto
        note here = body_asks [OF body]
        show ?thesis
        proof (cases "\<exists>st1 rt1. r = Inr (None, st1, rt1)")
          case True
          then obtain st1 rt1 where "r = Inr (None, st1, rt1)" by blast
          with eq same False body have "loop input slug' startedAt' (Suc page) st1 rt1 s1 = Some y" by simp
          from IH [OF this] obtain n where "asked (snd y) = asked s1 @ map (toPageUrl (rx_sourceUrl input)) [Suc page..<Suc page + n]"
            by (auto simp: P_def)
          moreover have "[page..<page + Suc n] = page # [Suc page..<Suc page + n]"
            by (simp add: upt_conv_Cons del: upt_Suc)
          ultimately show ?thesis using here by (intro exI [of _ "Suc n"]) (simp del: upt_Suc)
        next
          case stopped: False
          with eq same False body have "snd y = s1" by (auto split: sum.splits option.splits)
          with here show ?thesis by (intro exI [of _ 1]) simp
        qed
      qed
    qed
  qed
  then show ?thesis by (simp add: P_def)
qed

lemma start_asks: "buildLoopState input slug s = (r, s') \<Longrightarrow> asked s' = asked s"
  by (auto simp: buildLoopState_def resolveResumeState_def log_keeps dest!: read_eq clock_eqs
      split: prod.splits sum.splits option.splits if_splits)

lemma assemble_asks: "assembleResult input st slug startedAt s = (r, s') \<Longrightarrow> asked s' = asked s"
  by (auto simp: assembleResult_def Let_def writeEvidence_keeps log_keeps final_checkpoint_asks
      dest!: clock_eqs(1) split: prod.splits if_splits)

lemma run_asks:
  assumes "runOnce input s = Some (r, s')"
  shows "asked s' = asked s \<or>
    (\<exists>st s2 n. buildLoopState input (run_slug (rx_sourceUrl input))
        (rx_log input (RunStart (rx_runId input) (run_slug (rx_sourceUrl input))) (snd (rx_now input s))) = (Inr st, s2) \<and>
      asked s' = asked s @ map (toPageUrl (rx_sourceUrl input)) [ls_lastCompletedPage st + 1..<ls_lastCompletedPage st + 1 + n])"
proof -
  let ?slug = "run_slug (rx_sourceUrl input)"
  obtain t s1 where now: "rx_now input s = (t, s1)" by fastforce
  obtain b s2 where start: "buildLoopState input ?slug (rx_log input (RunStart (rx_runId input) ?slug) s1) = (b, s2)"
    by fastforce
  have s2: "asked s2 = asked s"
    using start_asks [OF start] clock_eqs(1) [OF now] by (simp add: log_keeps)
  show ?thesis
  proof (cases b)
    case (Inl e)
    with assms now start s2 show ?thesis by (simp add: runOnce_def)
  next
    case (Inr st)
    from assms now start Inr obtain q s3 where loop: "runPageLoop input ?slug (toISOString t) st (buildRunRuntime input) s2 = Some (q, s3)"
      by (auto simp: runOnce_def Let_def split: option.splits)
    then obtain q0 where "page_loop input ?slug (toISOString t) (ls_lastCompletedPage st + 1) st (buildRunRuntime input) s2 = Some (q0, s3)"
      by (auto simp: runPageLoop_def FIRST_PAGE_def)
    from loop_asks [OF this] obtain n where
      "asked s3 = asked s2 @ map (toPageUrl (rx_sourceUrl input)) [ls_lastCompletedPage st + 1..<ls_lastCompletedPage st + 1 + n]"
      by blast
    moreover have "asked s' = asked s3"
      using assms now start Inr loop
      by (auto simp: runOnce_def Let_def dest!: assemble_asks split: sum.splits prod.splits)
    ultimately show ?thesis using s2 now start Inr by auto
  qed
qed

end

subsection \<open>A run that records what it asks for\<close>

definition visiting :: "'w run_input \<Rightarrow> (url list \<times> 'w) run_input" where
  "visiting input =
     \<lparr>rx_concurrency = rx_concurrency input, rx_maxPages = rx_maxPages input,
      rx_requestSpacingMs = rx_requestSpacingMs input, rx_resume = rx_resume input,
      rx_runId = rx_runId input, rx_sourceUrl = rx_sourceUrl input,
      rx_now = beside (rx_now input), rx_wall = beside (rx_wall input),
      rx_sleep = (\<lambda>d s. (fst s, rx_sleep input d (snd s))),
      rx_log = (\<lambda>ev s. (fst s, rx_log input ev (snd s))),
      rx_read = (\<lambda>slug. beside (rx_read input slug)),
      rx_write = (\<lambda>c etag slug. beside (rx_write input c etag slug)),
      rx_discover = (\<lambda>u s. case rx_discover input u (snd s) of (r, w) \<Rightarrow> (r, (fst s @ [u], w))),
      rx_store = (\<lambda>c. beside (rx_store input c)), rx_stage = (\<lambda>i r. beside (rx_stage input i r)),
      rx_schedule = rx_schedule input, rx_emitEvidence = rx_emitEvidence input,
      rx_evidenceStore = map_option (\<lambda>w i sm. beside (w i sm)) (rx_evidenceStore input),
      rx_evidenceFile = rx_evidenceFile input,
      rx_writeEvidenceFile = map_option (\<lambda>w i sm. beside (w i sm)) (rx_writeEvidenceFile input)\<rparr>"

interpretation bucket_visits: asking_run "over_bucket parse_url options random (visiting input)" "\<lambda>s. fst (snd s)"
  for parse_url options random and input :: "'w run_input"
  by unfold_locales
    (auto simp: over_bucket_def visiting_def on_bucket_def beside_def split: prod.splits)

lemma over_bucket_source [simp]:
  "rx_sourceUrl (over_bucket parse_url options random input) = rx_sourceUrl input"
  "rx_sourceUrl (visiting input) = rx_sourceUrl input"
  by (simp_all add: over_bucket_def visiting_def)

text \<open>
  C1: resuming never skips a page. After a run over the checkpoint store, whatever it found there
  before, however writes were refused and merged and whatever its other surroundings did, the next run
  of the same source asks for consecutive pages, each once and in order, and the first of them comes no
  later than right after the last page that the first run's summary reports as completed, and is page 1
  when it reports none. The next run may differ in everything but the source and the store.
\<close>

theorem resume_never_skips:
  "case runOnce (over_bucket parse_url options random input) (b, w) of
     Some (Inr (code, sm), (b', w')) \<Rightarrow>
       (case runOnce (over_bucket parse_url options random' (visiting (later\<lparr>rx_sourceUrl := rx_sourceUrl input\<rparr>)))
           (b', ([], v)) of
          Some (r, (b'', (us, v'))) \<Rightarrow>
            \<exists>first n. 1 \<le> first \<and> first \<le> (case su_discoveredRange sm of None \<Rightarrow> 1 | Some r \<Rightarrow> rg_lastPage r + 1) \<and>
              us = map (toPageUrl (rx_sourceUrl input)) [first..<first + n]
        | None \<Rightarrow> True)
   | _ \<Rightarrow> True"
proof -
  have "\<exists>first n. 1 \<le> first \<and> first \<le> (case su_discoveredRange sm of None \<Rightarrow> 1 | Some r \<Rightarrow> rg_lastPage r + 1) \<and>
      us = map (toPageUrl (rx_sourceUrl input)) [first..<first + n]"
    if one: "runOnce (over_bucket parse_url options random input) (b, w) = Some (Inr (code, sm), (b', w'))"
      and two: "runOnce (over_bucket parse_url options random' (visiting (later\<lparr>rx_sourceUrl := rx_sourceUrl input\<rparr>)))
        (b', ([], v)) = Some (r, (b'', (us, v')))" for code sm b' w' r b'' us v'
  proof -
    let ?next = "later\<lparr>rx_sourceUrl := rx_sourceUrl input\<rparr>"
    let ?run = "over_bucket parse_url options random' (visiting ?next)"
    let ?bound = "case su_discoveredRange sm of None \<Rightarrow> 1 | Some r \<Rightarrow> rg_lastPage r + 1"
    let ?stored = "stored_in parse_url options (run_slug (rx_sourceUrl input))"
    have left: "next_start (?stored b') \<le> ?bound"
      using bucket_run.run_start_bound [OF one] by simp
    from bucket_visits.run_asks [OF two] show ?thesis
    proof (elim disjE exE conjE)
      assume "fst (snd (b'', us, v')) = fst (snd (b', [] :: url list, v))"
      moreover have "1 \<le> ?bound" by (simp split: option.split)
      ultimately show ?thesis by (intro exI [of _ 1] exI [of _ 0]) simp
    next
      fix st s2 n
      assume start: "buildLoopState ?run (run_slug (rx_sourceUrl ?run)) (rx_log ?run (RunStart (rx_runId ?run)
          (run_slug (rx_sourceUrl ?run))) (snd (rx_now ?run (b', [], v)))) = (Inr st, s2)"
        and us: "fst (snd (b'', us, v')) = fst (snd (b', [], v)) @ map (toPageUrl (rx_sourceUrl ?run))
          [ls_lastCompletedPage st + 1..<ls_lastCompletedPage st + 1 + n]"
      have "fst (rx_log ?run ev (snd (rx_now ?run (b', [], v)))) = b'" for ev
        by (simp add: over_bucket_def)
      then have "ls_lastCompletedPage st + 1 = next_start (?stored b')"
        using bucket_run.start_exact(2) [where input = "visiting ?next", OF start]
        by (simp add: over_bucket_source)
      with left have "1 \<le> ls_lastCompletedPage st + 1" "ls_lastCompletedPage st + 1 \<le> ?bound" by simp_all
      moreover have "us = map (toPageUrl (rx_sourceUrl input)) [ls_lastCompletedPage st + 1..<ls_lastCompletedPage st + 1 + n]"
        using us by (simp only: over_bucket_source fst_conv snd_conv append_Nil) simp
      ultimately show ?thesis by blast
    qed
  qed
  then show ?thesis by (auto split: option.splits sum.splits prod.splits)
qed

end
