(* ===== verification/Run_Front.thy ===== *)
theory Run_Front
  imports Run_Requests Run_Examples
begin

text \<open>
  A run stops at the first page that brings nothing new. While the first page of the listing is known,
  no later page is read again, in any number of runs: a replay of a later page that was not recorded,
  because its fetch failed, stays unrecorded. The runs are those over the checkpoint store of
  \<open>Run_Resume\<close>; what is supposed of their other surroundings is \<open>front_settled\<close>.
\<close>

subsection \<open>A settled first page\<close>

text \<open>
  As long as \<open>K\<close> holds: page 1 can be read and lists candidates of \<open>C\<close>; storing one of them finds its
  object, with evidence of \<open>E\<close>; staging such evidence finds its row; and the clocks, the log and the
  evidence writers leave \<open>K\<close> alone. Of other pages, candidates and evidence nothing is said.
\<close>

definition front_settled :: "'s run_input \<Rightarrow> ('s \<Rightarrow> bool) \<Rightarrow> replay_candidate set \<Rightarrow> raw_evidence set \<Rightarrow> bool" where
  "front_settled input K C E \<longleftrightarrow>
     (\<forall>s. K s \<longrightarrow> K (snd (rx_now input s)) \<and> K (snd (rx_wall input s)) \<and> (\<forall>d. K (rx_sleep input d s)) \<and>
        (\<forall>ev. K (rx_log input ev s)) \<and>
        (\<forall>w path sm. rx_evidenceStore input = Some w \<or> rx_writeEvidenceFile input = Some w \<longrightarrow> K (snd (w path sm s)))) \<and>
     (\<forall>s. K s \<longrightarrow> (\<exists>rep s'. rx_discover input (toPageUrl (rx_sourceUrl input) 1) s = (Inr rep, s') \<and> K s' \<and>
        dr_ok rep \<and> dr_candidates rep \<noteq> [] \<and> set (dr_candidates rep) \<subseteq> C)) \<and>
     (\<forall>s. \<forall>c\<in>C. K s \<longrightarrow> (\<exists>e s'. rx_store input c s = (Inr (Evidence e), s') \<and> K s' \<and> e \<in> E)) \<and>
     (\<forall>s i. \<forall>e\<in>E. rv_status e = RawSkipped \<and>
        (K s \<longrightarrow> (\<exists>g s'. rx_stage input i (Evidence e) s = (Inr g, s') \<and> K s' \<and> sr_status g = AlreadyStaged)))"

lemma front_settledD:
  assumes "front_settled input K C E" "K s"
  shows "rx_now input s = (t, s') \<Longrightarrow> K s'" "rx_wall input s = (t, s') \<Longrightarrow> K s'" "K (rx_sleep input d s)"
    "K (rx_log input ev s)" "rx_evidenceStore input = Some w \<Longrightarrow> K (snd (w path sm s))"
    "rx_writeEvidenceFile input = Some w \<Longrightarrow> K (snd (w path sm s))"
    "\<exists>rep s'. rx_discover input (toPageUrl (rx_sourceUrl input) 1) s = (Inr rep, s') \<and> K s' \<and>
        dr_ok rep \<and> dr_candidates rep \<noteq> [] \<and> set (dr_candidates rep) \<subseteq> C"
    "c \<in> C \<Longrightarrow> \<exists>e s'. rx_store input c s = (Inr (Evidence e), s') \<and> K s' \<and> e \<in> E"
    "e \<in> E \<Longrightarrow> rv_status e = RawSkipped \<and>
       (\<exists>g s'. rx_stage input i (Evidence e) s = (Inr g, s') \<and> K s' \<and> sr_status g = AlreadyStaged)"
  using assms unfolding front_settled_def by (metis snd_conv)+

definition known_result :: "raw_evidence set \<Rightarrow> settled \<Rightarrow> bool" where
  "known_result E v \<longleftrightarrow> (case v of Settled (Evidence e) g \<Rightarrow> e \<in> E \<and> sr_status g = AlreadyStaged | _ \<Rightarrow> False)"

definition known_task :: "raw_evidence set \<Rightarrow> task \<Rightarrow> bool" where
  "known_task E t \<longleftrightarrow> (case t of
       StagingOf r \<Rightarrow> (\<exists>e\<in>E. r = Evidence e)
     | Done (Inr v) \<Rightarrow> known_result E v
     | Done (Inl e) \<Rightarrow> False
     | _ \<Rightarrow> True)"

lemma known_step:
  assumes "front_settled input K C E" "K s" "c \<in> C" "known_task E t"
    and "task_step (run_calls input) c t s = (t', s')"
  shows "known_task E t' \<and> K s'"
proof (cases t)
  case Checking
  with assms(2,5) show ?thesis by (simp add: task_step_def prefetch_check_def run_calls_def known_task_def)
next
  case Storing
  obtain e s1 where "rx_store input c s = (Inr (Evidence e), s1)" "K s1" "e \<in> E"
    using front_settledD(8) [OF assms(1,2,3)] by blast
  with Storing assms(5) show ?thesis by (auto simp: task_step_def run_calls_def known_task_def)
next
  case (StagingOf r)
  with assms(4) obtain e where e: "e \<in> E" "r = Evidence e" by (auto simp: known_task_def)
  obtain g s1 where "rx_stage input (Some (rx_runId input)) (Evidence e) s = (Inr g, s1)" "K s1" "sr_status g = AlreadyStaged"
    using front_settledD(9) [OF assms(1,2) e(1)] by blast
  with StagingOf e assms(5) show ?thesis by (auto simp: task_step_def run_calls_def known_task_def known_result_def)
qed (use assms in \<open>simp_all add: task_step_def\<close>)

lemma known_turn:
  assumes "front_settled input K C E" "set cs \<subseteq> C"
    and "K (pm_world m)" "list_all (known_task E) (pm_tasks m)" "length (pm_tasks m) = length cs"
  shows "K (pm_world (page_turn (run_calls input) n cs m i)) \<and>
    list_all (known_task E) (pm_tasks (page_turn (run_calls input) n cs m i))"
proof (cases "i < length cs")
  case True
  obtain t' s' where step: "task_step (run_calls input) (cs ! i) (pm_tasks m ! i) (pm_world m) = (t', s')"
    by (metis prod.exhaust)
  have "cs ! i \<in> C" "known_task E (pm_tasks m ! i)"
    using True assms(2,4,5) by (auto simp: list_all_length)
  then have "known_task E t' \<and> K s'" using known_step [OF assms(1,3) _ _ step] by blast
  moreover have "list_all (known_task E) ((pm_tasks m)[i := t''])" if "known_task E t''" for t''
    using assms(4) that set_update_subset_insert [of "pm_tasks m" i t''] by (auto simp: list_all_iff)
  moreover have "known_task E Checking" by (simp add: known_task_def)
  ultimately show ?thesis using assms(3,4) step by (simp add: page_turn_def)
qed (use assms in \<open>simp add: page_turn_def\<close>)

lemma known_run:
  assumes "front_settled input K C E" "set cs \<subseteq> C" "K s"
  shows "K (pm_world (page_run (run_calls input) n cs s sched)) \<and>
    list_all (known_task E) (pm_tasks (page_run (run_calls input) n cs s sched))"
proof (induction sched rule: rev_induct)
  case Nil
  show ?case using assms(3) by (auto simp: page_run_def page_start_def known_task_def list_all_iff)
next
  case (snoc i sched)
  have "page_run (run_calls input) n cs s (sched @ [i]) = page_turn (run_calls input) n cs (page_run (run_calls input) n cs s sched) i"
    by (simp add: page_run_def)
  with known_turn [OF assms(1,2), of "page_run (run_calls input) n cs s sched" n i] snoc show ?case by simp
qed

definition all_known_page :: "store_result list \<Rightarrow> staging_result list \<Rightarrow> bool" where
  "all_known_page raws stagings \<longleftrightarrow> list_all (\<lambda>r. result_status r = RawSkipped) raws \<and>
     list_all (\<lambda>g. sr_status g = AlreadyStaged) stagings"

lemma known_results:
  assumes "list_all (known_result E) vs" "\<And>e. e \<in> E \<Longrightarrow> rv_status e = RawSkipped"
  shows "list_all (\<lambda>r. result_status r = RawSkipped) (raws_of vs)"
    "list_all (\<lambda>g. sr_status g = AlreadyStaged) (stagings_of vs)"
  using assms
  by (induction vs) (auto simp: raws_of_def stagings_of_def known_result_def result_status_def
      split: settled.splits store_result.splits)

lemma known_ingest:
  assumes "front_settled input K C E" "set cs \<subseteq> C" "K s" "serves_in_turn input" "0 < n"
  shows "\<exists>r s'. ingestPage (run_calls input) n cs s (rx_schedule input page (length cs)) = Some (Inr r, s') \<and> K s' \<and>
    nothing_new (page_counts_of (pr_counts r)) \<and> all_known_page (pr_rawStorage r) (pr_staging r)"
proof -
  let ?sched = "concat (replicate (4 * length cs) [0..<length cs])"
  have sched: "rx_schedule input page (length cs) = ?sched"
    using assms(4) by (simp add: serves_in_turn_def)
  note run = known_run [OF assms(1-3), of n ?sched]
  from ingest_outcome [of "run_calls input" n cs s ?sched] fair_page_ends [OF assms(5), of "run_calls input" cs s]
  obtain os where os: "ingestPage (run_calls input) n cs s ?sched = Some (settle_page os, pm_world (page_run (run_calls input) n cs s ?sched))"
    "pm_tasks (page_run (run_calls input) n cs s ?sched) = map Done os" by metis
  have each: "\<exists>v. q = Inr v \<and> known_result E v" if "q \<in> set os" for q
    using conjunct2 [OF run] os(2) that by (cases q) (fastforce simp: list_all_iff known_task_def)+
  define vs where "vs = map projr os"
  have vs: "os = map Inr vs"
    using each by (fastforce simp: vs_def intro!: map_idI [symmetric])
  have known: "list_all (known_result E) vs"
    using each by (fastforce simp: vs_def list_all_iff)
  have status: "e \<in> E \<Longrightarrow> rv_status e = RawSkipped" for e
    using front_settledD(9) [OF assms(1,3)] by blast
  have all: "list_all (\<lambda>r. result_status r = RawSkipped) (raws_of vs)" "list_all (\<lambda>g. sr_status g = AlreadyStaged) (stagings_of vs)"
    using known_results [OF known] status by blast+
  then have "count_where (\<lambda>r. result_status r = RawFailed) (raws_of vs) = 0" "count_where (\<lambda>r. result_status r = RawStored) (raws_of vs) = 0"
    "count_where (\<lambda>g. sr_status g = StagingFailed) (stagings_of vs) = 0" "count_where (\<lambda>g. sr_status g = Staged) (stagings_of vs) = 0"
    by (auto simp: count_where_def list_all_iff filter_empty_conv)
  then show ?thesis
    using os(1) run all unfolding sched vs settle_page_Inr
    by (simp add: nothing_new_def page_counts_of_def tally_of_def all_known_page_def)
qed

subsection \<open>The first page of a run\<close>

text \<open>The turn of page 1, up to the state in which its checkpoint is written.\<close>

lemma front_body:
  assumes front: "front_settled input K C E" and "K s" "serves_in_turn input" "0 < rx_concurrency input" "full_speed input rt"
  shows "\<exists>st1 rt1 s1 s2. page_body input slug startedAt 1 st rt s = Some (Inr (Some AllDuplicate, st1, rt1), s2) \<and>
    K s1 \<and> writePageCheckpoint input (ls_etag st) 1 (ls_pages st1) slug startedAt s1 = (ls_etag st1, s2) \<and>
    ls_lastCompletedPage st1 = 1 \<and> dr_ok (ls_report st1) = dr_ok (ls_report st) \<and>
    (\<exists>p. ls_pages st1 = AList.update (show_nat 1) p (ls_pages st)) \<and>
    (\<exists>raws stagings. ls_rawStorage st1 = ls_rawStorage st @ raws \<and> ls_staging st1 = ls_staging st @ stagings \<and>
       all_known_page raws stagings)"
proof -
  obtain t s0 where wall: "rx_wall input s = (t, s0)" by fastforce
  obtain pause pacer where floor: "awaitFloor (rx_requestSpacingMs input) t (rt_pacer rt) = (pause, pacer)" by fastforce
  define s3 where "s3 = (if 0 < pause then rx_sleep input pause s0 else s0)"
  have wait: "pacer_wait input rt s = (rt\<lparr>rt_pacer := pacer\<rparr>, s3)"
    by (simp add: pacer_wait_def wall floor s3_def)
  have K3: "K s3" using front_settledD(2) [OF front assms(2) wall] front_settledD(3) [OF front] by (simp add: s3_def)
  obtain rep s4 where d: "rx_discover input (toPageUrl (rx_sourceUrl input) 1) s3 = (Inr rep, s4)" "K s4" "dr_ok rep"
    "dr_candidates rep \<noteq> []" "set (dr_candidates rep) \<subseteq> C"
    using front_settledD(7) [OF front K3] by blast
  obtain now s5 where now: "rx_now input s4 = (now, s5)" by fastforce
  let ?th = "onCleanWindow (run_throttle_options input) now (rt_throttle rt)"
  have limit: "nat (th_concurrency ?th) = rx_concurrency input"
    using assms(5) by (simp add: full_speed_def clean_keeps_speed)
  from known_ingest [OF front d(5) front_settledD(1) [OF front d(2) now] assms(3,4)] obtain r s6 where
    ingest: "ingestPage (run_calls input) (rx_concurrency input) (dr_candidates rep) s5
      (rx_schedule input 1 (length (dr_candidates rep))) = Some (Inr r, s6)" "K s6"
      "nothing_new (page_counts_of (pr_counts r))" "all_known_page (pr_rawStorage r) (pr_staging r)"
    by blast
  obtain now2 s7 where now2: "rx_now input s6 = (now2, s7)" by fastforce
  let ?counts = "page_counts_of (pr_counts r)"
  let ?ts = "ls_pageTimestampsMs st @ [now2]"
  let ?pages = "AList.update (show_nat 1) \<lparr>cp_counts = ?counts, cp_status = ''running''\<rparr> (ls_pages st)"
  define s8 where "s8 = emitPageRateLine input 1 ?ts ?counts s7"
  have K8: "K s8"
    using front_settledD(4) [OF front front_settledD(1) [OF front ingest(2) now2]] by (simp add: s8_def emitPageRateLine_def)
  obtain etag s9 where w: "writePageCheckpoint input (ls_etag st) 1 ?pages slug startedAt s8 = (etag, s9)" by fastforce
  define st1 where "st1 = st\<lparr>ls_report := appendDiscoveryReport (ls_report st) rep,
    ls_rawStorage := ls_rawStorage st @ pr_rawStorage r, ls_staging := ls_staging st @ pr_staging r,
    ls_pageTimestampsMs := ?ts, ls_pages := ?pages, ls_etag := etag, ls_lastCompletedPage := 1\<rparr>"
  have complete: "completeOkPage input slug startedAt 1 (dr_candidates rep)
      (st\<lparr>ls_report := appendDiscoveryReport (ls_report st) rep\<rparr>) (rt\<lparr>rt_pacer := pacer\<rparr>) s4
    = Some (Inr (etag, ?counts, st\<lparr>ls_report := appendDiscoveryReport (ls_report st) rep,
        ls_rawStorage := ls_rawStorage st @ pr_rawStorage r, ls_staging := ls_staging st @ pr_staging r,
        ls_pageTimestampsMs := ?ts, ls_pages := ?pages\<rparr>,
        rt\<lparr>rt_pacer := pacer, rt_throttle := ?th, rt_limit := rx_concurrency input\<rparr>), s9)"
    unfolding completeOkPage_def processPage_def Let_def
    by (simp add: now limit ingest(1) [simplified] now2 w [simplified] s8_def [symmetric, simplified])
  have "page_body input slug startedAt 1 st rt s = Some (Inr (Some AllDuplicate, st1,
      rt\<lparr>rt_pacer := pacer, rt_throttle := ?th, rt_limit := rx_concurrency input\<rparr>), s9)"
    unfolding page_body_def wait Let_def prod.case
    by (simp only: d(1) prod.case sum.case complete option.case if_True if_False d(3) d(4) not_True_eq_False ingest(3) st1_def)
  then show ?thesis
    using K8 w d(3) ingest(4)
    by (intro exI [of _ st1] exI [of _ "rt\<lparr>rt_pacer := pacer, rt_throttle := ?th, rt_limit := rx_concurrency input\<rparr>"]
        exI [of _ s8] exI [of _ s9]) (auto simp: st1_def appendDiscoveryReport_def Let_def)
qed

subsection \<open>Runs over the checkpoint store\<close>

text \<open>The ETag that a run holds belongs to the object, or there is none and the object is no checkpoint.\<close>

definition linked :: "string option \<Rightarrow> string option \<Rightarrow> bool" where
  "linked etag object \<longleftrightarrow> etag = object \<or> etag = None \<and> Option.bind object parseCheckpoint = None"

text \<open>The next run starts at the first page.\<close>

definition starts_over :: "checkpoint option \<Rightarrow> bool" where
  "starts_over c \<longleftrightarrow> (case c of None \<Rightarrow> True | Some c \<Rightarrow> ck_status c = CkComplete)"

definition holds_progress :: "checkpoint option \<Rightarrow> checkpoint \<Rightarrow> bool" where
  "holds_progress stored c \<longleftrightarrow> (case stored of None \<Rightarrow> True | Some c' \<Rightarrow> progress c' = progress c)"

lemma rounds_linked:
  assumes key: "object_key parse_url options slug = Inr key" and "distinct_pages c" "linked etag (b key)"
    and "write_rounds parse_url bucket_sender options random slug n c etag b = (r, b')"
  shows "case r of
      Inr etag' \<Rightarrow> linked etag' (b' key) \<and> holds_progress (Option.bind (b' key) parseCheckpoint) c
    | Inl e \<Rightarrow> b' = b \<and> (0 < n \<longrightarrow> Option.bind (b key) parseCheckpoint = None)"
  using assms(4)
proof (induction n)
  case (Suc n)
  let ?cond = "conditionalHeader etag (so_conditionalWrites options)"
  have put: "putCheckpoint parse_url bucket_sender options c etag slug b =
      (if condition_met ?cond (map_option (\<lambda>x. (x, x)) (b key)) then (Inr (Some (checkpoint_text c)), b(key \<mapsto> checkpoint_text c))
       else (Inl (SendFailed (S3Service ''PreconditionFailed'' (Some 412))), b))"
    by (simp add: putCheckpoint_def key bucket_sender_def bucket_put_def)
  show ?case
  proof (cases "condition_met ?cond (map_option (\<lambda>x. (x, x)) (b key))")
    case True
    with Suc.prems put have "r = Inr (Some (checkpoint_text c))" "b' = b(key \<mapsto> checkpoint_text c)" by simp_all
    then show ?thesis
      using parse_checkpoint_text [OF assms(2)] by (auto simp: linked_def holds_progress_def split: option.split)
  next
    case False
    then have bad: "so_conditionalWrites options" "etag = None" "b key \<noteq> None" "Option.bind (b key) parseCheckpoint = None"
      using assms(3) by (auto simp: conditionalHeader_def condition_met_def linked_def split: if_splits option.splits)
    then obtain t where t: "b key = Some t" "parseCheckpoint t = None" by auto
    have read: "readCheckpoint parse_url bucket_sender options slug b = (Inr no_result, b)"
      by (simp add: readCheckpoint_def key bucket_sender_def bucket_get_def t)
    have "write_rounds parse_url bucket_sender options random slug n c None b = (r, b')"
      using Suc.prems put False read
      by (simp add: isPreconditionFailed_def Let_def bucket_sender_def no_result_def)
    with Suc.IH bad show ?thesis by (auto split: sum.splits)
  qed
qed auto

definition front_run ::
    "(string \<Rightarrow> url option) \<Rightarrow> store_options \<Rightarrow> 'w run_input \<Rightarrow> ('w \<Rightarrow> bool) \<Rightarrow> replay_candidate set \<Rightarrow> raw_evidence set \<Rightarrow> bool" where
  "front_run parse_url options input K C E \<longleftrightarrow>
     front_settled input K C E \<and> serves_in_turn input \<and> 0 < rx_concurrency input \<and> rx_maxPages input \<noteq> Some 0 \<and>
     is_ok (object_key parse_url options (run_slug (rx_sourceUrl input)))"

lemma lifted_fields [simp]:
  "rx_concurrency (over_bucket parse_url options random (visiting input)) = rx_concurrency input"
  "beyond_cap (over_bucket parse_url options random (visiting input)) page = beyond_cap input page"
  "serves_in_turn (over_bucket parse_url options random (visiting input)) = serves_in_turn input"
  by (simp_all add: over_bucket_def visiting_def beyond_cap_def serves_in_turn_def)

lemma lifted_settled:
  assumes "front_settled input K C E"
  shows "front_settled (over_bucket parse_url options random (visiting input)) (\<lambda>s. fst s = b \<and> K (snd (snd s))) C E"
proof -
  let ?I = "over_bucket parse_url options random (visiting input)"
  note D = front_settledD [OF assms]
  have clocks: "K (snd (rx_now input w))" "K (snd (rx_wall input w))" if "K w" for w
    using D(1) [OF that] D(2) [OF that] by (metis prod.collapse)+
  have pages: "\<exists>rep s'. rx_discover ?I (toPageUrl (rx_sourceUrl input) 1) s = (Inr rep, s') \<and>
      (fst s' = b \<and> K (snd (snd s'))) \<and> dr_ok rep \<and> dr_candidates rep \<noteq> [] \<and> set (dr_candidates rep) \<subseteq> C"
    if "fst s = b \<and> K (snd (snd s))" for s
  proof -
    from that D(7) [of "snd (snd s)"] obtain rep w' where
      "rx_discover input (toPageUrl (rx_sourceUrl input) 1) (snd (snd s)) = (Inr rep, w')" "K w'" "dr_ok rep"
      "dr_candidates rep \<noteq> []" "set (dr_candidates rep) \<subseteq> C" by blast
    with that show ?thesis by (cases s) (auto simp: over_bucket_def visiting_def beside_def)
  qed
  have stores: "\<exists>e s'. rx_store ?I c s = (Inr (Evidence e), s') \<and>
      (fst s' = b \<and> K (snd (snd s'))) \<and> e \<in> E" if "fst s = b \<and> K (snd (snd s))" "c \<in> C" for s c
  proof -
    from that D(8) [of "snd (snd s)" c] obtain e w' where "rx_store input c (snd (snd s)) = (Inr (Evidence e), w')" "K w'" "e \<in> E" by blast
    with that show ?thesis by (cases s) (auto simp: over_bucket_def visiting_def beside_def)
  qed
  have status: "rv_status e = RawSkipped" if "e \<in> E" for e using assms that by (simp add: front_settled_def)
  have stages: "\<exists>g s'. rx_stage ?I i (Evidence e) s = (Inr g, s') \<and>
      (fst s' = b \<and> K (snd (snd s'))) \<and> sr_status g = AlreadyStaged" if "fst s = b \<and> K (snd (snd s))" "e \<in> E" for s e i
  proof -
    from that D(9) [of "snd (snd s)" e i] obtain g w' where "rx_stage input i (Evidence e) (snd (snd s)) = (Inr g, w')" "K w'"
      "sr_status g = AlreadyStaged" by blast
    with that show ?thesis by (cases s) (auto simp: over_bucket_def visiting_def beside_def)
  qed
  have evidence: "K (snd (snd (snd (w path sm s))))" "fst (snd (w path sm s)) = fst s"
    if "rx_evidenceStore ?I = Some w \<or>
      rx_writeEvidenceFile ?I = Some w" "K (snd (snd s))" for w path sm s
    using that D(5,6) [of "snd (snd s)" _ path sm]
    by (auto simp: over_bucket_def visiting_def beside_def case_prod_beta)
  have quiet: "fst s = b \<and> K (snd (snd s)) \<Longrightarrow>
      (fst (snd (rx_now ?I s)) = b \<and>
       K (snd (snd (snd (rx_now ?I s))))) \<and>
      (fst (snd (rx_wall ?I s)) = b \<and>
       K (snd (snd (snd (rx_wall ?I s))))) \<and>
      (\<forall>d. fst (rx_sleep ?I d s) = b \<and>
        K (snd (snd (rx_sleep ?I d s)))) \<and>
      (\<forall>ev. fst (rx_log ?I ev s) = b \<and>
        K (snd (snd (rx_log ?I ev s))))" for s
    using clocks [of "snd (snd s)"] D(3,4) [of "snd (snd s)"]
    by (auto simp: over_bucket_def visiting_def beside_def split: prod.split)
  show ?thesis
    unfolding front_settled_def over_bucket_source
  proof (intro conjI, goal_cases)
    case 1
    show ?case
    proof (intro allI impI)
      fix s :: "bucket \<times> url list \<times> 'a"
      assume s: "fst s = b \<and> K (snd (snd s))"
      show "(fst (snd (rx_now ?I s)) = b \<and> K (snd (snd (snd (rx_now ?I s))))) \<and>
        (fst (snd (rx_wall ?I s)) = b \<and> K (snd (snd (snd (rx_wall ?I s))))) \<and>
        (\<forall>d. fst (rx_sleep ?I d s) = b \<and> K (snd (snd (rx_sleep ?I d s)))) \<and>
        (\<forall>ev. fst (rx_log ?I ev s) = b \<and> K (snd (snd (rx_log ?I ev s)))) \<and>
        (\<forall>w path sm. rx_evidenceStore ?I = Some w \<or> rx_writeEvidenceFile ?I = Some w \<longrightarrow>
          fst (snd (w path sm s)) = b \<and> K (snd (snd (snd (w path sm s)))))"
        using quiet [OF s] evidence s by simp
    qed
  next
    case 2
    show ?case using pages by blast
  next
    case 3
    show ?case using stores by blast
  next
    case 4
    show ?case using stages status by blast
  qed
qed

subsection \<open>Its checkpoint\<close>

lemma write_linked:
  assumes key: "object_key parse_url options slug = Inr key" and "distinct_pages c" "linked etag (fst s key)"
    and "rx_write (over_bucket parse_url options random (visiting input)) c etag slug s = (r, s')"
  shows "snd s' = snd s \<and> (case r of
      Inr etag' \<Rightarrow> linked etag' (fst s' key) \<and> holds_progress (Option.bind (fst s' key) parseCheckpoint) c
    | Inl e \<Rightarrow> fst s' = fst s \<and> Option.bind (fst s key) parseCheckpoint = None)"
proof -
  obtain q b' where w: "writeCheckpoint parse_url bucket_sender options random c etag slug (fst s) = (q, b')"
    by (metis prod.exhaust)
  have "r = map_sum store_thrown id q" "s' = (b', snd s)"
    using assms(4) w by (simp_all add: over_bucket_def on_bucket_def)
  moreover have "case q of
      Inr etag' \<Rightarrow> linked etag' (b' key) \<and> holds_progress (Option.bind (b' key) parseCheckpoint) c
    | Inl e \<Rightarrow> b' = fst s \<and> Option.bind (fst s key) parseCheckpoint = None"
    using rounds_linked [OF key assms(2,3) w [unfolded writeCheckpoint_def]]
    by (auto simp: MAX_CAS_ROUNDS_def split: sum.splits)
  ultimately show ?thesis by (auto split: sum.splits)
qed

lemma lifted_quiet:
  assumes "front_settled input K C E" "K (snd (snd s))"
  shows "rx_now (over_bucket parse_url options random (visiting input)) s = (t, s') \<Longrightarrow> fst s' = fst s \<and> K (snd (snd s'))"
    "rx_wall (over_bucket parse_url options random (visiting input)) s = (t, s') \<Longrightarrow> fst s' = fst s \<and> K (snd (snd s'))"
    "fst (rx_log (over_bucket parse_url options random (visiting input)) ev s) = fst s"
    "K (snd (snd (rx_log (over_bucket parse_url options random (visiting input)) ev s)))"
proof -
  have here: "fst s = fst s \<and> K (snd (snd s))" using assms(2) by simp
  note D = front_settledD [OF lifted_settled [OF assms(1)] here]
  show "rx_now (over_bucket parse_url options random (visiting input)) s = (t, s') \<Longrightarrow> fst s' = fst s \<and> K (snd (snd s'))"
    by (rule D(1))
  show "rx_wall (over_bucket parse_url options random (visiting input)) s = (t, s') \<Longrightarrow> fst s' = fst s \<and> K (snd (snd s'))"
    by (rule D(2))
  show "fst (rx_log (over_bucket parse_url options random (visiting input)) ev s) = fst s"
    "K (snd (snd (rx_log (over_bucket parse_url options random (visiting input)) ev s)))"
    using D(4) by blast+
qed

lemma built_checkpoint:
  assumes "front_settled input K C E" "K (snd (snd s))"
    and "buildCheckpoint (over_bucket parse_url options random (visiting input)) found completed pages slug startedAt status s = (c, s')"
  shows "ck_pages c = pages \<and> ck_status c = status \<and> fst s' = fst s \<and> K (snd (snd s'))"
proof -
  let ?I = "over_bucket parse_url options random (visiting input)"
  obtain t where now: "rx_now ?I s = (t, s')" and c: "ck_pages c = pages" "ck_status c = status"
    using assms(3) by (auto simp: buildCheckpoint_def split: prod.splits)
  with lifted_quiet(1) [OF assms(1,2) now] show ?thesis by simp
qed

lemma page_checkpoint_linked:
  assumes front: "front_settled input K C E" and "K (snd (snd s))" and key: "object_key parse_url options slug = Inr key"
    and "distinct (map fst pages)" "linked etag (fst s key)"
    and "writePageCheckpoint (over_bucket parse_url options random (visiting input)) etag completed pages slug startedAt s = (etag', s')"
  shows "linked etag' (fst s' key) \<and> K (snd (snd s'))"
proof -
  let ?I = "over_bucket parse_url options random (visiting input)"
  obtain c s1 where c: "buildCheckpoint ?I None completed pages slug startedAt CkRunning s = (c, s1)" by (metis prod.exhaust)
  note built = built_checkpoint [OF front assms(2) c]
  obtain r s2 where w: "rx_write ?I c etag slug s1 = (r, s2)" by (metis prod.exhaust)
  have "distinct_pages c" "linked etag (fst s1 key)" using built assms(4,5) by (simp_all add: distinct_pages_def)
  note written = write_linked [OF key this w]
  then have K: "K (snd (snd s2))" using built by simp
  show ?thesis
    using assms(5,6) c w built written K lifted_quiet(3,4) [OF front K]
    by (auto simp: writePageCheckpoint_def split: sum.splits)
qed

lemma final_checkpoint_starts_over:
  assumes front: "front_settled input K C E" and "K (snd (snd s))" and key: "object_key parse_url options slug = Inr key"
    and "distinct (map fst (ls_pages st))" "linked (ls_etag st) (fst s key)"
    and "writeFinalCheckpoint (over_bucket parse_url options random (visiting input)) st found slug startedAt s = s'"
  shows "starts_over (Option.bind (fst s' key) parseCheckpoint) \<and> K (snd (snd s'))"
proof -
  let ?I = "over_bucket parse_url options random (visiting input)"
  obtain c s1 where c: "buildCheckpoint ?I (Some found) (ls_lastCompletedPage st) (ls_pages st) slug startedAt CkComplete s = (c, s1)"
    by (metis prod.exhaust)
  note built = built_checkpoint [OF front assms(2) c]
  obtain r s2 where w: "rx_write ?I c (ls_etag st) slug s1 = (r, s2)" by (metis prod.exhaust)
  have "distinct_pages c" "linked (ls_etag st) (fst s1 key)" using built assms(4,5) by (simp_all add: distinct_pages_def)
  note written = write_linked [OF key this w]
  then have K: "K (snd (snd s2))" using built by simp
  show ?thesis
    using assms(6) c w built written K lifted_quiet(3,4) [OF front K]
    by (auto simp: writeFinalCheckpoint_def starts_over_def holds_progress_def progress_def
        split: sum.splits option.splits)
qed

lemma evidence_keeps_front:
  assumes "front_settled input K C E" "K s"
  shows "K (writeEvidence input sm s)"
proof -
  have logged: "K (logged_write input q)" if "K (snd q)" for q
    using front_settledD(4) [OF assms(1) that] that
    by (cases q) (auto simp: logged_write_def split: sum.split)
  then show ?thesis
    using front_settledD(5,6) [OF assms(1)] assms(2)
    by (auto simp: writeEvidence_def Let_def split: option.split intro!: logged)
qed

lemma fresh_start:
  assumes front: "front_settled input K C E" and "K (snd (snd s))" and key: "object_key parse_url options slug = Inr key"
    and "starts_over (Option.bind (fst s key) parseCheckpoint)"
  shows "\<exists>st s'. buildLoopState (over_bucket parse_url options random (visiting input)) slug s = (Inr st, s') \<and>
    fst s' = fst s \<and> fst (snd s') = fst (snd s) \<and> K (snd (snd s')) \<and> linked (ls_etag st) (fst s key) \<and>
    ls_lastCompletedPage st = 0 \<and> ls_pages st = [] \<and> dr_ok (ls_report st) \<and> ls_rawStorage st = [] \<and> ls_staging st = []"
proof -
  let ?I = "over_bucket parse_url options random (visiting input)"
  have read: "rx_read ?I slug s = (case b of
        None \<Rightarrow> (Inr no_result, s)
      | Some t \<Rightarrow> (case parseCheckpoint t of None \<Rightarrow> (Inr no_result, s)
          | Some c \<Rightarrow> (Inr \<lparr>rd_checkpoint = Some c, rd_etag = Some t\<rparr>, s)))" if "fst s key = b" for b
    using that by (cases s) (simp add: over_bucket_def on_bucket_def readCheckpoint_def key bucket_sender_def bucket_get_def
        isNotFound_def split: option.split)
  have resolve: "\<exists>r s1. resolveResumeState ?I slug s = (Inr r, s1) \<and> rm_startPage r = 1 \<and> rm_pages r = [] \<and>
      linked (rm_etag r) (fst s key) \<and> (s1 = s \<or> (\<exists>ev. s1 = rx_log ?I ev s))"
    using assms(4) read [OF refl]
    by (auto simp: resolveResumeState_def startFresh_def FIRST_PAGE_def no_result_def linked_def starts_over_def
        simp del: split_paired_Ex split: option.splits)
  then obtain r s1 where r: "resolveResumeState ?I slug s = (Inr r, s1)" "rm_startPage r = 1" "rm_pages r = []"
    "linked (rm_etag r) (fst s key)" and s1: "s1 = s \<or> (\<exists>ev. s1 = rx_log ?I ev s)" by blast
  have kept: "fst s1 = fst s" "fst (snd s1) = fst (snd s)" "K (snd (snd s1))"
    using s1 lifted_quiet(3,4) [OF front assms(2)] assms(2) by (auto simp: over_bucket_def visiting_def)
  obtain wall s2 where wall: "rx_wall ?I s1 = (wall, s2)" by (metis prod.exhaust)
  have "fst s2 = fst s \<and> K (snd (snd s2))"
    using lifted_quiet(2) [OF front kept(3) wall] kept by simp
  moreover have "fst (snd s2) = fst (snd s)"
    using bucket_visits.clock_eqs(2) [OF wall] kept by simp
  ultimately show ?thesis
    using r by (simp add: buildLoopState_def wall FIRST_PAGE_def emptyDiscoveryReport_def)
qed

subsection \<open>Its runs\<close>

definition nothing_recorded :: "nat \<Rightarrow> run_summary \<Rightarrow> bool" where
  "nothing_recorded code sm \<longleftrightarrow> code = 0 \<and> su_status sm = Some RunComplete \<and>
     all_known_page (su_rawStorage sm) (su_staging sm)"

lemma known_summary:
  assumes "dr_ok (ls_report st)" "\<not> ls_reachedMaxPages st" "all_known_page (ls_rawStorage st) (ls_staging st)"
  shows "run_status_of st = RunComplete \<and>
    nothing_recorded (summary_exit_code (summary_of input st startedAt finishedAt)) (summary_of input st startedAt finishedAt)"
proof -
  have status: "run_status_of st = RunComplete"
    using assms(1,2) by (auto simp: run_status_of_def deriveRunStatus_def deriveDiscoveredLastPage_def)
  then show ?thesis
    using assms(1,3)
    by (auto simp: nothing_recorded_def all_known_page_def summary_exit_code_def summary_of_def base_summary_def Let_def
        collect_empty_iff runExitCode_def list_all_iff)
qed

lemma front_loop:
  assumes front: "front_run parse_url options input K C E" and "K (snd (snd s))"
    and key: "object_key parse_url options (run_slug (rx_sourceUrl input)) = Inr key"
    and start: "linked (ls_etag st) (fst s key)" "ls_lastCompletedPage st = 0" "ls_pages st = []"
      "dr_ok (ls_report st)" "ls_rawStorage st = []" "ls_staging st = []"
    and I_def: "I = over_bucket parse_url options random (visiting input)"
  shows "\<exists>st' rt' s'. runPageLoop I (run_slug (rx_sourceUrl input)) startedAt st (buildRunRuntime I) s =
      Some (Inr (AllDuplicate, st', rt'), s') \<and>
    fst (snd s') = fst (snd s) @ [toPageUrl (rx_sourceUrl input) 1] \<and> K (snd (snd s')) \<and>
    linked (ls_etag st') (fst s' key) \<and> distinct (map fst (ls_pages st')) \<and> dr_ok (ls_report st') \<and>
    \<not> ls_reachedMaxPages st' \<and> all_known_page (ls_rawStorage st') (ls_staging st')"
proof -
  let ?slug = "run_slug (rx_sourceUrl input)"
  note parts = front [unfolded front_run_def]
  have bare: "front_settled input K C E" using parts by simp
  have settled: "front_settled I (\<lambda>x. fst x = fst s \<and> K (snd (snd x))) C E"
    using lifted_settled parts unfolding I_def by blast
  have "\<not> beyond_cap input 1" using parts by (auto simp: beyond_cap_def split: option.split)
  with parts have fair: "serves_in_turn I" "0 < rx_concurrency I" "\<not> beyond_cap I 1" by (simp_all add: I_def)
  have speed: "full_speed I (buildRunRuntime I)" using full_speed_start [of I] by simp
  obtain st1 rt1 s1 s2 where body: "page_body I ?slug startedAt 1 st (buildRunRuntime I) s = Some (Inr (Some AllDuplicate, st1, rt1), s2)"
    and s1: "fst s1 = fst s" "K (snd (snd s1))"
    and w: "writePageCheckpoint I (ls_etag st) 1 (ls_pages st1) ?slug startedAt s1 = (ls_etag st1, s2)"
    and st1: "dr_ok (ls_report st1)" "distinct (map fst (ls_pages st1))" "all_known_page (ls_rawStorage st1) (ls_staging st1)"
    using front_body [OF settled _ fair(1,2) speed, of s ?slug startedAt st] assms(2) start
    by (auto simp: update_keys)
  have linked: "linked (ls_etag st1) (fst s2 key) \<and> K (snd (snd s2))"
    using page_checkpoint_linked [OF bare s1(2) key st1(2) _ w [unfolded I_def]] start(1) s1(1) by simp
  have asked: "fst (snd s2) = fst (snd s) @ [toPageUrl (rx_sourceUrl input) 1]"
    using bucket_visits.body_asks [OF body [unfolded I_def]] by simp
  have "runPageLoop I ?slug startedAt st (buildRunRuntime I) s = Some (Inr (AllDuplicate, st1\<lparr>ls_reachedMaxPages := False\<rparr>, rt1), s2)"
    using page_loop_next [OF body fair(3)] start(2) by (simp add: runPageLoop_def FIRST_PAGE_def)
  with linked asked st1 show ?thesis
    by - (rule exI [of _ "st1\<lparr>ls_reachedMaxPages := False\<rparr>"], rule exI [of _ rt1], rule exI [of _ s2], simp)
qed

lemma front_assembled:
  assumes front: "front_settled input K C E" and "K (snd (snd s))" and key: "object_key parse_url options slug = Inr key"
    and st: "distinct (map fst (ls_pages st))" "dr_ok (ls_report st)" "\<not> ls_reachedMaxPages st"
      "all_known_page (ls_rawStorage st) (ls_staging st)" "linked (ls_etag st) (fst s key)"
    and run: "assembleResult (over_bucket parse_url options random (visiting input)) st slug startedAt s = (r, s')"
  shows "nothing_recorded (fst r) (snd r) \<and> K (snd (snd s')) \<and> starts_over (Option.bind (fst s' key) parseCheckpoint) \<and>
    fst (snd s') = fst (snd s)"
proof -
  let ?I = "over_bucket parse_url options random (visiting input)"
  obtain s1 where final: "writeFinalCheckpoint ?I st (deriveDiscoveredLastPage st) slug startedAt s = s1" by blast
  have s1: "starts_over (Option.bind (fst s1 key) parseCheckpoint)" "K (snd (snd s1))"
    using final_checkpoint_starts_over [OF front assms(2) key st(1,5) final] by simp_all
  obtain t s2 where now: "rx_now ?I s1 = (t, s2)" by (metis prod.exhaust)
  have s2: "fst s2 = fst s1" "K (snd (snd s2))" using lifted_quiet(1) [OF front s1(2) now] by simp_all
  let ?sm = "summary_of ?I st startedAt (toISOString t)"
  note known = known_summary [OF st(2-4), where input = ?I and startedAt = startedAt and finishedAt = "toISOString t"]
  have out: "r = (summary_exit_code ?sm, ?sm)"
    "s' = writeEvidence ?I ?sm (rx_log ?I (RunDone RunComplete (su_counts ?sm)) s2)"
    using run final known now by (simp_all add: assembleResult_def Let_def)
  have s3: "fst (rx_log ?I (RunDone RunComplete (su_counts ?sm)) s2) = fst s1"
    "K (snd (snd (rx_log ?I (RunDone RunComplete (su_counts ?sm)) s2)))"
    using lifted_quiet(3,4) [OF front s2(2)] s2(1) by simp_all
  have "fst s' = fst s1 \<and> K (snd (snd s'))"
    unfolding out(2) by (rule evidence_keeps_front [OF lifted_settled [OF front]]) (simp add: s3)
  then show ?thesis
    using out(1) known s1(1) bucket_visits.assemble_asks [OF run] by simp
qed

lemma front_run_once:
  assumes front: "front_run parse_url options input K C E" and "K w"
    and over: "starts_over (stored_in parse_url options (run_slug (rx_sourceUrl input)) b)"
  shows "\<exists>code sm b' w'. runOnce (over_bucket parse_url options random (visiting input)) (b, (us, w)) =
      Some (Inr (code, sm), (b', (us @ [toPageUrl (rx_sourceUrl input) 1], w'))) \<and>
    nothing_recorded code sm \<and> K w' \<and> starts_over (stored_in parse_url options (run_slug (rx_sourceUrl input)) b')"
proof -
  let ?slug = "run_slug (rx_sourceUrl input)" and ?I = "over_bucket parse_url options random (visiting input)"
  note parts = front [unfolded front_run_def]
  have settled: "front_settled input K C E" using parts by simp
  obtain key where key: "object_key parse_url options ?slug = Inr key"
    using parts by (cases "object_key parse_url options ?slug") auto
  have stored: "stored_in parse_url options ?slug x = Option.bind (x key) parseCheckpoint" for x
    by (simp add: stored_in_def key)
  let ?s = "(b, (us, w))"
  have Kw: "K (snd (snd ?s))" using assms(2) by simp
  obtain t s1 where now: "rx_now ?I ?s = (t, s1)" by (metis prod.exhaust)
  have s1: "fst s1 = b" "fst (snd s1) = us" "K (snd (snd s1))"
    using lifted_quiet(1) [OF settled Kw now] bucket_visits.clock_eqs(1) [OF now] by simp_all
  obtain s2 where logged: "rx_log ?I (RunStart (rx_runId ?I) ?slug) s1 = s2" by blast
  then have s2: "fst s2 = b" "fst (snd s2) = us" "K (snd (snd s2))"
    using lifted_quiet(3,4) [OF settled s1(3)] s1 bucket_visits.log_keeps by blast+
  have fresh: "starts_over (Option.bind (fst s2 key) parseCheckpoint)" using over s2(1) by (simp add: stored)
  obtain st s3 where start: "buildLoopState ?I ?slug s2 = (Inr st, s3)"
    and s3: "fst s3 = b" "fst (snd s3) = us" "K (snd (snd s3))" "linked (ls_etag st) (b key)"
    and st: "ls_lastCompletedPage st = 0" "ls_pages st = []" "dr_ok (ls_report st)" "ls_rawStorage st = []" "ls_staging st = []"
    using fresh_start [OF settled s2(3) key fresh] unfolding s2(1,2) by blast
  obtain st1 rt1 s4 where loop: "runPageLoop ?I ?slug (toISOString t) st (buildRunRuntime ?I) s3 = Some (Inr (AllDuplicate, st1, rt1), s4)"
    and s4: "fst (snd s4) = us @ [toPageUrl (rx_sourceUrl input) 1]" "K (snd (snd s4))" "linked (ls_etag st1) (fst s4 key)"
    and st1: "distinct (map fst (ls_pages st1))" "dr_ok (ls_report st1)" "\<not> ls_reachedMaxPages st1"
      "all_known_page (ls_rawStorage st1) (ls_staging st1)"
    using front_loop [OF front s3(3) key _ st refl, of random "toISOString t"] s3(1,2,4) by auto
  obtain r s5 where assembled: "assembleResult ?I st1 ?slug (toISOString t) s4 = (r, s5)" by (metis prod.exhaust)
  from front_assembled [OF settled s4(2) key st1 s4(3) assembled]
  have after: "nothing_recorded (fst r) (snd r)" "K (snd (snd s5))" "starts_over (stored_in parse_url options ?slug (fst s5))"
    "fst (snd s5) = us @ [toPageUrl (rx_sourceUrl input) 1]"
    using s4(1) by (simp_all add: stored)
  have "runOnce ?I ?s = Some (Inr (fst r, snd r), s5)"
    using now logged start loop assembled by (simp add: runOnce_def Let_def)
  with after show ?thesis
    by (metis prod.collapse)
qed

subsection \<open>Any number of runs\<close>

primrec runs_in_turn :: "'s run_input list \<Rightarrow> 's \<Rightarrow> ((nat \<times> run_summary) list \<times> 's) option" where
  "runs_in_turn [] s = Some ([], s)"
| "runs_in_turn (input # inputs) s = (case runOnce input s of
       Some (Inr r, s) \<Rightarrow> map_option (apfst (Cons r)) (runs_in_turn inputs s)
     | _ \<Rightarrow> None)"

text \<open>
  C36: a first page on which everything is known hides the rest of the listing for good. Take any
  number of runs of one source, one after another over the same checkpoint store, each with its own
  options and surroundings. Suppose that page 1 stays readable and every replay on it stays stored and
  staged (\<open>front_run\<close> with \<open>K\<close>), and that the first of the runs does not resume. Then each run asks for
  page 1 and no other page, exits with code 0, is \<open>complete\<close>, and has found every raw object and every
  staged row there already. So a replay of a later page that an earlier run failed to fetch is not
  tried again until something new appears on page 1, and no run says so.
\<close>

theorem front_page_hides_the_rest:
  assumes "\<forall>input\<in>set inputs. rx_sourceUrl input = source \<and> front_run parse_url options input K C E"
    and "K w" "starts_over (stored_in parse_url options (run_slug source) b)"
  shows "case runs_in_turn (map (\<lambda>input. over_bucket parse_url options random (visiting input)) inputs) (b, (us, w)) of
      None \<Rightarrow> False
    | Some (rs, (b', (us', w'))) \<Rightarrow>
        us' = us @ replicate (length inputs) (toPageUrl source 1) \<and> length rs = length inputs \<and>
        list_all (\<lambda>(code, sm). code = 0 \<and> su_status sm = Some RunComplete \<and>
          list_all (\<lambda>r. result_status r = RawSkipped) (su_rawStorage sm) \<and>
          list_all (\<lambda>g. sr_status g = AlreadyStaged) (su_staging sm)) rs"
  using assms
proof (induction inputs arbitrary: b us w)
  case (Cons input inputs)
  have here: "front_run parse_url options input K C E" "rx_sourceUrl input = source" using Cons.prems(1) by simp_all
  obtain code sm b' w' where run: "runOnce (over_bucket parse_url options random (visiting input)) (b, (us, w)) =
      Some (Inr (code, sm), (b', (us @ [toPageUrl source 1], w')))"
    and left: "nothing_recorded code sm" "K w'" "starts_over (stored_in parse_url options (run_slug source) b')"
    using front_run_once [OF here(1) Cons.prems(2), of b random us] Cons.prems(3) unfolding here(2) by blast
  from Cons.IH [OF _ left(2,3), of "us @ [toPageUrl source 1]"] Cons.prems(1) run left(1) show ?case
    by (auto simp: nothing_recorded_def all_known_page_def apfst_def map_prod_def split: option.splits)
qed simp

definition page_one_kept :: "tiny_world \<Rightarrow> bool" where
  "page_one_kept w \<longleftrightarrow> ''A'' \<in> set (tw_stored w) \<and> ''A'' \<in> set (tw_staged w)"

lemma tiny_front:
  "front_run example_parse example_store_options (tiny_input None) page_one_kept {tiny_candidate ''A''} {tiny_evidence ''A'' RawSkipped}"
proof -
  have "front_settled (tiny_input None) page_one_kept {tiny_candidate ''A''} {tiny_evidence ''A'' RawSkipped}"
    by (simp add: front_settled_def page_one_kept_def tiny_discover_def tiny_store_def tiny_stage_def tiny_urls
        buildReport_def Let_def tiny_evidence_def tiny_candidate_def)
  then show ?thesis
    by (simp add: front_run_def tiny_in_turn example_key)
qed

lemma front_page_hides_the_rest_witness:
  "case runs_in_turn (map (\<lambda>input. over_bucket example_parse example_store_options (\<lambda>_. 0) (visiting input))
        [tiny_input None, tiny_input None])
      (Map.empty, ([], tiny_start\<lparr>tw_stored := [''A''], tw_staged := [''A'']\<rparr>)) of
      None \<Rightarrow> False
    | Some (rs, (b', (us', w'))) \<Rightarrow>
        us' = [tiny_source, tiny_source] \<and> length rs = 2 \<and>
        list_all (\<lambda>(code, sm). code = 0 \<and> su_status sm = Some RunComplete \<and>
          list_all (\<lambda>r. result_status r = RawSkipped) (su_rawStorage sm) \<and>
          list_all (\<lambda>g. sr_status g = AlreadyStaged) (su_staging sm)) rs"
proof -
  have "starts_over (stored_in example_parse example_store_options (run_slug tiny_source) Map.empty)"
    by (simp add: stored_in_def example_key starts_over_def)
  then have "starts_over (stored_in example_parse example_store_options (run_slug tiny_source) Map.empty)"
    "page_one_kept (tiny_start\<lparr>tw_stored := [''A''], tw_staged := [''A'']\<rparr>)"
    "\<forall>input\<in>set [tiny_input None, tiny_input None]. rx_sourceUrl input = tiny_source \<and>
      front_run example_parse example_store_options input page_one_kept {tiny_candidate ''A''} {tiny_evidence ''A'' RawSkipped}"
    using tiny_front by (simp_all add: page_one_kept_def)
  note result = front_page_hides_the_rest [OF this(3,2,1), where random = "\<lambda>_. 0" and us = "[]"]
  have two: "length [tiny_input None, tiny_input None] = 2" by simp
  have addresses: "replicate 2 (toPageUrl tiny_source 1) = [tiny_source, tiny_source]"
    using tiny_urls(2) by (simp add: numeral_2_eq_2)
  show ?thesis using result unfolding append_Nil two addresses .
qed

end
