(* ===== verification/Run_Records.thy ===== *)
theory Run_Records
  imports Run_Results
begin

text \<open>
  A run that succeeds has recorded everything it discovered. The contract between a run and its
  surroundings is the locale \<open>recording_run\<close>: a result that staging reports as successful is recorded, what
  is recorded stays, and a stored result belongs to its candidate. The run over the real store step and
  the real repository, with any other surroundings, satisfies it.
\<close>

subsection \<open>One page\<close>

definition staged_ok :: "staging_result \<Rightarrow> bool" where
  "staged_ok g \<longleftrightarrow> sr_status g \<in> {Staged, AlreadyStaged}"

definition belongs :: "(replay_candidate \<Rightarrow> store_result \<Rightarrow> bool) \<Rightarrow> replay_candidate \<Rightarrow> task \<Rightarrow> bool" where
  "belongs fits c t \<longleftrightarrow> (case t of
       StagingOf r \<Rightarrow> fits c r
     | Done (Inr (Settled r g)) \<Rightarrow> fits c r
     | _ \<Rightarrow> True)"

lemma task_step_belongs:
  assumes "\<And>s r s'. ic_store calls c s = (Inr r, s') \<Longrightarrow> fits c r" "belongs fits c t"
  shows "belongs fits c (fst (task_step calls c t s))"
  using assms
  by (cases t) (auto simp: task_step_def belongs_def split: option.splits prod.splits sum.splits bool.splits)

lemma page_run_belongs:
  assumes "\<And>c s r s'. ic_store calls c s = (Inr r, s') \<Longrightarrow> fits c r" "i < length cs"
  shows "belongs fits (cs ! i) (pm_tasks (page_run calls concurrency cs s schedule) ! i)"
proof -
  have turn: "belongs fits (cs ! i) (pm_tasks (page_turn calls concurrency cs m j) ! i)"
    if "belongs fits (cs ! i) (pm_tasks m ! i)" "i < length (pm_tasks m)" for m j
  proof (cases "j = i")
    case True
    with that task_step_belongs [of calls "cs ! i" fits "pm_tasks m ! i" "pm_world m"] assms(1)
    show ?thesis by (auto simp: page_turn_def belongs_def split: prod.splits)
  next
    case False
    with that show ?thesis by (simp add: page_turn_other)
  qed
  have "belongs fits (cs ! i) (pm_tasks (foldl (page_turn calls concurrency cs) m schedule) ! i)"
    if "belongs fits (cs ! i) (pm_tasks m ! i)" "i < length (pm_tasks m)" for m
    using that by (induction schedule arbitrary: m) (simp_all add: turn)
  from this [of "page_start cs s"] assms(2) show ?thesis
    by (simp add: page_run_def page_start_def belongs_def)
qed

subsection \<open>The contract\<close>

locale recording_run =
  fixes input :: "'s run_input" and recorded :: "'s \<Rightarrow> store_result \<Rightarrow> bool"
    and fits :: "replay_candidate \<Rightarrow> store_result \<Rightarrow> bool"
  assumes store_fits: "rx_store input c s = (Inr r, s') \<Longrightarrow> fits c r"
    and stage_records: "rx_stage input i r s = (Inr g, s') \<Longrightarrow> sr_status g \<in> {Staged, AlreadyStaged} \<Longrightarrow> recorded s' r"
    and stage_keeps: "recorded s q \<Longrightarrow> recorded (snd (rx_stage input i r s)) q"
    and store_keeps: "recorded s q \<Longrightarrow> recorded (snd (rx_store input c s)) q"
    and discover_keeps: "recorded s q \<Longrightarrow> recorded (snd (rx_discover input u s)) q"
    and now_keeps: "recorded s q \<Longrightarrow> recorded (snd (rx_now input s)) q"
    and wall_keeps: "recorded s q \<Longrightarrow> recorded (snd (rx_wall input s)) q"
    and sleep_keeps: "recorded s q \<Longrightarrow> recorded (rx_sleep input d s) q"
    and log_keeps: "recorded s q \<Longrightarrow> recorded (rx_log input ev s) q"
    and write_keeps: "recorded s q \<Longrightarrow> recorded (snd (rx_write input ck etag slug s)) q"
    and evidence_keeps: "rx_evidenceStore input = Some w \<Longrightarrow> recorded s q \<Longrightarrow> recorded (snd (w nm sm s)) q"
    and evidence_file_keeps: "rx_writeEvidenceFile input = Some w \<Longrightarrow> recorded s q \<Longrightarrow> recorded (snd (w nm sm s)) q"

sublocale recording_run \<subseteq> page: recording_world "run_calls input" recorded
  by unfold_locales (auto simp: run_calls_def intro: stage_records stage_keeps store_keeps)

context recording_run begin

definition accounted :: "loop_state \<Rightarrow> 's \<Rightarrow> bool" where
  "accounted st s \<longleftrightarrow>
     list_all2 fits (dr_candidates (ls_report st)) (ls_rawStorage st) \<and>
     list_all2 (\<lambda>r g. staged_ok g \<longrightarrow> recorded s r) (ls_rawStorage st) (ls_staging st)"

lemma accounted_mono:
  "accounted st s \<Longrightarrow> (\<And>q. recorded s q \<Longrightarrow> recorded s' q) \<Longrightarrow> accounted st s'"
  unfolding accounted_def by (auto elim!: list_all2_mono)

lemma ingest_accounted:
  assumes "ingestPage (run_calls input) limit cs s schedule = Some (Inr r, s')"
  shows "list_all2 fits cs (pr_rawStorage r)"
    and "list_all2 (\<lambda>q g. staged_ok g \<longrightarrow> recorded s' q) (pr_rawStorage r) (pr_staging r)"
    and "recorded s q \<Longrightarrow> recorded s' q"
proof -
  let ?m = "page_run (run_calls input) limit cs s schedule"
  from ingest_settled [OF assms] obtain vs where ts: "pm_tasks ?m = map (\<lambda>v. Done (Inr v)) vs"
    and len: "length vs = length cs" and s': "s' = pm_world ?m"
    and raws: "pr_rawStorage r = raws_of vs" "pr_staging r = stagings_of vs" by auto
  have settled: "\<exists>q g. vs ! i = Settled q g \<and> fits (cs ! i) q \<and> (staged_ok g \<longrightarrow> recorded s' q)" if i: "i < length cs" for i
  proof (cases "vs ! i")
    case Skipped
    with i len ts page_run_skips [of "run_calls input" cs limit s schedule] show ?thesis
      by (auto simp: skips_fit_def prefetch_check_def run_calls_def Let_def)
  next
    case (Settled q g)
    have "fits (cs ! i) q"
      using page_run_belongs [of "run_calls input" fits i cs limit s schedule] store_fits i ts len Settled
      by (auto simp: run_calls_def belongs_def)
    moreover have "Done (Inr (Settled q g)) \<in> set (pm_tasks ?m)"
      using i len Settled unfolding ts by (metis (no_types, lifting) length_map nth_map nth_mem)
    then have "staged_ok g \<longrightarrow> recorded s' q"
      using page.page_run_recorded [of limit cs s schedule] unfolding page.settled_recorded_def staged_ok_def s' by blast
    ultimately show ?thesis using Settled by simp
  qed
  have "list_all2 (\<lambda>c v. \<exists>q g. v = Settled q g \<and> fits c q \<and> (staged_ok g \<longrightarrow> recorded s' q)) cs vs"
    using settled len by (simp add: list_all2_conv_all_nth)
  then have "list_all2 fits cs (raws_of vs) \<and> list_all2 (\<lambda>q g. staged_ok g \<longrightarrow> recorded s' q) (raws_of vs) (stagings_of vs)"
    by (induction rule: list_all2_induct) (auto simp: raws_of_def stagings_of_def)
  with raws show "list_all2 fits cs (pr_rawStorage r)"
    "list_all2 (\<lambda>q g. staged_ok g \<longrightarrow> recorded s' q) (pr_rawStorage r) (pr_staging r)" by simp_all
  show "recorded s q \<Longrightarrow> recorded s' q"
    unfolding s' by (rule page_run_keeps) (auto simp: run_calls_def intro: store_keeps stage_keeps)
qed

text \<open>Every other call keeps what is recorded.\<close>

lemma surroundings_keep:
  "rx_now input s = (n, s') \<Longrightarrow> recorded s q \<Longrightarrow> recorded s' q"
  "rx_wall input s = (n, s') \<Longrightarrow> recorded s q \<Longrightarrow> recorded s' q"
  "rx_discover input u s = (d, s') \<Longrightarrow> recorded s q \<Longrightarrow> recorded s' q"
  "rx_write input ck etag slug s = (e, s') \<Longrightarrow> recorded s q \<Longrightarrow> recorded s' q"
  using now_keeps wall_keeps discover_keeps write_keeps by (metis snd_conv)+

lemma pacer_keeps: "pacer_wait input rt s = (rt', s') \<Longrightarrow> recorded s q \<Longrightarrow> recorded s' q"
  by (auto simp: pacer_wait_def Let_def split: prod.splits if_splits dest: surroundings_keep(2) intro: sleep_keeps)

lemma page_checkpoint_keeps:
  "writePageCheckpoint input etag page pages slug startedAt s = (e, s') \<Longrightarrow> recorded s q \<Longrightarrow> recorded s' q"
  by (auto simp: writePageCheckpoint_def buildCheckpoint_def Let_def split: prod.splits sum.splits
      dest: surroundings_keep(1,4) intro: log_keeps)

lemma final_checkpoint_keeps:
  "recorded s q \<Longrightarrow> recorded (writeFinalCheckpoint input st page slug startedAt s) q"
  by (auto simp: writeFinalCheckpoint_def buildCheckpoint_def Let_def split: prod.splits sum.splits
      dest: surroundings_keep(1,4) intro: log_keeps)

lemma logged_write_keeps: "recorded (snd r) q \<Longrightarrow> recorded (logged_write input r) q"
  by (cases r) (auto simp: logged_write_def intro: log_keeps split: sum.split)

lemma write_evidence_keeps: "recorded s q \<Longrightarrow> recorded (writeEvidence input sm s) q"
proof -
  assume rec: "recorded s q"
  define sa where "sa = (case rx_evidenceStore input of
                 Some w \<Rightarrow> if rx_emitEvidence input then logged_write input (w (rx_runId input) sm s) else s
               | None \<Rightarrow> s)"
  have "recorded sa q"
    using rec by (auto simp: sa_def intro!: logged_write_keeps split: option.split) (rule evidence_keeps)
  then have "recorded (case (rx_evidenceFile input, rx_writeEvidenceFile input) of
           (Some path, Some w) \<Rightarrow> logged_write input (w path sm sa) | _ \<Rightarrow> sa) q"
    by (auto intro!: logged_write_keeps split: option.split) (rule evidence_file_keeps)
  then show ?thesis unfolding writeEvidence_def sa_def Let_def .
qed

lemma assemble_keeps: "recorded s q \<Longrightarrow> recorded (snd (assembleResult input st slug startedAt s)) q"
  by (auto simp: assembleResult_def Let_def split: prod.splits
      intro!: write_evidence_keeps log_keeps dest!: surroundings_keep(1) intro: final_checkpoint_keeps)

subsection \<open>The loop\<close>

lemma complete_accounted:
  assumes run: "completeOkPage input slug startedAt page cs st rt s = Some (Inr (etag, counts, st1, rt1), s1)"
    and before: "accounted st0 s" "ls_rawStorage st = ls_rawStorage st0" "ls_staging st = ls_staging st0"
      "dr_candidates (ls_report st) = dr_candidates (ls_report st0) @ cs"
  shows "accounted st1 s1"
proof -
  obtain n1 sa where a: "rx_now input s = (n1, sa)" by (rule prod.exhaust)
  let ?limit = "nat (th_concurrency (onCleanWindow (run_throttle_options input) n1 (rt_throttle rt)))"
  from run a obtain r sb where ingest: "ingestPage (run_calls input) ?limit cs sa (rx_schedule input page (length cs)) = Some (Inr r, sb)"
    by (auto simp: completeOkPage_def processPage_def Let_def split: option.splits sum.splits prod.splits)
  obtain n2 sc where c: "rx_now input sb = (n2, sc)" by (rule prod.exhaust)
  define ts where "ts = ls_pageTimestampsMs st @ [n2]"
  define pages where "pages = AList.update (show_nat page) \<lparr>cp_counts = page_counts_of (pr_counts r), cp_status = ''running''\<rparr> (ls_pages st)"
  define sd where "sd = emitPageRateLine input page ts (page_counts_of (pr_counts r)) sc"
  obtain e se where w: "writePageCheckpoint input (ls_etag st) page pages slug startedAt sd = (e, se)"
    by (rule prod.exhaust)
  from run a ingest c w have st1: "ls_rawStorage st1 = ls_rawStorage st @ pr_rawStorage r"
    "ls_staging st1 = ls_staging st @ pr_staging r" "ls_report st1 = ls_report st" and s1: "s1 = se"
    by (auto simp: completeOkPage_def processPage_def Let_def ts_def pages_def sd_def)
  have first: "recorded sa q" if "recorded s q" for q using surroundings_keep(1) [OF a that] .
  have later: "recorded s1 q" if "recorded sb q" for q
    using that page_checkpoint_keeps [OF w] surroundings_keep(1) [OF c] log_keeps
    by (auto simp: s1 sd_def emitPageRateLine_def)
  have old: "accounted st0 s1"
    using before(1) by (rule accounted_mono) (intro later ingest_accounted(3) [OF ingest] first)
  have new: "list_all2 (\<lambda>q g. staged_ok g \<longrightarrow> recorded s1 q) (pr_rawStorage r) (pr_staging r)"
    using ingest_accounted(2) [OF ingest] by (rule list_all2_mono) (simp add: later)
  show ?thesis
    using old new ingest_accounted(1) [OF ingest] before(2-4)
    by (simp add: accounted_def st1 list_all2_appendI)
qed

lemma page_body_accounted:
  assumes body: "page_body input slug startedAt page st rt s = Some (Inr (stop, st1, rt1), s1)"
    and before: "accounted st s" and ok: "dr_ok (ls_report st1)"
  shows "accounted st1 s1"
proof -
  obtain rt0 sa where a: "pacer_wait input rt s = (rt0, sa)" by (rule prod.exhaust)
  obtain d sb where b: "rx_discover input (toPageUrl (rx_sourceUrl input) page) sa = (d, sb)" by (rule prod.exhaust)
  have "recorded sb q" if "recorded s q" for q
    using surroundings_keep(3) [OF b pacer_keeps [OF a that]] .
  with before have so_far: "accounted st sb" by (rule accounted_mono)
  from body a b obtain rep where d: "d = Inr rep" by (cases d) (auto simp: page_body_def)
  show ?thesis
  proof (cases "dr_ok rep")
    case False
    with body a b d ok show ?thesis
      by (auto simp: page_body_def Let_def appendDiscoveryReport_def split: prod.splits)
  next
    case True
    show ?thesis
    proof (cases "dr_candidates rep = []")
      case True
      with \<open>dr_ok rep\<close> body a b d so_far show ?thesis
        by (auto simp: page_body_def Let_def appendDiscoveryReport_def accounted_def)
    next
      case False
      let ?st = "st\<lparr>ls_report := appendDiscoveryReport (ls_report st) rep\<rparr>"
      from False True body a b d obtain etag counts st2 where
        c: "completeOkPage input slug startedAt page (dr_candidates rep) ?st rt0 sb = Some (Inr (etag, counts, st2, rt1), s1)"
        and st1: "st1 = st2\<lparr>ls_etag := etag, ls_lastCompletedPage := page\<rparr>"
        by (auto simp: page_body_def Let_def split: option.splits sum.splits prod.splits)
      have "accounted st2 s1"
        by (rule complete_accounted [OF c so_far]) (simp_all add: appendDiscoveryReport_def Let_def)
      then show ?thesis by (simp add: st1 accounted_def)
    qed
  qed
qed

lemma page_body_ok_before:
  assumes "page_body input slug startedAt page st rt s = Some (Inr (None, st1, rt1), s1)"
  shows "dr_ok (ls_report st1) = dr_ok (ls_report st)"
  using page_body_Inr [OF assms] by (simp add: page_kept_def)

lemma loop_accounted:
  assumes "page_loop input slug startedAt page st rt s = Some (Inr (why, st', rt'), s')"
    and "accounted st s" "dr_ok (ls_report st)"
  shows "dr_ok (ls_report st') \<longrightarrow> accounted st' s'"
  by (rule page_loop_rule [where I = "\<lambda>page st rt s. accounted st s \<and> dr_ok (ls_report st)"
        and Q = "\<lambda>why st rt s. dr_ok (ls_report st) \<longrightarrow> accounted st s", OF assms(1)])
    (use assms(2,3) in \<open>auto dest: page_body_accounted page_body_ok_before\<close>)

subsection \<open>The run\<close>

lemma start_accounted:
  "buildLoopState input slug s = (Inr st, s') \<Longrightarrow> accounted st s' \<and> dr_ok (ls_report st)"
  by (auto simp: buildLoopState_def accounted_def emptyDiscoveryReport_def Let_def split: prod.splits sum.splits)

lemma summary_candidates: "su_candidates (buildRunSummary input') = dr_candidates (si_discoveryReport input')"
  by (auto simp: buildRunSummary_def withRunMetrics_def withRunStatus_def base_summary_def Let_def
      split: option.splits list.splits prod.splits)

lemma assembled_accounted:
  assumes "assembleResult input st slug startedAt s = ((0, sm), s')" "dr_ok (ls_report st) \<longrightarrow> accounted st s"
  shows "list_all2 (\<lambda>c r. fits c r \<and> recorded s' r) (su_candidates sm) (su_rawStorage sm)"
proof -
  from assembleResult_fst [of input st slug startedAt s] assms(1) obtain a where
    sm: "sm = summary_of input st startedAt a" and code: "summary_exit_code sm = 0" by auto
  from code have all_good: "dr_ok (ls_report st)" "list_all staged_ok (ls_staging st)"
    unfolding sm summary_of_def using summary_ok_exact by (auto simp: Let_def staged_ok_def list_all_iff)
  with assms(2) have acc: "accounted st s" by simp
  have "recorded s q \<Longrightarrow> recorded s' q" for q
    using assemble_keeps [of s q st slug startedAt] assms(1) by simp
  with accounted_mono [OF acc] have "accounted st s'" .
  moreover from this have "list_all2 (\<lambda>r g. recorded s' r) (ls_rawStorage st) (ls_staging st)"
    using all_good(2) unfolding accounted_def by (auto simp: list_all2_conv_all_nth list_all_length)
  ultimately have "list_all2 (\<lambda>c r. fits c r \<and> recorded s' r) (dr_candidates (ls_report st)) (ls_rawStorage st)"
    unfolding accounted_def by (auto simp: list_all2_conv_all_nth)
  then show ?thesis by (simp add: sm summary_of_def summary_candidates)
qed

lemma run_accounted:
  assumes "runOnce input s = Some (Inr (0, sm), s')"
  shows "list_all2 (\<lambda>c r. fits c r \<and> recorded s' r) (su_candidates sm) (su_rawStorage sm)"
proof -
  from assms obtain slug startedAt st0 sa why st rt sb where
    start: "\<exists>s. buildLoopState input slug s = (Inr st0, sa)"
    and loop: "runPageLoop input slug startedAt st0 (buildRunRuntime input) sa = Some (Inr (why, st, rt), sb)"
    and result: "assembleResult input st slug startedAt sb = ((0, sm), s')"
    by (fastforce simp: runOnce_def Let_def split: prod.splits sum.splits option.splits)
  from start start_accounted have st0: "accounted st0 sa" "dr_ok (ls_report st0)" by blast+
  from loop obtain st1 where "page_loop input slug startedAt (ls_lastCompletedPage st0 + FIRST_PAGE) st0
      (buildRunRuntime input) sa = Some (Inr (why, st1, rt), sb)" and st: "st = st1\<lparr>ls_reachedMaxPages := (why = Cap)\<rparr>"
    unfolding runPageLoop_Inr by blast
  from loop_accounted [OF this(1) st0] have "dr_ok (ls_report st) \<longrightarrow> accounted st sb"
    by (simp add: st accounted_def)
  with result show ?thesis by (rule assembled_accounted)
qed

end

subsection \<open>The run over the repository\<close>

text \<open>
  The surroundings of a run with the table beside them. Storing is the real step over the byte client
  and the raw bucket, staging the real step over the repository; everything else works on the surroundings only.
\<close>

definition apart :: "('b \<Rightarrow> 'b) \<Rightarrow> 'b \<times> 'd \<Rightarrow> 'b \<times> 'd" where
  "apart f w = (f (fst w), snd w)"

definition over_database ::
    "(string \<Rightarrow> url option) \<Rightarrow> (bytes \<Rightarrow> string) \<Rightarrow> 'b byte_client \<Rightarrow> 'b raw_sender \<Rightarrow> string
      \<Rightarrow> (replay_candidate \<Rightarrow> string) \<Rightarrow> (nat \<Rightarrow> db_turn) \<Rightarrow> 'b run_input \<Rightarrow> ('b \<times> staging_db) run_input" where
  "over_database parse_url sha256 byte_client sender bucket now env input =
     \<lparr>rx_concurrency = rx_concurrency input, rx_maxPages = rx_maxPages input,
      rx_requestSpacingMs = rx_requestSpacingMs input, rx_resume = rx_resume input,
      rx_runId = rx_runId input, rx_sourceUrl = rx_sourceUrl input,
      rx_now = in_bucket (rx_now input), rx_wall = in_bucket (rx_wall input),
      rx_sleep = (\<lambda>d. apart (rx_sleep input d)), rx_log = (\<lambda>ev. apart (rx_log input ev)),
      rx_read = (\<lambda>slug. in_bucket (rx_read input slug)),
      rx_write = (\<lambda>c etag slug. in_bucket (rx_write input c etag slug)),
      rx_discover = (\<lambda>u. in_bucket (rx_discover input u)),
      rx_store = (\<lambda>c. in_bucket (storeRawReplay parse_url sha256 byte_client sender bucket (now c) c)),
      rx_stage = (\<lambda>i r. in_table (stageRawReplay parse_url sha256 (stage env) r i)),
      rx_schedule = rx_schedule input, rx_emitEvidence = rx_emitEvidence input,
      rx_evidenceStore = map_option (\<lambda>w i sm. in_bucket (w i sm)) (rx_evidenceStore input),
      rx_evidenceFile = rx_evidenceFile input,
      rx_writeEvidenceFile = map_option (\<lambda>w i sm. in_bucket (w i sm)) (rx_writeEvidenceFile input)\<rparr>"

definition result_of :: "replay_candidate \<Rightarrow> store_result \<Rightarrow> bool" where
  "result_of c r \<longleftrightarrow> (case r of
       Evidence e \<Rightarrow> rv_source e = rc_source c \<and> rv_sourceFilename e = rc_filename c
     | FetchFailed f \<Rightarrow> ff_source f = rc_source c \<and> ff_sourceFilename f = rc_filename c)"

lemma s3_store_source:
  "rv_source (fst (s3_storeRawReplay sender bucket i s)) = rc_source (ri_candidate i)"
  "rv_sourceFilename (fst (s3_storeRawReplay sender bucket i s)) = rc_filename (ri_candidate i)"
  by (simp_all add: s3_storeRawReplay_def toBaseEvidence_def Let_def split: prod.split sum.split)

lemma store_result_of:
  "storeRawReplay parse_url sha256 byte_client sender bucket fetchedAt c s = (Inr r, s') \<Longrightarrow> result_of c r"
  by (auto simp: storeRawReplay_def Let_def result_of_def fetch_failure_of_def s3_store_source apfst_def map_prod_def
      case_prod_unfold split: option.splits sum.splits if_splits)

lemma apart_row: "row_for w q \<Longrightarrow> row_for (apart f w) q"
  by (cases w) (auto simp: apart_def row_for_def split: store_result.splits)

interpretation recorded_run: recording_run
    "over_database parse_url sha256 byte_client sender bucket now env input" row_for result_of
  for parse_url sha256 byte_client sender bucket now env input
proof unfold_locales
  fix c s r s'
  assume "rx_store (over_database parse_url sha256 byte_client sender bucket now env input) c s = (Inr r, s')"
  then show "result_of c r"
    by (auto simp: over_database_def in_bucket_def split: prod.splits intro: store_result_of)
qed (auto simp: over_database_def in_table_Inr stageRawReplay_row
  intro: in_table_row in_bucket_row stageRawReplay_extends apart_row)

text \<open>
  C2: a run that exits with 0 has recorded everything. Over the real store step and the real repository,
  whatever the source, the checkpoint store, the clock and the order of the event loop did, and
  whatever other sessions and failing statements did to the table: when \<open>run-once\<close> exits with 0,
  every candidate of its summary has its own raw result, with evidence whose checksum and object key
  are in a row of the staging table at the end.
\<close>

theorem successful_run_records_everything:
  "case runOnce (over_database parse_url sha256 byte_client sender bucket now env input) (w, db) of
     Some (Inr (code, sm), (w', db')) \<Rightarrow>
       if code = 0
       then list_all2 (\<lambda>c r. case r of
              Evidence e \<Rightarrow> rv_source e = rc_source c \<and> rv_sourceFilename e = rc_filename c \<and>
                list_ex (\<lambda>row. sg_checksum row = rv_checksum e \<and> sg_objectKey row = rv_objectKey e) (db_rows db')
            | FetchFailed _ \<Rightarrow> False) (su_candidates sm) (su_rawStorage sm)
       else True
   | _ \<Rightarrow> True"
proof -
  have "list_all2 (\<lambda>c r. case r of
              Evidence e \<Rightarrow> rv_source e = rc_source c \<and> rv_sourceFilename e = rc_filename c \<and>
                list_ex (\<lambda>row. sg_checksum row = rv_checksum e \<and> sg_objectKey row = rv_objectKey e) (db_rows db')
            | FetchFailed _ \<Rightarrow> False) (su_candidates sm) (su_rawStorage sm)"
    if "runOnce (over_database parse_url sha256 byte_client sender bucket now env input) (w, db) = Some (Inr (0, sm), (w', db'))"
    for sm w' db'
    using recorded_run.run_accounted [OF that]
    by (rule list_all2_mono) (auto simp: result_of_def row_for_def same_object_def [abs_def] split: store_result.splits)
  then show ?thesis by (auto split: option.splits sum.splits prod.splits)
qed

end
