(* ===== verification/Pattern_Match.thy ===== *)
theory Pattern_Match
  imports Prelude
begin

text \<open>
  The regular expressions of the language, as far as \<open>src/discovery/html.ts\<close> uses them: sequences of
  atoms, each of which may be captured under a name. An atom is a text (compared without regard to
  case, as the flag \<open>i\<close> asks), one character of a class, a greedy or lazy repetition of a class, a word
  boundary or a reference to an earlier capture.

  Matching is the backtracking search of the language: the lengths that an atom can take are tried in
  the order of its preference, and the first that lets the rest of the sequence match decides. A
  position in the subject is the character before it and the text after it.
\<close>

datatype atom =
    Lit string
  | Class "char \<Rightarrow> bool"
  | Greedy "char \<Rightarrow> bool"
  | Lazy "char \<Rightarrow> bool"
  | Plus "char \<Rightarrow> bool"
  | Boundary
  | Back string

type_synonym pattern = "(string option \<times> atom) list"
type_synonym captures = "(string \<times> string) list"
type_synonym position = "char option \<times> string"

subsection \<open>Matching at a position\<close>

definition is_letter :: "char \<Rightarrow> bool" where
  "is_letter c \<longleftrightarrow> (let n = (of_char c :: nat) in 65 \<le> n \<and> n \<le> 90 \<or> 97 \<le> n \<and> n \<le> 122)"

definition word_char :: "char \<Rightarrow> bool" where
  "word_char c \<longleftrightarrow> is_digit c \<or> is_letter c \<or> c = CHR ''_''"

definition word_at :: "char option \<Rightarrow> bool" where
  "word_at c = (case c of None \<Rightarrow> False | Some c \<Rightarrow> word_char c)"

definition head :: "string \<Rightarrow> char option" where
  "head s = (case s of [] \<Rightarrow> None | c # _ \<Rightarrow> Some c)"

definition folds_to :: "string \<Rightarrow> string \<Rightarrow> bool" where
  "folds_to w s \<longleftrightarrow> length w \<le> length s \<and> to_lower (take (length w) s) = to_lower w"

definition run_length :: "(char \<Rightarrow> bool) \<Rightarrow> string \<Rightarrow> nat" where
  "run_length p s = length (takeWhile p s)"

definition ways :: "atom \<Rightarrow> captures \<Rightarrow> position \<Rightarrow> nat list" where
  "ways a caps pos = (case a of
       Lit w \<Rightarrow> if folds_to w (snd pos) then [length w] else []
     | Class p \<Rightarrow> (case snd pos of [] \<Rightarrow> [] | c # _ \<Rightarrow> if p c then [1] else [])
     | Greedy p \<Rightarrow> rev [0..<Suc (run_length p (snd pos))]
     | Lazy p \<Rightarrow> [0..<Suc (run_length p (snd pos))]
     | Plus p \<Rightarrow> rev [1..<Suc (run_length p (snd pos))]
     | Boundary \<Rightarrow> if word_at (fst pos) \<noteq> word_at (head (snd pos)) then [0] else []
     | Back name \<Rightarrow>
         (let w = (case map_of caps name of Some w \<Rightarrow> w | None \<Rightarrow> []) in
          if folds_to w (snd pos) then [length w] else []))"

definition move :: "nat \<Rightarrow> position \<Rightarrow> position" where
  "move n pos = (if n = 0 then fst pos else Some (snd pos ! (n - 1)), drop n (snd pos))"

definition capture :: "string option \<Rightarrow> string \<Rightarrow> captures \<Rightarrow> captures" where
  "capture name text caps = (case name of None \<Rightarrow> caps | Some k \<Rightarrow> (k, text) # caps)"

fun first_of :: "('a \<Rightarrow> 'b option) \<Rightarrow> 'a list \<Rightarrow> 'b option" where
  "first_of f [] = None"
| "first_of f (x # xs) = (case f x of Some y \<Rightarrow> Some y | None \<Rightarrow> first_of f xs)"

fun match_at :: "pattern \<Rightarrow> captures \<Rightarrow> position \<Rightarrow> (captures \<times> position) option" where
  "match_at [] caps pos = Some (caps, pos)"
| "match_at ((name, a) # rest) caps pos =
     first_of (\<lambda>n. match_at rest (capture name (take n (snd pos)) caps) (move n pos)) (ways a caps pos)"

subsection \<open>Searching a text\<close>

text \<open>\<open>exec\<close> from a position: the text that was skipped, the captures and the end of the match.\<close>

fun search_from :: "pattern \<Rightarrow> string \<Rightarrow> char option \<Rightarrow> string \<Rightarrow> (string \<times> captures \<times> position) option" where
  "search_from p skipped prev s =
     (case match_at p [] (prev, s) of
        Some (caps, end_pos) \<Rightarrow> Some (skipped, caps, end_pos)
      | None \<Rightarrow> (case s of [] \<Rightarrow> None | c # s' \<Rightarrow> search_from p (skipped @ [c]) (Some c) s'))"

declare search_from.simps [simp del]

definition exec :: "pattern \<Rightarrow> string \<Rightarrow> captures option" where
  "exec p s = map_option (fst \<circ> snd) (search_from p [] None s)"

definition group :: "string \<Rightarrow> captures option \<Rightarrow> string option" where
  "group name m = Option.bind m (\<lambda>caps. map_of caps name)"

lemma first_of_Some: "first_of f xs = Some y \<Longrightarrow> \<exists>x \<in> set xs. f x = Some y"
  by (induction xs) (auto split: option.splits)

lemma match_at_shorter: "match_at p caps pos = Some (caps', pos') \<Longrightarrow> length (snd pos') \<le> length (snd pos)"
proof (induction p caps pos rule: match_at.induct)
  case (2 name a rest caps pos)
  then obtain n where "match_at rest (capture name (take n (snd pos)) caps) (move n pos) = Some (caps', pos')"
    by (auto dest: first_of_Some)
  with 2(1) have "length (snd pos') \<le> length (snd (move n pos))" by blast
  then show ?case by (simp add: move_def)
qed simp

lemma search_from_shorter:
  "search_from p skipped prev s = Some (text, caps, pos) \<Longrightarrow> length (snd pos) \<le> length s"
proof (induction p skipped prev s rule: search_from.induct)
  case (1 p skipped prev s)
  show ?case
  proof (cases "match_at p [] (prev, s)")
    case None
    with 1 show ?thesis by (cases s) (auto simp: search_from.simps [of p skipped] le_SucI)
  next
    case (Some r)
    with 1 show ?thesis
      by (cases r) (auto simp: search_from.simps [of p skipped] dest!: match_at_shorter)
  qed
qed

text \<open>
  \<open>matchAll\<close>: the matches from left to right, each with the text between it and the one before, and
  the text after the last. After an empty match the search goes on one character further, and
  that character belongs to the text before the next match.
\<close>

function match_all :: "pattern \<Rightarrow> string \<Rightarrow> char option \<Rightarrow> string \<Rightarrow> (string \<times> captures) list \<times> string" where
  "match_all p skipped prev s =
     (case search_from p skipped prev s of
        None \<Rightarrow> ([], skipped @ s)
      | Some (before, caps, end_prev, rest) \<Rightarrow>
          if length rest < length s
          then apfst (Cons (before, caps)) (match_all p [] end_prev rest)
          else (case rest of
                  [] \<Rightarrow> ([(before, caps)], [])
                | c # rest' \<Rightarrow> apfst (Cons (before, caps)) (match_all p [c] (Some c) rest')))"
  by pat_completeness auto
termination
  by (relation "measure (\<lambda>(p, skipped, prev, s). length s)")
    (auto dest!: search_from_shorter)

declare match_all.simps [simp del]

definition all_captures :: "pattern \<Rightarrow> string \<Rightarrow> captures list" where
  "all_captures p s = map snd (fst (match_all p [] None s))"

definition replace_matches :: "pattern \<Rightarrow> string \<Rightarrow> string \<Rightarrow> string" where
  "replace_matches p new s =
     (case match_all p [] None s of (ms, tail) \<Rightarrow> concat (map (\<lambda>(before, _). before @ new) ms) @ tail)"

subsection \<open>Replacing a text\<close>

text \<open>\<open>replaceAll\<close> of a non-empty text.\<close>

function replace_text :: "string \<Rightarrow> string \<Rightarrow> string \<Rightarrow> string" where
  "replace_text old new s =
     (case s of
        [] \<Rightarrow> []
      | c # rest \<Rightarrow>
          if old \<noteq> [] \<and> starts_with s old then new @ replace_text old new (drop (length old) s)
          else c # replace_text old new rest)"
  by pat_completeness auto
termination
  by (relation "measure (\<lambda>(old, new, s). length s)") auto

declare replace_text.simps [simp del]

subsection \<open>Finding the match\<close>

lemma folds_to_simps [simp]:
  "folds_to [] s" "\<not> folds_to (c # w) []"
  "folds_to (c # w) (d # s) \<longleftrightarrow> lower_char d = lower_char c \<and> folds_to w s"
  by (auto simp: folds_to_def to_lower_def)

lemma folds_to_append [simp]: "folds_to w (w @ s)"
  by (simp add: folds_to_def)

lemma first_of_append:
  "first_of f (xs @ ys) = (case first_of f xs of Some y \<Rightarrow> Some y | None \<Rightarrow> first_of f ys)"
  by (induction xs) (auto split: option.split)

lemma first_of_None: "first_of f xs = None \<longleftrightarrow> (\<forall>x \<in> set xs. f x = None)"
  by (induction xs) (auto split: option.split)

lemma first_of_up:
  assumes "f n = Some y" "\<And>k. k < n \<Longrightarrow> f k = None" "n < m"
  shows "first_of f [0..<m] = Some y"
proof -
  have "[0..<m] = [0..<n] @ n # [Suc n..<m]"
    using assms(3) upt_add_eq_append [of 0 n "m - n"] by (simp add: upt_conv_Cons)
  moreover have "first_of f [0..<n] = None" using assms(2) by (simp add: first_of_None)
  ultimately show ?thesis using assms(1) by (simp add: first_of_append)
qed

lemma first_of_down:
  assumes "f n = Some y" "\<And>k. n < k \<Longrightarrow> k < m \<Longrightarrow> f k = None" "n < m"
  shows "first_of f (rev [0..<m]) = Some y"
proof -
  have "[0..<m] = [0..<n] @ n # [Suc n..<m]"
    using assms(3) upt_add_eq_append [of 0 n "m - n"] by (simp add: upt_conv_Cons)
  moreover have "first_of f (rev [Suc n..<m]) = None" using assms(2) by (simp add: first_of_None)
  ultimately show ?thesis using assms(1) by (simp add: first_of_append)
qed

declare match_at.simps(2) [simp del]

lemma match_lit:
  "match_at ((nm, Lit w) # p) caps (prev, s) =
     (if folds_to w s then match_at p (capture nm (take (length w) s) caps) (move (length w) (prev, s)) else None)"
  by (auto simp: match_at.simps ways_def split: option.split)

lemma match_class:
  "match_at ((nm, Class q) # p) caps (prev, c # s) =
     (if q c then match_at p (capture nm [c] caps) (Some c, s) else None)"
  by (auto simp: match_at.simps ways_def move_def split: option.split)

lemma match_boundary:
  "match_at ((nm, Boundary) # p) caps (prev, s) =
     (if word_at prev \<noteq> word_at (head s) then match_at p (capture nm [] caps) (prev, s) else None)"
  by (auto simp: match_at.simps ways_def move_def split: option.split)

lemma run_length_append: "list_all q t \<Longrightarrow> length t \<le> run_length q (t @ s)"
  by (induction t) (simp_all add: run_length_def)

lemma run_length_exact:
  "list_all q t \<Longrightarrow> run_length q (t @ s) = length t + run_length q s"
  by (induction t) (simp_all add: run_length_def)

lemma match_lazy:
  assumes "list_all q t"
    and "\<And>k. k < length t \<Longrightarrow> match_at p (capture nm (take k t) caps) (move k (prev, t @ s)) = None"
    and "match_at p (capture nm t caps) (move (length t) (prev, t @ s)) = Some r"
  shows "match_at ((nm, Lazy q) # p) caps (prev, t @ s) = Some r"
  using first_of_up [where f = "\<lambda>n. match_at p (capture nm (take n (t @ s)) caps) (move n (prev, t @ s))" and
      n = "length t" and m = "Suc (run_length q (t @ s))"] run_length_append [OF assms(1), of s] assms(2,3)
  by (simp add: match_at.simps ways_def)

lemma match_greedy:
  assumes "list_all q t" "run_length q s = 0" "n \<le> length t"
    and "\<And>k. n < k \<Longrightarrow> k \<le> length t \<Longrightarrow> match_at p (capture nm (take k t) caps) (move k (prev, t @ s)) = None"
    and "match_at p (capture nm (take n t) caps) (move n (prev, t @ s)) = Some r"
  shows "match_at ((nm, Greedy q) # p) caps (prev, t @ s) = Some r"
  using first_of_down [where f = "\<lambda>k. match_at p (capture nm (take k (t @ s)) caps) (move k (prev, t @ s))" and
      n = n and m = "Suc (length t)"] assms run_length_exact [OF assms(1), of s]
  by (simp add: match_at.simps ways_def del: upt_Suc)

text \<open>A text in which, whatever follows, a literal does not begin.\<close>

definition skips :: "string \<Rightarrow> string \<Rightarrow> string \<Rightarrow> bool" where
  "skips w t s \<longleftrightarrow> (\<forall>k < length t. \<not> folds_to w (drop k t @ s))"

lemma skips_simps [simp]:
  "skips w [] s" "skips w (c # t) s \<longleftrightarrow> \<not> folds_to w (c # t @ s) \<and> skips w t s"
  unfolding skips_def by simp (metis Suc_less_eq drop0 drop_Suc_Cons append_Cons length_Cons not0_implies_Suc zero_less_Suc)

lemma skips_append [simp]: "skips w (t @ u) s \<longleftrightarrow> skips w t (u @ s) \<and> skips w u s"
  by (induction t) auto

lemma skips_without: "lower_char c \<notin> lower_char ` set t \<Longrightarrow> skips (c # w) t s"
  by (induction t) auto

lemma skips_after:
  assumes "skips w u s" "length t \<le> k" "k < length t + length u"
  shows "\<not> folds_to w (drop k (t @ u @ s))"
proof -
  have "drop k (t @ u @ s) = drop (k - length t) u @ s" using assms(2,3) by (simp add: drop_append)
  with assms show ?thesis by (simp add: skips_def)
qed

lemma match_lazy_lit:
  assumes "list_all q t" "skips w t (w @ s)" "w \<noteq> []"
    and "match_at p (capture nm t caps) (Some (last w), s) = Some r"
  shows "match_at ((nm, Lazy q) # (None, Lit w) # p) caps (prev, t @ w @ s) = Some r"
proof (rule match_lazy [OF assms(1)])
  fix k assume "k < length t"
  with assms(2) show "match_at ((None, Lit w) # p) (capture nm (take k t) caps) (move k (prev, t @ w @ s)) = None"
    by (simp add: match_lit move_def skips_def)
next
  have "\<not> length t + length w - Suc 0 < length t" using assms(3) by (cases w) auto
  then have "(t @ w @ s) ! (length t + length w - 1) = last w"
    using assms(3) by (simp add: nth_append last_conv_nth)
  with assms(3,4) show "match_at ((None, Lit w) # p) (capture nm t caps) (move (length t) (prev, t @ w @ s)) = Some r"
    by (simp add: match_lit move_def capture_def nth_append last_conv_nth)
qed

text \<open>Repeated matches that follow each other without a gap.\<close>

lemma match_all_next:
  assumes "match_at p [] (prev, s) = Some (caps, (prev', s'))" "length s' < length s"
  shows "match_all p [] prev s = apfst (Cons ([], caps)) (match_all p [] prev' s')"
  using assms by (simp add: match_all.simps [of p "[]" prev s] search_from.simps)

lemma search_skip:
  assumes "\<And>k. k < length t \<Longrightarrow> match_at p [] (move k (prev, t @ s)) = None"
  shows "search_from p u prev (t @ s) = search_from p (u @ t) (if t = [] then prev else Some (last t)) s"
  using assms
proof (induction t arbitrary: u prev)
  case (Cons c t)
  have "match_at p [] (move k (Some c, t @ s)) = None" if "k < length t" for k
    using Cons.prems [of "Suc k"] that by (cases k) (simp_all add: move_def)
  moreover have "match_at p [] (prev, c # t @ s) = None"
    using Cons.prems [of 0] by (simp add: move_def)
  ultimately show ?case using Cons.IH [of "Some c" "u @ [c]"] by (simp add: search_from.simps [of p u])
qed simp

end
