(* ===== verification/Html_Rows.thy ===== *)
theory Html_Rows
  imports Pattern_Match Calendar_Time Raw_Storage
begin

text \<open>
  Reading the pages of the source: \<open>src/discovery/html.ts\<close>. A listing is searched for its table,
  its rows and their cells, a detail page for the name of its replay, with the regular expressions
  of \<open>Pattern_Match\<close>. Resolving an address against the page's is the parameter \<open>resolve\<close>, the
  URL parser with a base.
\<close>

record row_observation =
  ro_metadata :: replay_metadata
  ro_page :: nat
  ro_externalId :: "string option"
  ro_url :: "string option"

definition getMatchGroup :: "captures \<Rightarrow> string \<Rightarrow> string" where
  "getMatchGroup caps name = (case map_of caps name of Some s \<Rightarrow> s | None \<Rightarrow> [])"

subsection \<open>The expressions\<close>

definition apostrophe :: char where "apostrophe = CHR 0x27"

definition double_quote :: char where "double_quote = CHR 0x22"

definition any_char :: "char \<Rightarrow> bool" where
  "any_char c \<longleftrightarrow> True"

definition on_line :: "char \<Rightarrow> bool" where
  "on_line c \<longleftrightarrow> c \<noteq> CHR 0x0A \<and> c \<noteq> CHR 0x0D"

definition in_tag :: "char \<Rightarrow> bool" where
  "in_tag c \<longleftrightarrow> c \<noteq> CHR ''>''"

definition is_quote :: "char \<Rightarrow> bool" where
  "is_quote c \<longleftrightarrow> c = double_quote \<or> c = apostrophe"

definition in_quotes :: "char \<Rightarrow> bool" where
  "in_quotes c \<longleftrightarrow> \<not> is_quote c"

definition in_segment :: "char \<Rightarrow> bool" where
  "in_segment c \<longleftrightarrow> c \<noteq> CHR ''/'' \<and> c \<noteq> CHR ''?'' \<and> c \<noteq> CHR ''#''"

definition tag_pattern :: pattern where
  "tag_pattern = [(None, Lit ''<''), (None, Plus in_tag), (None, Lit ''>'')]"

definition input_pattern :: pattern where
  "input_pattern =
     [(None, Lit ''<input''), (None, Boundary), (Some ''attributes'', Greedy in_tag), (None, Lit ''>'')]"

definition attribute_pattern :: "string \<Rightarrow> pattern" where
  "attribute_pattern name =
     [(None, Boundary), (None, Lit (name @ ''='')), (Some ''quote'', Class is_quote),
      (Some name, Lazy on_line), (None, Back ''quote'')]"

definition element_pattern :: "string \<Rightarrow> string \<Rightarrow> pattern" where
  "element_pattern tag name =
     [(None, Lit (''<'' @ tag)), (None, Greedy in_tag), (None, Lit ''>''), (Some name, Lazy any_char),
      (None, Lit (''</'' @ tag @ ''>''))]"

definition link_pattern :: pattern where
  "link_pattern =
     [(None, Lit ''<a''), (None, Boundary), (None, Greedy in_tag), (None, Boundary), (None, Lit ''href=''),
      (Some ''quote'', Class is_quote), (Some ''href'', Lazy on_line), (None, Back ''quote''),
      (None, Greedy in_tag), (None, Lit ''>''), (Some ''text'', Lazy any_char), (None, Lit ''</a>'')]"

definition external_id_pattern :: pattern where
  "external_id_pattern = [(None, Lit ''/replays/''), (Some ''id'', Plus in_segment)]"

definition table_pattern :: pattern where
  "table_pattern =
     [(None, Lit ''<table''), (None, Greedy in_tag), (None, Lit ''class=''), (None, Class is_quote),
      (None, Greedy in_quotes), (None, Boundary), (None, Lit ''common-table''), (None, Boundary),
      (None, Greedy in_quotes), (None, Class is_quote), (None, Greedy in_tag), (None, Lit ''>''),
      (None, Lazy any_char), (None, Lit ''<tbody''), (None, Greedy in_tag), (None, Lit ''>''),
      (Some ''body'', Lazy any_char), (None, Lit ''</tbody>''), (None, Lazy any_char),
      (None, Lit ''</table>'')]"

definition body_pattern :: pattern where
  "body_pattern =
     [(None, Lit ''<body''), (None, Boundary), (None, Greedy in_tag), (None, Boundary), (None, Lit ''data-ocap=''),
      (Some ''quote'', Class is_quote), (Some ''filename'', Lazy on_line), (None, Back ''quote''),
      (None, Greedy in_tag), (None, Lit ''>'')]"

subsection \<open>Text of an element\<close>

definition decodeHtmlEntities :: "string \<Rightarrow> string" where
  "decodeHtmlEntities value =
     replace_text ''&gt;'' ''>''
       (replace_text ''&lt;'' ''<''
         (replace_text ''&#39;'' [apostrophe]
           (replace_text ''&quot;'' [double_quote]
             (replace_text ''&amp;'' ''&'' value))))"

definition stripTags :: "string \<Rightarrow> string" where
  "stripTags html = decodeHtmlEntities (replace_matches tag_pattern '' '' html)"

text \<open>\<open>Number.parseInt\<close> to base 10, for numbers that a double holds exactly; \<open>None\<close> is \<open>NaN\<close>.\<close>

definition parse_int :: "string \<Rightarrow> int option" where
  "parse_int s =
     (let t = dropWhile js_space s;
          negative = (head t = Some (CHR ''-''));
          digits = takeWhile is_digit (if negative \<or> head t = Some (CHR ''+'') then drop 1 t else t)
      in if digits = [] then None
         else Some (if negative then - int (nat_of_digits digits) else int (nat_of_digits digits)))"

subsection \<open>Links\<close>

definition same_origin :: "url \<Rightarrow> url \<Rightarrow> bool" where
  "same_origin u v \<longleftrightarrow> url_protocol u = url_protocol v \<and> url_host u = url_host v"

definition hrefToUrl :: "(string \<Rightarrow> url \<Rightarrow> url option) \<Rightarrow> string option \<Rightarrow> url \<Rightarrow> string option" where
  "hrefToUrl resolve href_text sourceUrl =
     (case href_text of
        None \<Rightarrow> None
      | Some h \<Rightarrow>
          (case resolve h sourceUrl of
             None \<Rightarrow> None
           | Some u \<Rightarrow>
               if \<not> same_origin u sourceUrl \<or> \<not> starts_with (url_pathname u) ''/replays/''
               then None else Some (href u)))"

definition findInputValueById :: "string \<Rightarrow> string \<Rightarrow> string option" where
  "findInputValueById html id_text =
     (case find (\<lambda>caps. group ''id'' (exec (attribute_pattern ''id'') (getMatchGroup caps ''attributes'')) = Some id_text)
        (all_captures input_pattern html) of
        None \<Rightarrow> None
      | Some caps \<Rightarrow> group ''value'' (exec (attribute_pattern ''value'') (getMatchGroup caps ''attributes'')))"

subsection \<open>Rows and names\<close>

definition cell :: "nat \<Rightarrow> string list \<Rightarrow> string" where
  "cell n cells = (if n < length cells then cells ! n else [])"

definition non_empty :: "string \<Rightarrow> string option" where
  "non_empty s = (if s = [] then None else Some s)"

definition parseReplayRow ::
    "(string \<Rightarrow> url \<Rightarrow> url option) \<Rightarrow> string \<Rightarrow> nat \<Rightarrow> url \<Rightarrow> row_observation" where
  "parseReplayRow resolve rowHtml page sourceUrl =
     (let cells = map (\<lambda>caps. getMatchGroup caps ''cell'') (all_captures (element_pattern ''td'' ''cell'') rowHtml);
          link = exec link_pattern (cell 0 cells);
          url_text = hrefToUrl resolve (map_option js_trim (group ''href'' link)) sourceUrl;
          externalId = group ''id'' (exec external_id_pattern (case url_text of Some u \<Rightarrow> u | None \<Rightarrow> []));
          serverId = parse_int (js_trim (stripTags (cell 2 cells)));
          discoveredAt = parseGameDateToUtcIso (js_trim (stripTags (cell 3 cells)));
          missionText = js_trim (stripTags (case group ''text'' link of Some t \<Rightarrow> t | None \<Rightarrow> []));
          world = js_trim (stripTags (cell 1 cells))
      in \<lparr>ro_metadata = \<lparr>rm_discoveredAt = discoveredAt, rm_missionText = non_empty missionText,
            rm_serverId = serverId, rm_world = non_empty world\<rparr>,
          ro_page = page, ro_externalId = externalId, ro_url = url_text\<rparr>)"

definition extractReplayRows ::
    "(string \<Rightarrow> url \<Rightarrow> url option) \<Rightarrow> string \<Rightarrow> nat \<Rightarrow> url \<Rightarrow> row_observation list" where
  "extractReplayRows resolve html page sourceUrl =
     (case group ''body'' (exec table_pattern html) of
        None \<Rightarrow> []
      | Some tableBody \<Rightarrow>
          map (\<lambda>caps. parseReplayRow resolve (getMatchGroup caps ''row'') page sourceUrl)
            (all_captures (element_pattern ''tr'' ''row'') tableBody))"

definition extractFilenameFromDetailHtml :: "string \<Rightarrow> string option" where
  "extractFilenameFromDetailHtml html =
     (case Option.bind (findInputValueById html ''filename'') (non_empty \<circ> js_trim) of
        Some filename \<Rightarrow> Some (decodeHtmlEntities filename)
      | None \<Rightarrow>
          map_option decodeHtmlEntities
            (Option.bind (group ''filename'' (exec body_pattern html)) (non_empty \<circ> js_trim)))"

end
