(* ===== verification/Html_Roundtrip.thy ===== *)
theory Html_Roundtrip
  imports Html_Rows
begin

text \<open>
  Listings are read back: the rows that \<open>extractReplayRows\<close> finds in a page of the source's shape are
  the rows that were written into it.
\<close>

subsection \<open>Entities\<close>

definition entity :: "char \<Rightarrow> string" where
  "entity c =
     (if c = CHR ''<'' then ''&lt;'' else if c = CHR ''>'' then ''&gt;''
      else if c = double_quote then ''&quot;'' else if c = apostrophe then ''&#39;''
      else if c = CHR ''&'' then ''&amp;'' else [c])"

definition escaped_in :: "char set \<Rightarrow> string \<Rightarrow> string" where
  "escaped_in S t = concat (map (\<lambda>c. if c \<in> S then entity c else [c]) t)"

definition html_escape :: "string \<Rightarrow> string" where
  "html_escape t = concat (map entity t)"

definition quotable :: "char set" where
  "quotable = {CHR ''<'', CHR ''>'', double_quote, apostrophe}"

lemma replace_text_skip:
  "c \<notin> set s \<Longrightarrow> replace_text (c # w) new (s @ rest) = s @ replace_text (c # w) new rest"
proof (induction s)
  case (Cons d s)
  then have "d \<noteq> c" by auto
  with Cons show ?case by (simp add: replace_text.simps [of "c # w" new "d # s @ rest"] starts_with_def)
qed simp

lemma replace_text_none: "c \<notin> set s \<Longrightarrow> replace_text (c # w) new s = s"
  using replace_text_skip [of c s w new "[]"] by (simp add: replace_text.simps [of _ _ "[]"])

lemma replace_text_hit: "w \<noteq> [] \<Longrightarrow> replace_text w new (w @ rest) = new @ replace_text w new rest"
  by (subst replace_text.simps) (cases w, auto simp: starts_with_def)

lemma replace_text_other:
  assumes "c \<notin> set v" "\<not> starts_with (v @ rest) w"
  shows "replace_text (c # w) new (c # v @ rest) = c # v @ replace_text (c # w) new rest"
  using assms replace_text_skip [of c v w new rest]
  by (simp add: replace_text.simps [of "c # w" new "c # v @ rest"] starts_with_def)

lemma entity_cases:
  "c \<in> quotable \<Longrightarrow> entity c \<in> {''&lt;'', ''&gt;'', ''&quot;'', ''&#39;''}"
  by (auto simp: quotable_def entity_def double_quote_def apostrophe_def)

lemma decode_one:
  assumes "CHR ''&'' \<notin> set t" "S \<subseteq> quotable" "c \<in> quotable"
  shows "replace_text (entity c) [c] (escaped_in (insert c S) t) = escaped_in (S - {c}) t"
proof -
  obtain w where w: "entity c = CHR ''&'' # w"
    using entity_cases [OF assms(3)] by auto
  show ?thesis
    using assms(1)
  proof (induction t)
    case Nil
    show ?case by (simp add: escaped_in_def replace_text.simps)
  next
    case (Cons d t)
    let ?rest = "escaped_in (insert c S) t"
    have IH: "replace_text (entity c) [c] ?rest = escaped_in (S - {c}) t" using Cons by simp
    consider (same) "d = c" | (other) "d \<noteq> c" "d \<in> S" | (plain) "d \<noteq> c" "d \<notin> S" by blast
    then show ?case
    proof cases
      case same
      have "entity c \<noteq> []" using w by simp
      from replace_text_hit [OF this, of "[c]" ?rest] same IH show ?thesis by (simp add: escaped_in_def)
    next
      case other
      then have "d \<in> quotable" using assms(2) by blast
      then obtain v where v: "entity d = CHR ''&'' # v" "CHR ''&'' \<notin> set v" "\<not> starts_with (v @ ?rest) w"
        using entity_cases [of d] entity_cases [OF assms(3)] other(1) assms(3) w
        by (auto simp: quotable_def entity_def double_quote_def apostrophe_def starts_with_def)
      from replace_text_other [OF v(2,3), of "[c]"] other IH v(1) w show ?thesis
        by (simp add: escaped_in_def)
    next
      case plain
      have "CHR ''&'' \<notin> set [d]" using Cons.prems by simp
      from replace_text_skip [OF this, of w "[c]" ?rest] plain IH w show ?thesis
        by (simp add: escaped_in_def)
    qed
  qed
qed

lemma escape_quotable: "CHR ''&'' \<notin> set t \<Longrightarrow> html_escape t = escaped_in quotable t"
proof -
  assume t: "CHR ''&'' \<notin> set t"
  have "entity c = (if c \<in> quotable then entity c else [c])" if "c \<in> set t" for c
  proof -
    have "c \<noteq> CHR ''&''" using t that by blast
    then show ?thesis by (simp add: entity_def quotable_def)
  qed
  then have "map entity t = map (\<lambda>c. if c \<in> quotable then entity c else [c]) t" by (rule map_cong [OF refl])
  then show ?thesis by (simp only: html_escape_def escaped_in_def)
qed

lemma escaped_no_amp: "escaped_in {} t = t"
  by (induction t) (simp_all add: escaped_in_def)

lemma amp_not_decoded:
  assumes "CHR ''&'' \<notin> set t"
  shows "replace_text ''&amp;'' new (escaped_in quotable t) = escaped_in quotable t"
  using assms
proof (induction t)
  case Nil
  show ?case by (simp add: escaped_in_def replace_text.simps)
next
  case (Cons d t)
  let ?rest = "escaped_in quotable t"
  have IH: "replace_text ''&amp;'' new ?rest = ?rest" using Cons by simp
  show ?case
  proof (cases "d \<in> quotable")
    case True
    then obtain v where "entity d = CHR ''&'' # v" "CHR ''&'' \<notin> set v" "\<not> starts_with (v @ ?rest) ''amp;''"
      using entity_cases [of d] by (auto simp: starts_with_def)
    from replace_text_other [OF this(2,3), of new] this(1) True IH show ?thesis by (simp add: escaped_in_def)
  next
    case False
    have "CHR ''&'' \<notin> set [d]" using Cons.prems by simp
    from replace_text_skip [OF this, of "''amp;''" new ?rest] False IH show ?thesis by (simp add: escaped_in_def)
  qed
qed

lemma decode_escape: 
  assumes "CHR ''&'' \<notin> set t"
  shows "decodeHtmlEntities (html_escape t) = t"
proof -
  have step: "replace_text (entity c) [c] (escaped_in S t) = escaped_in (S - {c}) t" if "c \<in> S" "S \<subseteq> quotable" for c S
    using decode_one [OF assms, of S c] that by (simp add: insert_absorb subset_iff)
  have names: "''&quot;'' = entity double_quote" "''&#39;'' = entity apostrophe" "''&lt;'' = entity (CHR ''<'')"
    "''&gt;'' = entity (CHR ''>'')"
    by (simp_all add: entity_def double_quote_def apostrophe_def)
  note steps = step [of double_quote quotable] step [of apostrophe "quotable - {double_quote}"]
    step [of "CHR ''<''" "quotable - {double_quote} - {apostrophe}"]
    step [of "CHR ''>''" "quotable - {double_quote} - {apostrophe} - {CHR ''<''}"]
  have members: "double_quote \<in> quotable" "apostrophe \<in> quotable - {double_quote}"
    "CHR ''<'' \<in> quotable - {double_quote} - {apostrophe}"
    "CHR ''>'' \<in> quotable - {double_quote} - {apostrophe} - {CHR ''<''}"
    by (simp_all add: quotable_def double_quote_def apostrophe_def)
  have "decodeHtmlEntities (html_escape t) =
      escaped_in (quotable - {double_quote} - {apostrophe} - {CHR ''<''} - {CHR ''>''}) t"
    unfolding decodeHtmlEntities_def escape_quotable [OF assms] amp_not_decoded [OF assms] names
      steps(1) [OF members(1) subset_refl]
      steps(2) [OF members(2) Diff_subset] steps(3) [OF members(3) order_trans [OF Diff_subset Diff_subset]]
    by (rule steps(4) [OF members(4)]) blast
  moreover have "quotable - {double_quote} - {apostrophe} - {CHR ''<''} - {CHR ''>''} = {}"
    by (auto simp: quotable_def)
  ultimately show ?thesis by (simp add: escaped_no_amp)
qed

subsection \<open>Elements\<close>

definition open_tag :: "string \<Rightarrow> string" where
  "open_tag tag = ''<'' @ tag @ ''>''"

definition close_tag :: "string \<Rightarrow> string" where
  "close_tag tag = ''</'' @ tag @ ''>''"

definition element :: "string \<Rightarrow> string \<Rightarrow> string" where
  "element tag body = open_tag tag @ body @ close_tag tag"

lemma no_run [simp]: "run_length in_tag (CHR ''>'' # s) = 0"
  by (simp add: run_length_def in_tag_def)

lemma list_all_any [simp]: "list_all any_char t"
  by (simp add: list_all_iff any_char_def)

lemma match_tag_end:
  "match_at p caps (Some (CHR ''>''), s) = Some r \<Longrightarrow>
     match_at ((None, Greedy in_tag) # (None, Lit ''>'') # p) caps (prev, CHR ''>'' # s) = Some r"
  using match_greedy [of in_tag "[]" "CHR ''>'' # s" 0 "(None, Lit ''>'') # p" None caps prev r]
  by (simp add: move_def capture_def match_lit)

lemma match_element:
  assumes "skips (close_tag tag) body (close_tag tag @ s)"
  shows "match_at (element_pattern tag name) [] (prev, element tag body @ s)
    = Some ([(name, body)], (Some (CHR ''>''), s))"
proof -
  have "match_at ((Some name, Lazy any_char) # (None, Lit (close_tag tag)) # []) [] (Some (CHR ''>''), body @ close_tag tag @ s)
      = Some ([(name, body)], (Some (CHR ''>''), s))"
    by (rule match_lazy_lit) (use assms in \<open>simp_all add: close_tag_def capture_def\<close>)
  from match_tag_end [OF this] show ?thesis
    by (simp add: element_pattern_def element_def open_tag_def close_tag_def match_lit move_def capture_def)
qed

lemma all_elements:
  assumes "\<And>body s. body \<in> set bodies \<Longrightarrow> skips (close_tag tag) body (close_tag tag @ s)"
  shows "all_captures (element_pattern tag name) (concat (map (element tag) bodies)) = map (\<lambda>b. [(name, b)]) bodies"
proof -
  have "\<exists>tail. match_all (element_pattern tag name) [] prev (concat (map (element tag) bodies))
      = (map (\<lambda>b. ([], [(name, b)])) bodies, tail)" for prev
    using assms
  proof (induction bodies arbitrary: prev)
    case Nil
    have "match_all (element_pattern tag name) [] prev [] = ([], [])"
      by (simp add: match_all.simps search_from.simps element_pattern_def match_lit)
    then show ?case by simp
  next
    case (Cons b bs)
    then obtain tail where "match_all (element_pattern tag name) [] (Some (CHR ''>'')) (concat (map (element tag) bs))
        = (map (\<lambda>b. ([], [(name, b)])) bs, tail)" by (metis list.set_intros(2))
    moreover have "length (concat (map (element tag) bs)) < length (element tag b @ concat (map (element tag) bs))"
      by (simp add: element_def open_tag_def)
    ultimately show ?case
      using match_all_next [OF match_element [of tag b "concat (map (element tag) bs)" name prev]] Cons.prems [of b]
      by simp
  qed
  then show ?thesis by (metis (no_types, lifting) all_captures_def fst_conv map_map comp_apply snd_conv map_eq_conv)
qed

lemma getMatchGroup_one [simp]: "getMatchGroup [(name, b)] name = b"
  by (simp add: getMatchGroup_def)

subsection \<open>A listing\<close>

record listing_row =
  lr_href :: string
  lr_mission :: string
  lr_world :: string
  lr_server :: string
  lr_date :: string

definition link_html :: "listing_row \<Rightarrow> string" where
  "link_html r = ''<a href='' @ [double_quote] @ lr_href r @ [double_quote] @ ''>'' @ html_escape (lr_mission r) @ ''</a>''"

definition row_cells :: "listing_row \<Rightarrow> string list" where
  "row_cells r = [link_html r, html_escape (lr_world r), html_escape (lr_server r), html_escape (lr_date r)]"

definition row_html :: "listing_row \<Rightarrow> string" where
  "row_html r = concat (map (element ''td'') (row_cells r))"

definition table_html :: "listing_row list \<Rightarrow> string" where
  "table_html rs =
     ''<table class='' @ [double_quote] @ ''common-table'' @ [double_quote] @ ''><tbody>'' @
     concat (map (element ''tr'') (map row_html rs)) @ ''</tbody></table>''"

definition plain_text :: "string \<Rightarrow> bool" where
  "plain_text t \<longleftrightarrow> CHR ''&'' \<notin> set t"

definition plain_href :: "string \<Rightarrow> bool" where
  "plain_href t \<longleftrightarrow> list_all on_line t \<and> list_all in_quotes t \<and> set t \<inter> {CHR ''<'', CHR ''>'', CHR ''=''} = {}"

definition plain_row :: "listing_row \<Rightarrow> bool" where
  "plain_row r \<longleftrightarrow> plain_href (lr_href r) \<and> plain_text (lr_mission r) \<and> plain_text (lr_world r) \<and>
     plain_text (lr_server r) \<and> plain_text (lr_date r)"

definition observed_row :: "(string \<Rightarrow> url \<Rightarrow> url option) \<Rightarrow> nat \<Rightarrow> url \<Rightarrow> listing_row \<Rightarrow> row_observation" where
  "observed_row resolve page u r =
     (let address = hrefToUrl resolve (Some (js_trim (lr_href r))) u in
      \<lparr>ro_metadata = \<lparr>rm_discoveredAt = parseGameDateToUtcIso (js_trim (lr_date r)),
         rm_missionText = non_empty (js_trim (lr_mission r)), rm_serverId = parse_int (js_trim (lr_server r)),
         rm_world = non_empty (js_trim (lr_world r))\<rparr>,
       ro_page = page,
       ro_externalId = group ''id'' (exec external_id_pattern (case address of Some a \<Rightarrow> a | None \<Rightarrow> [])),
       ro_url = address\<rparr>)"

lemma escape_chars:
  assumes "d \<in> {CHR ''<'', CHR ''>'', double_quote, apostrophe}"
  shows "d \<notin> set (html_escape t)"
proof -
  have "d \<notin> set (entity c)" for c
    using assms by (auto simp: entity_def double_quote_def apostrophe_def split: if_splits)
  then show ?thesis by (auto simp: html_escape_def)
qed

lemma lower_less [simp]: "lower_char c = CHR ''<'' \<longleftrightarrow> c = CHR ''<''"
  by (auto simp: lower_char_def Let_def dest!: arg_cong [where f = "of_char :: char \<Rightarrow> nat"])

lemma lower_of:
  "lower_char (CHR ''a'') = CHR ''a''"  "lower_char (CHR ''b'') = CHR ''b''"
  "lower_char (CHR ''c'') = CHR ''c''"  "lower_char (CHR ''d'') = CHR ''d''"
  "lower_char (CHR ''e'') = CHR ''e''"  "lower_char (CHR ''f'') = CHR ''f''"
  "lower_char (CHR ''h'') = CHR ''h''"  "lower_char (CHR ''i'') = CHR ''i''"
  "lower_char (CHR ''l'') = CHR ''l''"  "lower_char (CHR ''n'') = CHR ''n''"
  "lower_char (CHR ''o'') = CHR ''o''"  "lower_char (CHR ''r'') = CHR ''r''"
  "lower_char (CHR ''s'') = CHR ''s''"  "lower_char (CHR ''t'') = CHR ''t''"
  "lower_char (CHR ''y'') = CHR ''y''"  "lower_char (CHR ''/'') = CHR ''/''"
  "lower_char (CHR ''>'') = CHR ''>''"  "lower_char (CHR ''-'') = CHR ''-''"
  "lower_char (CHR ''<'') = CHR ''<''"  "lower_char (CHR ''='') = CHR ''=''"
  "lower_char (CHR 0x22) = CHR 0x22"
  "lower_char (CHR '' '') = CHR '' ''"
  by code_simp+

text \<open>No tag begins in an escaped text.\<close>

lemma skips_plain: "CHR ''<'' \<notin> set t \<Longrightarrow> skips (CHR ''<'' # w) t s"
proof (rule skips_without)
  assume "CHR ''<'' \<notin> set t"
  moreover have "lower_char (CHR ''<'') = CHR ''<''" by simp
  ultimately show "lower_char (CHR ''<'') \<notin> lower_char ` set t" by (auto simp del: lower_less) (metis lower_less)
qed

lemma escaped_skips [simp]: "skips (CHR ''<'' # w) (html_escape t) s"
  by (rule skips_plain) (simp add: escape_chars)

lemma href_skips: "plain_href h \<Longrightarrow> skips (CHR ''<'' # w) h s"
  by (rule skips_plain) (auto simp: plain_href_def)

lemma link_skips:
  assumes "plain_href (lr_href r)" "w \<in> {''/td>'', ''/tr>'', ''/tbody>''}"
  shows "skips (CHR ''<'' # w) (link_html r) s"
  using assms href_skips [OF assms(1)]
  by (auto simp: link_html_def lower_of double_quote_def)

lemma cells_of_row:
  assumes "plain_row r"
  shows "all_captures (element_pattern ''td'' ''cell'') (row_html r) = map (\<lambda>b. [(''cell'', b)]) (row_cells r)"
  unfolding row_html_def
proof (rule all_elements)
  fix body s
  assume "body \<in> set (row_cells r)"
  with assms show "skips (close_tag ''td'') body (close_tag ''td'' @ s)"
    by (auto simp: row_cells_def close_tag_def plain_row_def intro: link_skips)
qed

lemma row_skips:
  assumes "plain_row r" "w \<in> {''/tr>'', ''/tbody>''}"
  shows "skips (CHR ''<'' # w) (row_html r) s"
  using assms link_skips [of r w]
  by (auto simp: row_html_def row_cells_def element_def open_tag_def close_tag_def plain_row_def lower_of)

lemma rows_of_table:
  assumes "list_all plain_row rs"
  shows "all_captures (element_pattern ''tr'' ''row'') (concat (map (element ''tr'') (map row_html rs)))
    = map (\<lambda>r. [(''row'', row_html r)]) rs"
proof -
  have "all_captures (element_pattern ''tr'' ''row'') (concat (map (element ''tr'') (map row_html rs)))
      = map (\<lambda>b. [(''row'', b)]) (map row_html rs)"
  proof (rule all_elements)
    fix body s
    assume "body \<in> set (map row_html rs)"
    with assms show "skips (close_tag ''tr'') body (close_tag ''tr'' @ s)"
      by (auto simp: close_tag_def list_all_iff intro!: row_skips)
  qed
  then show ?thesis by simp
qed

lemma body_skips:
  assumes "list_all plain_row rs"
  shows "skips ''</tbody>'' (concat (map (element ''tr'') (map row_html rs))) s"
  using assms
proof (induction rs)
  case (Cons r rs)
  then show ?case using row_skips [of r "''/tbody>''"]
    by (simp add: element_def open_tag_def close_tag_def lower_of)
qed simp

subsection \<open>Reading a row\<close>

lemma lower_equals [simp]: "lower_char c = CHR ''='' \<longleftrightarrow> c = CHR ''=''"
  by (auto simp: lower_char_def Let_def dest!: arg_cong [where f = "of_char :: char \<Rightarrow> nat"])

lemma lower_quote [simp]: "lower_char c = double_quote \<longleftrightarrow> c = double_quote"
  by (auto simp: lower_char_def double_quote_def Let_def dest!: arg_cong [where f = "of_char :: char \<Rightarrow> nat"])

lemma lower_marks [simp]: "lower_char double_quote = double_quote"
  by simp

lemma match_back:
  "match_at ((nm, Back name) # p) caps (prev, s) =
     (let w = (case map_of caps name of Some w \<Rightarrow> w | None \<Rightarrow> []) in
      if folds_to w s then match_at p (capture nm (take (length w) s) caps) (move (length w) (prev, s)) else None)"
  by (auto simp: match_at.simps ways_def Let_def split: option.split)

lemma tag_free:
  assumes "CHR ''<'' \<notin> set t"
  shows "stripTags t = decodeHtmlEntities t"
proof -
  have "search_from tag_pattern u prev t = None" for u prev
    using assms
  proof (induction t arbitrary: u prev)
    case Nil
    show ?case by (simp add: search_from.simps tag_pattern_def match_lit)
  next
    case (Cons c t)
    then have "search_from tag_pattern (u @ [c]) (Some c) t = None" "lower_char c \<noteq> CHR ''<''" by auto
    then show ?case by (simp add: search_from.simps [of _ _ _ "c # t"] tag_pattern_def match_lit lower_of)
  qed
  then show ?thesis by (simp add: stripTags_def replace_matches_def match_all.simps)
qed

lemma text_of_escaped: "plain_text t \<Longrightarrow> stripTags (html_escape t) = t"
  by (simp add: tag_free escape_chars plain_text_def decode_escape)

lemma no_href:
  assumes "CHR ''='' \<notin> set h"
  shows "skips ''href='' h (double_quote # s)"
proof -
  have "\<not> folds_to ''href='' (g @ double_quote # s)" if "CHR ''='' \<notin> set g" for g
  proof (cases g)
    case (Cons a g1)
    with that show ?thesis
      by (cases g1; cases "tl g1"; cases "tl (tl g1)"; cases "tl (tl (tl g1))")
        (auto simp: double_quote_def lower_of)
  qed (simp add: double_quote_def lower_of)
  then show ?thesis using assms unfolding skips_def by (meson in_set_dropD)
qed

lemma link_found:
  assumes "plain_href (lr_href r)"
  shows "exec link_pattern (link_html r) =
    Some [(''text'', html_escape (lr_mission r)), (''href'', lr_href r), (''quote'', [double_quote])]"
proof -
  let ?h = "lr_href r" and ?m = "html_escape (lr_mission r)"
  let ?caps = "[(''href'', ?h), (''quote'', [double_quote])]"
  let ?tail = "[(None, Greedy in_tag), (None, Lit ''>''), (Some ''text'', Lazy any_char), (None, Lit ''</a>'')]"
  have in_h: "list_all on_line ?h" "list_all in_quotes ?h" "CHR ''='' \<notin> set ?h" "list_all in_tag ?h"
    using assms by (auto simp: plain_href_def in_tag_def list_all_iff)
  have "match_at ((Some ''text'', Lazy any_char) # (None, Lit ''</a>'') # []) ?caps (Some (CHR ''>''), ?m @ ''</a>'' @ [])
      = Some ((''text'', ?m) # ?caps, (Some (CHR ''>''), []))"
    by (rule match_lazy_lit) (simp_all add: capture_def)
  from match_tag_end [OF this]
  have tail: "match_at ?tail ?caps (prev, CHR ''>'' # ?m @ ''</a>'') = Some ((''text'', ?m) # ?caps, (Some (CHR ''>''), []))" for prev
    by simp
  have quoted: "match_at ((Some ''href'', Lazy on_line) # (None, Back ''quote'') # ?tail) [(''quote'', [double_quote])]
      (prev, ?h @ double_quote # CHR ''>'' # ?m @ ''</a>'') = Some ((''text'', ?m) # ?caps, (Some (CHR ''>''), []))" for prev
  proof (rule match_lazy [OF in_h(1)])
    fix k assume "k < length ?h"
    moreover from this in_h(2) have "?h ! k \<noteq> double_quote"
      by (auto simp: list_all_length in_quotes_def is_quote_def)
    ultimately show "match_at ((None, Back ''quote'') # ?tail) (capture (Some ''href'') (take k ?h) [(''quote'', [double_quote])])
        (move k (prev, ?h @ double_quote # CHR ''>'' # ?m @ ''</a>'')) = None"
      by (simp add: match_back capture_def move_def Cons_nth_drop_Suc [symmetric])
  qed (simp add: match_back capture_def move_def tail)
  have attribute: "match_at [(None, Boundary), (None, Lit ''href=''), (Some ''quote'', Class is_quote),
      (Some ''href'', Lazy on_line), (None, Back ''quote''), (None, Greedy in_tag), (None, Lit ''>''),
      (Some ''text'', Lazy any_char), (None, Lit ''</a>'')] []
      (Some (CHR '' ''), ''href='' @ double_quote # ?h @ double_quote # CHR ''>'' # ?m @ ''</a>'')
      = Some ((''text'', ?m) # ?caps, (Some (CHR ''>''), []))"
    using quoted by (simp add: match_boundary match_lit match_class capture_def move_def word_at_def head_def word_char_def
        is_digit_def is_letter_def is_quote_def)
  let ?t = "'' href='' @ double_quote # ?h @ [double_quote]" and ?s = "CHR ''>'' # ?m @ ''</a>''"
  have "match_at ((None, Greedy in_tag) # (None, Boundary) # (None, Lit ''href='') # (Some ''quote'', Class is_quote) #
      (Some ''href'', Lazy on_line) # (None, Back ''quote'') # ?tail) [] (Some (CHR ''a''), ?t @ ?s)
      = Some ((''text'', ?m) # ?caps, (Some (CHR ''>''), []))"
  proof (rule match_greedy [where n = 1])
    show "list_all in_tag ?t" using in_h(4) by (simp add: in_tag_def double_quote_def)
  next
    fix k assume k: "1 < k" "k \<le> length ?t"
    let ?u = "''ref='' @ double_quote # ?h @ [double_quote] @ ''>''"
    have "skips ''href='' ?u (?m @ ''</a>'')"
      using no_href [OF in_h(3)] by (simp add: lower_of double_quote_def)
    then have "\<not> folds_to ''href='' (drop k ('' h'' @ ?u @ ?m @ ''</a>''))"
      by (rule skips_after) (use k in simp_all)
    then have "\<not> folds_to ''href='' (drop k (?t @ ?s))" by (simp only: append_assoc append_Cons append_Nil not_False_eq_True)
    then show "match_at ((None, Boundary) # (None, Lit ''href='') # (Some ''quote'', Class is_quote) #
      (Some ''href'', Lazy on_line) # (None, Back ''quote'') # ?tail) (capture None (take k ?t) [])
      (move k (Some (CHR ''a''), ?t @ ?s)) = None"
      by (simp only: match_boundary match_lit move_def) simp
  qed (use attribute in \<open>simp_all add: move_def capture_def\<close>)
  then have "match_at link_pattern [] (None, link_html r) = Some ((''text'', ?m) # ?caps, (Some (CHR ''>''), []))"
    by (simp add: link_pattern_def link_html_def match_lit match_boundary move_def capture_def word_at_def head_def
        word_char_def is_digit_def is_letter_def)
  then show ?thesis by (simp add: exec_def search_from.simps)
qed

lemma row_read:
  assumes "plain_row r"
  shows "parseReplayRow resolve (row_html r) page u = observed_row resolve page u r"
proof -
  have "plain_href (lr_href r)" using assms by (simp add: plain_row_def)
  note link = link_found [OF this]
  have cells: "map (\<lambda>caps. getMatchGroup caps ''cell'') (all_captures (element_pattern ''td'' ''cell'') (row_html r)) = row_cells r"
    using cells_of_row [OF assms] by (simp add: comp_def)
  show ?thesis
    unfolding parseReplayRow_def cells Let_def
    using assms by (simp add: row_cells_def cell_def link group_def text_of_escaped plain_row_def observed_row_def Let_def)
qed

subsection \<open>Reading a listing\<close>

lemma table_found:
  assumes "skips ''</tbody>'' body (''</tbody></table>'' @ post)" "skips ''<table'' pre
    (''<table class='' @ double_quote # ''common-table'' @ double_quote # ''><tbody>'' @ body @ ''</tbody></table>'' @ post)"
  shows "group ''body'' (exec table_pattern
    (pre @ ''<table class='' @ double_quote # ''common-table'' @ double_quote # ''><tbody>'' @ body @ ''</tbody></table>'' @ post))
    = Some body"
proof -
  let ?tail = "[(None, Lazy any_char), (None, Lit ''</table>'')]"
  have "match_at ((None, Lazy any_char) # (None, Lit ''</table>'') # []) caps (prev, [] @ ''</table>'' @ post)
      = Some (caps, (Some (CHR ''>''), post))" for caps prev
    by (rule match_lazy_lit) (simp_all add: capture_def)
  then have "match_at ((Some ''body'', Lazy any_char) # (None, Lit ''</tbody>'') # ?tail) [] (Some (CHR ''>''), body @ ''</tbody>'' @ (''</table>'' @ post))
      = Some ([(''body'', body)], (Some (CHR ''>''), post))"
    by (intro match_lazy_lit) (use assms(1) in \<open>simp_all add: capture_def\<close>)
  from match_tag_end [OF this]
  have tbody: "match_at ((None, Lazy any_char) # (None, Lit ''<tbody'') # (None, Greedy in_tag) # (None, Lit ''>'') #
      (Some ''body'', Lazy any_char) # (None, Lit ''</tbody>'') # ?tail) [] (prev, [] @ ''<tbody'' @ (CHR ''>'' # body @ ''</tbody></table>'' @ post))
      = Some ([(''body'', body)], (Some (CHR ''>''), post))" for prev
    by (intro match_lazy_lit) (simp_all add: capture_def)
  let ?rest = "''<tbody>'' @ body @ ''</tbody></table>'' @ post"
  let ?name_tail = "(None, Boundary) # (None, Greedy in_quotes) # (None, Class is_quote) # (None, Greedy in_tag) # (None, Lit ''>'') #
      (None, Lazy any_char) # (None, Lit ''<tbody'') # (None, Greedy in_tag) # (None, Lit ''>'') #
      (Some ''body'', Lazy any_char) # (None, Lit ''</tbody>'') # ?tail"
  have close_quote: "match_at ?name_tail [] (Some (CHR ''e''), double_quote # CHR ''>'' # ?rest)
      = Some ([(''body'', body)], (Some (CHR ''>''), post))"
    using match_greedy [of in_quotes "[]" "double_quote # CHR ''>'' # ?rest" 0] match_tag_end [OF tbody]
    by (simp add: match_boundary match_class capture_def move_def word_at_def head_def word_char_def is_digit_def
        is_letter_def is_quote_def in_quotes_def run_length_def double_quote_def)
  have name: "match_at ((None, Greedy in_quotes) # (None, Boundary) # (None, Lit ''common-table'') # ?name_tail) []
      (prev, ''common-table'' @ double_quote # CHR ''>'' # ?rest) = Some ([(''body'', body)], (Some (CHR ''>''), post))"
    if "\<not> word_at prev" for prev
  proof (rule match_greedy [where n = 0])
    show "list_all in_quotes ''common-table''"
      by (simp add: in_quotes_def is_quote_def double_quote_def apostrophe_def)
  next
    fix k :: nat assume k: "0 < k" "k \<le> length ''common-table''"
    have "skips ''common-table'' (''ommon-table'' @ [double_quote]) (CHR ''>'' # ?rest)"
      by (simp add: lower_of double_quote_def)
    then have "\<not> folds_to ''common-table'' (drop k (''c'' @ (''ommon-table'' @ [double_quote]) @ CHR ''>'' # ?rest))"
      by (rule skips_after) (use k in simp_all)
    then have "\<not> folds_to ''common-table'' (drop k (''common-table'' @ double_quote # CHR ''>'' # ?rest))"
      by (simp only: append_assoc append_Cons append_Nil not_False_eq_True)
    then show "match_at ((None, Boundary) # (None, Lit ''common-table'') # ?name_tail) (capture None (take k ''common-table'') [])
        (move k (prev, ''common-table'' @ double_quote # CHR ''>'' # ?rest)) = None"
      by (simp only: match_boundary match_lit move_def) simp
  qed (use that close_quote in \<open>simp_all add: run_length_def in_quotes_def is_quote_def match_boundary match_lit move_def
      capture_def head_def word_at_def word_char_def is_letter_def\<close>)
  let ?class_tail = "(None, Class is_quote) # (None, Greedy in_quotes) # (None, Boundary) # (None, Lit ''common-table'') # ?name_tail"
  let ?t = "'' class='' @ double_quote # ''common-table'' @ [double_quote]"
  have "match_at ((None, Greedy in_tag) # (None, Lit ''class='') # ?class_tail) [] (prev, ?t @ CHR ''>'' # ?rest)
      = Some ([(''body'', body)], (Some (CHR ''>''), post))" for prev
  proof (rule match_greedy [where n = 1])
    show "list_all in_tag ?t" by (simp add: in_tag_def double_quote_def)
  next
    fix k assume k: "1 < k" "k \<le> length ?t"
    have "skips ''class='' (''lass='' @ double_quote # ''common-table'' @ double_quote # ''>'') ?rest"
      by (simp add: lower_of double_quote_def)
    then have "\<not> folds_to ''class='' (drop k ('' c'' @ (''lass='' @ double_quote # ''common-table'' @ double_quote # ''>'') @ ?rest))"
      by (rule skips_after) (use k in simp_all)
    then have "\<not> folds_to ''class='' (drop k (?t @ CHR ''>'' # ?rest))" by (simp only: append_assoc append_Cons append_Nil not_False_eq_True)
    then show "match_at ((None, Lit ''class='') # ?class_tail) (capture None (take k ?t) []) (move k (prev, ?t @ CHR ''>'' # ?rest)) = None"
      by (simp only: match_lit move_def) simp
  qed (use name [of "Some double_quote"] in \<open>simp_all add: match_lit match_class move_def capture_def is_quote_def word_at_def
      word_char_def is_digit_def is_letter_def double_quote_def\<close>)
  then have "match_at table_pattern [] (prev, ''<table'' @ ?t @ CHR ''>'' # ?rest)
      = Some ([(''body'', body)], (Some (CHR ''>''), post))" for prev
    by (simp add: table_pattern_def match_lit move_def capture_def)
  moreover have "match_at table_pattern [] (move k (None, pre @ ''<table'' @ ?t @ CHR ''>'' # ?rest)) = None"
    if "k < length pre" for k
    using assms(2) that by (simp add: table_pattern_def match_lit move_def skips_def)
  ultimately show ?thesis
    using search_skip [of pre table_pattern None "''<table'' @ ?t @ CHR ''>'' # ?rest" "[]"]
    by (simp add: exec_def group_def search_from.simps)
qed

lemma listing_read:
  assumes "list_all plain_row rs" "skips ''<table'' pre (table_html rs @ post)"
  shows "extractReplayRows resolve (pre @ table_html rs @ post) page u = map (observed_row resolve page u) rs"
proof -
  have "group ''body'' (exec table_pattern (pre @ table_html rs @ post))
      = Some (concat (map (element ''tr'') (map row_html rs)))"
    using table_found [OF body_skips [OF assms(1)], of pre post] assms(2) by (simp add: table_html_def)
  moreover have "r \<in> set rs \<Longrightarrow> parseReplayRow resolve (row_html r) page u = observed_row resolve page u r" for r
    using assms(1) by (simp add: list_all_iff row_read)
  ultimately show ?thesis
    using rows_of_table [OF assms(1)] by (simp add: extractReplayRows_def comp_def)
qed

text \<open>
  C9: a listing is read back. From a page that holds, after any text without a table, the source's
  table with any rows, exactly these rows are extracted, in order: each with the address that its link
  resolves to, the id in it, and the trimmed texts of its cells with their escapes undone. The texts
  are arbitrary but for ampersands, the links but for quotes, tags and equality signs.
\<close>

theorem listing_roundtrip:
  assumes "list_all plain_row rs" "skips ''<table'' pre (table_html rs @ post)"
  shows "extractReplayRows resolve (pre @ table_html rs @ post) page u = map (observed_row resolve page u) rs"
  using assms by (rule listing_read)

definition example_row :: listing_row where
  "example_row = \<lparr>lr_href = ''/replays/17'', lr_mission = ''a < b'', lr_world = ''Altis'', lr_server = ''2'',
     lr_date = ''01.02.2024 10:11''\<rparr>"

lemma example_row_plain: "list_all plain_row [example_row]"
  by (simp add: plain_row_def plain_href_def plain_text_def example_row_def on_line_def in_quotes_def is_quote_def
      double_quote_def apostrophe_def)

lemma listing_roundtrip_witness:
  "extractReplayRows (\<lambda>h u. Some (u\<lparr>url_pathname := h\<rparr>)) (''<p>'' @ table_html [example_row] @ []) 1
     \<lparr>url_protocol = ''https:'', url_username = [], url_password = [], url_host = ''h'', url_pathname = ''/'',
      url_search = [], url_hash = []\<rparr>
   = map (observed_row (\<lambda>h u. Some (u\<lparr>url_pathname := h\<rparr>)) 1
     \<lparr>url_protocol = ''https:'', url_username = [], url_password = [], url_host = ''h'', url_pathname = ''/'',
      url_search = [], url_hash = []\<rparr>) [example_row]"
proof (rule listing_roundtrip)
  show "list_all plain_row [example_row]" by (rule example_row_plain)
  show "skips ''<table'' ''<p>'' (table_html [example_row] @ [])" by (simp add: lower_char_def)
qed

text \<open>
  C40: escaped texts are read back when they have no ampersand. An ampersand itself is decoded first, so
  a text that spells an entity, such as the name \<open>&lt;\<close> that a page must write as \<open>&amp;lt;\<close>, is
  decoded twice and changed.
\<close>

theorem entities_decode_twice:
  "(if CHR ''&'' \<in> set t then True else decodeHtmlEntities (html_escape t) = t) \<and>
   html_escape ''&lt;'' = ''&amp;lt;'' \<and> decodeHtmlEntities (html_escape ''&lt;'') = ''<''"
proof (intro conjI)
  show "if CHR ''&'' \<in> set t then True else decodeHtmlEntities (html_escape t) = t" by (simp add: decode_escape)
  show "html_escape ''&lt;'' = ''&amp;lt;''" "decodeHtmlEntities (html_escape ''&lt;'') = ''<''" by code_simp+
qed

end
