(* ===== verification/Staging_Refinement.thy ===== *)
theory Staging_Refinement
  imports Staging
begin

text \<open>
  The abstract specification of the staging repository of \<open>src/staging/postgres-staging-repository.ts\<close>:
  a ledger that maps an object (checksum and object key) to the source identity it was staged
  under, and one atomic operation on it. The repository's three statements, with other sessions
  inserting between them and statements failing, are shown to act as that one operation.
\<close>

subsection \<open>The ledger\<close>

type_synonym ledger = "string \<times> string \<Rightarrow> (string \<times> string) option"

datatype claim = Registered | Known | Taken

definition object_of :: "staging_row \<Rightarrow> string \<times> string" where
  "object_of r = (sg_checksum r, sg_objectKey r)"

definition identity_of :: "staging_row \<Rightarrow> string \<times> string" where
  "identity_of r = (sg_sourceSystem r, sg_sourceReplayId r)"

definition claim_object :: "string \<times> string \<Rightarrow> string \<times> string \<Rightarrow> ledger \<Rightarrow> claim \<times> ledger" where
  "claim_object object identity T =
     (if object \<in> dom T then (Known, T)
      else if identity \<in> ran T then (Taken, T)
      else (Registered, T(object \<mapsto> identity)))"

definition claim_row :: "staging_row \<Rightarrow> ledger \<Rightarrow> claim \<times> ledger" where
  "claim_row r = claim_object (object_of r) (identity_of r)"

definition claim_payload :: "staging_payload \<Rightarrow> ledger \<Rightarrow> claim \<times> ledger" where
  "claim_payload p = claim_row (row_of p [])"

text \<open>What other sessions register, one after the other.\<close>

definition replay :: "staging_row list \<Rightarrow> ledger \<Rightarrow> ledger" where
  "replay rs T = fold (\<lambda>r T. snd (claim_row r T)) rs T"

definition claim_status :: "claim \<Rightarrow> staging_status" where
  "claim_status c = (case c of Registered \<Rightarrow> Staged | Known \<Rightarrow> AlreadyStaged | Taken \<Rightarrow> Conflict)"

definition ledger_of :: "staging_row list \<Rightarrow> ledger" where
  "ledger_of rows = map_of (map (\<lambda>r. (object_of r, identity_of r)) rows)"

lemma replay_simps [simp]: "replay [] T = T" "replay (rs @ rs') T = replay rs' (replay rs T)"
  by (simp_all add: replay_def)

subsection \<open>Rows and ledger\<close>

lemma dom_ledger: "object \<in> dom (ledger_of rows) \<longleftrightarrow> list_ex (same_object (fst object) (snd object)) rows"
  by (cases object) (auto simp: ledger_of_def dom_map_of_conv_image_fst list_ex_iff same_object_def object_of_def image_iff)

lemma ran_ledger:
  "unique_rows rows \<Longrightarrow>
     identity \<in> ran (ledger_of rows) \<longleftrightarrow> list_ex (same_source (fst identity) (snd identity)) rows"
  by (cases identity)
    (auto simp: ledger_of_def ran_distinct comp_def unique_rows_def object_of_def identity_of_def list_ex_iff
      same_source_def image_iff)

lemma ledger_insert:
  assumes "\<not> list_ex (same_object (sg_checksum r) (sg_objectKey r)) rows"
  shows "ledger_of (rows @ [r]) = (ledger_of rows)(object_of r \<mapsto> identity_of r)"
proof -
  have "object_of r \<notin> dom (ledger_of rows)" using assms by (simp add: dom_ledger object_of_def)
  then show ?thesis
    by (auto simp: ledger_of_def map_add_def fun_eq_iff split: option.splits)
qed

lemma claim_insert:
  assumes "unique_rows rows"
  shows "ledger_of (insert_if_admitted rows r) = snd (claim_row r (ledger_of rows))"
  using assms
  by (simp add: insert_if_admitted_def admits_def claim_row_def claim_object_def dom_ledger ran_ledger
    ledger_insert object_of_def identity_of_def)

lemma claim_others:
  "unique_rows rows \<Longrightarrow> ledger_of (foldl insert_if_admitted rows rs) = replay rs (ledger_of rows)"
proof (induction rs arbitrary: rows)
  case (Cons r rs)
  have "unique_rows (insert_if_admitted rows r)"
    using others_unique [OF Cons.prems, of "[r]"] by simp
  with Cons show ?case by (simp add: replay_def claim_insert)
qed (simp add: replay_def)

lemma claim_run_insert:
  assumes "unique_rows rows"
  shows "ledger_of (snd (run_insert p i rows)) = snd (claim_payload p (ledger_of rows)) \<and>
    fst (run_insert p i rows) = (case fst (claim_payload p (ledger_of rows)) of
      Known \<Rightarrow> Inr None | Taken \<Rightarrow> Inl unique_violation | Registered \<Rightarrow> Inr (Some i))"
proof -
  have keys: "object_of (row_of p j) = (pl_checksum p, pl_objectKey p)"
    "identity_of (row_of p j) = (pl_sourceSystem p, pl_sourceReplayId p)" for j
    by (simp_all add: row_of_def object_of_def identity_of_def)
  have "\<not> list_ex (same_object (pl_checksum p) (pl_objectKey p)) rows \<Longrightarrow>
      ledger_of (rows @ [row_of p i]) = (ledger_of rows)((pl_checksum p, pl_objectKey p) \<mapsto> (pl_sourceSystem p, pl_sourceReplayId p))"
    using ledger_insert [of "row_of p i" rows] keys [of i] by (simp add: row_of_def)
  with assms show ?thesis
    by (simp add: run_insert_def claim_payload_def claim_row_def claim_object_def keys dom_ledger ran_ledger)
qed

subsection \<open>Turns of the server\<close>

definition others :: "(nat \<Rightarrow> db_turn) \<Rightarrow> nat \<Rightarrow> nat \<Rightarrow> staging_row list" where
  "others env m n = concat (map (\<lambda>i. dt_others (env i)) [m..<n])"

text \<open>A server reports a unique violation only when there is one.\<close>

definition honest :: "db_turn \<Rightarrow> bool" where
  "honest t = (case dt_fault t of
     NoFault \<Rightarrow> True | FailsBefore code \<Rightarrow> \<not> isUniqueViolation code | FailsAfter code \<Rightarrow> \<not> isUniqueViolation code)"

lemma others_simps [simp]:
  "others env n n = []" "others env n (Suc n) = dt_others (env n)"
  "others env n (Suc (Suc n)) = dt_others (env n) @ dt_others (env (Suc n))"
  by (simp_all add: others_def)

lemma turn_effect:
  assumes "begin_turn env db = (t, db1)" "unique_rows (db_rows db)"
  shows "t = env (db_turns db)" "db_turns db1 = Suc (db_turns db)" "unique_rows (db_rows db1)"
    "ledger_of (db_rows db1) = replay (dt_others (env (db_turns db))) (ledger_of (db_rows db))"
  using assms by (auto simp: begin_turn_def Let_def claim_others others_unique)

lemma select_effect:
  assumes "run_select w env db = (r, db1)" "unique_rows (db_rows db)" "honest (env (db_turns db))"
  shows "db_turns db1 = Suc (db_turns db)"
    "ledger_of (db_rows db1) = replay (dt_others (env (db_turns db))) (ledger_of (db_rows db))"
    "(\<exists>code. r = Inl code \<and> \<not> isUniqueViolation code) \<or> r = Inr (List.find w (db_rows db1))"
proof -
  obtain t db2 where b: "begin_turn env db = (t, db2)" by (cases "begin_turn env db")
  note e = turn_effect [OF b assms(2)]
  from assms(1) have "db1 = db2" by (auto simp: run_select_def b split: db_fault.splits)
  with e assms(1,3) show "db_turns db1 = Suc (db_turns db)"
    "ledger_of (db_rows db1) = replay (dt_others (env (db_turns db))) (ledger_of (db_rows db))"
    "(\<exists>code. r = Inl code \<and> \<not> isUniqueViolation code) \<or> r = Inr (List.find w (db_rows db1))"
    by (auto simp: run_select_def b honest_def split: db_fault.splits)
qed

lemma find_extended:
  assumes "rows_extend rows rows'" "list_ex P rows"
  obtains row where "List.find P rows' = Some row" "row \<in> set rows" "P row"
proof -
  from assms(2) obtain row where f: "List.find P rows = Some row"
    using find_eq_None_list_ex [of P rows] by auto
  moreover have "List.find P (xs @ ys) = Some row" if "List.find P xs = Some row" for xs ys
    using that by (induction xs) (auto split: if_splits)
  ultimately have "List.find P rows' = Some row" using assms(1) by (auto simp: rows_extend_def)
  with that find_Some_iff' [OF f] show thesis by blast
qed

subsection \<open>The refinement\<close>

text \<open>
  What it means that staging a payload between two states was one claim on the ledger: the
  registrations of other sessions, all of them in their order, split into those before and
  those after the claim.
\<close>

definition acts_as_claim ::
    "(nat \<Rightarrow> db_turn) \<Rightarrow> staging_payload \<Rightarrow> staging_db \<Rightarrow> string option + staging_result \<Rightarrow> staging_db \<Rightarrow> bool" where
  "acts_as_claim env p db r db' \<longleftrightarrow>
     (\<exists>before after. others env (db_turns db) (db_turns db') = before @ after \<and>
       (let T = replay before (ledger_of (db_rows db)); (c, T') = claim_payload p T; L = ledger_of (db_rows db') in
        case r of
          Inl _ \<Rightarrow> c = Taken \<and> L = replay after T
        | Inr r \<Rightarrow>
            if sr_status r = StagingFailed then L \<in> {replay after T, replay after T'}
            else sr_status r = claim_status c \<and> L = replay after T'))"

lemma acts_as_claimI:
  assumes "others env (db_turns db) (db_turns db') = before @ after"
    "claim_payload p (replay before (ledger_of (db_rows db))) = (c, T')"
    "case r of
       Inl _ \<Rightarrow> c = Taken \<and> ledger_of (db_rows db') = replay after (replay before (ledger_of (db_rows db)))
     | Inr r \<Rightarrow>
         if sr_status r = StagingFailed
         then ledger_of (db_rows db') \<in> {replay after (replay before (ledger_of (db_rows db))), replay after T'}
         else sr_status r = claim_status c \<and> ledger_of (db_rows db') = replay after T'"
  shows "acts_as_claim env p db r db'"
  using assms unfolding acts_as_claim_def Let_def by (intro exI [of _ before] exI [of _ after]) simp

lemma claim_kept: "claim_payload p T = (c, T') \<Longrightarrow> c \<noteq> Registered \<Longrightarrow> T' = T"
  by (auto simp: claim_payload_def claim_row_def claim_object_def split: if_splits)

text \<open>The insert is where the claim is made; the lookups after it only find out what it was.\<close>

lemma insert_effect:
  assumes "insertStaging env p db = (r, db1)" "unique_rows (db_rows db)" "honest (env (db_turns db))"
    "claim_payload p (replay (dt_others (env (db_turns db))) (ledger_of (db_rows db))) = (c, T')"
  defines "T \<equiv> replay (dt_others (env (db_turns db))) (ledger_of (db_rows db))"
  shows "db_turns db1 = Suc (db_turns db)" "unique_rows (db_rows db1)"
    "(\<exists>code. r = Inl code \<and> \<not> isUniqueViolation code \<and> ledger_of (db_rows db1) \<in> {T, T'}) \<or>
     ledger_of (db_rows db1) = T' \<and>
       ((\<exists>i. r = Inr (Some i) \<and> c = Registered) \<or>
        (r = Inr None \<and> c = Known \<and> list_ex (same_object (pl_checksum p) (pl_objectKey p)) (db_rows db1)) \<or>
        (r = Inl unique_violation \<and> c = Taken \<and>
          \<not> list_ex (same_object (pl_checksum p) (pl_objectKey p)) (db_rows db1) \<and>
          list_ex (same_source (pl_sourceSystem p) (pl_sourceReplayId p)) (db_rows db1)))"
proof -
  obtain t db2 where b: "begin_turn env db = (t, db2)" by (cases "begin_turn env db")
  note e = turn_effect [OF b assms(2)]
  have ledger: "ledger_of (db_rows db2) = T" using e(4) by (simp add: T_def)
  obtain out rows where ins: "run_insert p (dt_id t) (db_rows db2) = (out, rows)"
    by (cases "run_insert p (dt_id t) (db_rows db2)")
  have claim: "ledger_of rows = T'"
    "out = (case c of Known \<Rightarrow> Inr None | Taken \<Rightarrow> Inl unique_violation | Registered \<Rightarrow> Inr (Some (dt_id t)))"
    using claim_run_insert [OF e(3), of p "dt_id t"] assms(4) ins ledger by (simp_all add: T_def)
  show "db_turns db1 = Suc (db_turns db)"
    using assms(1) e(2) ins by (auto simp: insertStaging_def b split: db_fault.splits)
  show "unique_rows (db_rows db1)" using insertStaging_unique [OF assms(2), of env p] assms(1) by simp
  show "(\<exists>code. r = Inl code \<and> \<not> isUniqueViolation code \<and> ledger_of (db_rows db1) \<in> {T, T'}) \<or>
     ledger_of (db_rows db1) = T' \<and>
       ((\<exists>i. r = Inr (Some i) \<and> c = Registered) \<or>
        (r = Inr None \<and> c = Known \<and> list_ex (same_object (pl_checksum p) (pl_objectKey p)) (db_rows db1)) \<or>
        (r = Inl unique_violation \<and> c = Taken \<and>
          \<not> list_ex (same_object (pl_checksum p) (pl_objectKey p)) (db_rows db1) \<and>
          list_ex (same_source (pl_sourceSystem p) (pl_sourceReplayId p)) (db_rows db1)))"
  proof (cases "dt_fault t")
    case NoFault
    then have r: "r = out" "db_rows db1 = rows" using assms(1) ins by (auto simp: insertStaging_def b)
    with claim ins show ?thesis
      by (cases c) (auto simp: run_insert_def split: if_splits)
  next
    case (FailsBefore code)
    then have "r = Inl code" "db1 = db2" using assms(1) by (auto simp: insertStaging_def b)
    with FailsBefore e(1) assms(3) ledger show ?thesis by (auto simp: honest_def)
  next
    case (FailsAfter code)
    then have "r = Inl code" "db_rows db1 = rows" using assms(1) ins by (auto simp: insertStaging_def b)
    with FailsAfter e(1) assms(3) claim show ?thesis by (auto simp: honest_def)
  qed
qed

lemma taken_classified:
  assumes "classifyExistingStaging env p db = (r, db')" "unique_rows (db_rows db)" "honest (env (db_turns db))"
    "\<not> list_ex (same_object (pl_checksum p) (pl_objectKey p)) (db_rows db)"
    "list_ex (same_source (pl_sourceSystem p) (pl_sourceReplayId p)) (db_rows db)"
  shows "db_turns db' = Suc (db_turns db)"
    "ledger_of (db_rows db') = replay (dt_others (env (db_turns db))) (ledger_of (db_rows db))"
    "case r of Inl _ \<Rightarrow> True | Inr r \<Rightarrow> sr_status r = Conflict"
proof -
  let ?source = "same_source (pl_sourceSystem p) (pl_sourceReplayId p)"
  obtain q db1 where find: "findBySourceIdentity env p db = (q, db1)" by (cases "findBySourceIdentity env p db")
  note e = select_effect [OF find [unfolded findBySourceIdentity_def] assms(2,3)]
  have "rows_extend (db_rows db) (db_rows db1)"
    using run_select_extends [of db ?source env] find by (simp add: findBySourceIdentity_def)
  from find_extended [OF this assms(5)] obtain row where row: "List.find ?source (db_rows db1) = Some row" "row \<in> set (db_rows db)" .
  moreover have "\<not> matchesPayload row p"
    using assms(4) row(2) by (auto simp: matchesPayload_def list_ex_iff same_object_def)
  ultimately have "(\<exists>code. q = Inl code) \<or> q = Inr (Some row)" "\<not> matchesPayload row p" using e(3) by auto
  then have "db' = db1 \<and> (case r of Inl _ \<Rightarrow> True | Inr r \<Rightarrow> sr_status r = Conflict)"
    using assms(1) by (auto simp: classifyExistingStaging_def find staging_outcome_def)
  with e show "db_turns db' = Suc (db_turns db)"
    "ledger_of (db_rows db') = replay (dt_others (env (db_turns db))) (ledger_of (db_rows db))"
    "case r of Inl _ \<Rightarrow> True | Inr r \<Rightarrow> sr_status r = Conflict" by simp_all
qed

lemma known_found:
  assumes "findByObjectIdentity env p db = (q, db')" "unique_rows (db_rows db)" "honest (env (db_turns db))"
    "list_ex (same_object (pl_checksum p) (pl_objectKey p)) (db_rows db)"
  shows "(\<exists>code. q = Inl code \<and> \<not> isUniqueViolation code) \<or> (\<exists>row. q = Inr (Some row))"
proof -
  note e = select_effect [OF assms(1) [unfolded findByObjectIdentity_def] assms(2,3)]
  have "rows_extend (db_rows db) (db_rows db')"
    using run_select_extends [of db "same_object (pl_checksum p) (pl_objectKey p)" env] assms(1)
    by (simp add: findByObjectIdentity_def)
  from find_extended [OF this assms(4)] e(3) show ?thesis by metis
qed

text \<open>
  C5: staging refines one atomic claim on the ledger of staged objects. Other sessions may insert
  between the statements, and statements may fail with any code but a spurious unique violation.
  The insertions of the others all take effect once and in their order; somewhere between them
  the claim of this payload is made. The reported status is that of the claim: \<open>staged\<close> for a new
  object, \<open>already_staged\<close> for a known one, \<open>conflict\<close> when its source identity belongs to another
  object. Only a failed statement leaves open whether the claim was made, and the promise is rejected
  only when the claim was refused.
\<close>

theorem stage_refines_claim:
  assumes "unique_rows (db_rows db)" "\<And>n. honest (env n)"
  shows "case stage env p db of (r, db') \<Rightarrow> acts_as_claim env p db r db'"
proof -
  obtain r1 db1 where 1: "insertStaging env p db = (r1, db1)" by (cases "insertStaging env p db")
  obtain c T' where c: "claim_payload p (replay (dt_others (env (db_turns db))) (ledger_of (db_rows db))) = (c, T')"
    by (cases "claim_payload p (replay (dt_others (env (db_turns db))) (ledger_of (db_rows db)))")
  note i = insert_effect [OF 1 assms c]
  note at_end = acts_as_claimI [OF _ c, where after = "[]"]
  note later = acts_as_claimI [OF _ c, where after = "dt_others (env (Suc (db_turns db)))"]
  from i(3) consider
      (failed) code where "r1 = Inl code" "\<not> isUniqueViolation code"
        "ledger_of (db_rows db1) \<in> {replay (dt_others (env (db_turns db))) (ledger_of (db_rows db)), T'}"
    | (new) j where "r1 = Inr (Some j)" "c = Registered" "ledger_of (db_rows db1) = T'"
    | (known) "r1 = Inr None" "c = Known" "ledger_of (db_rows db1) = T'"
        "list_ex (same_object (pl_checksum p) (pl_objectKey p)) (db_rows db1)"
    | (taken) "r1 = Inl unique_violation" "c = Taken" "ledger_of (db_rows db1) = T'"
        "\<not> list_ex (same_object (pl_checksum p) (pl_objectKey p)) (db_rows db1)"
        "list_ex (same_source (pl_sourceSystem p) (pl_sourceReplayId p)) (db_rows db1)"
    by blast
  then show ?thesis
  proof cases
    case failed
    then show ?thesis
      by (auto simp: stage_def 1 on_query_error_def staging_outcome_def i(1) intro!: at_end)
  next
    case new
    then show ?thesis
      by (auto simp: stage_def 1 staging_outcome_def i(1) claim_status_def intro!: at_end)
  next
    case known
    obtain q db2 where 2: "findByObjectIdentity env p db1 = (q, db2)" by (cases "findByObjectIdentity env p db1")
    note e = select_effect [OF 2 [unfolded findByObjectIdentity_def] i(2) assms(2)]
    from known_found [OF 2 i(2) assms(2) known(4)] show ?thesis
      by (auto simp: stage_def 1 2 known e i(1) on_query_error_def staging_outcome_def claim_status_def intro!: later)
  next
    case taken
    obtain r db2 where 2: "classifyExistingStaging env p db1 = (r, db2)" by (cases "classifyExistingStaging env p db1")
    note e = taken_classified [OF 2 i(2) assms(2) taken(4,5)]
    from claim_kept [OF c] taken(2) have "T' = replay (dt_others (env (db_turns db))) (ledger_of (db_rows db))" by simp
    with e taken show ?thesis
      by (cases r) (auto simp: stage_def 1 2 i(1) on_query_error_def isUniqueViolation_def claim_status_def intro!: later)
  qed
qed

lemma stage_refines_claim_witness:
  "case stage busy_turn example_payload empty_db of (r, db') \<Rightarrow> acts_as_claim busy_turn example_payload empty_db r db'"
  by (rule stage_refines_claim) (simp_all add: empty_db_def unique_rows_def busy_turn_def honest_def)

end
