(* ===== verification/Discovery.thy ===== *)
theory Discovery
  imports Html_Rows Discovery_Report Page_Url
begin

text \<open>
  Discovery of the candidates on the source's list pages: \<open>src/discovery/discover.ts\<close>,
  \<open>discover-candidate.ts\<close> and \<open>discover-dedup.ts\<close>.

  The source client, the timer, the logger and the staging lookup of the watch path are fields of
  the input and work on a state \<open>'s\<close>; a \<open>Left\<close> result is what they throw. A list page that is
  JSON is read as a fixture. Its members are not checked against their declared types by the code; a
  fixture in which one has another type is outside the model, and discovery is then \<open>None\<close>.
\<close>

record 's discovery_input =
  di_maxPages :: "nat option"
  di_requestDelayMs :: "nat option"
  di_generatedAt :: "string option"
  di_sourceSystem :: "string option"
  di_sourceUrl :: url
  di_parse :: "string \<Rightarrow> url option"
  di_resolve :: "string \<Rightarrow> url \<Rightarrow> url option"
  di_now :: "'s \<Rightarrow> string \<times> 's"
  di_sleep :: "nat \<Rightarrow> 's \<Rightarrow> 's"
  di_warn :: "'s \<Rightarrow> 's"
  di_fetch :: "url \<Rightarrow> phase \<Rightarrow> nat \<Rightarrow> 's \<Rightarrow> (thrown + string) \<times> 's"
  di_exists :: "(string \<Rightarrow> string \<Rightarrow> 's \<Rightarrow> (thrown + bool) \<times> 's) option"

subsection \<open>Addresses of replays\<close>

definition uri_unreserved :: "char \<Rightarrow> bool" where
  "uri_unreserved c \<longleftrightarrow> is_digit c \<or> is_letter c \<or> c \<in> set ''-_.!~*()'' \<or> c = apostrophe"

definition percent_byte :: "nat \<Rightarrow> string" where
  "percent_byte n = [CHR ''%'', upper_hex (n div 16), upper_hex (n mod 16)]"

text \<open>\<open>encodeURIComponent\<close>: a code unit from 128 to 255 is two bytes of UTF-8.\<close>

definition uri_char :: "char \<Rightarrow> string" where
  "uri_char c = (let n = (of_char c :: nat) in
     if uri_unreserved c then [c]
     else if n < 128 then percent_byte n
     else percent_byte (192 + n div 64) @ percent_byte (128 + n mod 64))"

definition encodeURIComponent :: "string \<Rightarrow> string" where
  "encodeURIComponent s = concat (map uri_char s)"

definition toRawReplayUrl :: "(string \<Rightarrow> url \<Rightarrow> url option) \<Rightarrow> string \<Rightarrow> url \<Rightarrow> thrown + string" where
  "toRawReplayUrl resolve filename detailUrl =
     (let rawFilename = (if ends_with filename ''.json'' then filename else filename @ ''.json'') in
      case resolve (''/data/'' @ encodeURIComponent rawFilename) detailUrl of
        None \<Rightarrow> Inl invalid_url_error
      | Some u \<Rightarrow> Inr (replace_text ''%2F'' ''/'' (href u)))"

subsection \<open>Fixtures\<close>

definition looksLikeJson :: "string \<Rightarrow> bool" where
  "looksLikeJson text \<longleftrightarrow> head (js_trim text) \<in> {Some (CHR 0x7B), Some (CHR ''['')}"

definition parseSourceFixture :: "('s \<Rightarrow> 's) \<Rightarrow> string \<Rightarrow> 's \<Rightarrow> json list option \<times> 's" where
  "parseSourceFixture warn text s =
     (if \<not> looksLikeJson text then (None, s)
      else (case json_parse text of
              None \<Rightarrow> (None, warn s)
            | Some (JObj kvs) \<Rightarrow> (case map_of kvs ''candidates'' of Some (JArr cs) \<Rightarrow> Some cs | _ \<Rightarrow> None, s)
            | Some _ \<Rightarrow> (None, s)))"

definition text_or_absent :: "string \<Rightarrow> (string \<times> json) list \<Rightarrow> bool" where
  "text_or_absent k kvs = (case map_of kvs k of None \<Rightarrow> True | Some (JStr _) \<Rightarrow> True | Some _ \<Rightarrow> False)"

definition whole_number :: "json option \<Rightarrow> bool" where
  "whole_number j = (case j of Some (JNum r) \<Rightarrow> r = of_int \<lfloor>r\<rfloor> | _ \<Rightarrow> True)"

definition natural_number :: "json option \<Rightarrow> bool" where
  "natural_number j = (case j of Some (JNum r) \<Rightarrow> r = of_int \<lfloor>r\<rfloor> \<and> 0 \<le> r | _ \<Rightarrow> True)"

definition declared_types :: "json \<Rightarrow> bool" where
  "declared_types j = (case j of
       JObj kvs \<Rightarrow>
         list_all (\<lambda>k. text_or_absent k kvs) [''externalId'', ''rawUrl'', ''discoveredAt'', ''missionText'', ''world''] \<and>
         natural_number (map_of kvs ''page'') \<and> whole_number (map_of kvs ''serverId'')
     | _ \<Rightarrow> True)"

definition text_member :: "string \<Rightarrow> (string \<times> json) list \<Rightarrow> string option" where
  "text_member k kvs = (case map_of kvs k of Some (JStr s) \<Rightarrow> Some s | _ \<Rightarrow> None)"

definition int_member :: "string \<Rightarrow> (string \<times> json) list \<Rightarrow> int option" where
  "int_member k kvs = (case map_of kvs k of Some (JNum r) \<Rightarrow> Some \<lfloor>r\<rfloor> | _ \<Rightarrow> None)"

definition null_member_error :: thrown where
  "null_member_error = Error PlainError None ''Cannot read properties of null'' ''TypeError'' None None None"

definition no_metadata :: replay_metadata where
  "no_metadata = \<lparr>rm_discoveredAt = None, rm_missionText = None, rm_serverId = None, rm_world = None\<rparr>"

definition with_metadata :: "replay_metadata \<Rightarrow> replay_metadata option" where
  "with_metadata m = (if m = no_metadata then None else Some m)"

text \<open>The members of an array, a number or a text that are read here are \<open>undefined\<close>.\<close>

definition own_members :: "json \<Rightarrow> (string \<times> json) list" where
  "own_members j = (case j of JObj kvs \<Rightarrow> kvs | _ \<Rightarrow> [])"

definition toReplayCandidate ::
    "(string \<Rightarrow> url option) \<Rightarrow> json \<Rightarrow> nat \<Rightarrow> url \<Rightarrow> thrown + (diagnostic + replay_candidate)" where
  "toReplayCandidate parse_url j index pageUrl =
     (if j = JNull then Inl null_member_error
      else let kvs = own_members j in
        case (text_member ''filename'' kvs, text_member ''url'' kvs) of
          (Some filename, Some u) \<Rightarrow>
            if js_trim filename \<noteq> [] \<and> js_trim u \<noteq> [] \<and> parse_url u \<noteq> None
            then Inr (Inr
              \<lparr>rc_filename = filename,
               rc_metadata = with_metadata
                 \<lparr>rm_discoveredAt = text_member ''discoveredAt'' kvs, rm_missionText = text_member ''missionText'' kvs,
                  rm_serverId = int_member ''serverId'' kvs, rm_world = text_member ''world'' kvs\<rparr>,
               rc_source = \<lparr>rs_externalId = text_member ''externalId'' kvs,
                 rs_page = map_option nat (int_member ''page'' kvs),
                 rs_rawUrl = text_member ''rawUrl'' kvs, rs_url = u\<rparr>\<rparr>)
            else Inr (Inl ((plain_diagnostic MalformedRow
              ''Source fixture candidate did not include filename and URL'' Warning)
              \<lparr>dg_candidateIndex := Some index, dg_sourceUrl := Some (href pageUrl)\<rparr>))
        | _ \<Rightarrow> Inr (Inl ((plain_diagnostic MalformedRow
              ''Source fixture candidate did not include filename and URL'' Warning)
              \<lparr>dg_candidateIndex := Some index, dg_sourceUrl := Some (href pageUrl)\<rparr>)))"

subsection \<open>Duplicates on a page\<close>

record page_found =
  pf_candidates :: "replay_candidate list"
  pf_diagnostics :: "diagnostic list"
  pf_skippedPreDetail :: nat

text \<open>
  The texts that the code compares, \<open>JSON.stringify\<close> of a candidate and of its metadata, are equal
  exactly when the values are: all candidates of a page have the same kind and so the same order of
  members. Absent metadata are compared as empty metadata.
\<close>

definition metadata_or_empty :: "replay_candidate \<Rightarrow> replay_metadata" where
  "metadata_or_empty c = (case rc_metadata c of Some m \<Rightarrow> m | None \<Rightarrow> no_metadata)"

definition hasChangedMetadata :: "replay_candidate list \<Rightarrow> replay_candidate \<Rightarrow> bool" where
  "hasChangedMetadata existing c \<longleftrightarrow>
     list_ex (\<lambda>e. rs_externalId (rc_source e) = rs_externalId (rc_source c) \<and>
       metadata_or_empty e \<noteq> metadata_or_empty c) existing"

definition candidate_diagnostic :: "discovery_code \<Rightarrow> string \<Rightarrow> nat \<Rightarrow> replay_candidate \<Rightarrow> diagnostic" where
  "candidate_diagnostic code message index c =
     withOptionalDiagnosticEvidence
       ((plain_diagnostic code message Warning)
         \<lparr>dg_candidateIndex := Some index, dg_sourceUrl := Some (rs_url (rc_source c))\<rparr>)
       (rs_externalId (rc_source c)) (rs_page (rc_source c))"

record registry =
  rg_byFilename :: "string \<Rightarrow> replay_candidate list"
  rg_emitted :: "replay_candidate list"
  rg_diagnostics :: "diagnostic list"

definition register :: "registry \<Rightarrow> replay_candidate \<Rightarrow> registry" where
  "register r c =
     (let existing = rg_byFilename r (rc_filename c);
          index = length (rg_emitted r);
          duplicate = (if existing = [] then []
            else [candidate_diagnostic DuplicateFilename ''Filename appeared more than once in source discovery'' index c]);
          changed = (if existing \<noteq> [] \<and> hasChangedMetadata existing c
            then [candidate_diagnostic ChangedMetadata
              ''Filename/source ID metadata changed within one discovery run'' index c] else [])
      in r\<lparr>rg_diagnostics := rg_diagnostics r @ duplicate @ changed,
           rg_emitted := (if c \<in> set (rg_emitted r) then rg_emitted r else rg_emitted r @ [c]),
           rg_byFilename := (rg_byFilename r)(rc_filename c := existing @ [c])\<rparr>)"

definition collectCandidateDiagnostics :: "replay_candidate list \<Rightarrow> page_found" where
  "collectCandidateDiagnostics cs =
     (let r = foldl register \<lparr>rg_byFilename = (\<lambda>_. []), rg_emitted = [], rg_diagnostics = []\<rparr> cs
      in \<lparr>pf_candidates = rg_emitted r, pf_diagnostics = rg_diagnostics r, pf_skippedPreDetail = 0\<rparr>)"

fun fixture_results ::
    "(string \<Rightarrow> url option) \<Rightarrow> url \<Rightarrow> nat \<Rightarrow> json list \<Rightarrow> thrown + (diagnostic + replay_candidate) list" where
  "fixture_results parse_url pageUrl index [] = Inr []"
| "fixture_results parse_url pageUrl index (j # js) =
     (case toReplayCandidate parse_url j index pageUrl of
        Inl e \<Rightarrow> Inl e
      | Inr r \<Rightarrow> map_sum id (Cons r) (fixture_results parse_url pageUrl (Suc index) js))"

definition lefts :: "('a + 'b) list \<Rightarrow> 'a list" where
  "lefts xs = List.map_filter (\<lambda>x. case x of Inl a \<Rightarrow> Some a | Inr _ \<Rightarrow> None) xs"

definition rights :: "('a + 'b) list \<Rightarrow> 'b list" where
  "rights xs = List.map_filter (\<lambda>x. case x of Inl _ \<Rightarrow> None | Inr b \<Rightarrow> Some b) xs"

definition with_duplicates :: "diagnostic list \<Rightarrow> replay_candidate list \<Rightarrow> nat \<Rightarrow> page_found" where
  "with_duplicates diagnostics candidates skipped =
     (let c = collectCandidateDiagnostics candidates in
      \<lparr>pf_candidates = pf_candidates c, pf_diagnostics = diagnostics @ pf_diagnostics c,
       pf_skippedPreDetail = skipped\<rparr>)"

definition collectFixtureCandidates ::
    "(string \<Rightarrow> url option) \<Rightarrow> json list \<Rightarrow> url \<Rightarrow> thrown + page_found" where
  "collectFixtureCandidates parse_url fixture pageUrl =
     map_sum id (\<lambda>rs. with_duplicates (lefts rs) (rights rs) 0) (fixture_results parse_url pageUrl 0 fixture)"

subsection \<open>Rows\<close>

text \<open>The paced client: its count of requests is the first component of the state.\<close>

definition defaultRequestDelayMs :: nat where "defaultRequestDelayMs = 0"

definition paced_fetch ::
    "'s discovery_input \<Rightarrow> url \<Rightarrow> phase \<Rightarrow> nat \<Rightarrow> nat \<times> 's \<Rightarrow> (thrown + string) \<times> (nat \<times> 's)" where
  "paced_fetch input u ph page st =
     (let delay = (case di_requestDelayMs input of Some d \<Rightarrow> d | None \<Rightarrow> defaultRequestDelayMs);
          s = (if 0 < fst st \<and> 0 < delay then di_sleep input delay (snd st) else snd st);
          (r, s) = di_fetch input u ph page s
      in (r, (Suc (fst st), s)))"

definition toReplayCandidateFromHtmlRow :: "string \<Rightarrow> string \<Rightarrow> row_observation \<Rightarrow> string \<Rightarrow> replay_candidate" where
  "toReplayCandidateFromHtmlRow filename rawUrl row sourceUrl =
     \<lparr>rc_filename = filename, rc_metadata = with_metadata (ro_metadata row),
      rc_source = \<lparr>rs_externalId = ro_externalId row, rs_page = Some (ro_page row), rs_rawUrl = Some rawUrl,
        rs_url = sourceUrl\<rparr>\<rparr>"

definition discoverRowCandidate ::
    "'s discovery_input \<Rightarrow> nat \<Rightarrow> row_observation \<Rightarrow> string \<Rightarrow> nat \<times> 's
      \<Rightarrow> (thrown + replay_candidate option) \<times> (nat \<times> 's)" where
  "discoverRowCandidate input page row sourceUrl st =
     (case di_parse input sourceUrl of
        None \<Rightarrow> (Inl invalid_url_error, st)
      | Some detailUrl \<Rightarrow>
          (case paced_fetch input detailUrl DetailPhase page st of
             (Inl e, st) \<Rightarrow> (Inl e, st)
           | (Inr detailHtml, st) \<Rightarrow>
               (case extractFilenameFromDetailHtml detailHtml of
                  None \<Rightarrow> (Inr None, st)
                | Some filename \<Rightarrow>
                    (map_sum id (\<lambda>raw. Some (toReplayCandidateFromHtmlRow filename raw row sourceUrl))
                       (toRawReplayUrl (di_resolve input) filename detailUrl), st))))"

definition isTrustworthyRowId :: "string option \<Rightarrow> bool" where
  "isTrustworthyRowId id_text = (case id_text of None \<Rightarrow> False | Some i \<Rightarrow> js_trim i \<noteq> [])"

definition shouldSkipPreDetail ::
    "'s discovery_input \<Rightarrow> string option \<Rightarrow> 's \<Rightarrow> (thrown + bool) \<times> 's" where
  "shouldSkipPreDetail input externalId s =
     (case (di_exists input, di_sourceSystem input, externalId) of
        (Some exists, Some system, Some i) \<Rightarrow>
          if isTrustworthyRowId externalId then exists system i s else (Inr False, s)
      | _ \<Rightarrow> (Inr False, s))"

definition missing_link :: "nat \<Rightarrow> url \<Rightarrow> diagnostic" where
  "missing_link page pageUrl =
     (plain_diagnostic MalformedRow ''Source row did not include a replay link'' Warning)
       \<lparr>dg_page := Some page, dg_sourceUrl := Some (href pageUrl)\<rparr>"

definition missing_filename :: "row_observation \<Rightarrow> string \<Rightarrow> diagnostic" where
  "missing_filename row rowUrl =
     withOptionalDiagnosticEvidence
       ((plain_diagnostic MissingFilename ''Replay detail page did not include a filename'' Warning)
         \<lparr>dg_sourceUrl := Some rowUrl\<rparr>)
       (ro_externalId row) (Some (ro_page row))"

datatype row_outcome = NoLink diagnostic | SkippedRow | NoFilename diagnostic | Found replay_candidate

definition row_step ::
    "'s discovery_input \<Rightarrow> nat \<Rightarrow> url \<Rightarrow> row_observation \<Rightarrow> nat \<times> 's \<Rightarrow> (thrown + row_outcome) \<times> (nat \<times> 's)" where
  "row_step input page pageUrl row st =
     (case ro_url row of
        None \<Rightarrow> (Inr (NoLink (missing_link (ro_page row) pageUrl)), st)
      | Some rowUrl \<Rightarrow>
          (case shouldSkipPreDetail input (ro_externalId row) (snd st) of
             (Inl e, s) \<Rightarrow> (Inl e, (fst st, s))
           | (Inr True, s) \<Rightarrow> (Inr SkippedRow, (fst st, s))
           | (Inr False, s) \<Rightarrow>
               (case discoverRowCandidate input page row rowUrl (fst st, s) of
                  (Inl e, st) \<Rightarrow> (Inl e, st)
                | (Inr None, st) \<Rightarrow> (Inr (NoFilename (missing_filename row rowUrl)), st)
                | (Inr (Some c), st) \<Rightarrow> (Inr (Found c), st))))"

fun row_loop ::
    "'s discovery_input \<Rightarrow> nat \<Rightarrow> url \<Rightarrow> row_observation list \<Rightarrow> nat \<times> 's
      \<Rightarrow> (thrown + row_outcome list) \<times> (nat \<times> 's)" where
  "row_loop input page pageUrl [] st = (Inr [], st)"
| "row_loop input page pageUrl (row # rows) st =
     (case row_step input page pageUrl row st of
        (Inl e, st) \<Rightarrow> (Inl e, st)
      | (Inr out, st) \<Rightarrow> apfst (map_sum id (Cons out)) (row_loop input page pageUrl rows st))"

definition outcome_candidates :: "row_outcome list \<Rightarrow> replay_candidate list" where
  "outcome_candidates outs = List.map_filter (\<lambda>x. case x of Found c \<Rightarrow> Some c | _ \<Rightarrow> None) outs"

definition outcome_diagnostics :: "row_outcome list \<Rightarrow> diagnostic list" where
  "outcome_diagnostics outs = List.map_filter
     (\<lambda>x. case x of NoLink d \<Rightarrow> Some d | NoFilename d \<Rightarrow> Some d | _ \<Rightarrow> None) outs"

definition outcome_skips :: "row_outcome list \<Rightarrow> nat" where
  "outcome_skips outs = length (filter (\<lambda>x. x = SkippedRow) outs)"

definition discoverPageCandidates ::
    "'s discovery_input \<Rightarrow> json list option \<Rightarrow> nat \<Rightarrow> url \<Rightarrow> string \<Rightarrow> nat \<times> 's
      \<Rightarrow> ((thrown + page_found) \<times> (nat \<times> 's)) option" where
  "discoverPageCandidates input fixture page pageUrl sourceText st =
     (case fixture of
        Some cs \<Rightarrow>
          if list_all declared_types cs then Some (collectFixtureCandidates (di_parse input) cs pageUrl, st) else None
      | None \<Rightarrow>
          Some (apfst (map_sum id (\<lambda>outs.
              with_duplicates (outcome_diagnostics outs) (outcome_candidates outs) (outcome_skips outs)))
            (row_loop input page pageUrl (extractReplayRows (di_resolve input) sourceText page pageUrl) st)))"

subsection \<open>Pages\<close>

definition discover_page ::
    "'s discovery_input \<Rightarrow> nat \<Rightarrow> nat \<times> 's \<Rightarrow> ((thrown + page_found) \<times> (nat \<times> 's)) option" where
  "discover_page input page st =
     (let pageUrl = toPageUrl (di_sourceUrl input) page in
      case paced_fetch input pageUrl ListPhase page st of
        (Inl e, st) \<Rightarrow> Some (Inl e, st)
      | (Inr sourceText, st) \<Rightarrow>
          (let (fixture, s) = parseSourceFixture (di_warn input) sourceText (snd st) in
           discoverPageCandidates input fixture page pageUrl sourceText (fst st, s)))"

definition add_page :: "page_found \<Rightarrow> page_found \<Rightarrow> page_found" where
  "add_page acc p =
     \<lparr>pf_candidates = pf_candidates acc @ pf_candidates p,
      pf_diagnostics = pf_diagnostics acc @ pf_diagnostics p,
      pf_skippedPreDetail = pf_skippedPreDetail acc + pf_skippedPreDetail p\<rparr>"

text \<open>The loop over the pages: how it left, if by an exception of which page, and what it found before.\<close>

fun discover_pages ::
    "'s discovery_input \<Rightarrow> nat list \<Rightarrow> page_found \<Rightarrow> nat \<times> 's
      \<Rightarrow> ((nat \<times> thrown) option \<times> page_found \<times> (nat \<times> 's)) option" where
  "discover_pages input [] acc st = Some (None, acc, st)"
| "discover_pages input (page # pages) acc st =
     (case discover_page input page st of
        None \<Rightarrow> None
      | Some (Inl e, st) \<Rightarrow> Some (Some (page, e), acc, st)
      | Some (Inr p, st) \<Rightarrow> discover_pages input pages (add_page acc p) st)"

definition finish_report :: "'s discovery_input \<Rightarrow> page_found \<Rightarrow> bool \<Rightarrow> 's \<Rightarrow> report \<times> 's" where
  "finish_report input found ok s =
     (let (generatedAt, s) = (case di_generatedAt input of Some t \<Rightarrow> (t, s) | None \<Rightarrow> di_now input s) in
      (buildReport (pf_candidates found) (pf_diagnostics found) ok (pf_skippedPreDetail found) generatedAt
         (di_maxPages input) (href (di_sourceUrl input)), s))"

definition no_page :: page_found where
  "no_page = \<lparr>pf_candidates = [], pf_diagnostics = [], pf_skippedPreDetail = 0\<rparr>"

definition discoverReplaysDryRun :: "'s discovery_input \<Rightarrow> 's \<Rightarrow> ((thrown + report) \<times> 's) option" where
  "discoverReplaysDryRun input s =
     (let maxPages = (case di_maxPages input of Some n \<Rightarrow> n | None \<Rightarrow> 1) in
      case discover_pages input [1..<Suc maxPages] no_page (0, s) of
        None \<Rightarrow> None
      | Some (None, found, (_, s)) \<Rightarrow> Some (apfst Inr (finish_report input found True s))
      | Some (Some (page, e), found, (_, s)) \<Rightarrow>
          if is_class SourceFetchError e
          then Some (apfst Inr (finish_report input
            (found\<lparr>pf_diagnostics := pf_diagnostics found @
               [buildSourceFailureDiagnostic e (href (di_sourceUrl input)) page]\<rparr>) False s))
          else Some (Inl e, s))"

end
