(* ===== verification/Discovery_Results.thy ===== *)
theory Discovery_Results
  imports Discovery Summary
begin

text \<open>
  What discovery emits for repeated candidates, and that it adds no diagnostic of severity \<open>error\<close>
  while the source can be read.
\<close>

subsection \<open>Repeated candidates\<close>

definition first_occurrences :: "'a list \<Rightarrow> 'a list" where
  "first_occurrences xs = rev (remdups (rev xs))"

lemma first_occurrences_snoc:
  "first_occurrences (xs @ [x]) = (if x \<in> set xs then first_occurrences xs else first_occurrences xs @ [x])"
  by (simp add: first_occurrences_def)

lemma set_first_occurrences [simp]: "set (first_occurrences xs) = set xs"
  by (simp add: first_occurrences_def)

lemma first_occurrences_Nil [simp]: "first_occurrences [] = []"
  by (simp add: first_occurrences_def)

definition register_all :: "replay_candidate list \<Rightarrow> registry" where
  "register_all cs = foldl register \<lparr>rg_byFilename = (\<lambda>_. []), rg_emitted = [], rg_diagnostics = []\<rparr> cs"

lemma register_all_snoc: "register_all (cs @ [c]) = register (register_all cs) c"
  by (simp add: register_all_def)

lemma register_all_state:
  "rg_byFilename (register_all cs) = (\<lambda>f. filter (\<lambda>c. rc_filename c = f) cs) \<and>
   rg_emitted (register_all cs) = first_occurrences cs"
proof (induction cs rule: rev_induct)
  case Nil
  show ?case by (simp add: register_all_def)
next
  case (snoc c cs)
  then show ?case
    by (auto simp: register_all_snoc register_def Let_def first_occurrences_snoc)
qed

definition repeats :: "replay_candidate list \<Rightarrow> nat" where
  "repeats cs = length cs - card (rc_filename ` set cs)"

definition contradicts :: "replay_candidate \<Rightarrow> replay_candidate \<Rightarrow> bool" where
  "contradicts a b \<longleftrightarrow> rc_filename a = rc_filename b \<and>
     rs_externalId (rc_source a) = rs_externalId (rc_source b) \<and> metadata_or_empty a \<noteq> metadata_or_empty b"

text \<open>The candidates that contradict an earlier one, by position.\<close>

definition contradictions :: "replay_candidate list \<Rightarrow> nat list" where
  "contradictions cs = filter (\<lambda>i. list_ex (\<lambda>e. contradicts e (cs ! i)) (take i cs)) [0..<length cs]"

lemma contradictions_snoc:
  "contradictions (cs @ [c]) = contradictions cs @ (if list_ex (\<lambda>e. contradicts e c) cs then [length cs] else [])"
proof -
  have "filter (\<lambda>i. list_ex (\<lambda>e. contradicts e ((cs @ [c]) ! i)) (take i (cs @ [c]))) [0..<length cs]
      = filter (\<lambda>i. list_ex (\<lambda>e. contradicts e (cs ! i)) (take i cs)) [0..<length cs]"
    by (rule filter_cong) (auto simp: nth_append)
  moreover have "[0..<length (cs @ [c])] = [0..<length cs] @ [length cs]" by simp
  ultimately show ?thesis by (simp only: contradictions_def filter_append) simp
qed

lemma candidate_diagnostic_code [simp]:
  "dg_code (candidate_diagnostic code m i c) = code"
  "dg_severity (candidate_diagnostic code m i c) = Warning"
  by (simp_all add: candidate_diagnostic_def withOptionalDiagnosticEvidence_def plain_diagnostic_def)

lemma register_all_diagnostics:
  "length (filter (\<lambda>d. dg_code d = DuplicateFilename) (rg_diagnostics (register_all cs))) + card (rc_filename ` set cs)
     = length cs \<and>
   length (filter (\<lambda>d. dg_code d = ChangedMetadata) (rg_diagnostics (register_all cs)))
     = length (contradictions cs) \<and>
   set (map dg_code (rg_diagnostics (register_all cs))) \<subseteq> {DuplicateFilename, ChangedMetadata} \<and>
   set (map dg_severity (rg_diagnostics (register_all cs))) \<subseteq> {Warning}"
proof (induction cs rule: rev_induct)
  case Nil
  show ?case by (simp add: register_all_def contradictions_def)
next
  case (snoc c cs)
  have by_name: "rg_byFilename (register_all cs) (rc_filename c) = filter (\<lambda>e. rc_filename e = rc_filename c) cs"
    using register_all_state by simp
  have known: "filter (\<lambda>e. rc_filename e = rc_filename c) cs = [] \<longleftrightarrow> rc_filename c \<notin> rc_filename ` set cs"
    by (auto simp: filter_empty_conv image_iff)
  have changed: "hasChangedMetadata (filter (\<lambda>e. rc_filename e = rc_filename c) cs) c
      \<longleftrightarrow> list_ex (\<lambda>e. contradicts e c) cs"
    by (auto simp: hasChangedMetadata_def contradicts_def list_ex_iff)
  have nonempty: "list_ex (\<lambda>e. contradicts e c) cs \<Longrightarrow> rc_filename c \<in> rc_filename ` set cs"
    by (auto simp: contradicts_def list_ex_iff image_iff) metis
  show ?case
    using snoc.IH nonempty
    by (auto simp: register_all_snoc register_def Let_def by_name known changed contradictions_snoc card_insert_if)
qed

text \<open>
  C17: repeated candidates of a page. Of equal candidates the first is emitted, in order. Every
  candidate whose filename occurred before on the page has one \<open>duplicate_filename\<close> warning, every one
  that contradicts an earlier candidate of its filename and source id in its metadata has one
  \<open>changed_metadata\<close> warning, and there is no other diagnostic.
\<close>

theorem collect_exact:
  "pf_candidates (collectCandidateDiagnostics cs) = first_occurrences cs \<and>
   length (filter (\<lambda>d. dg_code d = DuplicateFilename) (pf_diagnostics (collectCandidateDiagnostics cs)))
     = repeats cs \<and>
   length (filter (\<lambda>d. dg_code d = ChangedMetadata) (pf_diagnostics (collectCandidateDiagnostics cs)))
     = length (contradictions cs) \<and>
   set (map dg_code (pf_diagnostics (collectCandidateDiagnostics cs))) \<subseteq> {DuplicateFilename, ChangedMetadata}"
proof -
  have "collectCandidateDiagnostics cs =
      \<lparr>pf_candidates = rg_emitted (register_all cs), pf_diagnostics = rg_diagnostics (register_all cs),
       pf_skippedPreDetail = 0\<rparr>"
    by (simp add: collectCandidateDiagnostics_def register_all_def Let_def)
  moreover from register_all_diagnostics [of cs]
  have "length (filter (\<lambda>d. dg_code d = DuplicateFilename) (rg_diagnostics (register_all cs))) = repeats cs"
    unfolding repeats_def by linarith
  ultimately show ?thesis using register_all_state [of cs] register_all_diagnostics [of cs] by simp
qed

lemma collect_warns: "d \<in> set (pf_diagnostics (collectCandidateDiagnostics cs)) \<Longrightarrow> dg_severity d = Warning"
  using register_all_diagnostics [of cs]
  by (auto simp: collectCandidateDiagnostics_def register_all_def [symmetric] Let_def)

subsection \<open>Rows\<close>

lemma map_sum_Inr [simp]: "map_sum id f r = Inr y \<longleftrightarrow> (\<exists>x. r = Inr x \<and> y = f x)"
  by (cases r) auto

lemma outcome_count:
  "length outs = length (outcome_candidates outs) + length (outcome_diagnostics outs) + outcome_skips outs"
  by (induction outs)
    (auto simp: outcome_candidates_def outcome_diagnostics_def outcome_skips_def List.map_filter_def split: row_outcome.splits)

subsection \<open>Reports\<close>

definition errors_in :: "diagnostic list \<Rightarrow> diagnostic list" where
  "errors_in ds = filter (\<lambda>d. dg_severity d = SeverityError) ds"

lemma errors_in_append [simp]: "errors_in (ds @ es) = errors_in ds @ errors_in es"
  by (simp add: errors_in_def)

lemma with_duplicates_warns:
  "errors_in ds = [] \<Longrightarrow> errors_in (pf_diagnostics (with_duplicates ds cs n)) = []"
  using collect_warns [of _ cs] by (auto simp: with_duplicates_def Let_def errors_in_def filter_empty_conv)

lemma fixture_results_warn:
  "fixture_results parse_url pageUrl i js = Inr rs \<Longrightarrow> errors_in (lefts rs) = []"
proof (induction js arbitrary: i rs)
  case (Cons j js)
  from Cons.prems obtain r where r: "toReplayCandidate parse_url j i pageUrl = Inr r"
    by (auto split: sum.splits)
  with Cons.prems obtain rs' where "fixture_results parse_url pageUrl (Suc i) js = Inr rs'" "rs = r # rs'"
    by auto
  moreover from r have "errors_in (lefts [r]) = []"
    by (auto simp: toReplayCandidate_def Let_def lefts_def List.map_filter_def errors_in_def plain_diagnostic_def
        split: if_splits option.splits)
  moreover have "lefts (r # rs') = lefts [r] @ lefts rs'" by (simp add: lefts_def List.map_filter_def)
  ultimately show ?case using Cons.IH by simp
qed (simp add: lefts_def List.map_filter_def errors_in_def)

lemma row_step_warns: "row_step input page pageUrl row st = (Inr out, st') \<Longrightarrow> errors_in (outcome_diagnostics [out]) = []"
  by (auto simp: row_step_def missing_link_def missing_filename_def withOptionalDiagnosticEvidence_def
      plain_diagnostic_def outcome_diagnostics_def List.map_filter_def errors_in_def
      split: option.splits prod.splits sum.splits bool.splits)

lemma row_loop_warns:
  "row_loop input page pageUrl rows st = (Inr outs, st') \<Longrightarrow> errors_in (outcome_diagnostics outs) = []"
proof (induction rows arbitrary: st outs st')
  case (Cons row rows)
  then obtain out st1 where step: "row_step input page pageUrl row st = (Inr out, st1)"
    by (auto split: prod.splits sum.splits)
  obtain r st2 where rest: "row_loop input page pageUrl rows st1 = (r, st2)"
    by (cases "row_loop input page pageUrl rows st1")
  with Cons.prems step obtain outs' where outs': "r = Inr outs'" "outs = out # outs'"
    by (cases r) auto
  have "outcome_diagnostics (out # outs') = outcome_diagnostics [out] @ outcome_diagnostics outs'"
    by (simp add: outcome_diagnostics_def List.map_filter_def)
  with Cons.IH rest outs' row_step_warns [OF step] show ?case by simp
qed (simp add: outcome_diagnostics_def List.map_filter_def errors_in_def)

lemma page_candidates_warn:
  assumes "discoverPageCandidates input fixture page pageUrl text st = Some (Inr p, st')"
  shows "errors_in (pf_diagnostics p) = []"
proof (cases fixture)
  case None
  then obtain outs where "row_loop input page pageUrl (extractReplayRows (di_resolve input) text page pageUrl) st = (Inr outs, st')"
    "p = with_duplicates (outcome_diagnostics outs) (outcome_candidates outs) (outcome_skips outs)"
    using assms by (cases "row_loop input page pageUrl (extractReplayRows (di_resolve input) text page pageUrl) st")
      (auto simp: discoverPageCandidates_def)
  then show ?thesis using row_loop_warns with_duplicates_warns by blast
next
  case (Some cs)
  with assms obtain rs where "fixture_results (di_parse input) pageUrl 0 cs = Inr rs" "p = with_duplicates (lefts rs) (rights rs) 0"
    by (auto simp: discoverPageCandidates_def collectFixtureCandidates_def split: if_splits)
  then show ?thesis using fixture_results_warn with_duplicates_warns by blast
qed

lemma discover_page_warns:
  "discover_page input page st = Some (Inr p, st') \<Longrightarrow> errors_in (pf_diagnostics p) = []"
  by (auto simp: discover_page_def Let_def split: prod.splits sum.splits dest: page_candidates_warn)

lemma discover_pages_warn:
  "discover_pages input pages acc st = Some (left, found, st') \<Longrightarrow> errors_in (pf_diagnostics acc) = [] \<Longrightarrow>
     errors_in (pf_diagnostics found) = []"
proof (induction pages arbitrary: acc st)
  case (Cons page pages)
  show ?case
  proof (cases "\<exists>p st1. discover_page input page st = Some (Inr p, st1)")
    case True
    then obtain p st1 where page: "discover_page input page st = Some (Inr p, st1)" by blast
    with Cons.prems(1) have "discover_pages input pages (add_page acc p) st1 = Some (left, found, st')" by simp
    moreover have "errors_in (pf_diagnostics (add_page acc p)) = []"
      using Cons.prems(2) discover_page_warns [OF page] by (simp add: add_page_def)
    ultimately show ?thesis by (rule Cons.IH)
  next
    case False
    with Cons.prems show ?thesis by (auto split: option.splits prod.splits sum.splits)
  qed
qed simp

lemma source_failure_diagnostic:
  "is_source_failure (buildSourceFailureDiagnostic e u p)" "errors_in [buildSourceFailureDiagnostic e u p] = [buildSourceFailureDiagnostic e u p]"
  by (simp_all add: is_source_failure_def fetch_code_def sourceFailureClassification_def errors_in_def)

lemma find_failure: "errors_in ds = [] \<Longrightarrow> List.find is_source_failure (ds @ [d]) = List.find is_source_failure [d]"
  by (induction ds) (auto simp: errors_in_def is_source_failure_def split: if_splits)

lemma finished_report:
  "finish_report input f ok s1 = (rep, s') \<Longrightarrow>
     dr_ok rep = ok \<and> dr_diagnostics rep = pf_diagnostics f \<and> rp_candidates (dr_counts rep) = length (dr_candidates rep) \<and>
     rp_diagnostics (dr_counts rep) = length (dr_diagnostics rep)"
  by (auto simp: finish_report_def buildReport_def Let_def split: prod.splits)

end
