(* ===== verification/Discovery_Trace.thy ===== *)
theory Discovery_Trace
  imports Discovery_Results
begin

text \<open>
  What a discovery asks and is answered. The surroundings of a discovery are extended by the list of
  everything that was asked of them, with its answer: the reads of the source, the lookups of the
  gate, and the pauses; everything else is as given. What may be asked for a row, and what becomes of
  the row, is then said over these answers.
\<close>

datatype source_event =
    Asked url phase nat "thrown + string"
  | Looked string string "thrown + bool"
  | Paused nat

primrec is_asked :: "source_event \<Rightarrow> bool" where
  "is_asked (Asked u ph page r) = True"
| "is_asked (Looked system i r) = False"
| "is_asked (Paused d) = False"

primrec is_pause :: "source_event \<Rightarrow> bool" where
  "is_pause (Asked u ph page r) = False"
| "is_pause (Looked system i r) = False"
| "is_pause (Paused d) = True"

definition requests :: "source_event list \<Rightarrow> source_event list" where
  "requests es = filter (\<lambda>e. \<not> is_pause e) es"

definition traced :: "'s discovery_input \<Rightarrow> (source_event list \<times> 's) discovery_input" where
  "traced input =
     \<lparr>di_maxPages = di_maxPages input, di_requestDelayMs = di_requestDelayMs input,
      di_generatedAt = di_generatedAt input, di_sourceSystem = di_sourceSystem input,
      di_sourceUrl = di_sourceUrl input, di_parse = di_parse input, di_resolve = di_resolve input,
      di_now = beside (di_now input),
      di_sleep = (\<lambda>d (tr, s). (tr @ [Paused d], di_sleep input d s)),
      di_warn = (\<lambda>(tr, s). (tr, di_warn input s)),
      di_fetch = (\<lambda>u ph page (tr, s).
        case di_fetch input u ph page s of (r, s) \<Rightarrow> (r, (tr @ [Asked u ph page r], s))),
      di_exists = map_option (\<lambda>f system i (tr, s).
        case f system i s of (r, s) \<Rightarrow> (r, (tr @ [Looked system i r], s))) (di_exists input)\<rparr>"

lemma traced_sel [simp]:
  "di_maxPages (traced input) = di_maxPages input" "di_requestDelayMs (traced input) = di_requestDelayMs input"
  "di_sourceUrl (traced input) = di_sourceUrl input" "di_resolve (traced input) = di_resolve input"
  "di_parse (traced input) = di_parse input" "di_sourceSystem (traced input) = di_sourceSystem input"
  by (simp_all add: traced_def)

definition request_delay :: "'s discovery_input \<Rightarrow> nat" where
  "request_delay input = (case di_requestDelayMs input of Some d \<Rightarrow> d | None \<Rightarrow> defaultRequestDelayMs)"

text \<open>What was asked, with a pause before every read of the source but the first.\<close>

fun spaced :: "nat \<Rightarrow> bool \<Rightarrow> source_event list \<Rightarrow> source_event list" where
  "spaced d started [] = []"
| "spaced d started (Asked u ph page r # es) =
     (if started \<and> 0 < d then [Paused d] else []) @ Asked u ph page r # spaced d True es"
| "spaced d started (Looked system i r # es) = Looked system i r # spaced d started es"
| "spaced d started (Paused k # es) = Paused k # spaced d started es"

lemma spaced_append: "spaced d b (es @ fs) = spaced d b es @ spaced d (b \<or> list_ex is_asked es) fs"
  by (induction d b es rule: spaced.induct) auto

lemma requests_spaced: "requests (spaced d b es) = requests es"
  by (induction d b es rule: spaced.induct) (auto simp: requests_def)

definition traced_to :: "'s discovery_input \<Rightarrow> source_event list \<Rightarrow> nat \<times> (source_event list \<times> 's) \<Rightarrow> bool" where
  "traced_to input es st \<longleftrightarrow> (0 < fst st \<longleftrightarrow> list_ex is_asked es) \<and>
     fst (snd st) = spaced (request_delay input) False es \<and> list_all (\<lambda>e. \<not> is_pause e) es"

lemma traced_start: "traced_to input [] (0, ([], s))"
  by (simp add: traced_to_def)

lemma traced_requests: "traced_to input es st \<Longrightarrow> requests (fst (snd st)) = es"
  by (simp add: traced_to_def requests_spaced) (simp add: requests_def filter_id_conv list_all_iff)

lemma traced_spaced: "traced_to input es st \<Longrightarrow> fst (snd st) = spaced (request_delay input) False (requests (fst (snd st)))"
  by (simp add: traced_requests) (simp add: traced_to_def)

lemma fetch_traced:
  assumes "paced_fetch (traced input) u ph page st = (r, st')" "traced_to input es st"
  shows "traced_to input (es @ [Asked u ph page r]) st'"
  using assms
  by (cases st) (auto simp: paced_fetch_def traced_to_def traced_def request_delay_def spaced_append Let_def
      split: prod.splits if_splits)

subsection \<open>What is asked for a row\<close>

text \<open>The gate looks a row up when a lookup and a system are configured and the id of the row can be trusted.\<close>

definition gated :: "'s discovery_input \<Rightarrow> row_observation \<Rightarrow> bool" where
  "gated input row \<longleftrightarrow> di_exists input \<noteq> None \<and> di_sourceSystem input \<noteq> None \<and> isTrustworthyRowId (ro_externalId row)"

definition lookup :: "'s discovery_input \<Rightarrow> row_observation \<Rightarrow> thrown + bool \<Rightarrow> source_event" where
  "lookup input row answer = Looked (the (di_sourceSystem input)) (the (ro_externalId row)) answer"

definition passed_gate :: "'s discovery_input \<Rightarrow> row_observation \<Rightarrow> source_event list" where
  "passed_gate input row = (if gated input row then [lookup input row (Inr False)] else [])"

text \<open>What becomes of a row whose detail page, at \<open>u\<close>, answered \<open>html\<close>.\<close>

definition detail_says :: "'s discovery_input \<Rightarrow> row_observation \<Rightarrow> url \<Rightarrow> string \<Rightarrow> row_outcome \<Rightarrow> bool" where
  "detail_says input row u html out \<longleftrightarrow>
     (case extractFilenameFromDetailHtml html of
        None \<Rightarrow> (\<exists>d. out = NoFilename d \<and> dg_code d = MissingFilename \<and> dg_severity d = Warning \<and>
          dg_sourceUrl d = ro_url row \<and> dg_externalId d = ro_externalId row \<and> dg_page d = Some (ro_page row))
      | Some filename \<Rightarrow> (\<exists>raw. toRawReplayUrl (di_resolve input) filename u = Inr raw \<and>
          out = Found \<lparr>rc_filename = filename, rc_metadata = with_metadata (ro_metadata row),
            rc_source = \<lparr>rs_externalId = ro_externalId row, rs_page = Some (ro_page row), rs_rawUrl = Some raw,
              rs_url = the (ro_url row)\<rparr>\<rparr>))"

text \<open>The events and the outcome of a row that was dealt with.\<close>

definition row_read ::
    "'s discovery_input \<Rightarrow> nat \<Rightarrow> url \<Rightarrow> row_observation \<Rightarrow> source_event list \<times> row_outcome \<Rightarrow> bool" where
  "row_read input page pageUrl row = (\<lambda>(es, out).
     case ro_url row of
       None \<Rightarrow> es = [] \<and> (\<exists>d. out = NoLink d \<and> dg_code d = MalformedRow \<and> dg_severity d = Warning \<and>
         dg_page d = Some (ro_page row) \<and> dg_sourceUrl d = Some (href pageUrl))
     | Some rowUrl \<Rightarrow>
         gated input row \<and> es = [lookup input row (Inr True)] \<and> out = SkippedRow \<or>
         (\<exists>u html. di_parse input rowUrl = Some u \<and>
           es = passed_gate input row @ [Asked u DetailPhase page (Inr html)] \<and> detail_says input row u html out))"

text \<open>The events of a row at which discovery stopped, because the lookup or the detail read threw \<open>e\<close>.\<close>

definition row_cut :: "'s discovery_input \<Rightarrow> nat \<Rightarrow> row_observation \<Rightarrow> source_event list \<Rightarrow> thrown \<Rightarrow> bool" where
  "row_cut input page row es e \<longleftrightarrow>
     (\<exists>rowUrl. ro_url row = Some rowUrl \<and>
       (gated input row \<and> es = [lookup input row (Inl e)] \<or>
        (\<exists>u. di_parse input rowUrl = Some u \<and> es = passed_gate input row @ [Asked u DetailPhase page (Inl e)])))"

lemma gate_traced:
  assumes "shouldSkipPreDetail (traced input) (ro_externalId row) (snd st) = (r, s)" "traced_to input es st"
  shows "if gated input row then traced_to input (es @ [lookup input row r]) (fst st, s)
    else r = Inr False \<and> s = snd st"
  using assms
  by (cases st) (auto simp: shouldSkipPreDetail_def gated_def traced_to_def lookup_def traced_def isTrustworthyRowId_def
      spaced_append split: option.splits if_splits prod.splits)

lemma no_source_failure [simp]: "\<not> is_class SourceFetchError invalid_url_error"
  by (simp add: invalid_url_error_def is_class_def)

lemma raw_url_error: "toRawReplayUrl resolve filename u = Inl e \<Longrightarrow> e = invalid_url_error"
  by (auto simp: toRawReplayUrl_def Let_def split: option.splits)

lemma detail_traced:
  assumes "discoverRowCandidate (traced input) page row rowUrl st = (r, st')" "traced_to input es st"
    and "ro_url row = Some rowUrl"
  shows "case r of
      Inr c \<Rightarrow> \<exists>u html. di_parse input rowUrl = Some u \<and> traced_to input (es @ [Asked u DetailPhase page (Inr html)]) st' \<and>
        detail_says input row u html (case c of None \<Rightarrow> NoFilename (missing_filename row rowUrl) | Some c \<Rightarrow> Found c)
    | Inl e \<Rightarrow> e = invalid_url_error \<or>
        (\<exists>u. di_parse input rowUrl = Some u \<and> traced_to input (es @ [Asked u DetailPhase page (Inl e)]) st')"
proof (cases "di_parse input rowUrl")
  case None
  with assms(1) show ?thesis by (auto simp: discoverRowCandidate_def)
next
  case (Some u)
  obtain q st1 where fetch: "paced_fetch (traced input) u DetailPhase page st = (q, st1)"
    by (metis prod.exhaust)
  note fetched = fetch_traced [OF fetch assms(2)]
  have missing: "dg_code (missing_filename row rowUrl) = MissingFilename"
    "dg_severity (missing_filename row rowUrl) = Warning" "dg_sourceUrl (missing_filename row rowUrl) = Some rowUrl"
    "dg_externalId (missing_filename row rowUrl) = ro_externalId row" "dg_page (missing_filename row rowUrl) = Some (ro_page row)"
    by (auto simp: missing_filename_def withOptionalDiagnosticEvidence_def plain_diagnostic_def keep_def split: option.split)
  show ?thesis
  proof (cases q)
    case (Inl e)
    with assms(1) Some fetch fetched show ?thesis by (auto simp: discoverRowCandidate_def)
  next
    case (Inr html)
    show ?thesis
    proof (cases "extractFilenameFromDetailHtml html")
      case None
      with assms(1,3) Some fetch fetched Inr missing show ?thesis
        by (auto simp: discoverRowCandidate_def detail_says_def intro!: exI [of _ html])
    next
      case name: (Some filename)
      show ?thesis
      proof (cases "toRawReplayUrl (di_resolve input) filename u")
        case (Inl e)
        with assms(1) Some fetch Inr name raw_url_error [OF Inl] show ?thesis
          by (auto simp: discoverRowCandidate_def)
      next
        case (Inr raw)
        with assms(1,3) Some fetch fetched \<open>q = Inr html\<close> name show ?thesis
          by (auto simp: discoverRowCandidate_def detail_says_def toReplayCandidateFromHtmlRow_def intro!: exI [of _ html])
      qed
    qed
  qed
qed

lemma row_traced:
  assumes "row_step (traced input) page pageUrl row st = (r, st')" "traced_to input es st"
  shows "case r of
      Inr out \<Rightarrow> \<exists>new. row_read input page pageUrl row (new, out) \<and> traced_to input (es @ new) st'
    | Inl e \<Rightarrow> is_class SourceFetchError e \<longrightarrow> (\<exists>new. row_cut input page row new e \<and> traced_to input (es @ new) st')"
proof (cases "ro_url row")
  case None
  with assms show ?thesis
    by (auto simp: row_step_def row_read_def missing_link_def plain_diagnostic_def)
next
  case (Some rowUrl)
  obtain q s where gate: "shouldSkipPreDetail (traced input) (ro_externalId row) (snd st) = (q, s)"
    by (metis prod.exhaust)
  note looked = gate_traced [OF gate assms(2)]
  consider (threw) e where "q = Inl e" | (known) "q = Inr True" | (unknown) "q = Inr False"
    by (metis (full_types) old.sum.exhaust)
  then show ?thesis
  proof cases
    case threw
    with assms(1) Some gate looked show ?thesis by (auto simp: row_step_def row_cut_def split: if_splits)
  next
    case known
    with assms(1) Some gate looked show ?thesis by (auto simp: row_step_def row_read_def split: if_splits)
  next
    case unknown
    then have passed: "traced_to input (es @ passed_gate input row) (fst st, s)"
      using looked assms(2) by (auto simp: passed_gate_def split: if_splits)
    obtain c st1 where detail: "discoverRowCandidate (traced input) page row rowUrl (fst st, s) = (c, st1)"
      by (metis prod.exhaust)
    note read = detail_traced [OF detail passed Some]
    show ?thesis
    proof (cases c)
      case (Inl e)
      with assms(1) Some gate unknown detail read show ?thesis
        by (auto simp: row_step_def row_cut_def)
    next
      case (Inr found)
      with assms(1) Some gate unknown detail
      have r: "r = Inr (case found of None \<Rightarrow> NoFilename (missing_filename row rowUrl) | Some c \<Rightarrow> Found c)" "st' = st1"
        by (auto simp: row_step_def split: option.splits)
      from read Inr obtain u html where "di_parse input rowUrl = Some u"
        "traced_to input ((es @ passed_gate input row) @ [Asked u DetailPhase page (Inr html)]) st1"
        "detail_says input row u html (case found of None \<Rightarrow> NoFilename (missing_filename row rowUrl) | Some c \<Rightarrow> Found c)"
        by auto
      with Some r show ?thesis by (auto simp: row_read_def)
    qed
  qed
qed

subsection \<open>The rows of a listing\<close>

definition rows_read ::
    "'s discovery_input \<Rightarrow> nat \<Rightarrow> url \<Rightarrow> row_observation list \<Rightarrow> (source_event list \<times> row_outcome) list \<Rightarrow> bool" where
  "rows_read input page pageUrl rows served = list_all2 (row_read input page pageUrl) rows served"

text \<open>Some rows dealt with, and the one at which discovery stopped.\<close>

definition rows_cut ::
    "'s discovery_input \<Rightarrow> nat \<Rightarrow> url \<Rightarrow> row_observation list \<Rightarrow> source_event list \<Rightarrow> thrown \<Rightarrow> bool" where
  "rows_cut input page pageUrl rows es e \<longleftrightarrow>
     (\<exists>done row left served new. rows = done @ row # left \<and> rows_read input page pageUrl done served \<and>
        row_cut input page row new e \<and> es = concat (map fst served) @ new)"

lemma rows_read_simps [simp]:
  "rows_read input page pageUrl [] served \<longleftrightarrow> served = []"
  "rows_read input page pageUrl (row # rows) (q # served) \<longleftrightarrow>
     row_read input page pageUrl row q \<and> rows_read input page pageUrl rows served"
  by (auto simp: rows_read_def)

lemma rows_cut_now: "row_cut input page row new e \<Longrightarrow> rows_cut input page pageUrl (row # rows) new e"
  unfolding rows_cut_def by (intro exI [of _ "[]"] exI [of _ row] exI [of _ rows] exI [of _ new]) simp

lemma rows_cut_later:
  assumes "row_read input page pageUrl row (new, out)" "rows_cut input page pageUrl rows es e"
  shows "rows_cut input page pageUrl (row # rows) (new @ es) e"
proof -
  from assms(2) obtain before r left served last where "rows = before @ r # left"
    "rows_read input page pageUrl before served" "row_cut input page r last e" "es = concat (map fst served) @ last"
    unfolding rows_cut_def by blast
  with assms(1) show ?thesis
    unfolding rows_cut_def
    by (intro exI [of _ "row # before"] exI [of _ r] exI [of _ left] exI [of _ "(new, out) # served"] exI [of _ last]) simp
qed

lemma rows_traced:
  assumes "row_loop (traced input) page pageUrl rows st = (r, st')" "traced_to input es st"
  shows "case r of
      Inr outs \<Rightarrow> \<exists>served. rows_read input page pageUrl rows served \<and> outs = map snd served \<and>
        traced_to input (es @ concat (map fst served)) st'
    | Inl e \<Rightarrow> is_class SourceFetchError e \<longrightarrow>
        (\<exists>new. rows_cut input page pageUrl rows new e \<and> traced_to input (es @ new) st')"
  using assms
proof (induction rows arbitrary: st es r)
  case Nil
  then show ?case by auto
next
  case (Cons row rows)
  obtain q st1 where step: "row_step (traced input) page pageUrl row st = (q, st1)" by (metis prod.exhaust)
  note stepped = row_traced [OF step Cons.prems(2)]
  show ?case
  proof (cases q)
    case (Inl e)
    with Cons.prems(1) step have "r = Inl e" "st' = st1" by simp_all
    with stepped Inl show ?thesis by (auto intro: rows_cut_now)
  next
    case (Inr out)
    with stepped obtain new where new: "row_read input page pageUrl row (new, out)" "traced_to input (es @ new) st1"
      by auto
    obtain r' where rest: "row_loop (traced input) page pageUrl rows st1 = (r', st')"
      and r: "r = map_sum id (Cons out) r'"
      using Cons.prems(1) step Inr by (cases "row_loop (traced input) page pageUrl rows st1") auto
    note IH = Cons.IH [OF rest new(2)]
    show ?thesis
    proof (cases r')
      case (Inl e)
      with r have r': "r = Inl e" by simp
      show ?thesis
      proof (cases "is_class SourceFetchError e")
        case True
        with IH Inl obtain more where "rows_cut input page pageUrl rows more e" "traced_to input ((es @ new) @ more) st'"
          by auto
        with rows_cut_later [OF new(1)] r' show ?thesis by (auto intro!: exI [of _ "new @ more"])
      qed (simp add: r')
    next
      case (Inr outs)
      with IH obtain served where "rows_read input page pageUrl rows served" "outs = map snd served"
        "traced_to input ((es @ new) @ concat (map fst served)) st'" by auto
      with new(1) r Inr show ?thesis by (auto intro!: exI [of _ "(new, out) # served"])
    qed
  qed
qed

subsection \<open>A page\<close>

text \<open>The candidates of the list page, when it is a fixture.\<close>

definition fixture_in :: "string \<Rightarrow> json list option" where
  "fixture_in body = fst (parseSourceFixture id body ())"

lemma fixture_in_eq: "parseSourceFixture warn body s = (fixture, s') \<Longrightarrow> fixture_in body = fixture"
  by (auto simp: fixture_in_def parseSourceFixture_def split: if_splits option.splits json.splits)

text \<open>What the outcomes of the rows make of a page.\<close>

definition page_of :: "row_outcome list \<Rightarrow> page_found \<Rightarrow> bool" where
  "page_of outs p \<longleftrightarrow>
     length outs = length (outcome_candidates outs) + length (outcome_diagnostics outs) + outcome_skips outs \<and>
     pf_skippedPreDetail p = outcome_skips outs \<and>
     pf_candidates p = first_occurrences (outcome_candidates outs) \<and>
     pf_diagnostics p = outcome_diagnostics outs @
       pf_diagnostics (collectCandidateDiagnostics (outcome_candidates outs))"

text \<open>The events of a page that was read, and what was found on it.\<close>

definition page_read :: "'s discovery_input \<Rightarrow> nat \<Rightarrow> source_event list \<times> page_found \<Rightarrow> bool" where
  "page_read input page = (\<lambda>(es, p).
     let pageUrl = toPageUrl (di_sourceUrl input) page in
     \<exists>body rest. es = Asked pageUrl ListPhase page (Inr body) # rest \<and>
       (case fixture_in body of
          Some cs \<Rightarrow> rest = [] \<and> collectFixtureCandidates (di_parse input) cs pageUrl = Inr p
        | None \<Rightarrow> (\<exists>served. rows_read input page pageUrl (extractReplayRows (di_resolve input) body page pageUrl) served \<and>
            rest = concat (map fst served) \<and> page_of (map snd served) p)))"

text \<open>The events of the page at which discovery stopped, because one of its reads or lookups threw \<open>e\<close>.\<close>

definition page_cut :: "'s discovery_input \<Rightarrow> nat \<Rightarrow> source_event list \<Rightarrow> thrown \<Rightarrow> bool" where
  "page_cut input page es e \<longleftrightarrow>
     (let pageUrl = toPageUrl (di_sourceUrl input) page in
      es = [Asked pageUrl ListPhase page (Inl e)] \<or>
      (\<exists>body rest. es = Asked pageUrl ListPhase page (Inr body) # rest \<and> fixture_in body = None \<and>
         rows_cut input page pageUrl (extractReplayRows (di_resolve input) body page pageUrl) rest e))"

lemma page_of_outcomes:
  "page_of outs (with_duplicates (outcome_diagnostics outs) (outcome_candidates outs) (outcome_skips outs))"
proof -
  have "pf_candidates (collectCandidateDiagnostics cs) = first_occurrences cs" for cs
    using register_all_state [of cs]
    by (simp add: collectCandidateDiagnostics_def register_all_def [symmetric] Let_def)
  then show ?thesis using outcome_count [of outs] by (simp add: page_of_def with_duplicates_def Let_def)
qed

lemma fixture_error: "collectFixtureCandidates parse_url cs u = Inl e \<Longrightarrow> e = null_member_error"
proof -
  have "fixture_results parse_url u i cs = Inl e \<Longrightarrow> e = null_member_error" for i
  proof (induction cs arbitrary: i)
    case (Cons c cs)
    show ?case
    proof (cases "toReplayCandidate parse_url c i u")
      case (Inl e')
      with Cons.prems show ?thesis by (auto simp: toReplayCandidate_def Let_def split: if_splits option.splits)
    next
      case (Inr x)
      with Cons show ?thesis by (cases "fixture_results parse_url u (Suc i) cs") auto
    qed
  qed simp
  then show "collectFixtureCandidates parse_url cs u = Inl e \<Longrightarrow> e = null_member_error"
    by (cases "fixture_results parse_url u 0 cs") (auto simp: collectFixtureCandidates_def)
qed

lemma page_traced:
  assumes "discover_page (traced input) page st = Some (r, st')" "traced_to input es st"
  shows "case r of
      Inr p \<Rightarrow> \<exists>new. page_read input page (new, p) \<and> traced_to input (es @ new) st'
    | Inl e \<Rightarrow> is_class SourceFetchError e \<longrightarrow> (\<exists>new. page_cut input page new e \<and> traced_to input (es @ new) st')"
proof -
  let ?u = "toPageUrl (di_sourceUrl input) page"
  obtain q st1 where list: "paced_fetch (traced input) ?u ListPhase page st = (q, st1)" by (metis prod.exhaust)
  note asked1 = fetch_traced [OF list assms(2)]
  show ?thesis
  proof (cases q)
    case (Inl e)
    with assms(1) list asked1 show ?thesis by (auto simp: discover_page_def page_cut_def Let_def)
  next
    case (Inr body)
    obtain fixture s where parsed: "parseSourceFixture (di_warn (traced input)) body (snd st1) = (fixture, s)"
      by (metis prod.exhaust)
    then have asked2: "traced_to input (es @ [Asked ?u ListPhase page (Inr body)]) (fst st1, s)"
      using asked1 Inr by (auto simp: parseSourceFixture_def traced_to_def traced_def
          split: if_splits option.splits json.splits prod.splits)
    have rest: "discoverPageCandidates (traced input) fixture page ?u body (fst st1, s) = Some (r, st')"
      using assms(1) list Inr parsed by (simp add: discover_page_def)
    show ?thesis
    proof (cases fixture)
      case (Some cs)
      with rest have r: "r = collectFixtureCandidates (di_parse input) cs ?u" "st' = (fst st1, s)"
        by (auto simp: discoverPageCandidates_def split: if_splits)
      show ?thesis
      proof (cases r)
        case (Inl e)
        have "e = null_member_error" using r(1) Inl by (intro fixture_error) simp
        then have "\<not> is_class SourceFetchError e" by (simp add: null_member_error_def is_class_def)
        with Inl show ?thesis by simp
      next
        case found: (Inr p)
        have "collectFixtureCandidates (di_parse input) cs ?u = Inr p" using r(1) found by simp
        with Some fixture_in_eq [OF parsed] have "page_read input page ([Asked ?u ListPhase page (Inr body)], p)"
          by (simp add: page_read_def Let_def)
        with r(2) found asked2 show ?thesis by auto
      qed
    next
      case None
      let ?rows = "extractReplayRows (di_resolve input) body page ?u"
      obtain r' where loop: "row_loop (traced input) page ?u ?rows (fst st1, s) = (r', st')"
        and r: "r = map_sum id (\<lambda>outs. with_duplicates (outcome_diagnostics outs) (outcome_candidates outs) (outcome_skips outs)) r'"
        using rest None by (cases "row_loop (traced input) page ?u ?rows (fst st1, s)")
          (auto simp: discoverPageCandidates_def)
      note rows = rows_traced [OF loop asked2]
      note fixture = fixture_in_eq [OF parsed, unfolded None]
      show ?thesis
      proof (cases r')
        case (Inl e)
        with r rows fixture show ?thesis
          by (auto simp: page_cut_def Let_def)
      next
        case (Inr outs)
        with rows obtain served where "rows_read input page ?u ?rows served" "outs = map snd served"
          "traced_to input ((es @ [Asked ?u ListPhase page (Inr body)]) @ concat (map fst served)) st'" by auto
        with r Inr fixture page_of_outcomes [of outs] show ?thesis
          by (auto simp: page_read_def Let_def
              intro!: exI [of _ "Asked ?u ListPhase page (Inr body) # concat (map fst served)"])
      qed
    qed
  qed
qed

text \<open>
  C10: no row of a listing is lost, and each gets what the gate and the source answered for it. When a
  listing page is read, its rows are dealt with one after the other. A row without a link is a warning
  and asks nothing. The gate looks up every row with a trustworthy id when it is configured: a row that
  is known is skipped, and nothing else is asked for it; for one that is not, or that the gate does not
  cover, exactly its detail page is read. Where that page names a file the row is a candidate with that
  filename, the raw address made from it, and the row's own address, id, page and metadata; where it
  names none the row is a warning. The candidates go through the duplicate check and nothing else is added.
\<close>

theorem every_row_accounted:
  "case discover_page (traced input) page (0, ([], s)) of
     Some (Inr p, (n, (tr, s'))) \<Rightarrow>
       (let pageUrl = toPageUrl (di_sourceUrl input) page in
        \<exists>body rest. requests tr = Asked pageUrl ListPhase page (Inr body) # rest \<and>
          (case fixture_in body of
             Some cs \<Rightarrow> rest = [] \<and> collectFixtureCandidates (di_parse input) cs pageUrl = Inr p
           | None \<Rightarrow> (\<exists>served. rows_read input page pageUrl (extractReplayRows (di_resolve input) body page pageUrl) served \<and>
               rest = concat (map fst served) \<and> page_of (map snd served) p)))
   | _ \<Rightarrow> True"
proof -
  have "case discover_page (traced input) page (0, ([], s)) of
      Some (Inr p, (n, (tr, s'))) \<Rightarrow> page_read input page (requests tr, p) | _ \<Rightarrow> True"
    using page_traced [OF _ traced_start] traced_requests
    by (fastforce split: option.split sum.split prod.split)
  then show ?thesis unfolding page_read_def prod.case .
qed

end
