(* ===== verification/Discovery_Order.thy ===== *)
theory Discovery_Order
  imports Discovery_Trace
begin

text \<open>
  In which order, and with which pauses, a discovery asks the source, and what its report says of the
  read at which it stopped.
\<close>

subsection \<open>The pages\<close>

definition pages_read :: "'s discovery_input \<Rightarrow> nat list \<Rightarrow> (source_event list \<times> page_found) list \<Rightarrow> bool" where
  "pages_read input pages found = list_all2 (page_read input) pages found"

lemma pages_read_simps [simp]:
  "pages_read input [] found \<longleftrightarrow> found = []"
  "pages_read input (page # pages) (q # found) \<longleftrightarrow> page_read input page q \<and> pages_read input pages found"
  by (auto simp: pages_read_def)

lemma foldl_pages:
  "pf_candidates (foldl add_page acc ps) = pf_candidates acc @ concat (map pf_candidates ps)"
  "pf_diagnostics (foldl add_page acc ps) = pf_diagnostics acc @ concat (map pf_diagnostics ps)"
  "pf_skippedPreDetail (foldl add_page acc ps) = pf_skippedPreDetail acc + sum_list (map pf_skippedPreDetail ps)"
  by (induction ps arbitrary: acc) (simp_all add: add_page_def)

lemma pages_traced:
  assumes "discover_pages (traced input) pages acc st = Some (left, found, st')" "traced_to input es st"
  shows "\<exists>before after visited. pages = before @ after \<and> pages_read input before visited \<and>
    found = foldl add_page acc (map snd visited) \<and>
    (case left of
       None \<Rightarrow> after = [] \<and> traced_to input (es @ concat (map fst visited)) st'
     | Some (page, e) \<Rightarrow> (\<exists>further. after = page # further) \<and>
         (is_class SourceFetchError e \<longrightarrow>
           (\<exists>new. page_cut input page new e \<and> traced_to input (es @ concat (map fst visited) @ new) st')))"
  using assms
proof (induction pages arbitrary: acc st es)
  case Nil
  then show ?case by auto
next
  case (Cons page pages)
  obtain r st1 where page: "discover_page (traced input) page st = Some (r, st1)"
    using Cons.prems(1) by (cases "discover_page (traced input) page st") auto
  note turned = page_traced [OF page Cons.prems(2)]
  show ?case
  proof (cases r)
    case (Inl e)
    with Cons.prems(1) page have "left = Some (page, e)" "found = acc" "st' = st1" by simp_all
    with turned Inl show ?thesis
      by - (rule exI [of _ "[]"], rule exI [of _ "page # pages"], rule exI [of _ "[]"], simp)
  next
    case (Inr p)
    with turned obtain new where new: "page_read input page (new, p)" "traced_to input (es @ new) st1" by auto
    from Cons.prems(1) page Inr have "discover_pages (traced input) pages (add_page acc p) st1 = Some (left, found, st')"
      by simp
    from Cons.IH [OF this new(2)] obtain before after visited where IH: "pages = before @ after"
      "pages_read input before visited" "found = foldl add_page (add_page acc p) (map snd visited)"
      "case left of None \<Rightarrow> after = [] \<and> traced_to input ((es @ new) @ concat (map fst visited)) st'
       | Some (page, e) \<Rightarrow> (\<exists>further. after = page # further) \<and> (is_class SourceFetchError e \<longrightarrow>
           (\<exists>last. page_cut input page last e \<and> traced_to input ((es @ new) @ concat (map fst visited) @ last) st'))"
      by blast
    with new(1) show ?thesis
      by - (rule exI [of _ "page # before"], rule exI [of _ after], rule exI [of _ "(new, p) # visited"],
        simp split: option.splits prod.splits)
  qed
qed

text \<open>A discovery that gives a report: the pages it read, and the one at which it stopped, if it did.\<close>

definition page_limit :: "'s discovery_input \<Rightarrow> nat" where
  "page_limit input = (case di_maxPages input of Some n \<Rightarrow> n | None \<Rightarrow> 1)"

lemma upto_split:
  assumes "[1..<Suc n] = before @ after"
  shows "before = [1..<Suc (length before)] \<and> length before \<le> n \<and>
    (after = page # further \<longrightarrow> page = Suc (length before) \<and> length before < n) \<and> (after = [] \<longrightarrow> length before = n)"
proof -
  have len: "length before + length after = n" using arg_cong [OF assms, of length] by (simp del: upt_Suc)
  have "before = take (length before) [1..<Suc n]" using assms by simp
  also have "\<dots> = [1..<Suc (length before)]" using len by (simp add: take_upt del: upt_Suc)
  finally have b: "before = [1..<Suc (length before)]" .
  moreover have "page = Suc (length before)" if "after = page # further"
  proof -
    have "[1..<Suc n] ! length before = page" using assms that by (simp add: nth_append del: upt_Suc)
    with len that show ?thesis by (simp del: upt_Suc)
  qed
  ultimately show ?thesis using len by auto
qed

lemma finish_traced:
  assumes "finish_report (traced input) f ok (tr, s) = (rep, (tr', s'))"
  shows "tr' = tr \<and> dr_ok rep = ok \<and> dr_candidates rep = pf_candidates f \<and> dr_diagnostics rep = pf_diagnostics f \<and>
    dr_counts rep = \<lparr>rp_candidates = length (pf_candidates f), rp_diagnostics = length (pf_diagnostics f),
      rp_discovered = length (pf_candidates f), rp_skippedPreDetail = pf_skippedPreDetail f\<rparr>"
  using assms
  by (auto simp: finish_report_def buildReport_def traced_def beside_def Let_def split: option.splits prod.splits)

lemma case_reported:
  "(case r of Some (Inr rep, (tr, s)) \<Rightarrow> P rep tr s | _ \<Rightarrow> True) \<longleftrightarrow>
     (\<forall>rep tr s. r = Some (Inr rep, (tr, s)) \<longrightarrow> P rep tr s)"
  by (auto split: option.split sum.split)

lemma discovery_report:
  assumes "discoverReplaysDryRun (traced input) ([], s) = Some (Inr rep, (tr, s'))"
  shows "tr = spaced (request_delay input) False (requests tr) \<and>
    (\<exists>visited. pages_read input [1..<Suc (length visited)] visited \<and>
      rp_candidates (dr_counts rep) = length (dr_candidates rep) \<and>
      rp_diagnostics (dr_counts rep) = length (dr_diagnostics rep) \<and>
      dr_candidates rep = concat (map (pf_candidates \<circ> snd) visited) \<and>
      rp_skippedPreDetail (dr_counts rep) = sum_list (map (pf_skippedPreDetail \<circ> snd) visited) \<and>
      errors_in (concat (map (pf_diagnostics \<circ> snd) visited)) = [] \<and>
      (if dr_ok rep
       then length visited = page_limit input \<and> requests tr = concat (map fst visited) \<and>
         dr_diagnostics rep = concat (map (pf_diagnostics \<circ> snd) visited)
       else length visited < page_limit input \<and>
         (\<exists>e new. is_class SourceFetchError e \<and> page_cut input (Suc (length visited)) new e \<and>
            requests tr = concat (map fst visited) @ new \<and>
            dr_diagnostics rep = concat (map (pf_diagnostics \<circ> snd) visited) @
              [buildSourceFailureDiagnostic e (href (di_sourceUrl input)) (Suc (length visited))])))"
proof -
  obtain left found n tr1 s1 where pages:
    "discover_pages (traced input) [1..<Suc (page_limit input)] no_page (0, ([], s)) = Some (left, found, (n, (tr1, s1)))"
    using assms by (cases "discover_pages (traced input) [1..<Suc (page_limit input)] no_page (0, ([], s))")
      (auto simp: discoverReplaysDryRun_def page_limit_def simp del: upt_Suc)
  from pages_traced [OF this traced_start] obtain before after visited where split: "[1..<Suc (page_limit input)] = before @ after"
    and read: "pages_read input before visited" and found: "found = foldl add_page no_page (map snd visited)"
    and ends: "case left of None \<Rightarrow> after = [] \<and> traced_to input (concat (map fst visited)) (n, (tr1, s1))
       | Some (page, e) \<Rightarrow> (\<exists>further. after = page # further) \<and> (is_class SourceFetchError e \<longrightarrow>
           (\<exists>last. page_cut input page last e \<and> traced_to input (concat (map fst visited) @ last) (n, (tr1, s1))))"
    unfolding append_Nil by (elim exE conjE) (rule that)
  have len: "length visited = length before" using read by (simp add: pages_read_def list_all2_lengthD)
  note upto = upto_split [OF split]
  have read': "pages_read input [1..<Suc (length visited)] visited"
    using read upto [of 0 "[]"] len by metis
  have parts: "pf_candidates found = concat (map (pf_candidates \<circ> snd) visited)"
    "pf_diagnostics found = concat (map (pf_diagnostics \<circ> snd) visited)"
    "pf_skippedPreDetail found = sum_list (map (pf_skippedPreDetail \<circ> snd) visited)"
    by (simp_all add: found foldl_pages no_page_def comp_def)
  have clean: "errors_in (concat (map (pf_diagnostics \<circ> snd) visited)) = []"
    using discover_pages_warn [OF pages] parts(2) by (simp add: no_page_def errors_in_def)
  show ?thesis
  proof (cases left)
    case None
    have "finish_report (traced input) found True (tr1, s1) = (rep, (tr, s'))"
      using assms pages None by (cases "finish_report (traced input) found True (tr1, s1)") (auto simp: discoverReplaysDryRun_def page_limit_def simp del: upt_Suc)
    note fin = finish_traced [OF this]
    from ends None have after: "after = []" and tr: "traced_to input (concat (map fst visited)) (n, (tr1, s1))" by simp_all
    from traced_requests [OF tr] traced_spaced [OF tr] fin parts clean read' after upto [of 0 "[]"] len
    show ?thesis by (auto intro!: exI [of _ visited] simp del: upt_Suc)
  next
    case (Some pe)
    obtain page e where pe: "pe = (page, e)" by (cases pe)
    have e: "is_class SourceFetchError e"
      using assms pages Some pe by (auto simp: discoverReplaysDryRun_def page_limit_def simp del: upt_Suc split: if_splits)
    then have "finish_report (traced input) (found\<lparr>pf_diagnostics := pf_diagnostics found @
        [buildSourceFailureDiagnostic e (href (di_sourceUrl input)) page]\<rparr>) False (tr1, s1) = (rep, (tr, s'))"
      using assms pages Some pe
      by (cases "finish_report (traced input) (found\<lparr>pf_diagnostics := pf_diagnostics found @
        [buildSourceFailureDiagnostic e (href (di_sourceUrl input)) page]\<rparr>) False (tr1, s1)") (auto simp: discoverReplaysDryRun_def page_limit_def simp del: upt_Suc)
    note fin = finish_traced [OF this]
    from ends Some pe e obtain further last where after: "after = page # further" and cut: "page_cut input page last e"
      and tr: "traced_to input (concat (map fst visited) @ last) (n, (tr1, s1))" by auto
    have page: "page = Suc (length visited)" "length visited < page_limit input"
      using upto [of page further] after len by simp_all
    from traced_requests [OF tr] traced_spaced [OF tr] fin parts clean read' page e cut
    show ?thesis by (auto intro!: exI [of _ visited] exI [of _ e] exI [of _ last] simp del: upt_Suc)
  qed
qed

text \<open>
  C13: the order of the requests of a discovery. Page after page from the first on, the list is read
  once, at the address of that page; then, in the order of its rows, the details of exactly the rows
  that have a link and that the gate does not know, each at the row's own address. When the report is
  \<open>ok\<close>, this is so for every page up to the limit; otherwise for the pages before the one at which a
  read or a lookup threw, and that read or lookup is the last thing that is asked. Between two reads
  there is exactly one pause of the configured length, none when it is 0, and neither before the first
  nor after the last.
\<close>

theorem requests_in_order:
  "case discoverReplaysDryRun (traced input) ([], s) of
     Some (Inr rep, (tr, s')) \<Rightarrow>
       tr = spaced (request_delay input) False (requests tr) \<and>
       (\<exists>visited. pages_read input [1..<Suc (length visited)] visited \<and>
         (if dr_ok rep
          then length visited = page_limit input \<and> requests tr = concat (map fst visited)
          else length visited < page_limit input \<and>
            (\<exists>e new. page_cut input (Suc (length visited)) new e \<and> requests tr = concat (map fst visited) @ new)))
   | _ \<Rightarrow> True"
  unfolding case_reported
proof (intro allI impI)
  fix rep tr s'
  assume "discoverReplaysDryRun (traced input) ([], s) = Some (Inr rep, (tr, s'))"
  from discovery_report [OF this]
  show "tr = spaced (request_delay input) False (requests tr) \<and>
    (\<exists>visited. pages_read input [1..<Suc (length visited)] visited \<and>
      (if dr_ok rep
       then length visited = page_limit input \<and> requests tr = concat (map fst visited)
       else length visited < page_limit input \<and>
         (\<exists>e new. page_cut input (Suc (length visited)) new e \<and> requests tr = concat (map fst visited) @ new)))"
    by (cases "dr_ok rep") (simp_all del: upt_Suc, blast+)
qed

subsection \<open>What the report says\<close>

lemma stopped_report:
  assumes "errors_in ds = []" "\<not> dr_ok rep" "dr_diagnostics rep = ds @ [buildSourceFailureDiagnostic e u page]"
  shows "errors_in (dr_diagnostics rep) = [buildSourceFailureDiagnostic e u page]"
    "dg_page (buildSourceFailureDiagnostic e u page) = keep (Option.bind (err_details e) d_page) (Some page)"
    "deriveSourceFailure rep = Some \<lparr>sf_attempts = dg_attempts (buildSourceFailureDiagnostic e u page),
       sf_classification = (if fetch_code e = SourceRateLimited then RateLimited
         else if fetch_code e = SourceTransient then Transient else Permanent),
       sf_code = fetch_code e, sf_phase = dg_phase (buildSourceFailureDiagnostic e u page)\<rparr>"
proof -
  let ?d = "buildSourceFailureDiagnostic e u page"
  show "errors_in (dr_diagnostics rep) = [?d]"
    using assms source_failure_diagnostic [of e u page] by simp
  show "dg_page ?d = keep (Option.bind (err_details e) d_page) (Some page)"
    by (simp add: buildSourceFailureDiagnostic_def withSourceFailureEvidence_def plain_diagnostic_def split: option.split)
  have "List.find is_source_failure (dr_diagnostics rep) = Some ?d"
    using find_failure [OF assms(1)] source_failure_diagnostic [of e u page] assms(3) by simp
  then show "deriveSourceFailure rep = Some \<lparr>sf_attempts = dg_attempts ?d,
       sf_classification = (if fetch_code e = SourceRateLimited then RateLimited
         else if fetch_code e = SourceTransient then Transient else Permanent),
       sf_code = fetch_code e, sf_phase = dg_phase ?d\<rparr>"
    using assms(2)
    by (simp add: deriveSourceFailure_def buildSourceFailure_def sourceFailureClassification_def fetch_code_def)
qed

text \<open>
  C18: a report says what was read and where reading stopped. Its candidates, diagnostics and skips are
  those of the pages that were read, one after the other, and its counts are the lengths of its lists.
  When it is \<open>ok\<close> these are all pages up to the limit, and no diagnostic has severity \<open>error\<close>. Otherwise
  the last thing that was asked, of the page after them, threw a source error, and exactly one more
  diagnostic, of severity \<open>error\<close>, is at the end: the one made from that error and that page. The run
  derives its source failure from it, with its attempts, classification, code and phase.
\<close>

theorem report_explains_itself:
  "case discoverReplaysDryRun (traced input) ([], s) of
     Some (Inr rep, (tr, s')) \<Rightarrow>
       rp_candidates (dr_counts rep) = length (dr_candidates rep) \<and>
       rp_diagnostics (dr_counts rep) = length (dr_diagnostics rep) \<and>
       (\<exists>visited. pages_read input [1..<Suc (length visited)] visited \<and>
         dr_candidates rep = concat (map (pf_candidates \<circ> snd) visited) \<and>
         rp_skippedPreDetail (dr_counts rep) = sum_list (map (pf_skippedPreDetail \<circ> snd) visited) \<and>
         errors_in (concat (map (pf_diagnostics \<circ> snd) visited)) = [] \<and>
         (if dr_ok rep
          then length visited = page_limit input \<and> requests tr = concat (map fst visited) \<and>
            dr_diagnostics rep = concat (map (pf_diagnostics \<circ> snd) visited) \<and> deriveSourceFailure rep = None
          else \<exists>e new failure.
            is_class SourceFetchError e \<and> page_cut input (Suc (length visited)) new e \<and>
            requests tr = concat (map fst visited) @ new \<and>
            failure = buildSourceFailureDiagnostic e (href (di_sourceUrl input)) (Suc (length visited)) \<and>
            dg_code failure = fetch_code e \<and> dg_message failure = err_message e \<and>
            dg_page failure = keep (Option.bind (err_details e) d_page) (Some (Suc (length visited))) \<and>
            dr_diagnostics rep = concat (map (pf_diagnostics \<circ> snd) visited) @ [failure] \<and>
            errors_in (dr_diagnostics rep) = [failure] \<and>
            deriveSourceFailure rep = Some \<lparr>sf_attempts = dg_attempts failure,
              sf_classification = (if fetch_code e = SourceRateLimited then RateLimited
                else if fetch_code e = SourceTransient then Transient else Permanent),
              sf_code = fetch_code e, sf_phase = dg_phase failure\<rparr>))
   | _ \<Rightarrow> True"
  unfolding case_reported
proof (intro allI impI, goal_cases)
  case (1 rep tr s')
  from discovery_report [OF 1] obtain visited where read: "pages_read input [1..<Suc (length visited)] visited"
    and parts: "rp_candidates (dr_counts rep) = length (dr_candidates rep)"
      "rp_diagnostics (dr_counts rep) = length (dr_diagnostics rep)"
      "dr_candidates rep = concat (map (pf_candidates \<circ> snd) visited)"
      "rp_skippedPreDetail (dr_counts rep) = sum_list (map (pf_skippedPreDetail \<circ> snd) visited)"
    and clean: "errors_in (concat (map (pf_diagnostics \<circ> snd) visited)) = []"
    and ends: "if dr_ok rep
       then length visited = page_limit input \<and> requests tr = concat (map fst visited) \<and>
         dr_diagnostics rep = concat (map (pf_diagnostics \<circ> snd) visited)
       else length visited < page_limit input \<and>
         (\<exists>e new. is_class SourceFetchError e \<and> page_cut input (Suc (length visited)) new e \<and>
            requests tr = concat (map fst visited) @ new \<and>
            dr_diagnostics rep = concat (map (pf_diagnostics \<circ> snd) visited) @
              [buildSourceFailureDiagnostic e (href (di_sourceUrl input)) (Suc (length visited))])"
    by (elim exE conjE) (rule that)
  show ?case
  proof (cases "dr_ok rep")
    case True
    with read parts clean ends show ?thesis
      by (simp only: if_True if_P) (intro conjI exI [of _ visited] refl; simp add: deriveSourceFailure_def)
  next
    case False
    with ends obtain e new where stopped: "is_class SourceFetchError e" "page_cut input (Suc (length visited)) new e"
      "requests tr = concat (map fst visited) @ new"
      "dr_diagnostics rep = concat (map (pf_diagnostics \<circ> snd) visited) @
         [buildSourceFailureDiagnostic e (href (di_sourceUrl input)) (Suc (length visited))]" by (simp only: if_False if_not_P) blast
    let ?failure = "buildSourceFailureDiagnostic e (href (di_sourceUrl input)) (Suc (length visited))"
    note explained = stopped_report [OF clean False stopped(4)]
    show ?thesis
      unfolding if_not_P [OF False]
      using read parts clean stopped explained
      by (intro conjI exI [of _ visited] exI [of _ e] exI [of _ new] exI [of _ ?failure]) (simp_all only: buildSourceFailureDiagnostic_sel)
  qed
qed

end
