(* ===== verification/Watch_Loop.thy ===== *)
theory Watch_Loop
  imports Run_Loop
begin

text \<open>
  The watch loop: \<open>src/run/watch-loop.ts\<close>. It polls the first list page for ever, or until it is told
  to stop; it has no checkpoint.

  As for a run, everything the loop is handed to work with is a field of its input over a state \<open>'s\<close>.
  \<open>wa_pause\<close> is the pause of the pacer, \<open>wa_sleep\<close> the sleep between cycles. \<open>None\<close> means that the
  event loop leaves a task of a page unfinished, or that the loop never returns.
\<close>

subsection \<open>Input\<close>

record watch_request =
  wq_attempts :: "nat option"
  wq_maxPages :: nat
  wq_requestDelayMs :: nat
  wq_sourceSystem :: string
  wq_sourceUrl :: url

datatype watch_event = CycleComplete compact_summary | CycleFailed thrown

record 's watch_input =
  wa_attempts :: "nat option"
  wa_concurrency :: nat
  wa_heartbeatPath :: string
  wa_intervalMs :: nat
  wa_requestSpacingMs :: nat
  wa_sourceUrl :: url
  wa_now :: "'s \<Rightarrow> int \<times> 's"
  wa_wall :: "'s \<Rightarrow> int \<times> 's"
  wa_createRunId :: "int \<Rightarrow> 's \<Rightarrow> string \<times> 's"
  wa_shouldStop :: "'s \<Rightarrow> bool \<times> 's"
  wa_sleep :: "nat \<Rightarrow> 's \<Rightarrow> 's"
  wa_pause :: "int \<Rightarrow> 's \<Rightarrow> 's"
  wa_log :: "watch_event \<Rightarrow> 's \<Rightarrow> 's"
  wa_discover :: "watch_request \<Rightarrow> 's \<Rightarrow> (thrown + report) \<times> 's"
  wa_exists :: "string \<Rightarrow> string \<Rightarrow> 's \<Rightarrow> (thrown + bool) \<times> 's"
  wa_store :: "replay_candidate \<Rightarrow> 's \<Rightarrow> (thrown + store_result) \<times> 's"
  wa_stage :: "string \<Rightarrow> store_result \<Rightarrow> 's \<Rightarrow> (thrown + staging_result) \<times> 's"
  wa_schedule :: "nat \<Rightarrow> nat list"
  wa_writeHeartbeat :: "string \<Rightarrow> string \<Rightarrow> 's \<Rightarrow> (thrown + unit) \<times> 's"

definition WATCH_PAGE :: nat where "WATCH_PAGE = 1"

definition buildDiscoverInput :: "'s watch_input \<Rightarrow> watch_request" where
  "buildDiscoverInput input =
     \<lparr>wq_attempts = wa_attempts input, wq_maxPages = WATCH_PAGE, wq_requestDelayMs = wa_requestSpacingMs input,
      wq_sourceSystem = defaultSourceSystem, wq_sourceUrl = wa_sourceUrl input\<rparr>"

definition watch_calls :: "'s watch_input \<Rightarrow> string \<Rightarrow> 's ingest_calls" where
  "watch_calls input runId =
     \<lparr>ic_prefetchDedup = True, ic_exists = Some (wa_exists input), ic_sourceSystem = Some defaultSourceSystem,
      ic_store = wa_store input, ic_stage = wa_stage input runId\<rparr>"

subsection \<open>One cycle\<close>

definition cycle_summary :: "report \<Rightarrow> page_result \<Rightarrow> string \<Rightarrow> string \<Rightarrow> string \<Rightarrow> run_summary" where
  "cycle_summary rep page runId startedAt finishedAt =
     buildRunSummary
       \<lparr>si_candidateCount = None, si_discoveredLastPage = None, si_discoveredRange = None,
        si_discoveryReport = rep, si_finishedAt = finishedAt, si_lastCompletedPage = None,
        si_mode = Some Summary.Watch, si_pageTimestampsMs = None, si_rawStorage = pr_rawStorage page,
        si_resumeInvocation = None, si_runId = runId,
        si_skippedBySourceId = Some (pt_skippedBySourceId (pr_counts page)), si_staging = pr_staging page,
        si_startedAt = startedAt, si_status = None, si_upperBoundLastPage = None\<rparr>"

definition runCycle :: "'s watch_input \<Rightarrow> pacer \<Rightarrow> 's \<Rightarrow> ((thrown + unit) \<times> pacer \<times> 's) option" where
  "runCycle input pacer s =
     (let (cycleStart, s) = wa_now input s;
          (runId, s) = wa_createRunId input cycleStart s;
          (now, s) = wa_wall input s;
          (pause, pacer) = awaitFloor (int (wa_requestSpacingMs input)) now pacer;
          s = (if 0 < pause then wa_pause input pause s else s)
      in case wa_discover input (buildDiscoverInput input) s of
           (Inl e, s) \<Rightarrow> Some (Inl e, pacer, s)
         | (Inr rep, s) \<Rightarrow>
             (case ingestPage (watch_calls input runId) (wa_concurrency input) (dr_candidates rep) s
                     (wa_schedule input (length (dr_candidates rep))) of
                None \<Rightarrow> None
              | Some (Inl e, s) \<Rightarrow> Some (Inl e, pacer, s)
              | Some (Inr page, s) \<Rightarrow>
                  (let (finished, s) = wa_now input s;
                       sm = cycle_summary rep page runId (toISOString cycleStart) (toISOString finished)
                   in Some (Inr (), pacer, wa_log input (CycleComplete (toCompactSummary sm)) s))))"

subsection \<open>The loop\<close>

definition heartbeat_text :: "int \<Rightarrow> string" where
  "heartbeat_text t = CHR 0x7B # json_string ''timestamp'' @ '':'' @ json_string (toISOString t) @ [CHR 0x7D]"

definition beat :: "'s watch_input \<Rightarrow> 's \<Rightarrow> (thrown + unit) \<times> 's" where
  "beat input s = (let (t, s) = wa_now input s in wa_writeHeartbeat input (wa_heartbeatPath input) (heartbeat_text t) s)"

definition guarded_cycle :: "'s watch_input \<Rightarrow> pacer \<Rightarrow> 's \<Rightarrow> (pacer \<times> 's) option" where
  "guarded_cycle input pacer s =
     (case runCycle input pacer s of
        None \<Rightarrow> None
      | Some (r, pacer, s) \<Rightarrow>
          (let (r, s) = (case r of Inl e \<Rightarrow> (Inl e, s) | Inr _ \<Rightarrow> beat input s)
           in Some (pacer, case r of Inl e \<Rightarrow> wa_log input (CycleFailed e) s | Inr _ \<Rightarrow> s)))"

text \<open>One turn of the loop: \<open>None\<close> in the result when it is told to stop.\<close>

definition watch_turn :: "'s watch_input \<Rightarrow> pacer \<Rightarrow> 's \<Rightarrow> (pacer option \<times> 's) option" where
  "watch_turn input pacer s =
     (let (stop, s) = wa_shouldStop input s in
      if stop then Some (None, s)
      else case guarded_cycle input pacer s of
             None \<Rightarrow> None
           | Some (pacer, s) \<Rightarrow>
               (let (stop, s) = wa_shouldStop input s in
                if stop then Some (None, s) else Some (Some pacer, wa_sleep input (wa_intervalMs input) s)))"

partial_function (option) watch_loop :: "'s watch_input \<Rightarrow> pacer \<Rightarrow> 's \<Rightarrow> (nat \<times> 's) option" where
  "watch_loop input pacer s =
     Option.bind (watch_turn input pacer s)
       (\<lambda>(next, s). case next of None \<Rightarrow> Some (0, s) | Some pacer \<Rightarrow> watch_loop input pacer s)"

definition runWatchLoop :: "'s watch_input \<Rightarrow> 's \<Rightarrow> (nat \<times> 's) option" where
  "runWatchLoop input s = watch_loop input createPacer s"

end
