(* ===== verification/Watch_Results.thy ===== *)
theory Watch_Results
  imports Watch_Loop Discovery_Order
begin

text \<open>
  What the watch loop guarantees: it survives every failure and ends when it is told to, its heartbeat
  tells of completed cycles only, it asks for nothing but the first list page, and replays that are
  already staged cost it no fetch.
\<close>

subsection \<open>Watching the watcher\<close>

text \<open>
  The surroundings are extended by the number of polls of \<open>shouldStop\<close> that are still answered with
  no, and by the list of what the loop logs, beats and sleeps.
\<close>

datatype watch_act = Logged watch_event | Beat bool | Slept nat

type_synonym 's observed = "(nat \<times> watch_act list) \<times> 's"

definition act :: "watch_act \<Rightarrow> nat \<times> watch_act list \<Rightarrow> nat \<times> watch_act list" where
  "act a x = (fst x, snd x @ [a])"

definition observed :: "'s watch_input \<Rightarrow> 's observed watch_input" where
  "observed input =
     \<lparr>wa_attempts = wa_attempts input, wa_concurrency = wa_concurrency input,
      wa_heartbeatPath = wa_heartbeatPath input, wa_intervalMs = wa_intervalMs input,
      wa_requestSpacingMs = wa_requestSpacingMs input, wa_sourceUrl = wa_sourceUrl input,
      wa_now = beside (wa_now input), wa_wall = beside (wa_wall input),
      wa_createRunId = (\<lambda>t. beside (wa_createRunId input t)),
      wa_shouldStop = (\<lambda>(x, s). (fst x = 0, ((fst x - 1, snd x), s))),
      wa_sleep = (\<lambda>d (x, s). (act (Slept d) x, wa_sleep input d s)),
      wa_pause = (\<lambda>d (x, s). (x, wa_pause input d s)),
      wa_log = (\<lambda>ev (x, s). (act (Logged ev) x, wa_log input ev s)),
      wa_discover = (\<lambda>q. beside (wa_discover input q)),
      wa_exists = (\<lambda>system i. beside (wa_exists input system i)),
      wa_store = (\<lambda>c. beside (wa_store input c)),
      wa_stage = (\<lambda>runId r. beside (wa_stage input runId r)),
      wa_schedule = wa_schedule input,
      wa_writeHeartbeat = (\<lambda>path text (x, s). case wa_writeHeartbeat input path text s of
         (r, s) \<Rightarrow> (r, (act (Beat (is_ok r)) x, s)))\<rparr>"

text \<open>
  What one cycle may leave behind: a summary and a heartbeat; a summary, a failed heartbeat and a
  warning; or a warning alone.
\<close>

fun cycle_trace :: "watch_act list \<Rightarrow> bool" where
  "cycle_trace [Logged (CycleComplete sm), Beat ok] = ok"
| "cycle_trace [Logged (CycleComplete sm), Beat ok, Logged (CycleFailed e)] = (\<not> ok)"
| "cycle_trace [Logged (CycleFailed e)] = True"
| "cycle_trace _ = False"

lemma beside_eq: "beside f s = (r, s') \<longleftrightarrow> (\<exists>w. f (snd s) = (r, w) \<and> s' = (fst s, w))"
  by (auto simp: beside_def split: prod.split)

lemma ingest_observed:
  "ingestPage (watch_calls (observed input) runId) n cs s sched = Some (r, s') \<Longrightarrow> fst s' = fst s"
  using page_run_keeps [of "\<lambda>w. fst w = fst s" "watch_calls (observed input) runId" s n cs sched]
  by (auto simp: ingestPage_def Let_def watch_calls_def observed_def split: if_splits)

lemma log_observed: "fst (wa_log (observed input) ev s) = act (Logged ev) (fst s)"
  by (simp add: observed_def split: prod.split)

lemma cycle_observed:
  assumes "runCycle (observed input) pacer s = Some (r, pacer', s')"
  shows "case r of Inl e \<Rightarrow> fst s' = fst s
    | Inr _ \<Rightarrow> \<exists>sm. fst s' = act (Logged (CycleComplete sm)) (fst s)"
proof -
  obtain t s1 where now: "wa_now (observed input) s = (t, s1)" by (cases "wa_now (observed input) s")
  obtain runId s2 where rid: "wa_createRunId (observed input) t s1 = (runId, s2)"
    by (cases "wa_createRunId (observed input) t s1")
  obtain w s3 where wall: "wa_wall (observed input) s2 = (w, s3)" by (cases "wa_wall (observed input) s2")
  obtain pause p where floor: "awaitFloor (int (wa_requestSpacingMs (observed input))) w pacer = (pause, p)"
    by (cases "awaitFloor (int (wa_requestSpacingMs (observed input))) w pacer")
  let ?s4 = "if 0 < pause then wa_pause (observed input) pause s3 else s3"
  obtain d s5 where disc: "wa_discover (observed input) (buildDiscoverInput (observed input)) ?s4 = (d, s5)"
    by (cases "wa_discover (observed input) (buildDiscoverInput (observed input)) ?s4")
  have same: "fst s5 = fst s"
    using now rid wall disc by (auto simp: observed_def beside_eq split: if_splits prod.splits)
  show ?thesis
  proof (cases d)
    case (Inl e)
    with assms now rid wall floor disc same show ?thesis by (auto simp: runCycle_def)
  next
    case (Inr rep)
    let ?q = "ingestPage (watch_calls (observed input) runId) (wa_concurrency (observed input)) (dr_candidates rep) s5
      (wa_schedule (observed input) (length (dr_candidates rep)))"
    obtain q s6 where q: "?q = Some (q, s6)"
      using assms now rid wall floor disc Inr by (cases ?q) (auto simp: runCycle_def)
    have same6: "fst s6 = fst s" using ingest_observed [OF q] same by simp
    show ?thesis
    proof (cases q)
      case Inl': (Inl e)
      with assms now rid wall floor disc Inr q same6 show ?thesis by (auto simp: runCycle_def)
    next
      case Inr': (Inr page)
      obtain f s7 where fin: "wa_now (observed input) s6 = (f, s7)" by (cases "wa_now (observed input) s6")
      then have "fst s7 = fst s" using same6 by (auto simp: observed_def beside_eq)
      with assms now rid wall floor disc Inr q Inr' fin show ?thesis
        by (auto simp: runCycle_def Let_def log_observed)
    qed
  qed
qed

lemma beat_observed: "beat (observed input) s = (r, s') \<Longrightarrow> fst s' = act (Beat (is_ok r)) (fst s)"
  by (auto simp: beat_def observed_def beside_eq Let_def split: prod.splits)

lemma guarded_observed:
  assumes "guarded_cycle (observed input) pacer s = Some (pacer', s')"
  shows "\<exists>c. cycle_trace c \<and> fst s' = (fst (fst s), snd (fst s) @ c)"
proof -
  obtain r p s1 where run: "runCycle (observed input) pacer s = Some (r, p, s1)"
    using assms by (auto simp: guarded_cycle_def split: option.splits)
  show ?thesis
  proof (cases r)
    case (Inl e)
    with assms run cycle_observed [OF run] show ?thesis
      by (auto simp: guarded_cycle_def log_observed act_def intro!: exI [of _ "[Logged (CycleFailed e)]"])
  next
    case (Inr u)
    with cycle_observed [OF run] obtain sm where sm: "fst s1 = act (Logged (CycleComplete sm)) (fst s)" by auto
    obtain b s2 where beat: "beat (observed input) s1 = (b, s2)" by (cases "beat (observed input) s1")
    show ?thesis
    proof (cases b)
      case Inl': (Inl e)
      with assms run Inr beat beat_observed [OF beat] sm show ?thesis
        by (auto simp: guarded_cycle_def log_observed act_def
            intro!: exI [of _ "[Logged (CycleComplete sm), Beat False, Logged (CycleFailed e)]"])
    next
      case (Inr v)
      with assms run \<open>r = Inr u\<close> beat beat_observed [OF beat] sm show ?thesis
        by (auto simp: guarded_cycle_def act_def intro!: exI [of _ "[Logged (CycleComplete sm), Beat True]"])
    qed
  qed
qed

subsection \<open>Shutting down\<close>

definition watch_serves :: "'s watch_input \<Rightarrow> bool" where
  "watch_serves input \<longleftrightarrow> 0 < wa_concurrency input \<and>
     (\<forall>n. wa_schedule input n = concat (replicate (4 * n) [0..<n]))"

lemma cycle_ends:
  assumes "watch_serves input"
  shows "guarded_cycle input pacer s \<noteq> None"
proof -
  have served: "ingestPage calls (wa_concurrency input) cs w (wa_schedule input (length cs)) = None \<longleftrightarrow> False" for calls cs w
    using assms fair_page_ends [of "wa_concurrency input" calls cs w] by (simp add: watch_serves_def)
  show ?thesis
    by (auto simp: guarded_cycle_def runCycle_def Let_def served simp del: not_None_eq
        split: option.splits sum.splits prod.splits)
qed

lemma observed_serves: "watch_serves input \<Longrightarrow> watch_serves (observed input)"
  by (simp add: watch_serves_def observed_def)

text \<open>The cycles of a loop with the sleep after each; the loop that is told to stop right after a cycle
  does not sleep any more.\<close>

definition slept_cycles :: "nat \<Rightarrow> watch_act list list \<Rightarrow> watch_act list" where
  "slept_cycles d cs = concat (map (\<lambda>c. c @ [Slept d]) cs)"

lemma slept_cycles_Cons: "slept_cycles d (c # cs) = c @ Slept d # slept_cycles d cs"
  by (simp add: slept_cycles_def)

lemma slept_cycles_Nil_iff: "slept_cycles d cs = [] \<longleftrightarrow> cs = []"
  by (cases cs) (simp_all add: slept_cycles_def)

lemma loop_observed:
  assumes "watch_serves input"
  shows "\<exists>cs s'. watch_loop (observed input) pacer ((k, tr), s) =
      Some (0, ((0, tr @ (if odd k then butlast else id) (slept_cycles (wa_intervalMs input) cs)), s')) \<and>
    length cs = Suc k div 2 \<and> list_all cycle_trace cs"
proof (induction k arbitrary: pacer tr s rule: less_induct)
  case (less k)
  show ?case
  proof (cases k)
    case 0
    then have "watch_turn (observed input) pacer ((k, tr), s) = Some (None, ((0, tr), s))"
      by (simp add: watch_turn_def observed_def)
    then have "watch_loop (observed input) pacer ((k, tr), s) = Some (0, ((0, tr), s))"
      by (subst watch_loop.simps) simp
    with 0 show ?thesis by (simp add: slept_cycles_def)
  next
    case (Suc j)
    obtain p s1 where g: "guarded_cycle (observed input) pacer ((j, tr), s) = Some (p, s1)"
      using cycle_ends [OF observed_serves [OF assms], of pacer "((j, tr), s)"] by auto
    from guarded_observed [OF this] obtain c where c: "cycle_trace c" "fst s1 = (j, tr @ c)" by auto
    then obtain w where s1: "s1 = ((j, tr @ c), w)" by (cases s1) auto
    have turn: "watch_turn (observed input) pacer ((k, tr), s) =
        (if j = 0 then Some (None, ((0, tr @ c), w))
         else Some (Some p, ((j - 1, (tr @ c) @ [Slept (wa_intervalMs input)]), wa_sleep input (wa_intervalMs input) w)))"
      using g Suc by (simp add: watch_turn_def observed_def s1 act_def)
    show ?thesis
    proof (cases j)
      case 0
      with turn have "watch_loop (observed input) pacer ((k, tr), s) = Some (0, ((0, tr @ c), w))"
        by (subst watch_loop.simps) simp
      with 0 Suc c(1) show ?thesis
        by (intro exI [of _ "[c]"] exI [of _ w]) (simp add: slept_cycles_def butlast_append)
    next
      case j: (Suc i)
      have "i < k" using Suc j by simp
      from less.IH [OF this, of p "(tr @ c) @ [Slept (wa_intervalMs input)]" "wa_sleep input (wa_intervalMs input) w"] obtain cs s' where rest:
        "watch_loop (observed input) p ((i, (tr @ c) @ [Slept (wa_intervalMs input)]), wa_sleep input (wa_intervalMs input) w) =
          Some (0, ((0, ((tr @ c) @ [Slept (wa_intervalMs input)]) @
            (if odd i then butlast else id) (slept_cycles (wa_intervalMs input) cs)), s'))"
        "length cs = Suc i div 2" "list_all cycle_trace cs" by blast
      have "watch_loop (observed input) pacer ((k, tr), s) =
          watch_loop (observed input) p ((i, (tr @ c) @ [Slept (wa_intervalMs input)]), wa_sleep input (wa_intervalMs input) w)"
        using turn j by (subst watch_loop.simps) simp
      moreover have "odd i \<Longrightarrow> slept_cycles (wa_intervalMs input) cs \<noteq> []"
        using rest(2) by (auto simp: slept_cycles_Nil_iff)
      ultimately show ?thesis
        using rest c(1) Suc j by (intro exI [of _ "c # cs"] exI [of _ s']) (auto simp: slept_cycles_Cons butlast_append)
    qed
  qed
qed

text \<open>
  C12: the watch loop survives every failure and shuts down when told to. Whatever discovery, storage,
  staging, the database and the heartbeat file do, a loop that is told to stop at the poll after \<open>k\<close>
  others returns with exit code 0, after exactly \<open>(k + 1) div 2\<close> cycles. Each cycle wrote a heartbeat
  only after it had completed and logged its summary, and logged exactly one warning when it or its
  heartbeat failed; between two cycles there is one sleep of the interval.
\<close>

theorem watch_shuts_down:
  assumes "watch_serves input"
  shows "\<exists>cs s'. runWatchLoop (observed input) ((k, []), s) =
      Some (0, ((0, (if odd k then butlast else id) (slept_cycles (wa_intervalMs input) cs)), s')) \<and>
    length cs = Suc k div 2 \<and> list_all cycle_trace cs"
  using loop_observed [OF assms, of createPacer k "[]" s] by (simp add: runWatchLoop_def)

definition silent_watch :: "unit watch_input" where
  "silent_watch =
     \<lparr>wa_attempts = None, wa_concurrency = 1, wa_heartbeatPath = ''/tmp/beat'', wa_intervalMs = 5,
      wa_requestSpacingMs = 0, wa_sourceUrl = \<lparr>url_protocol = ''https:'', url_username = [], url_password = [],
        url_host = ''h'', url_pathname = ''/'', url_search = [], url_hash = []\<rparr>,
      wa_now = Pair 0, wa_wall = Pair 0, wa_createRunId = (\<lambda>_. Pair ''run''), wa_shouldStop = Pair False,
      wa_sleep = (\<lambda>_ s. s), wa_pause = (\<lambda>_ s. s), wa_log = (\<lambda>_ s. s),
      wa_discover = (\<lambda>_. Pair (Inl Undefined)), wa_exists = (\<lambda>_ _. Pair (Inr True)),
      wa_store = (\<lambda>_. Pair (Inl Undefined)), wa_stage = (\<lambda>_ _. Pair (Inl Undefined)),
      wa_schedule = (\<lambda>n. concat (replicate (4 * n) [0..<n])), wa_writeHeartbeat = (\<lambda>_ _. Pair (Inr ()))\<rparr>"

lemma watch_shuts_down_witness:
  "\<exists>cs s'. runWatchLoop (observed silent_watch) ((3, []), ()) =
      Some (0, ((0, (if odd (3::nat) then butlast else id) (slept_cycles (wa_intervalMs silent_watch) cs)), s')) \<and>
    length cs = Suc 3 div 2 \<and> list_all cycle_trace cs"
  by (rule watch_shuts_down) (simp add: watch_serves_def silent_watch_def)

subsection \<open>What a cycle asks for\<close>

text \<open>Discovery with the request that a cycle hands it; the rest of the surroundings as in \<open>base\<close>.\<close>

definition discovery_for ::
    "'s discovery_input \<Rightarrow> (string \<Rightarrow> string \<Rightarrow> 's \<Rightarrow> (thrown + bool) \<times> 's) \<Rightarrow> watch_request \<Rightarrow> 's discovery_input" where
  "discovery_for base exists q =
     base\<lparr>di_maxPages := Some (wq_maxPages q), di_requestDelayMs := Some (wq_requestDelayMs q),
       di_sourceSystem := Some (wq_sourceSystem q), di_sourceUrl := wq_sourceUrl q, di_exists := Some exists\<rparr>"

text \<open>
  A watch cycle reads the first list page and details of that page, and nothing else: its requests are
  those of page 1, with one pause of the request spacing between any two reads.
\<close>

theorem watch_reads_first_page:
  "case discoverReplaysDryRun (traced (discovery_for base exists (buildDiscoverInput input))) ([], s) of
     Some (Inr rep, (tr, s')) \<Rightarrow>
       tr = spaced (wa_requestSpacingMs input) False (requests tr) \<and>
       ((\<exists>p. page_read (discovery_for base exists (buildDiscoverInput input)) 1 (requests tr, p)) \<or>
        (\<exists>e. page_cut (discovery_for base exists (buildDiscoverInput input)) 1 (requests tr) e))
   | _ \<Rightarrow> True"
  unfolding case_reported
proof (intro allI impI, goal_cases)
  case (1 rep tr s')
  let ?d = "discovery_for base exists (buildDiscoverInput input)"
  have fields: "page_limit ?d = 1" "request_delay ?d = wa_requestSpacingMs input"
    by (simp_all add: discovery_for_def buildDiscoverInput_def WATCH_PAGE_def request_delay_def page_limit_def)
  from discovery_report [OF 1, unfolded fields] obtain visited where spaced: "tr = spaced (wa_requestSpacingMs input) False (requests tr)"
    and read: "pages_read ?d [1..<Suc (length visited)] visited"
    and ends: "if dr_ok rep
       then length visited = 1 \<and> requests tr = concat (map fst visited) \<and>
         dr_diagnostics rep = concat (map (pf_diagnostics \<circ> snd) visited)
       else length visited < 1 \<and>
         (\<exists>e new. is_class SourceFetchError e \<and> page_cut ?d (Suc (length visited)) new e \<and>
            requests tr = concat (map fst visited) @ new \<and>
            dr_diagnostics rep = concat (map (pf_diagnostics \<circ> snd) visited) @
              [buildSourceFailureDiagnostic e (href (di_sourceUrl ?d)) (Suc (length visited))])"
    by (elim exE conjE) (rule that)
  have "(\<exists>p. page_read ?d 1 (requests tr, p)) \<or> (\<exists>e. page_cut ?d 1 (requests tr) e)"
  proof (cases visited)
    case Nil
    with ends show ?thesis by (auto split: if_splits)
  next
    case (Cons v vs)
    with ends have "visited = [v]" "requests tr = fst v" by (auto split: if_splits)
    with read show ?thesis by (auto intro!: exI [of _ "snd v"])
  qed
  with spaced show ?case by blast
qed

subsection \<open>Known replays\<close>

text \<open>Every candidate has a trustworthy id, and is known by it as long as \<open>I\<close> holds of the surroundings.\<close>

definition all_known ::
    "(string \<Rightarrow> string \<Rightarrow> 's \<Rightarrow> (thrown + bool) \<times> 's) \<Rightarrow> ('s \<Rightarrow> bool) \<Rightarrow> replay_candidate list \<Rightarrow> bool" where
  "all_known exists I cs \<longleftrightarrow> (\<forall>c\<in>set cs. isTrustworthyId (rs_externalId (rc_source c)) \<and>
     (\<forall>s. I s \<longrightarrow> (\<exists>s'. exists defaultSourceSystem (the (rs_externalId (rc_source c))) s = (Inr True, s') \<and> I s')))"

definition staged_candidate :: replay_candidate where
  "staged_candidate = \<lparr>rc_filename = ''a'', rc_metadata = None,
     rc_source = \<lparr>rs_externalId = Some ''17'', rs_page = None, rs_rawUrl = None, rs_url = ''https://h/replays/17''\<rparr>\<rparr>"

definition skipping :: "task list \<Rightarrow> bool" where
  "skipping ts \<longleftrightarrow> set ts \<subseteq> {Waiting, Checking, Done (Inr Ingest.Skipped)}"

definition skips :: "('s \<Rightarrow> bool) \<Rightarrow> nat \<Rightarrow> 's page_machine \<Rightarrow> bool" where
  "skips I k m \<longleftrightarrow> skipping (pm_tasks m) \<and> length (pm_tasks m) = k \<and> I (pm_world m)"

lemma turn_skips:
  assumes "all_known (wa_exists input) I cs" "skips I (length cs) m"
  shows "skips I (length cs) (page_turn (watch_calls input runId) n cs m i) \<and>
    page_turn ((watch_calls input runId)\<lparr>ic_store := sto, ic_stage := stg\<rparr>) n cs m i = page_turn (watch_calls input runId) n cs m i"
proof (cases "i < length cs")
  case True
  have t: "pm_tasks m ! i \<in> {Waiting, Checking, Done (Inr Ingest.Skipped)}"
    using assms(2) True unfolding skips_def skipping_def by (metis nth_mem subsetD)
  have known: "isTrustworthyId (rs_externalId (rc_source (cs ! i)))"
    and check: "\<And>s. I s \<Longrightarrow> \<exists>s'. wa_exists input defaultSourceSystem (the (rs_externalId (rc_source (cs ! i)))) s = (Inr True, s') \<and> I s'"
    using assms(1) True by (auto simp: all_known_def)
  obtain s' where s': "wa_exists input defaultSourceSystem (the (rs_externalId (rc_source (cs ! i)))) (pm_world m) = (Inr True, s')" "I s'"
    using check assms(2) by (auto simp: skips_def)
  let ?step = "task_step (watch_calls input runId) (cs ! i) (pm_tasks m ! i) (pm_world m)"
  have stays: "fst ?step \<in> {Waiting, Checking, Done (Inr Ingest.Skipped)} \<and> I (snd ?step) \<and>
    task_step ((watch_calls input runId)\<lparr>ic_store := sto, ic_stage := stg\<rparr>) (cs ! i) (pm_tasks m ! i) (pm_world m) = ?step"
  proof -
    from t consider "pm_tasks m ! i = Waiting" | "pm_tasks m ! i = Checking" | "pm_tasks m ! i = Done (Inr Ingest.Skipped)"
      by blast
    then show ?thesis
      by cases (use s' known assms(2) in \<open>simp_all add: task_step_def prefetch_check_def watch_calls_def skips_def\<close>)
  qed
  obtain t' w' where step: "?step = (t', w')" by (metis prod.exhaust)
  with stays have after: "t' \<in> {Waiting, Checking, Done (Inr Ingest.Skipped)}" "I w'"
    and same: "task_step ((watch_calls input runId)\<lparr>ic_store := sto, ic_stage := stg\<rparr>) (cs ! i) (pm_tasks m ! i) (pm_world m) = (t', w')"
    by simp_all
  have upd: "skipping ((pm_tasks m)[i := t''])" if "t'' \<in> {Waiting, Checking, Done (Inr Ingest.Skipped)}" for t''
    using assms(2) that set_update_subset_insert [of "pm_tasks m" i t''] unfolding skipping_def skips_def by blast
  show ?thesis
    using after upd [OF after(1)] upd [of Checking] assms(2)
    by (simp add: page_turn_def skips_def step same)
qed (use assms in \<open>simp add: page_turn_def skips_def\<close>)

lemma run_skips:
  assumes "all_known (wa_exists input) I cs" "I s"
  shows "skips I (length cs) (page_run (watch_calls input runId) n cs s sched) \<and>
    page_run ((watch_calls input runId)\<lparr>ic_store := sto, ic_stage := stg\<rparr>) n cs s sched
      = page_run (watch_calls input runId) n cs s sched"
proof (induction sched rule: rev_induct)
  case Nil
  show ?case using assms(2) by (auto simp: page_run_def page_start_def skipping_def skips_def)
next
  case (snoc i sched)
  have snoc_run: "page_run calls n cs s (sched @ [i]) = page_turn calls n cs (page_run calls n cs s sched) i" for calls :: "'a ingest_calls"
    by (simp add: page_run_def)
  show ?case
    unfolding snoc_run
    using snoc turn_skips [OF assms(1), of "page_run (watch_calls input runId) n cs s sched" runId n i stg sto] by simp
qed

lemma all_skipped_page:
  "settle_page (replicate k (Inr Ingest.Skipped)) =
     Inr \<lparr>pr_counts = (newPageCounts k)\<lparr>pt_skippedBySourceId := k\<rparr>, pr_rawStorage = [], pr_staging = []\<rparr>"
proof -
  have "settle_page (map Inr (replicate k Ingest.Skipped)) =
      Inr \<lparr>pr_counts = (newPageCounts k)\<lparr>pt_skippedBySourceId := k\<rparr>, pr_rawStorage = [], pr_staging = []\<rparr>"
    unfolding settle_page_Inr by (simp add: tally_of_def raws_of_def stagings_of_def count_where_def newPageCounts_def)
  then show ?thesis by simp
qed

lemma page_of_known_replays:
  assumes "all_known (wa_exists input) I cs" "I s"
  shows "\<exists>q. (\<forall>sto stg. ingestPage ((watch_calls input runId)\<lparr>ic_store := sto, ic_stage := stg\<rparr>) n cs s sched = q) \<and>
    (case q of None \<Rightarrow> True
     | Some (r, s') \<Rightarrow> r = Inr \<lparr>pr_counts = (newPageCounts (length cs))\<lparr>pt_skippedBySourceId := length cs\<rparr>,
         pr_rawStorage = [], pr_staging = []\<rparr> \<and> I s')"
proof -
  let ?m = "page_run (watch_calls input runId) n cs s sched"
  note run = run_skips [OF assms, of runId n sched]
  have same: "ingestPage ((watch_calls input runId)\<lparr>ic_store := sto, ic_stage := stg\<rparr>) n cs s sched
      = ingestPage (watch_calls input runId) n cs s sched" for sto stg
    using run [of stg sto] by (simp add: ingestPage_def)
  have "case ingestPage (watch_calls input runId) n cs s sched of None \<Rightarrow> True
     | Some (r, s') \<Rightarrow> r = Inr \<lparr>pr_counts = (newPageCounts (length cs))\<lparr>pt_skippedBySourceId := length cs\<rparr>,
         pr_rawStorage = [], pr_staging = []\<rparr> \<and> I s'"
  proof (cases "list_all (\<lambda>x. x \<noteq> None) (map task_outcome (pm_tasks ?m))")
    case True
    have "t = Done (Inr Ingest.Skipped)" if "t \<in> set (pm_tasks ?m)" for t
      using conjunct1 [OF run] True that
      by (fastforce simp: skips_def skipping_def list_all_iff task_outcome_def split: task.splits)
    then have "pm_tasks ?m = replicate (length cs) (Done (Inr Ingest.Skipped))"
      by (intro replicate_eqI) simp_all
    then show ?thesis using conjunct1 [OF run]
      by (simp add: ingestPage_def task_outcome_def all_skipped_page list_all_iff skips_def)
  qed (simp add: ingestPage_def)
  with same show ?thesis by blast
qed

text \<open>The watch with the repository's lookup over the staging table, the second part of its surroundings.\<close>

definition with_repository :: "(nat \<Rightarrow> db_turn) \<Rightarrow> ('b \<times> staging_db) watch_input \<Rightarrow> ('b \<times> staging_db) watch_input" where
  "with_repository env input = input\<lparr>wa_exists := (\<lambda>system i. in_table (existsBySourceIdentity env system i))\<rparr>"

definition has_row :: "staging_row list \<Rightarrow> replay_candidate \<Rightarrow> bool" where
  "has_row rows c \<longleftrightarrow> isTrustworthyId (rs_externalId (rc_source c)) \<and>
     list_ex (same_source defaultSourceSystem (the (rs_externalId (rc_source c)))) rows"

lemma lookup_answers:
  assumes "list_ex (same_source system i) (db_rows db)" "\<And>k. dt_fault (env k) = NoFault"
  shows "\<exists>db'. existsBySourceIdentity env system i db = (Inr True, db') \<and> rows_extend (db_rows db) (db_rows db')"
proof -
  obtain t db' where turn: "begin_turn env db = (t, db')" by (metis prod.exhaust)
  then have t: "dt_fault t = NoFault" using assms(2) by (auto simp: begin_turn_def Let_def)
  have ext: "rows_extend (db_rows db) (db_rows db')" using begin_turn_extends [OF turn] .
  with assms(1) have "list_ex (same_source system i) (db_rows db')" by (auto simp: rows_extend_def)
  then have "List.find (same_source system i) (db_rows db') \<noteq> None" by (auto simp: find_None_iff list_ex_iff)
  with turn t ext show ?thesis
    by (simp add: existsBySourceIdentity_def run_select_def del: not_None_eq)
qed

lemma rows_keep_known: "rows_extend rows rows' \<Longrightarrow> list_all (has_row rows) cs \<Longrightarrow> list_all (has_row rows') cs"
  by (auto simp: rows_extend_def has_row_def list_all_iff)

lemma repository_knows:
  assumes "\<And>k. dt_fault (env k) = NoFault" "list_all (has_row rows) cs"
  shows "all_known (wa_exists (with_repository env input)) (\<lambda>s. fst s = b \<and> list_all (has_row (db_rows (snd s))) cs) cs"
  unfolding all_known_def
proof (intro ballI conjI allI impI)
  fix c and s :: "'a \<times> staging_db"
  assume c: "c \<in> set cs" and s: "fst s = b \<and> list_all (has_row (db_rows (snd s))) cs"
  then have "list_ex (same_source defaultSourceSystem (the (rs_externalId (rc_source c)))) (db_rows (snd s))"
    by (auto simp: list_all_iff has_row_def)
  from lookup_answers [of defaultSourceSystem _ "snd s" env, OF this assms(1)] obtain db' where
    "existsBySourceIdentity env defaultSourceSystem (the (rs_externalId (rc_source c))) (snd s) = (Inr True, db')"
    "rows_extend (db_rows (snd s)) (db_rows db')" by blast
  with s rows_keep_known show "\<exists>s'. wa_exists (with_repository env input) defaultSourceSystem
      (the (rs_externalId (rc_source c))) s = (Inr True, s') \<and> fst s' = b \<and> list_all (has_row (db_rows (snd s'))) cs"
    by (auto simp: with_repository_def in_table_def)
qed (use assms(2) in \<open>auto simp: has_row_def list_all_iff\<close>)

text \<open>
  C26: replays that are already staged cost the watcher no fetch. When every candidate of the page
  carries a trustworthy id under which the staging table has a row, and the database answers, then
  whatever other sessions insert meanwhile, in every interleaving, the page comes to the same end
  whatever storing and staging would do, so neither is called: every candidate is counted as skipped by
  its id, nothing is stored, staged or failed, and everything but the database is as before. Served in
  turn, the page does come to its end.
\<close>

theorem known_replays_cost_nothing:
  assumes "list_all (has_row (db_rows db)) cs" and "\<And>k. dt_fault (env k) = NoFault" and "0 < n"
  shows "\<exists>q. (\<forall>sto stg. ingestPage ((watch_calls (with_repository env input) runId)\<lparr>ic_store := sto, ic_stage := stg\<rparr>)
        n cs (b, db) sched = q) \<and>
    (case q of
       None \<Rightarrow> sched \<noteq> concat (replicate (4 * length cs) [0..<length cs])
     | Some (r, (b', db')) \<Rightarrow> r = Inr \<lparr>pr_counts = (newPageCounts (length cs))\<lparr>pt_skippedBySourceId := length cs\<rparr>,
         pr_rawStorage = [], pr_staging = []\<rparr> \<and> b' = b)"
proof -
  let ?calls = "watch_calls (with_repository env input) runId"
  from page_of_known_replays [OF repository_knows [where b = b and env = env and input = input, OF assms(2,1)],
      of "(b, db)" runId n sched] assms(1)
  obtain q where same: "\<And>sto stg. ingestPage (?calls\<lparr>ic_store := sto, ic_stage := stg\<rparr>) n cs (b, db) sched = q"
    and q: "case q of None \<Rightarrow> True
     | Some (r, s') \<Rightarrow> r = Inr \<lparr>pr_counts = (newPageCounts (length cs))\<lparr>pt_skippedBySourceId := length cs\<rparr>,
         pr_rawStorage = [], pr_staging = []\<rparr> \<and> fst s' = b \<and> list_all (has_row (db_rows (snd s'))) cs"
    by auto
  have "q \<noteq> None" if "sched = concat (replicate (4 * length cs) [0..<length cs])"
    using fair_page_ends [OF assms(3), of "?calls\<lparr>ic_store := sto, ic_stage := stg\<rparr>" cs "(b, db)"] same that by simp
  with same q show ?thesis by (auto intro!: exI [of _ q] split: option.splits)
qed

text \<open>One candidate, a table of two rows, and other sessions at work.\<close>

definition staged_row :: "string \<Rightarrow> staging_row" where
  "staged_row i = \<lparr>sg_checksum = i, sg_id = i, sg_objectKey = i, sg_sourceReplayId = i,
     sg_sourceSystem = defaultSourceSystem, sg_status = ''pending''\<rparr>"

definition busy_sessions :: "nat \<Rightarrow> db_turn" where
  "busy_sessions k = \<lparr>dt_others = [staged_row (show_nat k)], dt_id = [], dt_fault = NoFault\<rparr>"

definition table_watch :: "(nat \<times> staging_db) watch_input" where
  "table_watch =
     \<lparr>wa_attempts = None, wa_concurrency = 1, wa_heartbeatPath = ''/tmp/beat'', wa_intervalMs = 5,
      wa_requestSpacingMs = 0, wa_sourceUrl = \<lparr>url_protocol = ''https:'', url_username = [], url_password = [],
        url_host = ''h'', url_pathname = ''/'', url_search = [], url_hash = []\<rparr>,
      wa_now = Pair 0, wa_wall = Pair 0, wa_createRunId = (\<lambda>_. Pair ''run''), wa_shouldStop = Pair False,
      wa_sleep = (\<lambda>_ s. s), wa_pause = (\<lambda>_ s. s), wa_log = (\<lambda>_ s. s),
      wa_discover = (\<lambda>_. Pair (Inl Undefined)), wa_exists = (\<lambda>_ _. Pair (Inr False)),
      wa_store = (\<lambda>_. Pair (Inl Undefined)), wa_stage = (\<lambda>_ _. Pair (Inl Undefined)),
      wa_schedule = (\<lambda>n. concat (replicate (4 * n) [0..<n])), wa_writeHeartbeat = (\<lambda>_ _. Pair (Inr ()))\<rparr>"

lemma known_replays_cost_nothing_witness:
  "\<exists>q. (\<forall>sto stg. ingestPage ((watch_calls (with_repository busy_sessions table_watch) ''run'')\<lparr>ic_store := sto, ic_stage := stg\<rparr>)
        1 [staged_candidate] (7, \<lparr>db_rows = [staged_row ''16'', staged_row ''17''], db_turns = 0\<rparr>)
        (concat (replicate (4 * length [staged_candidate]) [0..<length [staged_candidate]])) = q) \<and>
    (case q of
       None \<Rightarrow> concat (replicate (4 * length [staged_candidate]) [0..<length [staged_candidate]])
         \<noteq> concat (replicate (4 * length [staged_candidate]) [0..<length [staged_candidate]])
     | Some (r, (b', db')) \<Rightarrow> r = Inr \<lparr>pr_counts = (newPageCounts (length [staged_candidate]))\<lparr>pt_skippedBySourceId := length [staged_candidate]\<rparr>,
         pr_rawStorage = [], pr_staging = []\<rparr> \<and> b' = 7)"
  by (rule known_replays_cost_nothing)
    (simp_all add: has_row_def staged_candidate_def staged_row_def same_source_def isTrustworthyId_def js_trim_def
      js_space_def busy_sessions_def)

end
