(* ===== verification/Config.thy ===== *)
theory Config
  imports JSON_Text "HOL-Library.Monad_Syntax"
begin

text \<open>
  The configuration: \<open>src/config.ts\<close>, with \<open>src/errors/config-validation-error.ts\<close> and
  \<open>src/types/source-transport.ts\<close>.

  The schema library is not part of the repository. A schema is written here as the conditions it
  is documented to put on a field; what its check of a URL accepts, and the value it yields, is the
  parameter \<open>url_check\<close>, and the issues it lists when a field is rejected are the parameter
  \<open>issues\<close>. An exception thrown by a transformation is not caught by the library.

  Numbers are rationals: a decimal text that rounds to another number as a double is outside the
  model. Every numeric setting has to be a safe integer, so what is accepted is exact.
\<close>

subsection \<open>Environment\<close>

datatype env_value = EnvText string | EnvFlag bool

type_synonym config_source = "string \<Rightarrow> env_value option"

datatype source_transport = DirectTransport | SshTransport

definition SOURCE_TRANSPORTS :: "(string \<times> source_transport) list" where
  "SOURCE_TRANSPORTS = [(''direct'', DirectTransport), (''ssh'', SshTransport)]"

record source_config =
  sc_maxPages :: "int option"
  sc_concurrency :: int
  sc_requestSpacingMs :: int
  sc_url :: string
  sc_transport :: source_transport
  sc_sshHost :: "string option"
  sc_sshCommand :: string
  sc_timeoutMs :: int
  sc_retryAttempts :: int
  sc_watchIntervalMs :: int
  sc_watchHeartbeatPath :: string

record s3_config =
  s3_endpoint :: string
  s3_region :: string
  s3_bucket :: string
  s3_accessKeyId :: string
  s3_secretAccessKey :: string
  s3_forcePathStyle :: bool
  s3_checkpointPrefix :: string
  s3_evidencePrefix :: string
  s3_conditionalWrites :: bool

record app_config =
  ac_source :: source_config
  ac_s3 :: s3_config
  ac_databaseUrl :: string

text \<open>What loading a configuration throws.\<close>

datatype config_error = ConfigValidationError "string list" | BooleanExpected

fun join_with :: "string \<Rightarrow> string list \<Rightarrow> string" where
  "join_with sep [] = []"
| "join_with sep [x] = x"
| "join_with sep (x # y # xs) = x @ sep @ join_with sep (y # xs)"

definition config_error_message :: "config_error \<Rightarrow> string" where
  "config_error_message e = (case e of
     ConfigValidationError issues \<Rightarrow> ''Invalid configuration: '' @ join_with ''; '' issues
   | BooleanExpected \<Rightarrow> ''Expected boolean-like value'')"

subsection \<open>Constants\<close>

definition defaultSourceTimeoutMs :: int where "defaultSourceTimeoutMs = 30000"
definition defaultSourceRetryAttempts :: int where "defaultSourceRetryAttempts = 3"
definition MIN_CONCURRENCY :: int where "MIN_CONCURRENCY = 1"
definition MAX_CONCURRENCY :: int where "MAX_CONCURRENCY = 32"
definition defaultSourceConcurrency :: int where "defaultSourceConcurrency = 8"
definition MIN_SPACING_MS :: int where "MIN_SPACING_MS = 0"
definition MAX_SPACING_MS :: int where "MAX_SPACING_MS = 5000"
definition defaultSourceRequestSpacingMs :: int where "defaultSourceRequestSpacingMs = 250"
definition MIN_WATCH_INTERVAL_MS :: int where "MIN_WATCH_INTERVAL_MS = 0"
definition MAX_WATCH_INTERVAL_MS :: int where "MAX_WATCH_INTERVAL_MS = 600000"
definition DEFAULT_WATCH_INTERVAL_MS :: int where "DEFAULT_WATCH_INTERVAL_MS = 0"
definition MAX_HEARTBEAT_PATH_LEN :: nat where "MAX_HEARTBEAT_PATH_LEN = 4096"
definition DEFAULT_WATCH_HEARTBEAT_PATH :: string where
  "DEFAULT_WATCH_HEARTBEAT_PATH = ''/tmp/replays-fetcher-watch.heartbeat''"
definition MAX_URL_LEN :: nat where "MAX_URL_LEN = 2048"
definition MAX_HOSTNAME_LEN :: nat where "MAX_HOSTNAME_LEN = 253"
definition MAX_SSH_COMMAND_LEN :: nat where "MAX_SSH_COMMAND_LEN = 2048"
definition MAX_S3_REGION_LEN :: nat where "MAX_S3_REGION_LEN = 64"
definition MAX_S3_BUCKET_LEN :: nat where "MAX_S3_BUCKET_LEN = 63"
definition MAX_S3_KEY_ID_LEN :: nat where "MAX_S3_KEY_ID_LEN = 128"
definition MAX_S3_SECRET_LEN :: nat where "MAX_S3_SECRET_LEN = 256"
definition MAX_S3_PREFIX_LEN :: nat where "MAX_S3_PREFIX_LEN = 256"

text \<open>\<open>Number.MAX_SAFE_INTEGER\<close>.\<close>

definition max_safe_integer :: int where "max_safe_integer = 9007199254740991"

subsection \<open>Coercion to a number\<close>

definition radix_number :: "nat \<Rightarrow> string \<Rightarrow> rat option" where
  "radix_number base ds =
     (if ds = [] then None
      else map_option of_nat (foldl (\<lambda>acc c. case (acc, hex_val (lower_char c)) of
          (Some n, Some d) \<Rightarrow> if d < base then Some (base * n + d) else None
        | _ \<Rightarrow> None) (Some 0) ds))"

definition decimal_number :: "string \<Rightarrow> rat option" where
  "decimal_number t =
     (case digits_of t of (ds, rest) \<Rightarrow>
       (let (fs, rest) = (case rest of
              c # rest' \<Rightarrow> if c = CHR ''.'' then digits_of rest' else ([], rest)
            | [] \<Rightarrow> ([], rest))
        in if ds = [] \<and> fs = [] then None
           else case scan_exponent rest of
                  Some (e, []) \<Rightarrow>
                    Some ((of_nat (nat_of_digits ds) + of_nat (nat_of_digits fs) / 10 ^ length fs) * e)
                | _ \<Rightarrow> None))"

text \<open>\<open>Number(s)\<close>; \<open>None\<close> is \<open>NaN\<close> or an infinity. Blank text is zero.\<close>

definition js_number :: "string \<Rightarrow> rat option" where
  "js_number s =
     (let t = js_trim s; prefix = to_lower (take 2 t) in
      if t = [] then Some 0
      else if prefix = ''0x'' then radix_number 16 (drop 2 t)
      else if prefix = ''0o'' then radix_number 8 (drop 2 t)
      else if prefix = ''0b'' then radix_number 2 (drop 2 t)
      else if hd t = CHR ''-'' then map_option uminus (decimal_number (tl t))
      else if hd t = CHR ''+'' then decimal_number (tl t)
      else decimal_number t)"

definition coerced :: "env_value \<Rightarrow> rat option" where
  "coerced v = (case v of EnvText s \<Rightarrow> js_number s | EnvFlag b \<Rightarrow> Some (if b then 1 else 0))"

subsection \<open>Fields\<close>

text \<open>\<open>z.coerce.number().int()\<close> with bounds.\<close>

definition int_field :: "int \<Rightarrow> int \<Rightarrow> env_value \<Rightarrow> int option" where
  "int_field lo hi v =
     (case coerced v of
        None \<Rightarrow> None
      | Some r \<Rightarrow>
          if r = of_int \<lfloor>r\<rfloor> \<and> \<bar>\<lfloor>r\<rfloor>\<bar> \<le> max_safe_integer \<and> lo \<le> \<lfloor>r\<rfloor> \<and> \<lfloor>r\<rfloor> \<le> hi then Some \<lfloor>r\<rfloor> else None)"

definition text_field :: "nat \<Rightarrow> env_value \<Rightarrow> string option" where
  "text_field hi v =
     (case v of EnvText s \<Rightarrow> if s \<noteq> [] \<and> length s \<le> hi then Some s else None | EnvFlag _ \<Rightarrow> None)"

definition url_field :: "(string \<Rightarrow> string option) \<Rightarrow> env_value \<Rightarrow> string option" where
  "url_field url_check v =
     (case v of
        EnvText s \<Rightarrow> (case url_check s of Some u \<Rightarrow> if length u \<le> MAX_URL_LEN then Some u else None | None \<Rightarrow> None)
      | EnvFlag _ \<Rightarrow> None)"

definition transport_field :: "env_value \<Rightarrow> source_transport option" where
  "transport_field v = (case v of EnvText s \<Rightarrow> map_of SOURCE_TRANSPORTS s | EnvFlag _ \<Rightarrow> None)"

definition required :: "(env_value \<Rightarrow> 'a option) \<Rightarrow> env_value option \<Rightarrow> 'a option" where
  "required field v = Option.bind v field"

definition with_default :: "'a \<Rightarrow> (env_value \<Rightarrow> 'a option) \<Rightarrow> env_value option \<Rightarrow> 'a option" where
  "with_default d field v = (case v of None \<Rightarrow> Some d | Some v \<Rightarrow> field v)"

definition may_be_absent :: "(env_value \<Rightarrow> 'a option) \<Rightarrow> env_value option \<Rightarrow> 'a option option" where
  "may_be_absent field v = (case v of None \<Rightarrow> Some None | Some v \<Rightarrow> map_option Some (field v))"

text \<open>\<open>None\<close> is the exception that the transformation throws.\<close>

definition booleanFromEnvironment :: "env_value option \<Rightarrow> bool option" where
  "booleanFromEnvironment v =
     (case v of
        None \<Rightarrow> Some True
      | Some (EnvFlag b) \<Rightarrow> Some b
      | Some (EnvText s) \<Rightarrow>
          (let normalized = to_lower (js_trim s) in
           if normalized \<in> {''1'', ''true'', ''yes'', ''y''} then Some True
           else if normalized \<in> {''0'', ''false'', ''no'', ''n''} then Some False
           else None))"

subsection \<open>Reading the environment\<close>

definition stringOrUndefined :: "env_value option \<Rightarrow> env_value option" where
  "stringOrUndefined v = (case v of Some (EnvText s) \<Rightarrow> Some (EnvText s) | _ \<Rightarrow> None)"

definition sourceTransportOrUndefined :: "env_value option \<Rightarrow> env_value option" where
  "sourceTransportOrUndefined v =
     (case v of Some (EnvText s) \<Rightarrow> if js_trim s = [] then None else Some (EnvText s) | _ \<Rightarrow> None)"

record source_input =
  in_concurrency :: "env_value option"
  in_maxPages :: "env_value option"
  in_requestSpacingMs :: "env_value option"
  in_retryAttempts :: "env_value option"
  in_sshCommand :: "env_value option"
  in_sshHost :: "env_value option"
  in_timeoutMs :: "env_value option"
  in_transport :: "env_value option"
  in_url :: "env_value option"
  in_watchHeartbeatPath :: "env_value option"
  in_watchIntervalMs :: "env_value option"

definition readSourceConfigInput :: "config_source \<Rightarrow> source_input" where
  "readSourceConfigInput source =
     \<lparr>in_concurrency = source ''REPLAY_SOURCE_CONCURRENCY'',
      in_maxPages = source ''REPLAY_SOURCE_MAX_PAGES'',
      in_requestSpacingMs = source ''REPLAY_SOURCE_REQUEST_SPACING_MS'',
      in_retryAttempts = source ''REPLAY_SOURCE_RETRY_ATTEMPTS'',
      in_sshCommand = stringOrUndefined (source ''REPLAY_SOURCE_SSH_COMMAND''),
      in_sshHost = stringOrUndefined (source ''REPLAY_SOURCE_SSH_HOST''),
      in_timeoutMs = source ''REPLAY_SOURCE_TIMEOUT_MS'',
      in_transport = sourceTransportOrUndefined (source ''REPLAY_SOURCE_TRANSPORT''),
      in_url = source ''REPLAY_SOURCE_URL'',
      in_watchHeartbeatPath = stringOrUndefined (source ''REPLAY_WATCH_HEARTBEAT_PATH''),
      in_watchIntervalMs = source ''REPLAY_WATCH_INTERVAL_MS''\<rparr>"

subsection \<open>Schemas\<close>

text \<open>The fields of the source schema; \<open>None\<close> when one of them is rejected.\<close>

definition source_fields :: "(string \<Rightarrow> string option) \<Rightarrow> source_input \<Rightarrow> source_config option" where
  "source_fields url_check i = do {
     maxPages \<leftarrow> may_be_absent (int_field 1 max_safe_integer) (in_maxPages i);
     concurrency \<leftarrow> with_default defaultSourceConcurrency (int_field MIN_CONCURRENCY MAX_CONCURRENCY) (in_concurrency i);
     spacing \<leftarrow> with_default defaultSourceRequestSpacingMs (int_field MIN_SPACING_MS MAX_SPACING_MS)
       (in_requestSpacingMs i);
     u \<leftarrow> required (url_field url_check) (in_url i);
     transport \<leftarrow> with_default DirectTransport transport_field (in_transport i);
     sshHost \<leftarrow> may_be_absent (text_field MAX_HOSTNAME_LEN) (in_sshHost i);
     sshCommand \<leftarrow> with_default ''curl -fsSL --max-time 30'' (text_field MAX_SSH_COMMAND_LEN) (in_sshCommand i);
     timeout \<leftarrow> with_default defaultSourceTimeoutMs (int_field 1 max_safe_integer) (in_timeoutMs i);
     attempts \<leftarrow> with_default defaultSourceRetryAttempts (int_field 0 max_safe_integer) (in_retryAttempts i);
     interval \<leftarrow> with_default DEFAULT_WATCH_INTERVAL_MS (int_field MIN_WATCH_INTERVAL_MS MAX_WATCH_INTERVAL_MS)
       (in_watchIntervalMs i);
     heartbeat \<leftarrow> with_default DEFAULT_WATCH_HEARTBEAT_PATH (text_field MAX_HEARTBEAT_PATH_LEN) (in_watchHeartbeatPath i);
     Some \<lparr>sc_maxPages = maxPages, sc_concurrency = concurrency, sc_requestSpacingMs = spacing, sc_url = u,
       sc_transport = transport, sc_sshHost = sshHost, sc_sshCommand = sshCommand, sc_timeoutMs = timeout,
       sc_retryAttempts = attempts, sc_watchIntervalMs = interval, sc_watchHeartbeatPath = heartbeat\<rparr>
   }"

definition ssh_host_missing :: "source_config \<Rightarrow> bool" where
  "ssh_host_missing c \<longleftrightarrow> sc_transport c = SshTransport \<and> sc_sshHost c = None"

definition ssh_host_issue :: string where
  "ssh_host_issue = ''sourceSshHost: REPLAY_SOURCE_SSH_HOST is required when REPLAY_SOURCE_TRANSPORT=ssh''"

definition s3_fields :: "(string \<Rightarrow> string option) \<Rightarrow> config_source \<Rightarrow> bool \<Rightarrow> bool \<Rightarrow> s3_config option" where
  "s3_fields url_check source forcePathStyle conditionalWrites = do {
     endpoint \<leftarrow> required (url_field url_check) (source ''S3_ENDPOINT'');
     region \<leftarrow> required (text_field MAX_S3_REGION_LEN) (source ''S3_REGION'');
     bucket \<leftarrow> required (text_field MAX_S3_BUCKET_LEN) (source ''S3_BUCKET'');
     accessKeyId \<leftarrow> required (text_field MAX_S3_KEY_ID_LEN) (source ''S3_ACCESS_KEY_ID'');
     secretAccessKey \<leftarrow> required (text_field MAX_S3_SECRET_LEN) (source ''S3_SECRET_ACCESS_KEY'');
     checkpointPrefix \<leftarrow> with_default ''checkpoints'' (text_field MAX_S3_PREFIX_LEN) (source ''S3_CHECKPOINT_PREFIX'');
     evidencePrefix \<leftarrow> with_default ''runs'' (text_field MAX_S3_PREFIX_LEN) (source ''S3_EVIDENCE_PREFIX'');
     Some \<lparr>s3_endpoint = endpoint, s3_region = region, s3_bucket = bucket, s3_accessKeyId = accessKeyId,
       s3_secretAccessKey = secretAccessKey, s3_forcePathStyle = forcePathStyle,
       s3_checkpointPrefix = checkpointPrefix, s3_evidencePrefix = evidencePrefix,
       s3_conditionalWrites = conditionalWrites\<rparr>
   }"

definition app_fields :: "(string \<Rightarrow> string option) \<Rightarrow> config_source \<Rightarrow> bool \<Rightarrow> bool \<Rightarrow> app_config option" where
  "app_fields url_check source forcePathStyle conditionalWrites = do {
     c \<leftarrow> source_fields url_check (readSourceConfigInput source);
     s3 \<leftarrow> s3_fields url_check source forcePathStyle conditionalWrites;
     databaseUrl \<leftarrow> required (url_field url_check) (source ''DATABASE_URL'');
     Some \<lparr>ac_source = c, ac_s3 = s3, ac_databaseUrl = databaseUrl\<rparr>
   }"

text \<open>A configuration whose fields are accepted still needs a host for the ssh transport.\<close>

definition refined :: "('a \<Rightarrow> source_config) \<Rightarrow> string list \<Rightarrow> 'a option \<Rightarrow> config_error + 'a" where
  "refined source_of issues accepted =
     (case accepted of
        None \<Rightarrow> Inl (ConfigValidationError issues)
      | Some c \<Rightarrow> if ssh_host_missing (source_of c) then Inl (ConfigValidationError [ssh_host_issue]) else Inr c)"

definition loadConfig ::
    "(string \<Rightarrow> string option) \<Rightarrow> (config_source \<Rightarrow> string list) \<Rightarrow> config_source \<Rightarrow> config_error + app_config" where
  "loadConfig url_check issues source =
     (case (booleanFromEnvironment (source ''S3_FORCE_PATH_STYLE''),
            booleanFromEnvironment (source ''S3_CHECKPOINT_CONDITIONAL_WRITES'')) of
        (Some forcePathStyle, Some conditionalWrites) \<Rightarrow>
          refined ac_source (issues source) (app_fields url_check source forcePathStyle conditionalWrites)
      | _ \<Rightarrow> Inl BooleanExpected)"

definition loadSourceConfig ::
    "(string \<Rightarrow> string option) \<Rightarrow> (config_source \<Rightarrow> string list) \<Rightarrow> config_source \<Rightarrow> config_error + source_config" where
  "loadSourceConfig url_check issues source =
     refined id (issues source) (source_fields url_check (readSourceConfigInput source))"

subsection \<open>Redaction\<close>

definition redactSecret :: "string \<Rightarrow> string" where
  "redactSecret secret =
     (if length secret \<le> 4 then ''****'' else take 2 secret @ ''****'' @ drop (length secret - 2) secret)"

definition redactConfig :: "app_config \<Rightarrow> app_config" where
  "redactConfig c =
     c\<lparr>ac_s3 := (ac_s3 c)\<lparr>s3_accessKeyId := redactSecret (s3_accessKeyId (ac_s3 c)),
           s3_secretAccessKey := redactSecret (s3_secretAccessKey (ac_s3 c))\<rparr>,
       ac_source := (ac_source c)\<lparr>sc_sshCommand := ''[redacted-source-ssh-command]''\<rparr>,
       ac_databaseUrl := ''[redacted-database-url]''\<rparr>"

subsection \<open>What is accepted\<close>

text \<open>
  What a configuration has to be for an environment, variable by variable, with the bounds as numbers.
  A numeric setting is the default when its variable is absent, else the number that the variable
  denotes, within the bounds; a text is not empty and not too long; a setting read through
  \<open>stringOrUndefined\<close> is absent also when the variable is a flag.
\<close>

definition setting_fits :: "int \<Rightarrow> int \<Rightarrow> int \<Rightarrow> env_value option \<Rightarrow> int \<Rightarrow> bool" where
  "setting_fits lo hi d v n \<longleftrightarrow>
     (case v of None \<Rightarrow> n = d | Some v \<Rightarrow> coerced v = Some (of_int n) \<and> lo \<le> n \<and> n \<le> hi)"

definition cap_fits :: "env_value option \<Rightarrow> int option \<Rightarrow> bool" where
  "cap_fits v m \<longleftrightarrow> (case m of
       None \<Rightarrow> v = None
     | Some n \<Rightarrow> v \<noteq> None \<and> Option.bind v coerced = Some (of_int n) \<and> 1 \<le> n \<and> n \<le> 9007199254740991)"

definition text_fits :: "nat \<Rightarrow> string \<Rightarrow> bool" where
  "text_fits hi s \<longleftrightarrow> s \<noteq> [] \<and> length s \<le> hi"

definition text_given :: "nat \<Rightarrow> env_value option \<Rightarrow> string \<Rightarrow> bool" where
  "text_given hi v s \<longleftrightarrow> v = Some (EnvText s) \<and> text_fits hi s"

definition address_given :: "(string \<Rightarrow> string option) \<Rightarrow> env_value option \<Rightarrow> string \<Rightarrow> bool" where
  "address_given url_check v u \<longleftrightarrow> (case v of
       Some (EnvText s) \<Rightarrow> url_check s = Some u \<and> length u \<le> 2048
     | _ \<Rightarrow> False)"

definition text_or_default :: "nat \<Rightarrow> string \<Rightarrow> env_value option \<Rightarrow> string \<Rightarrow> bool" where
  "text_or_default hi d v s \<longleftrightarrow> (case v of None \<Rightarrow> s = d | Some w \<Rightarrow> text_given hi (Some w) s)"

definition string_or_default :: "nat \<Rightarrow> string \<Rightarrow> env_value option \<Rightarrow> string \<Rightarrow> bool" where
  "string_or_default hi d v s \<longleftrightarrow> (case v of Some (EnvText t) \<Rightarrow> s = t \<and> text_fits hi t | _ \<Rightarrow> s = d)"

definition host_fits :: "env_value option \<Rightarrow> string option \<Rightarrow> bool" where
  "host_fits v h \<longleftrightarrow> (case v of Some (EnvText t) \<Rightarrow> h = Some t \<and> text_fits 253 t | _ \<Rightarrow> h = None)"

definition transport_fits :: "env_value option \<Rightarrow> source_transport \<Rightarrow> bool" where
  "transport_fits v tr \<longleftrightarrow> (case v of
       Some (EnvText t) \<Rightarrow>
         if js_trim t = [] then tr = DirectTransport
         else (t, tr) \<in> {(''direct'', DirectTransport), (''ssh'', SshTransport)}
     | _ \<Rightarrow> tr = DirectTransport)"

definition source_fits :: "(string \<Rightarrow> string option) \<Rightarrow> config_source \<Rightarrow> source_config \<Rightarrow> bool" where
  "source_fits url_check source c \<longleftrightarrow>
     cap_fits (source ''REPLAY_SOURCE_MAX_PAGES'') (sc_maxPages c) \<and>
     setting_fits 1 32 8 (source ''REPLAY_SOURCE_CONCURRENCY'') (sc_concurrency c) \<and>
     setting_fits 0 5000 250 (source ''REPLAY_SOURCE_REQUEST_SPACING_MS'') (sc_requestSpacingMs c) \<and>
     address_given url_check (source ''REPLAY_SOURCE_URL'') (sc_url c) \<and>
     transport_fits (source ''REPLAY_SOURCE_TRANSPORT'') (sc_transport c) \<and>
     host_fits (source ''REPLAY_SOURCE_SSH_HOST'') (sc_sshHost c) \<and>
     string_or_default 2048 ''curl -fsSL --max-time 30'' (source ''REPLAY_SOURCE_SSH_COMMAND'') (sc_sshCommand c) \<and>
     setting_fits 1 9007199254740991 30000 (source ''REPLAY_SOURCE_TIMEOUT_MS'') (sc_timeoutMs c) \<and>
     setting_fits 0 9007199254740991 3 (source ''REPLAY_SOURCE_RETRY_ATTEMPTS'') (sc_retryAttempts c) \<and>
     setting_fits 0 600000 0 (source ''REPLAY_WATCH_INTERVAL_MS'') (sc_watchIntervalMs c) \<and>
     string_or_default 4096 ''/tmp/replays-fetcher-watch.heartbeat'' (source ''REPLAY_WATCH_HEARTBEAT_PATH'')
       (sc_watchHeartbeatPath c)"

definition s3_fits :: "(string \<Rightarrow> string option) \<Rightarrow> config_source \<Rightarrow> s3_config \<Rightarrow> bool" where
  "s3_fits url_check source c \<longleftrightarrow>
     address_given url_check (source ''S3_ENDPOINT'') (s3_endpoint c) \<and>
     text_given 64 (source ''S3_REGION'') (s3_region c) \<and>
     text_given 63 (source ''S3_BUCKET'') (s3_bucket c) \<and>
     text_given 128 (source ''S3_ACCESS_KEY_ID'') (s3_accessKeyId c) \<and>
     text_given 256 (source ''S3_SECRET_ACCESS_KEY'') (s3_secretAccessKey c) \<and>
     booleanFromEnvironment (source ''S3_FORCE_PATH_STYLE'') = Some (s3_forcePathStyle c) \<and>
     text_or_default 256 ''checkpoints'' (source ''S3_CHECKPOINT_PREFIX'') (s3_checkpointPrefix c) \<and>
     text_or_default 256 ''runs'' (source ''S3_EVIDENCE_PREFIX'') (s3_evidencePrefix c) \<and>
     booleanFromEnvironment (source ''S3_CHECKPOINT_CONDITIONAL_WRITES'') = Some (s3_conditionalWrites c)"

definition config_fits :: "(string \<Rightarrow> string option) \<Rightarrow> config_source \<Rightarrow> app_config \<Rightarrow> bool" where
  "config_fits url_check source c \<longleftrightarrow>
     source_fits url_check source (ac_source c) \<and> s3_fits url_check source (ac_s3 c) \<and>
     address_given url_check (source ''DATABASE_URL'') (ac_databaseUrl c)"

lemma int_field_iff:
  assumes "0 \<le> lo" "hi \<le> max_safe_integer"
  shows "int_field lo hi v = Some n \<longleftrightarrow> coerced v = Some (of_int n) \<and> lo \<le> n \<and> n \<le> hi"
  using assms by (auto simp: int_field_def split: option.splits)

lemma with_default_int:
  assumes "0 \<le> lo" "hi \<le> max_safe_integer"
  shows "with_default d (int_field lo hi) v = Some n \<longleftrightarrow> setting_fits lo hi d v n"
  using int_field_iff [OF assms] by (auto simp: with_default_def setting_fits_def split: option.split)

lemma absent_int:
  "may_be_absent (int_field 1 max_safe_integer) v = Some m \<longleftrightarrow> cap_fits v m"
proof -
  have "int_field 1 max_safe_integer w = Some n \<longleftrightarrow> coerced w = Some (of_int n) \<and> 1 \<le> n \<and> n \<le> 9007199254740991" for w n
    by (simp add: int_field_iff) (simp add: max_safe_integer_def)
  then show ?thesis by (cases m) (auto simp: may_be_absent_def cap_fits_def split: option.splits)
qed

lemma text_field_iff: "text_field hi v = Some s \<longleftrightarrow> text_given hi (Some v) s"
  by (auto simp: text_field_def text_given_def text_fits_def split: env_value.split)

lemma required_text: "required (text_field hi) v = Some s \<longleftrightarrow> text_given hi v s"
  by (cases v) (auto simp: required_def text_field_iff text_given_def)

lemma with_default_text: "with_default d (text_field hi) v = Some s \<longleftrightarrow> text_or_default hi d v s"
  by (auto simp: with_default_def text_or_default_def text_field_iff split: option.split)

lemma with_default_string: "with_default d (text_field hi) (stringOrUndefined v) = Some s \<longleftrightarrow> string_or_default hi d v s"
  by (auto simp: with_default_def stringOrUndefined_def string_or_default_def text_field_iff text_given_def
      split: option.split env_value.split)

lemma absent_host: "may_be_absent (text_field 253) (stringOrUndefined v) = Some h \<longleftrightarrow> host_fits v h"
  by (auto simp: may_be_absent_def stringOrUndefined_def host_fits_def text_field_iff text_given_def
      split: option.split env_value.split)

lemma required_url: "required (url_field url_check) v = Some u \<longleftrightarrow> address_given url_check v u"
  by (cases v) (auto simp: required_def url_field_def address_given_def MAX_URL_LEN_def split: env_value.splits option.splits)

lemma transport_iff:
  "with_default DirectTransport transport_field (sourceTransportOrUndefined v) = Some tr \<longleftrightarrow> transport_fits v tr"
  by (auto simp: with_default_def transport_field_def sourceTransportOrUndefined_def transport_fits_def SOURCE_TRANSPORTS_def
      split: option.splits env_value.splits if_splits)

lemmas config_bounds = MIN_CONCURRENCY_def MAX_CONCURRENCY_def defaultSourceConcurrency_def MIN_SPACING_MS_def
  MAX_SPACING_MS_def defaultSourceRequestSpacingMs_def MIN_WATCH_INTERVAL_MS_def MAX_WATCH_INTERVAL_MS_def
  DEFAULT_WATCH_INTERVAL_MS_def defaultSourceTimeoutMs_def defaultSourceRetryAttempts_def

lemmas text_bounds = MAX_HOSTNAME_LEN_def MAX_SSH_COMMAND_LEN_def MAX_HEARTBEAT_PATH_LEN_def
  DEFAULT_WATCH_HEARTBEAT_PATH_def MAX_S3_REGION_LEN_def MAX_S3_BUCKET_LEN_def MAX_S3_KEY_ID_LEN_def
  MAX_S3_SECRET_LEN_def MAX_S3_PREFIX_LEN_def

lemma source_fields_iff:
  "source_fields url_check (readSourceConfigInput source) = Some c \<longleftrightarrow> source_fits url_check source c"
proof -
  have ints: "with_default d (int_field lo 9007199254740991) v = Some n \<longleftrightarrow> setting_fits lo 9007199254740991 d v n"
    if "0 \<le> lo" for lo d v n
    using that by (simp add: with_default_int max_safe_integer_def)
  have small: "with_default d (int_field lo hi) v = Some n \<longleftrightarrow> setting_fits lo hi d v n" if "0 \<le> lo" "hi \<le> 600000" for lo hi d v n
    using that by (simp add: with_default_int max_safe_integer_def)
  show ?thesis
    unfolding source_fields_def readSourceConfigInput_def source_input.simps config_bounds text_bounds
      bind_eq_Some_conv absent_int required_url transport_iff absent_host with_default_string
    unfolding max_safe_integer_def
    by (cases c) (auto simp: source_fits_def ints small)
qed

lemma s3_fields_iff:
  assumes "booleanFromEnvironment (source ''S3_FORCE_PATH_STYLE'') = Some path"
    "booleanFromEnvironment (source ''S3_CHECKPOINT_CONDITIONAL_WRITES'') = Some cond"
  shows "s3_fields url_check source path cond = Some c \<longleftrightarrow> s3_fits url_check source c"
  unfolding s3_fields_def text_bounds bind_eq_Some_conv required_url required_text with_default_text
  by (cases c) (auto simp: s3_fits_def assms)

lemma app_fields_iff:
  assumes "booleanFromEnvironment (source ''S3_FORCE_PATH_STYLE'') = Some path"
    "booleanFromEnvironment (source ''S3_CHECKPOINT_CONDITIONAL_WRITES'') = Some cond"
  shows "app_fields url_check source path cond = Some c \<longleftrightarrow> config_fits url_check source c"
  unfolding app_fields_def bind_eq_Some_conv required_url source_fields_iff s3_fields_iff [OF assms]
  by (cases c) (auto simp: config_fits_def)

lemma refined_Inr: "refined source_of is accepted = Inr c \<longleftrightarrow> accepted = Some c \<and> \<not> ssh_host_missing (source_of c)"
  by (auto simp: refined_def split: option.splits)

text \<open>
  C20: a configuration loads exactly when every variable keeps its documented bound, and it then
  says what the environment says. The conditions, variable by variable with the bounds and defaults as
  numbers, are \<open>config_fits\<close>: the page cap, when it is given, is a positive integer; addresses passed the
  URL check and are not too long; the two flags are what their variables say. Beside them the ssh
  transport comes with a host. An environment is refused, when a flag is not boolean-like, with an error
  that is no validation error; else, when no configuration fits, with the issues of the schema; else with
  the missing ssh host as the only issue.
\<close>

theorem loadConfig_accepts:
  "(loadConfig url_check issues source = Inr c \<longleftrightarrow>
      config_fits url_check source c \<and>
      (sc_transport (ac_source c), sc_sshHost (ac_source c)) \<noteq> (SshTransport, None)) \<and>
   (loadConfig url_check issues source = Inl e \<longleftrightarrow>
      (if None \<in> {booleanFromEnvironment (source ''S3_FORCE_PATH_STYLE''),
                  booleanFromEnvironment (source ''S3_CHECKPOINT_CONDITIONAL_WRITES'')}
       then e = BooleanExpected
       else if \<nexists>c. config_fits url_check source c then e = ConfigValidationError (issues source)
       else (\<nexists>c. loadConfig url_check issues source = Inr c) \<and> e = ConfigValidationError [ssh_host_issue]))"
proof (cases "None \<in> {booleanFromEnvironment (source ''S3_FORCE_PATH_STYLE''),
                  booleanFromEnvironment (source ''S3_CHECKPOINT_CONDITIONAL_WRITES'')}")
  case True
  then have "loadConfig url_check issues source = Inl BooleanExpected"
    by (auto simp: loadConfig_def split: option.split)
  moreover have "\<not> config_fits url_check source c" using True by (auto simp: config_fits_def s3_fits_def)
  ultimately show ?thesis using True by auto
next
  case False
  then obtain path cond where flags: "booleanFromEnvironment (source ''S3_FORCE_PATH_STYLE'') = Some path"
      "booleanFromEnvironment (source ''S3_CHECKPOINT_CONDITIONAL_WRITES'') = Some cond"
    by (metis insert_iff not_None_eq)
  note accepted = app_fields_iff [OF flags]
  have load: "loadConfig url_check issues source
      = refined ac_source (issues source) (app_fields url_check source path cond)"
    by (simp add: loadConfig_def flags)
  show ?thesis
  proof (cases "app_fields url_check source path cond")
    case None
    then have "\<not> config_fits url_check source d" for d using accepted [of url_check d] by simp
    with None False show ?thesis by (auto simp: load refined_def)
  next
    case (Some a)
    then have "config_fits url_check source d \<longleftrightarrow> d = a" for d using accepted [of url_check d] by auto
    with Some False show ?thesis
      by (auto simp: load refined_def ssh_host_missing_def)
  qed
qed

lemma source_fields_zero:
  assumes "source_fields url_check i = Some c" "in_requestSpacingMs i = None" "in_retryAttempts i = None"
    "int_field 0 5000 v = Some 0" "int_field 0 max_safe_integer w = Some 0"
  shows "sc_requestSpacingMs c = 250 \<and> sc_retryAttempts c = 3 \<and>
    source_fields url_check (i\<lparr>in_requestSpacingMs := Some v, in_retryAttempts := Some w\<rparr>)
      = Some (c\<lparr>sc_requestSpacingMs := 0, sc_retryAttempts := 0\<rparr>)"
  using assms by (auto simp: source_fields_def bind_eq_Some_conv config_bounds with_default_def)

lemma source_fields_refused:
  assumes "in_concurrency i = Some v" "int_field 1 32 v = None"
  shows "source_fields url_check i = None"
  using assms by (simp add: source_fields_def config_bounds with_default_def)

text \<open>
  A blank numeric variable is not an absent one. Where a configuration without the variable
  loads, setting the request spacing or the retry attempts to blank text loads as well and means
  zero: no pacing, no retries, instead of the defaults 250 and 3. A blank concurrency is refused.
\<close>

theorem blank_setting_is_zero:
  "case loadSourceConfig url_check issues (source
      (''REPLAY_SOURCE_REQUEST_SPACING_MS'' := None, ''REPLAY_SOURCE_RETRY_ATTEMPTS'' := None)) of
     Inr c \<Rightarrow> sc_requestSpacingMs c = 250 \<and> sc_retryAttempts c = 3 \<and>
       loadSourceConfig url_check issues (source
         (''REPLAY_SOURCE_REQUEST_SPACING_MS'' \<mapsto> EnvText (replicate n CHR '' ''),
          ''REPLAY_SOURCE_RETRY_ATTEMPTS'' \<mapsto> EnvText (replicate m CHR '' '')))
       = Inr (c\<lparr>sc_requestSpacingMs := 0, sc_retryAttempts := 0\<rparr>) \<and>
       \<not> is_ok (loadSourceConfig url_check issues (source(''REPLAY_SOURCE_CONCURRENCY'' \<mapsto> EnvText [])))
   | Inl _ \<Rightarrow> True"
proof -
  have blank: "coerced (EnvText (replicate k CHR '' '')) = Some 0" for k
    by (simp add: coerced_def js_number_def js_trim_def js_space_def dropWhile_replicate Let_def)
  have zero: "int_field 0 hi (EnvText (replicate k CHR '' '')) = Some 0" if "0 \<le> hi" for hi k
    using that by (simp add: int_field_def blank max_safe_integer_def)
  have empty: "coerced (EnvText []) = Some 0" using blank [of 0] by simp
  define i where "i = readSourceConfigInput (source
      (''REPLAY_SOURCE_REQUEST_SPACING_MS'' := None, ''REPLAY_SOURCE_RETRY_ATTEMPTS'' := None))"
  have blanked: "readSourceConfigInput (source
         (''REPLAY_SOURCE_REQUEST_SPACING_MS'' \<mapsto> EnvText (replicate n CHR '' ''),
          ''REPLAY_SOURCE_RETRY_ATTEMPTS'' \<mapsto> EnvText (replicate m CHR '' '')))
     = i\<lparr>in_requestSpacingMs := Some (EnvText (replicate n CHR '' '')),
         in_retryAttempts := Some (EnvText (replicate m CHR '' ''))\<rparr>"
    by (simp add: i_def readSourceConfigInput_def)
  have "source_fields url_check (readSourceConfigInput (source(''REPLAY_SOURCE_CONCURRENCY'' \<mapsto> EnvText []))) = None"
    by (rule source_fields_refused [of _ "EnvText []"]) (simp_all add: readSourceConfigInput_def int_field_def empty)
  then have refused: "is_ok (loadSourceConfig url_check issues (source(''REPLAY_SOURCE_CONCURRENCY'' \<mapsto> EnvText []))) = False"
    by (simp add: loadSourceConfig_def refined_def)
  have "in_requestSpacingMs i = None" "in_retryAttempts i = None"
    by (simp_all add: i_def readSourceConfigInput_def)
  from source_fields_zero [OF _ this zero zero, of url_check _ m n]
  have known: "sc_requestSpacingMs c = 250 \<and> sc_retryAttempts c = 3 \<and>
      source_fields url_check (i\<lparr>in_requestSpacingMs := Some (EnvText (replicate n CHR '' '')),
        in_retryAttempts := Some (EnvText (replicate m CHR '' ''))\<rparr>)
      = Some (c\<lparr>sc_requestSpacingMs := 0, sc_retryAttempts := 0\<rparr>)" if "source_fields url_check i = Some c" for c
    using that by (simp add: max_safe_integer_def)
  show ?thesis
  proof (cases "loadSourceConfig url_check issues (source
      (''REPLAY_SOURCE_REQUEST_SPACING_MS'' := None, ''REPLAY_SOURCE_RETRY_ATTEMPTS'' := None))")
    case (Inr c)
    then have "source_fields url_check i = Some c" "\<not> ssh_host_missing c"
      by (simp_all add: loadSourceConfig_def refined_Inr i_def)
    with known [of c] have "sc_requestSpacingMs c = 250" "sc_retryAttempts c = 3"
      "loadSourceConfig url_check issues (source
         (''REPLAY_SOURCE_REQUEST_SPACING_MS'' \<mapsto> EnvText (replicate n CHR '' ''),
          ''REPLAY_SOURCE_RETRY_ATTEMPTS'' \<mapsto> EnvText (replicate m CHR '' '')))
       = Inr (c\<lparr>sc_requestSpacingMs := 0, sc_retryAttempts := 0\<rparr>)"
      by (simp_all add: loadSourceConfig_def blanked refined_Inr ssh_host_missing_def)
    with Inr refused show ?thesis by simp
  qed simp
qed

subsection \<open>What redaction reveals\<close>

text \<open>All that is shown of a secret: nothing of a short one, else its first two and its last two characters.\<close>

definition shown_of :: "string \<Rightarrow> (string \<times> string) option" where
  "shown_of secret = (if length secret \<le> 4 then None else Some (take 2 secret, drop (length secret - 2) secret))"

lemma redactSecret_same: "redactSecret s = redactSecret t \<longleftrightarrow> shown_of s = shown_of t"
proof -
  have "redactSecret u \<noteq> ''****''" if "4 < length u" for u
  proof
    assume "redactSecret u = ''****''"
    then have "length (redactSecret u) = 4" by simp
    with that show False by (simp add: redactSecret_def)
  qed
  then have short: "redactSecret u = ''****'' \<longleftrightarrow> shown_of u = None" for u
    by (cases "4 < length u") (simp_all add: shown_of_def redactSecret_def not_less)
  show ?thesis
  proof (cases "shown_of s = None \<or> shown_of t = None")
    case True
    then show ?thesis using short [of s] short [of t] by metis
  next
    case False
    then show ?thesis by (simp add: shown_of_def redactSecret_def split: if_splits)
  qed
qed

text \<open>
  C33: what redaction reveals. Two configurations look the same redacted exactly when they agree in
  everything but the database address and the ssh command, on which the redacted configuration does not
  depend at all, and the two secrets of the object store, the access key id and the secret access key. Of
  each of these what is shown has to agree: nothing of a secret of at most four characters, else
  its first two and its last two. So the addresses of the source and of the object store are shown.
\<close>

theorem redactConfig_reveals:
  "redactConfig c = redactConfig d \<longleftrightarrow>
     d = c\<lparr>ac_databaseUrl := ac_databaseUrl d,
           ac_source := (ac_source c)\<lparr>sc_sshCommand := sc_sshCommand (ac_source d)\<rparr>,
           ac_s3 := (ac_s3 c)\<lparr>s3_accessKeyId := s3_accessKeyId (ac_s3 d),
             s3_secretAccessKey := s3_secretAccessKey (ac_s3 d)\<rparr>\<rparr> \<and>
     shown_of (s3_accessKeyId (ac_s3 c)) = shown_of (s3_accessKeyId (ac_s3 d)) \<and>
     shown_of (s3_secretAccessKey (ac_s3 c)) = shown_of (s3_secretAccessKey (ac_s3 d))"
proof -
  obtain sc s3 u where c: "c = \<lparr>ac_source = sc, ac_s3 = s3, ac_databaseUrl = u\<rparr>" by (cases c)
  obtain sd t3 v where d: "d = \<lparr>ac_source = sd, ac_s3 = t3, ac_databaseUrl = v\<rparr>" by (cases d)
  have "sc\<lparr>sc_sshCommand := x\<rparr> = sd\<lparr>sc_sshCommand := x\<rparr> \<longleftrightarrow> sd = sc\<lparr>sc_sshCommand := sc_sshCommand sd\<rparr>" for x
    by (cases sc, cases sd) auto
  moreover have "s3\<lparr>s3_accessKeyId := redactSecret (s3_accessKeyId s3), s3_secretAccessKey := redactSecret (s3_secretAccessKey s3)\<rparr>
      = t3\<lparr>s3_accessKeyId := redactSecret (s3_accessKeyId t3), s3_secretAccessKey := redactSecret (s3_secretAccessKey t3)\<rparr>
    \<longleftrightarrow> t3 = s3\<lparr>s3_accessKeyId := s3_accessKeyId t3, s3_secretAccessKey := s3_secretAccessKey t3\<rparr> \<and>
      redactSecret (s3_accessKeyId s3) = redactSecret (s3_accessKeyId t3) \<and>
      redactSecret (s3_secretAccessKey s3) = redactSecret (s3_secretAccessKey t3)"
    by (cases s3, cases t3) auto
  ultimately show ?thesis
    by (auto simp: redactConfig_def c d redactSecret_same)
qed

end
