(* ===== verification/Connectivity.thy ===== *)
theory Connectivity
  imports Failure_Class Source_Clients
begin

text \<open>
  The read-only probes of the \<open>check\<close> command: \<open>src/check/connectivity.ts\<close>,
  \<open>postgres-connectivity.ts\<close>, \<open>s3-connectivity.ts\<close> and \<open>source-connectivity.ts\<close>. The clients are
  parameters that work on the surroundings.
\<close>

datatype connectivity_category = CnRateLimited | CnS3Unavailable | CnSourceTransient | CnSourceUnavailable | CnStagingUnavailable

datatype connectivity_check =
    Passed
  | Failed (failed_category: connectivity_category) (failed_message: string)

record connectivity_results =
  cn_s3 :: connectivity_check
  cn_source :: connectivity_check
  cn_staging :: connectivity_check

definition connectivityOk :: "connectivity_results \<Rightarrow> bool" where
  "connectivityOk checks \<longleftrightarrow> cn_s3 checks = Passed \<and> cn_source checks = Passed \<and> cn_staging checks = Passed"

definition message_or :: "string \<Rightarrow> thrown \<Rightarrow> string" where
  "message_or fallback error = (if is_Error error then err_message error else fallback)"

definition basicReadSql :: string where "basicReadSql = ''select 1''"

definition stagingReadSql :: string where "stagingReadSql = ''select 1 from ingest_staging_records limit 1''"

definition checkPostgresConnectivity ::
    "(string \<Rightarrow> 's \<Rightarrow> (thrown + unit) \<times> 's) \<Rightarrow> 's \<Rightarrow> connectivity_check \<times> 's" where
  "checkPostgresConnectivity query s =
     (let failed = (\<lambda>e. Failed CnStagingUnavailable (message_or ''PostgreSQL check failed'' e)) in
      case query basicReadSql s of
        (Inl e, s) \<Rightarrow> (failed e, s)
      | (Inr _, s) \<Rightarrow>
          (case query stagingReadSql s of
             (Inl e, s) \<Rightarrow> (failed e, s)
           | (Inr _, s) \<Rightarrow> (Passed, s)))"

definition checkS3Connectivity ::
    "(string \<Rightarrow> 's \<Rightarrow> (thrown + unit) \<times> 's) \<Rightarrow> string \<Rightarrow> 's \<Rightarrow> connectivity_check \<times> 's" where
  "checkS3Connectivity head_bucket bucket s =
     (case head_bucket bucket s of
        (Inl e, s) \<Rightarrow> (Failed CnS3Unavailable (message_or ''S3 check failed'' e), s)
      | (Inr _, s) \<Rightarrow> (Passed, s))"

definition source_category :: "thrown \<Rightarrow> connectivity_category" where
  "source_category e =
     (if err_code e = Some (CodeText ''rate_limited'') then CnRateLimited
      else if err_code e = Some (CodeText ''source_transient'') then CnSourceTransient
      else CnSourceUnavailable)"

definition checkSourceConnectivity ::
    "(url \<Rightarrow> 's \<Rightarrow> (thrown + string) \<times> 's) \<Rightarrow> url \<Rightarrow> 's \<Rightarrow> (thrown + connectivity_check) \<times> 's" where
  "checkSourceConnectivity fetchText sourceUrl s =
     (case fetchText sourceUrl s of
        (Inl e, s) \<Rightarrow>
          (if is_class SourceFetchError e then Inr (Failed (source_category e) (err_message e)) else Inl e, s)
      | (Inr _, s) \<Rightarrow> (Inr Passed, s))"

end
