(* ===== verification/Contract_Check.thy ===== *)
theory Contract_Check
  imports Discovery
begin

text \<open>
  The one-shot probe of the source's contract: \<open>src/contract-check/contract-check.ts\<close>. The source
  client, and the URL parser with and without a base, are parameters; a \<open>Left\<close> result of the
  probe is an exception that it does not turn into a result.
\<close>

datatype check_reason = ContractBroken | SourceUnreachable

datatype warning_code = EmptyListPage | MissingExternalId | MissingFilenameWarning

record check_warning =
  cw_code :: warning_code
  cw_message :: string

record check_sample =
  cs_listPageUrl :: string
  cs_detailUrl :: "string option"
  cs_rawUrl :: "string option"

datatype check_result =
    CheckOk check_sample "check_warning list"
  | CheckFailed check_reason string "int option" "check_warning list"

record 's probe =
  pb_sourceUrl :: url
  pb_parse :: "string \<Rightarrow> url option"
  pb_resolve :: "string \<Rightarrow> url \<Rightarrow> url option"
  pb_fetch :: "url \<Rightarrow> 's \<Rightarrow> (thrown + string) \<times> 's"

subsection \<open>Failed reads\<close>

definition readHttpStatus :: "thrown \<Rightarrow> int option" where
  "readHttpStatus error = Option.bind (err_details error) d_httpStatus"

definition buildClassifyInput :: "thrown \<Rightarrow> int option \<Rightarrow> classify_input" where
  "buildClassifyInput error httpStatus =
     \<lparr>ci_cfChallenge = None, ci_error = error, ci_httpStatus = httpStatus, ci_malformedBody = None\<rparr>"

definition makeFetchFailureResult :: "thrown \<Rightarrow> string \<Rightarrow> check_warning list \<Rightarrow> check_result" where
  "makeFetchFailureResult error message warnings =
     (if \<not> is_class SourceFetchError error then CheckFailed ContractBroken message None warnings
      else if fetch_code error \<in> {SourceTransient, SourceRateLimited}
      then CheckFailed SourceUnreachable message None warnings
      else let httpStatus = readHttpStatus error in
        if fc_kind (classifyFailure (buildClassifyInput error httpStatus)) \<noteq> Permanent
        then CheckFailed SourceUnreachable message None warnings
        else CheckFailed ContractBroken message httpStatus warnings)"

definition tryFetch :: "'s probe \<Rightarrow> url \<Rightarrow> string \<Rightarrow> check_warning list \<Rightarrow> 's \<Rightarrow> (check_result + string) \<times> 's" where
  "tryFetch probe u message warnings s =
     (case pb_fetch probe u s of
        (Inl e, s) \<Rightarrow> (Inl (makeFetchFailureResult e message warnings), s)
      | (Inr body, s) \<Rightarrow> (Inr body, s))"

definition warn :: "warning_code \<Rightarrow> string \<Rightarrow> check_sample \<Rightarrow> check_result" where
  "warn code message sample = CheckOk sample [\<lparr>cw_code = code, cw_message = message\<rparr>]"

definition isJson :: "string \<Rightarrow> bool" where
  "isJson body \<longleftrightarrow> json_parse body \<noteq> None"

subsection \<open>The probe\<close>

definition probeRawEndpoint ::
    "'s probe \<Rightarrow> url \<Rightarrow> string \<Rightarrow> string \<Rightarrow> 's \<Rightarrow> (thrown + check_result) \<times> 's" where
  "probeRawEndpoint probe detailUrl detailUrlString filename s =
     (case toRawReplayUrl (pb_resolve probe) filename detailUrl of
        Inl e \<Rightarrow> (Inl e, s)
      | Inr rawUrl \<Rightarrow>
          (case pb_parse probe rawUrl of
             None \<Rightarrow> (Inl invalid_url_error, s)
           | Some u \<Rightarrow>
               (case tryFetch probe u ''Failed to fetch raw data endpoint'' [] s of
                  (Inl r, s) \<Rightarrow> (Inr r, s)
                | (Inr body, s) \<Rightarrow>
                    (Inr (if \<not> isJson body
                          then CheckFailed ContractBroken ''Raw data endpoint returned non-JSON (HTML?) content'' None []
                          else CheckOk \<lparr>cs_listPageUrl = href (pb_sourceUrl probe), cs_detailUrl = Some detailUrlString,
                                 cs_rawUrl = Some rawUrl\<rparr> []), s))))"

definition probeDetail :: "'s probe \<Rightarrow> string \<Rightarrow> 's \<Rightarrow> (thrown + check_result) \<times> 's" where
  "probeDetail probe detailUrlString s =
     (case pb_parse probe detailUrlString of
        None \<Rightarrow> (Inl invalid_url_error, s)
      | Some detailUrl \<Rightarrow>
          (case tryFetch probe detailUrl ''Failed to fetch source detail page'' [] s of
             (Inl r, s) \<Rightarrow> (Inr r, s)
           | (Inr body, s) \<Rightarrow>
               (case extractFilenameFromDetailHtml body of
                  None \<Rightarrow>
                    (Inr (warn MissingFilenameWarning
                      ''Detail page did not contain a recognisable filename (no #filename input or body[data-ocap])''
                      \<lparr>cs_listPageUrl = href (pb_sourceUrl probe), cs_detailUrl = Some detailUrlString, cs_rawUrl = None\<rparr>), s)
                | Some filename \<Rightarrow> probeRawEndpoint probe detailUrl detailUrlString filename s)))"

definition runContractCheck :: "'s probe \<Rightarrow> 's \<Rightarrow> (thrown + check_result) \<times> 's" where
  "runContractCheck probe s =
     (let sampleOnly = \<lparr>cs_listPageUrl = href (pb_sourceUrl probe), cs_detailUrl = None, cs_rawUrl = None\<rparr> in
      case tryFetch probe (pb_sourceUrl probe) ''Failed to fetch source list page'' [] s of
        (Inl r, s) \<Rightarrow> (Inr r, s)
      | (Inr body, s) \<Rightarrow>
          (case extractReplayRows (pb_resolve probe) body 1 (pb_sourceUrl probe) of
             [] \<Rightarrow> (Inr (warn EmptyListPage ''Source list page 1 returned no replay rows'' sampleOnly), s)
           | firstRow # _ \<Rightarrow>
               (case (ro_url firstRow, ro_externalId firstRow) of
                  (Some u, Some _) \<Rightarrow> probeDetail probe u s
                | _ \<Rightarrow> (Inr (warn MissingExternalId ''First replay row is missing source URL or external id'' sampleOnly), s))))"

subsection \<open>When the probe fails\<close>

text \<open>A probe that records the addresses it reads, and what it read there.\<close>

type_synonym reads = "(url \<times> (thrown + string)) list"

definition recorded_probe :: "'s probe \<Rightarrow> (reads \<times> 's) probe" where
  "recorded_probe p =
     \<lparr>pb_sourceUrl = pb_sourceUrl p, pb_parse = pb_parse p, pb_resolve = pb_resolve p,
      pb_fetch = (\<lambda>u (rs, s). case pb_fetch p u s of (r, s) \<Rightarrow> (r, (rs @ [(u, r)], s)))\<rparr>"

definition unreachable :: "thrown \<Rightarrow> bool" where
  "unreachable e \<longleftrightarrow> is_class SourceFetchError e \<and> (fetch_code e \<in> {SourceTransient, SourceRateLimited} \<or>
     fc_kind (classifyFailure (buildClassifyInput e (readHttpStatus e))) \<noteq> Permanent)"

lemma tryFetch_recorded:
  "tryFetch (recorded_probe p) u m w (rs, s) =
     (case pb_fetch p u s of (r, s') \<Rightarrow>
        ((case r of Inl e \<Rightarrow> Inl (makeFetchFailureResult e m w) | Inr b \<Rightarrow> Inr b), (rs @ [(u, r)], s')))"
  by (simp add: tryFetch_def recorded_probe_def split: prod.split sum.split)

lemma failure_result:
  "\<exists>status. makeFetchFailureResult e m w =
     CheckFailed (if unreachable e then SourceUnreachable else ContractBroken) m status w"
  by (auto simp: makeFetchFailureResult_def unreachable_def Let_def)

lemma probe_fields [simp]:
  "pb_sourceUrl (recorded_probe p) = pb_sourceUrl p" "pb_parse (recorded_probe p) = pb_parse p"
  "pb_resolve (recorded_probe p) = pb_resolve p"
  by (simp_all add: recorded_probe_def)

definition failed_by :: "thrown \<Rightarrow> check_result \<Rightarrow> bool" where
  "failed_by e v \<longleftrightarrow> (\<exists>m st. v = CheckFailed (if unreachable e then SourceUnreachable else ContractBroken) m st [])"

definition warned :: "warning_code \<Rightarrow> check_result \<Rightarrow> bool" where
  "warned code v \<longleftrightarrow> (\<exists>sample m. v = CheckOk sample [\<lparr>cw_code = code, cw_message = m\<rparr>])"

lemma failed_read [simp]: "failed_by e (makeFetchFailureResult e m [])"
  unfolding failed_by_def using failure_result [of e m "[]"] by blast

lemma warn_warned [simp]: "warned code (warn code m sample)"
  by (auto simp: warned_def warn_def)

text \<open>The verdict of a read of the raw endpoint.\<close>

definition raw_verdict :: "thrown + string \<Rightarrow> check_result \<Rightarrow> bool" where
  "raw_verdict d v \<longleftrightarrow> (case d of
       Inl e \<Rightarrow> failed_by e v
     | Inr body \<Rightarrow>
         if isJson body then \<exists>sample. v = CheckOk sample [] else \<exists>m. v = CheckFailed ContractBroken m None [])"

text \<open>The rows of the list page, the address of a detail page that the first of them gives, and the raw
  endpoint that a detail page gives.\<close>

definition listed_rows :: "'s probe \<Rightarrow> string \<Rightarrow> row_observation list" where
  "listed_rows p body = extractReplayRows (pb_resolve p) body 1 (pb_sourceUrl p)"

definition links_to :: "'s probe \<Rightarrow> string \<Rightarrow> url \<Rightarrow> bool" where
  "links_to p body u \<longleftrightarrow> (case listed_rows p body of
       [] \<Rightarrow> False
     | row # _ \<Rightarrow> ro_externalId row \<noteq> None \<and> Option.bind (ro_url row) (pb_parse p) = Some u)"

definition names_raw :: "'s probe \<Rightarrow> url \<Rightarrow> string \<Rightarrow> url \<Rightarrow> bool" where
  "names_raw p detail body u \<longleftrightarrow> (\<exists>filename raw. extractFilenameFromDetailHtml body = Some filename \<and>
     toRawReplayUrl (pb_resolve p) filename detail = Inr raw \<and> pb_parse p raw = Some u)"

lemma raw_probe:
  assumes "probeRawEndpoint (recorded_probe p) du dus filename (rs, s) = (r, (rs', s'))"
    and "extractFilenameFromDetailHtml body = Some filename"
  shows "case r of Inl e \<Rightarrow> e = invalid_url_error
    | Inr v \<Rightarrow> \<exists>u d. rs' = rs @ [(u, d)] \<and> names_raw p du body u \<and> raw_verdict d v"
proof (cases "toRawReplayUrl (pb_resolve p) filename du")
  case (Inl e)
  with assms show ?thesis by (auto simp: probeRawEndpoint_def toRawReplayUrl_def Let_def split: option.splits if_splits)
next
  case raw: (Inr raw)
  show ?thesis
  proof (cases "pb_parse p raw")
    case None
    with assms raw show ?thesis by (auto simp: probeRawEndpoint_def)
  next
    case (Some u)
    with assms(2) raw have named: "names_raw p du body u" by (simp add: names_raw_def)
    obtain d s1 where d: "pb_fetch p u s = (d, s1)" by (cases "pb_fetch p u s")
    with assms(1) raw Some named show ?thesis
      by (cases d) (auto simp: probeRawEndpoint_def tryFetch_recorded raw_verdict_def)
  qed
qed

definition detail_verdict :: "'s probe \<Rightarrow> url \<Rightarrow> thrown + string \<Rightarrow> reads \<Rightarrow> check_result \<Rightarrow> bool" where
  "detail_verdict p u d rest v \<longleftrightarrow> (case d of
       Inl e \<Rightarrow> rest = [] \<and> failed_by e v
     | Inr body \<Rightarrow> (case rest of
           [] \<Rightarrow> extractFilenameFromDetailHtml body = None \<and> warned MissingFilenameWarning v
         | [(u', d')] \<Rightarrow> names_raw p u body u' \<and> raw_verdict d' v
         | _ \<Rightarrow> False))"

lemma detail_probe:
  assumes "probeDetail (recorded_probe p) dus (rs, s) = (r, (rs', s'))"
  shows "case r of Inl e \<Rightarrow> e = invalid_url_error
    | Inr v \<Rightarrow> \<exists>u d rest. pb_parse p dus = Some u \<and> rs' = rs @ (u, d) # rest \<and> detail_verdict p u d rest v"
proof (cases "pb_parse p dus")
  case None
  with assms show ?thesis by (auto simp: probeDetail_def)
next
  case (Some u)
  obtain d s1 where d: "pb_fetch p u s = (d, s1)" by (cases "pb_fetch p u s")
  show ?thesis
  proof (cases d)
    case (Inl e)
    with assms Some d show ?thesis by (auto simp: probeDetail_def tryFetch_recorded detail_verdict_def)
  next
    case (Inr body)
    show ?thesis
    proof (cases "extractFilenameFromDetailHtml body")
      case None
      with assms Some d Inr show ?thesis by (auto simp: probeDetail_def tryFetch_recorded detail_verdict_def)
    next
      case name: (Some filename)
      with assms Some d Inr have raw: "probeRawEndpoint (recorded_probe p) u dus filename (rs @ [(u, Inr body)], s1) = (r, (rs', s'))"
        by (simp add: probeDetail_def tryFetch_recorded)
      from raw_probe [OF raw name] Some Inr show ?thesis
        by (cases r) (force simp: detail_verdict_def)+
    qed
  qed
qed

text \<open>
  C27: what a contract check reads and concludes. It makes at most three reads, and none after a failed one:
  the list page; the detail page that the list's first row gives; the raw endpoint that
  the detail page names. If the last read failed, the check fails, and blames the network exactly when the error is
  retryable. If it did not, the check is decided by what was read there: a list without rows, a first row without a link or an id, and a
  detail page without a filename are each a passed check with the one warning that says so; a raw body that is
  JSON is a passed check without warnings, and one that is not is a broken contract.
\<close>

theorem contract_check_verdict:
  "case runContractCheck (recorded_probe p) ([], s) of
     (Inr v, (rs, s')) \<Rightarrow>
       (case rs of
          [] \<Rightarrow> False
        | (u1, Inl e) # rest \<Rightarrow> u1 = pb_sourceUrl p \<and> rest = [] \<and> failed_by e v
        | (u1, Inr body) # rest \<Rightarrow> u1 = pb_sourceUrl p \<and>
            (case rest of
               [] \<Rightarrow>
                 (case listed_rows p body of
                    [] \<Rightarrow> warned EmptyListPage v
                  | row # _ \<Rightarrow> None \<in> {ro_url row, ro_externalId row} \<and> warned MissingExternalId v)
             | (u2, Inl e) # rest' \<Rightarrow> links_to p body u2 \<and> rest' = [] \<and> failed_by e v
             | [(u2, Inr detail)] \<Rightarrow>
                 links_to p body u2 \<and> extractFilenameFromDetailHtml detail = None \<and> warned MissingFilenameWarning v
             | [(u2, Inr detail), (u3, Inl e)] \<Rightarrow>
                 links_to p body u2 \<and> names_raw p u2 detail u3 \<and> failed_by e v
             | [(u2, Inr detail), (u3, Inr raw)] \<Rightarrow>
                 links_to p body u2 \<and> names_raw p u2 detail u3 \<and>
                 (if isJson raw then \<exists>sample. v = CheckOk sample []
                  else \<exists>m. v = CheckFailed ContractBroken m None [])
             | _ \<Rightarrow> False))
   | (Inl e, _) \<Rightarrow> e = invalid_url_error"
proof -
  let ?u = "pb_sourceUrl p"
  obtain d s1 where d: "pb_fetch p ?u s = (d, s1)" by (cases "pb_fetch p ?u s")
  show ?thesis
  proof (cases d)
    case (Inl e)
    with d show ?thesis by (simp add: runContractCheck_def tryFetch_recorded Let_def)
  next
    case (Inr body)
    consider (empty) "listed_rows p body = []"
      | (unlinked) row rows where "listed_rows p body = row # rows" "ro_url row = None \<or> ro_externalId row = None"
      | (linked) row rows u i where "listed_rows p body = row # rows" "ro_url row = Some u" "ro_externalId row = Some i"
      by (cases "listed_rows p body"; metis option.exhaust)
    then show ?thesis
    proof cases
      case linked
      obtain r rs s' where probe: "probeDetail (recorded_probe p) u ([(?u, Inr body)], s1) = (r, (rs, s'))" by (metis prod.exhaust)
      with d Inr linked have run: "runContractCheck (recorded_probe p) ([], s) = (r, (rs, s'))"
        by (simp add: runContractCheck_def tryFetch_recorded Let_def listed_rows_def)
      note probed = detail_probe [OF probe]
      show ?thesis
      proof (cases r)
        case v: (Inr v)
        with probed obtain u2 d2 rest where "pb_parse p u = Some u2" "rs = (?u, Inr body) # (u2, d2) # rest"
          "detail_verdict p u2 d2 rest v" by auto
        with linked run v show ?thesis
          by (auto simp: links_to_def detail_verdict_def raw_verdict_def split: sum.split list.splits)
      qed (use probed run in simp)
    qed (use d Inr in \<open>auto simp: runContractCheck_def tryFetch_recorded Let_def listed_rows_def split: option.split\<close>)
  qed
qed

end
