(* ===== verification/Commands.thy ===== *)
theory Commands
  imports Config Connectivity Contract_Check Run_Loop
begin

text \<open>
  The commands that answer at once: \<open>src/commands/discover.ts\<close>, \<open>check.ts\<close> and
  \<open>contract-check.ts\<close>, with what they share, \<open>shared.ts\<close> and \<open>store-raw-resources.ts\<close>, and the
  boundary of \<open>src/cli.ts\<close>.

  A process has what it wrote to its standard output, its exit code while that is set, and the
  surroundings. A document is the value that \<open>writeJson\<close> is given. The dependencies of the
  command line are a record; a field that takes a configuration stands for the client built from it.
  The per-run logger, which writes to the standard error, is part of the surroundings.
\<close>

subsection \<open>Documents and process\<close>

datatype store_mode = StoreRaw | StoreRawAndStage

record raw_counts =
  rw_candidates :: nat
  rw_conflict :: nat
  rw_diagnostics :: nat
  rw_failed :: nat
  rw_skipped :: nat
  rw_stored :: nat

record staging_counts =
  st_alreadyStaged :: nat
  st_conflict :: nat
  st_failed :: nat
  st_skipped :: nat
  st_staged :: nat

datatype store_raw_counts = RawOnly raw_counts | RawAndStaging raw_counts staging_counts

record store_raw_report =
  sw_ok :: bool
  sw_mode :: store_mode
  sw_sourceUrl :: string
  sw_generatedAt :: string
  sw_counts :: store_raw_counts
  sw_candidates :: "replay_candidate list"
  sw_diagnostics :: "diagnostic list"
  sw_storage :: "store_result list"
  sw_staging :: "staging_result list option"

datatype document =
    ErrorDoc string
  | IssuesDoc string "string list"
  | ReportDoc report
  | StoreRawDoc store_raw_report
  | CheckDoc bool connectivity_results app_config
  | CheckIssuesDoc "string list"
  | ContractDoc check_result
  | ContractIssuesDoc "string list"
  | SummaryDoc compact_summary
  | ConfigSummaryDoc config_failure_summary

record 's process =
  ps_stdout :: "document list"
  ps_exitCode :: "nat option"
  ps_world :: 's

definition writeJson :: "document \<Rightarrow> 's process \<Rightarrow> 's process" where
  "writeJson doc p = p\<lparr>ps_stdout := ps_stdout p @ [doc]\<rparr>"

definition set_exit :: "nat \<Rightarrow> 's process \<Rightarrow> 's process" where
  "set_exit n p = p\<lparr>ps_exitCode := Some n\<rparr>"

definition on_world :: "('s \<Rightarrow> 'r \<times> 's) \<Rightarrow> 's process \<Rightarrow> 'r \<times> 's process" where
  "on_world f p = (case f (ps_world p) of (r, s) \<Rightarrow> (r, p\<lparr>ps_world := s\<rparr>))"

definition refuse :: "document \<Rightarrow> 's process \<Rightarrow> (thrown + unit) \<times> 's process" where
  "refuse doc p = (Inr (), set_exit 2 (writeJson doc p))"

definition answer :: "bool \<Rightarrow> document \<Rightarrow> 's process \<Rightarrow> (thrown + unit) \<times> 's process" where
  "answer ok doc p = (let p = writeJson doc p in (Inr (), if ok then p else set_exit 2 p))"

subsection \<open>Dependencies\<close>

record 's cli_deps =
  cl_loadConfig :: "config_error + app_config"
  cl_loadSourceConfig :: "config_error + source_config"
  cl_parse :: "string \<Rightarrow> url option"
  cl_resolve :: "string \<Rightarrow> url \<Rightarrow> url option"
  cl_fetchText :: "source_config \<Rightarrow> url \<Rightarrow> 's \<Rightarrow> (thrown + string) \<times> 's"
  cl_discover :: "source_config \<Rightarrow> int \<Rightarrow> url \<Rightarrow> 's \<Rightarrow> (thrown + report) \<times> 's"
  cl_store :: "app_config \<Rightarrow> replay_candidate \<Rightarrow> 's \<Rightarrow> (thrown + store_result) \<times> 's"
  cl_stage :: "app_config \<Rightarrow> string option \<Rightarrow> store_result \<Rightarrow> 's \<Rightarrow> (thrown + staging_result) \<times> 's"
  cl_createPgPool :: "string \<Rightarrow> 's \<Rightarrow> 's"
  cl_endPool :: "'s \<Rightarrow> (thrown + unit) \<times> 's"
  cl_query :: "string \<Rightarrow> 's \<Rightarrow> (thrown + unit) \<times> 's"
  cl_headBucket :: "app_config \<Rightarrow> string \<Rightarrow> 's \<Rightarrow> (thrown + unit) \<times> 's"
  cl_destroyS3 :: "'s \<Rightarrow> (thrown + unit) \<times> 's"
  cl_warn :: "string \<Rightarrow> thrown \<Rightarrow> 's \<Rightarrow> 's"

definition boolean_expected_error :: thrown where
  "boolean_expected_error = Error PlainError None (config_error_message BooleanExpected) ''Error'' None None None"

text \<open>The issues of a validation error are a value; any other error of a loader is thrown again.\<close>

definition loaded :: "config_error + 'a \<Rightarrow> thrown + (string list + 'a)" where
  "loaded r = (case r of
       Inl (ConfigValidationError issues) \<Rightarrow> Inr (Inl issues)
     | Inl BooleanExpected \<Rightarrow> Inl boolean_expected_error
     | Inr c \<Rightarrow> Inr (Inr c))"

definition loadDryRunSourceConfig :: "'s cli_deps \<Rightarrow> thrown + (string list + source_config)" where
  "loadDryRunSourceConfig deps = loaded (cl_loadSourceConfig deps)"

definition loadStoreRawConfig :: "'s cli_deps \<Rightarrow> thrown + (string list + app_config)" where
  "loadStoreRawConfig deps = loaded (cl_loadConfig deps)"

lemma load_cases:
  obtains (invalid) issues where "r = Inl (ConfigValidationError issues)" | (flag) "r = Inl BooleanExpected"
    | (good) c where "r = Inr c"
  by (metis sum.exhaust config_error.exhaust)

subsection \<open>Resources\<close>

text \<open>The closure that tears the clients down; its flag is the first component of the state.\<close>

definition dispose_s3 :: "'s cli_deps \<Rightarrow> 's \<Rightarrow> 's" where
  "dispose_s3 deps s =
     (case cl_destroyS3 deps s of
        (Inl e, s) \<Rightarrow> cl_warn deps ''S3Client.destroy() threw during teardown'' e s
      | (Inr _, s) \<Rightarrow> s)"

definition dispose_pool :: "'s cli_deps \<Rightarrow> 's \<Rightarrow> 's" where
  "dispose_pool deps s =
     (case cl_endPool deps s of
        (Inl e, s) \<Rightarrow> cl_warn deps ''pg.Pool.end() threw during teardown'' e s
      | (Inr _, s) \<Rightarrow> s)"

definition dispose :: "'s cli_deps \<Rightarrow> bool \<Rightarrow> bool \<times> 's \<Rightarrow> bool \<times> 's" where
  "dispose deps has_pool st =
     (if fst st then st
      else let s = dispose_s3 deps (snd st)
           in (True, if has_pool then dispose_pool deps s else s))"

text \<open>A second call does nothing.\<close>

lemma dispose_once: "dispose deps has_pool (dispose deps has_pool st) = dispose deps has_pool st"
  by (simp add: dispose_def Let_def)

record 's resources =
  rr_storage :: "replay_candidate \<Rightarrow> 's \<Rightarrow> (thrown + store_result) \<times> 's"
  rr_stagingRepository :: "(string option \<Rightarrow> store_result \<Rightarrow> 's \<Rightarrow> (thrown + staging_result) \<times> 's) option"
  rr_dispose :: "bool \<times> 's \<Rightarrow> bool \<times> 's"

definition createStoreRawResources :: "'s cli_deps \<Rightarrow> app_config \<Rightarrow> bool \<Rightarrow> 's \<Rightarrow> 's resources \<times> 's" where
  "createStoreRawResources deps config shouldStage s =
     (\<lparr>rr_storage = cl_store deps config,
       rr_stagingRepository = (if shouldStage then Some (cl_stage deps config) else None),
       rr_dispose = dispose deps shouldStage\<rparr>,
      if shouldStage then cl_createPgPool deps (ac_databaseUrl config) s else s)"

definition invariant_violation :: thrown where
  "invariant_violation = Error PlainError (Some (CodeText ''invariant_violation''))
     ''Composition invariant violated'' ''InvariantViolationError'' None None None"

subsection \<open>discover\<close>

definition stageRawEvidence ::
    "(string option \<Rightarrow> store_result \<Rightarrow> 's \<Rightarrow> (thrown + staging_result) \<times> 's) option \<Rightarrow> store_result \<Rightarrow> 's
      \<Rightarrow> (thrown + staging_result) \<times> 's" where
  "stageRawEvidence repository rawResult s =
     (case repository of None \<Rightarrow> (Inl invariant_violation, s) | Some stage_one \<Rightarrow> stage_one None rawResult s)"

definition countRawStorage :: "report \<Rightarrow> store_result list \<Rightarrow> raw_counts" where
  "countRawStorage rep results =
     (let n = (\<lambda>st. length (filter (\<lambda>r. result_status r = st) results)) in
      \<lparr>rw_candidates = length (dr_candidates rep), rw_conflict = n RawConflict,
       rw_diagnostics = length (dr_diagnostics rep), rw_failed = n RawFailed, rw_skipped = n RawSkipped,
       rw_stored = n RawStored\<rparr>)"

definition countStaging :: "staging_result list \<Rightarrow> staging_counts" where
  "countStaging results =
     (let n = (\<lambda>st. length (filter (\<lambda>r. sr_status r = st) results)) in
      \<lparr>st_alreadyStaged = n AlreadyStaged, st_conflict = n Conflict, st_failed = n StagingFailed,
       st_skipped = n NotStageable, st_staged = n Staged\<rparr>)"

definition storeRawMode :: "bool \<Rightarrow> store_mode" where
  "storeRawMode shouldStage = (if shouldStage then StoreRawAndStage else StoreRaw)"

definition storeRawCounts :: "bool \<Rightarrow> raw_counts \<Rightarrow> staging_counts \<Rightarrow> store_raw_counts" where
  "storeRawCounts shouldStage raw staging = (if shouldStage then RawAndStaging raw staging else RawOnly raw)"

definition discoverForStoreRaw :: "'s cli_deps \<Rightarrow> source_config \<Rightarrow> 's \<Rightarrow> (thrown + report) \<times> 's" where
  "discoverForStoreRaw deps config s =
     (case cl_parse deps (sc_url config) of
        None \<Rightarrow> (Inl invalid_url_error, s)
      | Some u \<Rightarrow> cl_discover deps config (sc_retryAttempts config) u s)"

definition runDryRunDiscovery :: "'s cli_deps \<Rightarrow> 's process \<Rightarrow> (thrown + unit) \<times> 's process" where
  "runDryRunDiscovery deps p =
     (case loadDryRunSourceConfig deps of
        Inl e \<Rightarrow> (Inl e, p)
      | Inr (Inl issues) \<Rightarrow> refuse (IssuesDoc ''discover dry-run configuration is invalid'' issues) p
      | Inr (Inr config) \<Rightarrow>
          (case on_world (discoverForStoreRaw deps config) p of
             (Inl e, p) \<Rightarrow> (Inl e, p)
           | (Inr rep, p) \<Rightarrow> answer (dr_ok rep) (ReportDoc rep) p))"

text \<open>The loop over the candidates: the raw step of a candidate, then its staging, then the next.\<close>

fun store_loop ::
    "'s resources \<Rightarrow> bool \<Rightarrow> replay_candidate list \<Rightarrow> 's
      \<Rightarrow> (thrown + store_result list \<times> staging_result list) \<times> 's" where
  "store_loop res shouldStage [] s = (Inr ([], []), s)"
| "store_loop res shouldStage (c # cs) s =
     (case rr_storage res c s of
        (Inl e, s) \<Rightarrow> (Inl e, s)
      | (Inr raw, s) \<Rightarrow>
          if shouldStage then
            (case stageRawEvidence (rr_stagingRepository res) raw s of
               (Inl e, s) \<Rightarrow> (Inl e, s)
             | (Inr staged, s) \<Rightarrow>
                 apfst (map_sum id (map_prod (Cons raw) (Cons staged))) (store_loop res shouldStage cs s))
          else apfst (map_sum id (apfst (Cons raw))) (store_loop res shouldStage cs s))"

definition store_discovered ::
    "'s cli_deps \<Rightarrow> bool \<Rightarrow> app_config \<Rightarrow> 's
      \<Rightarrow> (thrown + report \<times> store_result list \<times> staging_result list) \<times> 's" where
  "store_discovered deps shouldStage config s =
     (case createStoreRawResources deps config shouldStage s of
        (res, s) \<Rightarrow>
          (case discoverForStoreRaw deps (ac_source config) s of
             (Inl e, s) \<Rightarrow> (Inl e, s)
           | (Inr rep, s) \<Rightarrow>
               apfst (map_sum id (Pair rep))
                 (if dr_ok rep then store_loop res shouldStage (dr_candidates rep) s else (Inr ([], []), s))))"

definition store_raw_report_of :: "bool \<Rightarrow> report \<Rightarrow> store_result list \<Rightarrow> staging_result list \<Rightarrow> store_raw_report" where
  "store_raw_report_of shouldStage rep storage staging =
     (let raw = countRawStorage rep storage; stg = countStaging staging in
      \<lparr>sw_ok = dr_ok rep \<and> rw_conflict raw = 0 \<and> rw_failed raw = 0 \<and> st_conflict stg = 0 \<and> st_failed stg = 0,
       sw_mode = storeRawMode shouldStage, sw_sourceUrl = dr_sourceUrl rep, sw_generatedAt = dr_generatedAt rep,
       sw_counts = storeRawCounts shouldStage raw stg, sw_candidates = dr_candidates rep,
       sw_diagnostics = dr_diagnostics rep, sw_storage = storage,
       sw_staging = (if shouldStage then Some staging else None)\<rparr>)"

definition runStoreRawDiscovery :: "'s cli_deps \<Rightarrow> bool \<Rightarrow> 's process \<Rightarrow> (thrown + unit) \<times> 's process" where
  "runStoreRawDiscovery deps shouldStage p =
     (case loadStoreRawConfig deps of
        Inl e \<Rightarrow> (Inl e, p)
      | Inr (Inl issues) \<Rightarrow> refuse (IssuesDoc ''discover store-raw configuration is invalid'' issues) p
      | Inr (Inr config) \<Rightarrow>
          (case on_world (store_discovered deps shouldStage config) p of
             (Inl e, p) \<Rightarrow> (Inl e, p)
           | (Inr (rep, storage, staging), p) \<Rightarrow>
               (let doc = store_raw_report_of shouldStage rep storage staging
                in answer (sw_ok doc) (StoreRawDoc doc) p)))"

record discover_options =
  do_dryRun :: bool
  do_stage :: bool
  do_storeRaw :: bool

definition discover_command :: "'s cli_deps \<Rightarrow> discover_options \<Rightarrow> 's process \<Rightarrow> (thrown + unit) \<times> 's process" where
  "discover_command deps options p =
     (if do_dryRun options \<and> do_storeRaw options
      then refuse (ErrorDoc ''discover accepts only one mode: --dry-run or --store-raw'') p
      else if do_stage options \<and> \<not> do_storeRaw options
      then refuse (ErrorDoc ''discover --stage requires --store-raw'') p
      else if do_storeRaw options then runStoreRawDiscovery deps (do_stage options) p
      else if \<not> do_dryRun options then refuse (ErrorDoc ''discover requires --dry-run or --store-raw'') p
      else runDryRunDiscovery deps p)"

subsection \<open>check and contract-check\<close>

text \<open>The pool is ended whatever the probe does; an error of ending it replaces the probe's result.\<close>

definition runStagingCheck :: "'s cli_deps \<Rightarrow> 's \<Rightarrow> (thrown + connectivity_check) \<times> 's" where
  "runStagingCheck deps s =
     (case checkPostgresConnectivity (cl_query deps) s of
        (r, s) \<Rightarrow> (case cl_endPool deps s of (Inl e, s) \<Rightarrow> (Inl e, s) | (Inr _, s) \<Rightarrow> (Inr r, s)))"

definition run_checks :: "'s cli_deps \<Rightarrow> app_config \<Rightarrow> 's \<Rightarrow> (thrown + connectivity_results) \<times> 's" where
  "run_checks deps config s =
     (let s = cl_createPgPool deps (ac_databaseUrl config) s in
      case cl_parse deps (sc_url (ac_source config)) of
        None \<Rightarrow> (Inl invalid_url_error, s)
      | Some u \<Rightarrow>
          (case checkSourceConnectivity (cl_fetchText deps (ac_source config)) u s of
             (Inl e, s) \<Rightarrow> (Inl e, s)
           | (Inr source, s) \<Rightarrow>
               (case checkS3Connectivity (cl_headBucket deps config) (s3_bucket (ac_s3 config)) s of
                  (s3, s) \<Rightarrow>
                    (case runStagingCheck deps s of
                       (Inl e, s) \<Rightarrow> (Inl e, s)
                     | (Inr staging, s) \<Rightarrow> (Inr \<lparr>cn_s3 = s3, cn_source = source, cn_staging = staging\<rparr>, s)))))"

definition check_command :: "'s cli_deps \<Rightarrow> 's process \<Rightarrow> (thrown + unit) \<times> 's process" where
  "check_command deps p =
     (case loadStoreRawConfig deps of
        Inl e \<Rightarrow> (Inl e, p)
      | Inr (Inl issues) \<Rightarrow> refuse (CheckIssuesDoc issues) p
      | Inr (Inr config) \<Rightarrow>
          (case on_world (run_checks deps config) p of
             (Inl e, p) \<Rightarrow> (Inl e, p)
           | (Inr checks, p) \<Rightarrow>
               answer (connectivityOk checks) (CheckDoc (connectivityOk checks) checks (redactConfig config)) p))"

definition check_ok :: "check_result \<Rightarrow> bool" where
  "check_ok r = (case r of CheckOk _ _ \<Rightarrow> True | CheckFailed _ _ _ _ \<Rightarrow> False)"

definition probe_of :: "'s cli_deps \<Rightarrow> source_config \<Rightarrow> url \<Rightarrow> 's probe" where
  "probe_of deps config u =
     \<lparr>pb_sourceUrl = u, pb_parse = cl_parse deps, pb_resolve = cl_resolve deps, pb_fetch = cl_fetchText deps config\<rparr>"

definition contract_check_command :: "'s cli_deps \<Rightarrow> 's process \<Rightarrow> (thrown + unit) \<times> 's process" where
  "contract_check_command deps p =
     (case loadDryRunSourceConfig deps of
        Inl e \<Rightarrow> (Inl e, p)
      | Inr (Inl issues) \<Rightarrow> refuse (ContractIssuesDoc issues) p
      | Inr (Inr config) \<Rightarrow>
          (case cl_parse deps (sc_url config) of
             None \<Rightarrow> (Inl invalid_url_error, p)
           | Some u \<Rightarrow>
               (case on_world (runContractCheck (probe_of deps config u)) p of
                  (Inl e, p) \<Rightarrow> (Inl e, p)
                | (Inr result, p) \<Rightarrow> answer (check_ok result) (ContractDoc result) p)))"

subsection \<open>The boundary\<close>

text \<open>An exception that leaves a command is reported and the process exits with 1.\<close>

definition at_boundary :: "(thrown + unit) \<times> 's process \<Rightarrow> 's process" where
  "at_boundary r = (case r of (Inl e, p) \<Rightarrow> set_exit 1 p | (Inr _, p) \<Rightarrow> p)"

definition exit_status :: "'s process \<Rightarrow> nat" where
  "exit_status p = (case ps_exitCode p of None \<Rightarrow> 0 | Some n \<Rightarrow> n)"

end
