(* ===== verification/Run_Commands.thy ===== *)
theory Run_Commands
  imports Commands Watch_Loop
begin

text \<open>
  The commands that run an ingest: \<open>src/commands/run-once.ts\<close> and \<open>watch.ts\<close>. They compose a
  configuration, the resources built from it and the options of the command line into the input of
  \<open>runOnce\<close> and \<open>runWatchLoop\<close>. A command is \<open>None\<close> when its loop does not come to an end.

  \<open>rd_run\<close> and \<open>rd_watch\<close> give, for a configuration, what else is handed over: clocks, timers, logger,
  stores and the event loop. \<open>rd_listen\<close> and \<open>rd_unlisten\<close> install and remove the two signal handlers.
\<close>

record 's run_deps =
  rd_cli :: "'s cli_deps"
  rd_run :: "app_config \<Rightarrow> 's run_input"
  rd_watch :: "app_config \<Rightarrow> 's watch_input"
  rd_now :: "'s \<Rightarrow> int \<times> 's"
  rd_createRunId :: "int \<Rightarrow> 's \<Rightarrow> string \<times> 's"
  rd_flush :: "'s \<Rightarrow> (thrown + unit) \<times> 's"
  rd_listen :: "'s \<Rightarrow> 's"
  rd_unlisten :: "'s \<Rightarrow> 's"

record run_once_options =
  oo_resume :: bool
  oo_emitEvidence :: bool
  oo_evidenceFile :: "string option"

definition requireStagingRepository :: "'r option \<Rightarrow> thrown + 'r" where
  "requireStagingRepository repository =
     (case repository of None \<Rightarrow> Inl invariant_violation | Some r \<Rightarrow> Inr r)"

text \<open>The summary of a run that never started, and its exit code.\<close>

definition refuse_config ::
    "'s run_deps \<Rightarrow> string list \<Rightarrow> int \<Rightarrow> string \<Rightarrow> 's process \<Rightarrow> (thrown + unit) \<times> 's process" where
  "refuse_config deps issues startedAt runId p =
     (case on_world (rd_now deps) p of
        (finishedAt, p) \<Rightarrow>
          (let summary = buildConfigInvalidRunSummary (toISOString finishedAt) issues runId (toISOString startedAt)
           in (Inr (), set_exit (runExitCode (cs_ok summary) None) (writeJson (ConfigSummaryDoc summary) p))))"

definition start_command :: "'s run_deps \<Rightarrow> 's process \<Rightarrow> (int \<times> string) \<times> 's process" where
  "start_command deps p =
     (case on_world (rd_now deps) p of
        (startedAt, p) \<Rightarrow> apfst (Pair startedAt) (on_world (rd_createRunId deps startedAt) p))"

subsection \<open>run-once\<close>

definition run_once_input ::
    "'s run_deps \<Rightarrow> app_config \<Rightarrow> 's resources \<Rightarrow> (string option \<Rightarrow> store_result \<Rightarrow> 's \<Rightarrow> (thrown + staging_result) \<times> 's)
      \<Rightarrow> run_once_options \<Rightarrow> string \<Rightarrow> url \<Rightarrow> 's run_input" where
  "run_once_input deps config res repository options runId u =
     (rd_run deps config)
       \<lparr>rx_concurrency := nat (sc_concurrency (ac_source config)),
        rx_maxPages := map_option nat (sc_maxPages (ac_source config)),
        rx_requestSpacingMs := sc_requestSpacingMs (ac_source config),
        rx_resume := oo_resume options, rx_runId := runId, rx_sourceUrl := u,
        rx_now := rd_now deps,
        rx_discover := cl_discover (rd_cli deps) (ac_source config) (sc_retryAttempts (ac_source config)),
        rx_store := rr_storage res, rx_stage := repository,
        rx_emitEvidence := oo_emitEvidence options, rx_evidenceFile := oo_evidenceFile options\<rparr>"

definition run_once_work ::
    "'s run_deps \<Rightarrow> app_config \<Rightarrow> run_once_options \<Rightarrow> string \<Rightarrow> 's \<Rightarrow> ((thrown + nat \<times> run_summary) \<times> 's) option" where
  "run_once_work deps config options runId s =
     (case createStoreRawResources (rd_cli deps) config True s of
        (res, s) \<Rightarrow>
          (case cl_parse (rd_cli deps) (sc_url (ac_source config)) of
             None \<Rightarrow> Some (Inl invalid_url_error, s)
           | Some u \<Rightarrow>
               (case requireStagingRepository (rr_stagingRepository res) of
                  Inl e \<Rightarrow> Some (Inl e, s)
                | Inr repository \<Rightarrow> runOnce (run_once_input deps config res repository options runId u) s)))"

text \<open>The summary is written first, then the logger is flushed, then the exit code is set.\<close>

definition finish_run_once ::
    "'s run_deps \<Rightarrow> nat \<Rightarrow> run_summary \<Rightarrow> 's process \<Rightarrow> (thrown + unit) \<times> 's process" where
  "finish_run_once deps code summary p =
     (case on_world (rd_flush deps) (writeJson (SummaryDoc (toCompactSummary summary)) p) of
        (Inl e, p) \<Rightarrow> (Inl e, p)
      | (Inr _, p) \<Rightarrow> (Inr (), set_exit code p))"

definition run_once_command ::
    "'s run_deps \<Rightarrow> run_once_options \<Rightarrow> 's process \<Rightarrow> ((thrown + unit) \<times> 's process) option" where
  "run_once_command deps options p =
     (case start_command deps p of
        ((startedAt, runId), p) \<Rightarrow>
          (case loadStoreRawConfig (rd_cli deps) of
             Inl e \<Rightarrow> Some (Inl e, p)
           | Inr (Inl issues) \<Rightarrow> Some (refuse_config deps issues startedAt runId p)
           | Inr (Inr config) \<Rightarrow>
               (case run_once_work deps config options runId (ps_world p) of
                  None \<Rightarrow> None
                | Some (Inl e, s) \<Rightarrow> Some (Inl e, p\<lparr>ps_world := s\<rparr>)
                | Some (Inr (code, summary), s) \<Rightarrow> Some (finish_run_once deps code summary (p\<lparr>ps_world := s\<rparr>)))))"

subsection \<open>watch\<close>

definition watch_input_of ::
    "'s run_deps \<Rightarrow> app_config \<Rightarrow> 's resources \<Rightarrow> (string option \<Rightarrow> store_result \<Rightarrow> 's \<Rightarrow> (thrown + staging_result) \<times> 's)
      \<Rightarrow> url \<Rightarrow> 's watch_input" where
  "watch_input_of deps config res repository u =
     (rd_watch deps config)
       \<lparr>wa_attempts := Some (nat (sc_retryAttempts (ac_source config))),
        wa_concurrency := nat (sc_concurrency (ac_source config)),
        wa_heartbeatPath := sc_watchHeartbeatPath (ac_source config),
        wa_intervalMs := nat (sc_watchIntervalMs (ac_source config)),
        wa_requestSpacingMs := nat (sc_requestSpacingMs (ac_source config)),
        wa_sourceUrl := u, wa_now := rd_now deps, wa_createRunId := rd_createRunId deps,
        wa_store := rr_storage res, wa_stage := (\<lambda>runId. repository (Some runId))\<rparr>"

text \<open>The protected part: the loop, and the flush after it. \<open>Inr\<close> carries the exit code.\<close>

definition watch_work :: "'s run_deps \<Rightarrow> app_config \<Rightarrow> 's resources \<Rightarrow> 's \<Rightarrow> ((thrown + nat) \<times> 's) option" where
  "watch_work deps config res s =
     (case cl_parse (rd_cli deps) (sc_url (ac_source config)) of
        None \<Rightarrow> Some (Inl invalid_url_error, s)
      | Some u \<Rightarrow>
          (case requireStagingRepository (rr_stagingRepository res) of
             Inl e \<Rightarrow> Some (Inl e, s)
           | Inr repository \<Rightarrow>
               (case runWatchLoop (watch_input_of deps config res repository u) s of
                  None \<Rightarrow> None
                | Some (code, s) \<Rightarrow>
                    (case rd_flush deps s of (Inl e, s) \<Rightarrow> Some (Inl e, s) | (Inr _, s) \<Rightarrow> Some (Inr code, s)))))"

definition watch_command :: "'s run_deps \<Rightarrow> 's process \<Rightarrow> ((thrown + unit) \<times> 's process) option" where
  "watch_command deps p =
     (case start_command deps p of
        ((startedAt, runId), p) \<Rightarrow>
          (case loadStoreRawConfig (rd_cli deps) of
             Inl e \<Rightarrow> Some (Inl e, p)
           | Inr (Inl issues) \<Rightarrow> Some (refuse_config deps issues startedAt runId p)
           | Inr (Inr config) \<Rightarrow>
               (case createStoreRawResources (rd_cli deps) config True (ps_world p) of
                  (res, s) \<Rightarrow>
                    (case watch_work deps config res (rd_listen deps s) of
                       None \<Rightarrow> None
                     | Some (r, s) \<Rightarrow>
                         (let s = rd_unlisten deps (snd (rr_dispose res (False, s))); p = p\<lparr>ps_world := s\<rparr>
                          in Some (case r of Inl e \<Rightarrow> (Inl e, p) | Inr code \<Rightarrow> (Inr (), set_exit code p)))))))"

end
