(* ===== verification/Command_Results.thy ===== *)
theory Command_Results
  imports Run_Commands Run_Results
begin

text \<open>
  What the commands promise to the scheduler that starts them: one document, an exit code that
  agrees with it, raw storage and staging in order, and what becomes of the database pool.
\<close>

subsection \<open>One document and its exit code\<close>

definition doc_ok :: "document \<Rightarrow> bool" where
  "doc_ok doc = (case doc of
       ReportDoc r \<Rightarrow> dr_ok r
     | StoreRawDoc r \<Rightarrow> sw_ok r
     | CheckDoc ok _ _ \<Rightarrow> ok
     | ContractDoc r \<Rightarrow> check_ok r
     | SummaryDoc c \<Rightarrow> co_ok c \<and> (co_status c = None \<or> co_status c = Some RunComplete)
     | _ \<Rightarrow> False)"

lemma doc_ok_simps [simp]:
  "doc_ok (ReportDoc r) = dr_ok r" "doc_ok (StoreRawDoc d) = sw_ok d" "doc_ok (CheckDoc ok checks c) = ok"
  "doc_ok (ContractDoc v) = check_ok v" "\<not> doc_ok (ErrorDoc t)" "\<not> doc_ok (IssuesDoc t issues)"
  "\<not> doc_ok (CheckIssuesDoc issues)" "\<not> doc_ok (ContractIssuesDoc issues)" "\<not> doc_ok (ConfigSummaryDoc cs)"
  by (simp_all add: doc_ok_def)

definition fresh :: "'s \<Rightarrow> 's process" where
  "fresh s = \<lparr>ps_stdout = [], ps_exitCode = None, ps_world = s\<rparr>"

lemma fresh_sel [simp]: "ps_stdout (fresh s) = []" "ps_exitCode (fresh s) = None" "ps_world (fresh s) = s"
  by (simp_all add: fresh_def)

text \<open>An answered command wrote one document; one that failed left the exit code to the boundary.\<close>

definition answered :: "(thrown + unit) \<times> 's process \<Rightarrow> bool" where
  "answered r = (case r of
       (Inl e, p) \<Rightarrow> ps_stdout p = [] \<and> ps_exitCode p = None
     | (Inr _, p) \<Rightarrow> \<exists>doc. ps_stdout p = [doc] \<and> exit_status p = (if doc_ok doc then 0 else 2))"

lemma on_world_keeps:
  "on_world f p = (r, p') \<Longrightarrow> ps_stdout p' = ps_stdout p \<and> ps_exitCode p' = ps_exitCode p"
  by (auto simp: on_world_def split: prod.splits)

lemma answered_refuse:
  "ps_stdout p = [] \<Longrightarrow> \<not> doc_ok doc \<Longrightarrow> answered (refuse doc p)"
  by (simp add: answered_def refuse_def writeJson_def set_exit_def exit_status_def)

lemma answered_answer:
  "ps_stdout p = [] \<Longrightarrow> ps_exitCode p = None \<Longrightarrow> doc_ok doc = ok \<Longrightarrow> answered (answer ok doc p)"
  by (auto simp: answered_def answer_def writeJson_def set_exit_def exit_status_def Let_def)

lemma answered_throws:
  "ps_stdout p = [] \<Longrightarrow> ps_exitCode p = None \<Longrightarrow> answered (Inl e, p)"
  by (simp add: answered_def)

lemmas answered_intros = answered_refuse answered_answer answered_throws

text \<open>A command that works on the surroundings and then answers.\<close>

lemma answered_after:
  assumes "ps_stdout p = []" "ps_exitCode p = None"
    "\<And>p' x. ps_stdout p' = [] \<Longrightarrow> ps_exitCode p' = None \<Longrightarrow> answered (k x p')"
  shows "answered (case on_world f p of (Inl e, p) \<Rightarrow> (Inl e, p) | (Inr x, p) \<Rightarrow> k x p)"
  using assms by (auto simp: answered_throws split: prod.split sum.split dest: on_world_keeps)

lemma discover_answered: "answered (discover_command deps options (fresh s))"
proof -
  have dry: "answered (runDryRunDiscovery deps (fresh s))"
    unfolding runDryRunDiscovery_def
    by (auto split: sum.split intro!: answered_intros answered_after)
  have raw: "answered (runStoreRawDiscovery deps b (fresh s))" for b
    unfolding runStoreRawDiscovery_def
    by (auto split: sum.split prod.split intro!: answered_intros simp: Let_def dest!: on_world_keeps)
  show ?thesis
    by (simp add: discover_command_def dry raw answered_refuse)
qed

lemma check_answered: "answered (check_command deps (fresh s))"
  unfolding check_command_def
  by (auto split: sum.split intro!: answered_intros answered_after)

lemma contract_check_answered: "answered (contract_check_command deps (fresh s))"
  unfolding contract_check_command_def
  by (auto split: sum.split option.split intro!: answered_intros answered_after)

lemma runOnce_code:
  assumes "runOnce input s = Some (Inr (code, sm), s')"
  shows "code = runExitCode (su_ok sm) (su_status sm)"
proof -
  obtain st slug startedAt s1 where "assembleResult input st slug startedAt s1 = ((code, sm), s')"
    using assms by (auto simp: runOnce_def Let_def split: prod.splits sum.splits option.splits)
  with assembleResult_fst [of input st slug startedAt s1] show ?thesis by (auto simp: summary_exit_code_def)
qed

lemma watch_loop_code: "watch_loop input pacer s = Some q \<Longrightarrow> fst q = 0"
proof (rule watch_loop.raw_induct [where P = "\<lambda>_ _ _ q. fst q = 0"])
  fix loop :: "'a watch_input \<Rightarrow> pacer \<Rightarrow> 'a \<Rightarrow> (nat \<times> 'a) option" and input pacer s q
  assume IH: "\<And>input pacer s q. loop input pacer s = Some q \<Longrightarrow> fst q = 0"
    and "Option.bind (watch_turn input pacer s)
      (\<lambda>(next, s). case next of None \<Rightarrow> Some (0, s) | Some pacer \<Rightarrow> loop input pacer s) = Some q"
  then obtain next_pacer s1 where
    "(case next_pacer of None \<Rightarrow> Some (0, s1) | Some pacer \<Rightarrow> loop input pacer s1) = Some q"
    by (auto simp: bind_eq_Some_conv)
  with IH show "fst q = 0" by (cases next_pacer) auto
qed

lemma refuse_config_answered:
  assumes "ps_stdout p = []"
  shows "answered (refuse_config deps issues startedAt runId p)"
proof -
  obtain t p1 where t: "on_world (rd_now deps) p = (t, p1)" by (cases "on_world (rd_now deps) p")
  with assms have "ps_stdout p1 = []" by (simp add: on_world_keeps)
  then show ?thesis
    by (simp add: refuse_config_def t answered_def writeJson_def set_exit_def exit_status_def runExitCode_def
      buildConfigInvalidRunSummary_def Let_def)
qed

lemma start_keeps:
  "start_command deps p = (x, p') \<Longrightarrow> ps_stdout p' = ps_stdout p \<and> ps_exitCode p' = ps_exitCode p"
  by (auto simp: start_command_def apfst_def map_prod_def split: prod.splits dest!: on_world_keeps)

definition failed_late :: "(thrown + unit) \<times> 's process \<Rightarrow> bool" where
  "failed_late r \<longleftrightarrow> (\<exists>e p. r = (Inl e, p) \<and> ps_exitCode p = None \<and> length (ps_stdout p) = 1)"

lemma finish_run_once_answered:
  assumes "ps_stdout p = []" "ps_exitCode p = None" "code = runExitCode (su_ok sm) (su_status sm)"
  shows "answered (finish_run_once deps code sm p) \<or> failed_late (finish_run_once deps code sm p)"
proof -
  let ?p = "writeJson (SummaryDoc (toCompactSummary sm)) p"
  obtain r p1 where f: "on_world (rd_flush deps) ?p = (r, p1)" by (cases "on_world (rd_flush deps) ?p")
  with assms have "ps_stdout p1 = [SummaryDoc (toCompactSummary sm)]" "ps_exitCode p1 = None"
    by (auto dest!: on_world_keeps simp: writeJson_def)
  moreover have "doc_ok (SummaryDoc (toCompactSummary sm)) \<longleftrightarrow> code = 0" "code \<in> {0, 2}"
    using assms(3) by (auto simp: doc_ok_def toCompactSummary_def runExitCode_def)
  moreover have "finish_run_once deps code sm p = (case r of Inl e \<Rightarrow> (Inl e, p1) | Inr _ \<Rightarrow> (Inr (), set_exit code p1))"
    unfolding finish_run_once_def f by simp
  ultimately show ?thesis
    by (cases r) (auto simp: answered_def failed_late_def set_exit_def exit_status_def)
qed

lemma run_once_work_code:
  "run_once_work deps config options runId s = Some (Inr (code, sm), s') \<Longrightarrow> code = runExitCode (su_ok sm) (su_status sm)"
  by (auto simp: run_once_work_def split: prod.splits option.splits sum.splits dest: runOnce_code)

lemma run_once_answered:
  assumes "run_once_command deps options (fresh s) = Some r"
  shows "answered r \<or> failed_late r"
proof -
  obtain startedAt runId p where start: "start_command deps (fresh s) = ((startedAt, runId), p)"
    by (metis prod.exhaust)
  with start_keeps [OF start] have p: "ps_stdout p = []" "ps_exitCode p = None" by simp_all
  note run = assms [unfolded run_once_command_def start prod.case]
  consider (throws) e where "loadStoreRawConfig (rd_cli deps) = Inl e"
    | (issues) issues where "loadStoreRawConfig (rd_cli deps) = Inr (Inl issues)"
    | (config) config where "loadStoreRawConfig (rd_cli deps) = Inr (Inr config)"
    by (metis sum.exhaust)
  then show ?thesis
  proof cases
    case config
    then obtain w s1 where work: "run_once_work deps config options runId (ps_world p) = Some (w, s1)"
      and r: "r = (case w of Inl e \<Rightarrow> (Inl e, p\<lparr>ps_world := s1\<rparr>)
        | Inr (code, sm) \<Rightarrow> finish_run_once deps code sm (p\<lparr>ps_world := s1\<rparr>))"
      using run by (auto split: option.splits sum.splits)
    show ?thesis
    proof (cases w)
      case (Inr x)
      with work r p run_once_work_code [of deps config options runId "ps_world p" "fst x" "snd x" s1]
        finish_run_once_answered [of "p\<lparr>ps_world := s1\<rparr>" "fst x" "snd x" deps]
      show ?thesis by (simp add: case_prod_beta)
    qed (use r p in \<open>simp add: answered_throws\<close>)
  qed (use run p in \<open>auto simp: answered_throws refuse_config_answered\<close>)
qed

lemma watch_work_code: "watch_work deps config res s = Some (Inr code, s') \<Longrightarrow> code = 0"
  by (auto simp: watch_work_def runWatchLoop_def split: option.splits sum.splits prod.splits dest: watch_loop_code)

text \<open>A watch that was told to stop wrote nothing and exits with 0.\<close>

definition stopped_cleanly :: "(thrown + unit) \<times> 's process \<Rightarrow> bool" where
  "stopped_cleanly r \<longleftrightarrow> (\<exists>p. r = (Inr (), p) \<and> ps_stdout p = [] \<and> exit_status p = 0)"

lemma watch_answered:
  assumes "watch_command deps (fresh s) = Some r"
  shows "(if is_ok (cl_loadConfig (rd_cli deps)) then stopped_cleanly r \<or> (\<exists>e p. r = (Inl e, p) \<and> answered r) else answered r)"
proof -
  obtain startedAt runId p where start: "start_command deps (fresh s) = ((startedAt, runId), p)"
    by (metis prod.exhaust)
  with start_keeps [OF start] have p: "ps_stdout p = []" "ps_exitCode p = None" by simp_all
  note run = assms [unfolded watch_command_def start prod.case]
  consider (throws) e where "loadStoreRawConfig (rd_cli deps) = Inl e" "\<not> is_ok (cl_loadConfig (rd_cli deps))"
    | (issues) issues where "loadStoreRawConfig (rd_cli deps) = Inr (Inl issues)" "\<not> is_ok (cl_loadConfig (rd_cli deps))"
    | (config) config where "loadStoreRawConfig (rd_cli deps) = Inr (Inr config)" "is_ok (cl_loadConfig (rd_cli deps))"
    by (cases "cl_loadConfig (rd_cli deps)" rule: load_cases) (auto simp: loadStoreRawConfig_def loaded_def)
  then show ?thesis
  proof cases
    case config
    obtain res s1 where res: "createStoreRawResources (rd_cli deps) config True (ps_world p) = (res, s1)"
      by (cases "createStoreRawResources (rd_cli deps) config True (ps_world p)")
    from run config res obtain w s2 where work: "watch_work deps config res (rd_listen deps s1) = Some (w, s2)"
      and r: "r = (case w of
          Inl e \<Rightarrow> (Inl e, p\<lparr>ps_world := rd_unlisten deps (snd (rr_dispose res (False, s2)))\<rparr>)
        | Inr code \<Rightarrow> (Inr (), set_exit code (p\<lparr>ps_world := rd_unlisten deps (snd (rr_dispose res (False, s2)))\<rparr>)))"
      by (auto simp: Let_def split: option.splits)
    show ?thesis
    proof (cases w)
      case (Inl e)
      with r p config(2) show ?thesis by (simp add: answered_throws)
    next
      case (Inr code)
      with work watch_work_code have "code = 0" by metis
      with r p config(2) Inr show ?thesis
        by (simp add: stopped_cleanly_def set_exit_def exit_status_def)
    qed
  qed (use run p in \<open>auto simp: answered_throws refuse_config_answered\<close>)
qed

text \<open>
  What a scheduler learns from a command. \<open>discover\<close>, \<open>check\<close> and \<open>contract-check\<close> write exactly one
  document, whatever their options, and exit with 0 when it says ok and with 2 when it does not;
  or they write nothing and leave their exception to the boundary, which exits with 1. A \<open>run-once\<close>
  that returns does the same, where its summary says ok and complete exactly when it exits with 0,
  except that the flush of the logger may still fail after the document is out. A \<open>watch\<close> whose
  configuration is refused answers like that too; one that was started writes nothing and
  exits with 0 unless something threw.
\<close>

theorem commands_answer:
  "answered (discover_command (rd_cli deps) options (fresh s)) \<and>
   answered (check_command (rd_cli deps) (fresh s)) \<and>
   answered (contract_check_command (rd_cli deps) (fresh s)) \<and>
   (case run_once_command deps run_options (fresh s) of
      None \<Rightarrow> True
    | Some r \<Rightarrow> answered r \<or> failed_late r) \<and>
   (case watch_command deps (fresh s) of
      None \<Rightarrow> True
    | Some r \<Rightarrow>
        if is_ok (cl_loadConfig (rd_cli deps)) then stopped_cleanly r \<or> (\<exists>e p. r = (Inl e, p) \<and> answered r)
        else answered r)"
proof (intro conjI)
  show "case run_once_command deps run_options (fresh s) of None \<Rightarrow> True | Some r \<Rightarrow> answered r \<or> failed_late r"
    by (cases "run_once_command deps run_options (fresh s)") (simp_all add: run_once_answered)
  show "case watch_command deps (fresh s) of None \<Rightarrow> True
    | Some r \<Rightarrow> if is_ok (cl_loadConfig (rd_cli deps)) then stopped_cleanly r \<or> (\<exists>e p. r = (Inl e, p) \<and> answered r)
        else answered r"
  proof (cases "watch_command deps (fresh s)")
    case (Some r)
    from watch_answered [OF this] show ?thesis unfolding Some option.case .
  qed simp
qed (simp_all add: discover_answered check_answered contract_check_answered)

end
