(* ===== verification/Command_Line.thy ===== *)
theory Command_Line
  imports Command_Results
begin

text \<open>
  The program as it is started: the logger (\<open>src/logging/create-logger.ts\<close>), error reporting
  (\<open>src/observability/\<close>), the dependencies of the commands (\<open>src/commands/shared.ts\<close>), the command
  line with its commands and options, and the entry of the binary (\<open>src/cli.ts\<close>).

  The libraries are surroundings: what the SDK does to report and flush is a record of operations, the
  reading of the arguments by the command library ends in an \<open>invocation\<close>.
\<close>

subsection \<open>Logger\<close>

datatype destination = Stderr | GivenStream nat

record logger_options =
  lo_level :: "string option"
  lo_destination :: "destination option"

record logger =
  lg_level :: string
  lg_paths :: "string list"
  lg_censor :: string
  lg_destination :: destination

definition REDACT_PATHS :: "string list" where
  "REDACT_PATHS = [''config.s3.accessKeyId'', ''config.s3.secretAccessKey'', ''config.sourceSshCommand'',
     ''config.staging.databaseUrl'', ''*.accessKeyId'', ''*.secretAccessKey'', ''*.sourceSshCommand'',
     ''*.databaseUrl'']"

definition createLogger :: "(string \<Rightarrow> string option) \<Rightarrow> logger_options \<Rightarrow> logger" where
  "createLogger env options =
     \<lparr>lg_level = (case lo_level options of
          Some l \<Rightarrow> l
        | None \<Rightarrow> (case env ''LOG_LEVEL'' of Some l \<Rightarrow> l | None \<Rightarrow> ''info'')),
      lg_paths = REDACT_PATHS, lg_censor = ''[redacted]'',
      lg_destination = (case lo_destination options of Some d \<Rightarrow> d | None \<Rightarrow> Stderr)\<rparr>"

text \<open>\<open>flush\<close> hands its callback an error or nothing.\<close>

definition flushLogger :: "('s \<Rightarrow> thrown option \<times> 's) \<Rightarrow> 's \<Rightarrow> (thrown + unit) \<times> 's" where
  "flushLogger flush s = (case flush s of (Some e, s) \<Rightarrow> (Inl e, s) | (None, s) \<Rightarrow> (Inr (), s))"

subsection \<open>Error reporting\<close>

record 's sentry =
  se_init :: "string option \<Rightarrow> string \<Rightarrow> 's \<Rightarrow> 's"
  se_captureException :: "thrown \<Rightarrow> 's \<Rightarrow> 's"
  se_flush :: "nat \<Rightarrow> 's \<Rightarrow> (thrown + bool) \<times> 's"

definition DEFAULT_ENVIRONMENT :: string where "DEFAULT_ENVIRONMENT = ''staging''"

definition DEFAULT_FLUSH_TIMEOUT_MS :: nat where "DEFAULT_FLUSH_TIMEOUT_MS = 2000"

definition initSentry :: "'s sentry \<Rightarrow> (string \<Rightarrow> string option) \<Rightarrow> 's \<Rightarrow> 's" where
  "initSentry sdk env = se_init sdk (env ''SENTRY_DSN'')
     (case env ''NODE_ENV'' of Some e \<Rightarrow> e | None \<Rightarrow> DEFAULT_ENVIRONMENT)"

definition captureFatal :: "'s sentry \<Rightarrow> thrown \<Rightarrow> 's \<Rightarrow> 's" where
  "captureFatal sdk = se_captureException sdk"

definition flushSentry :: "'s sentry \<Rightarrow> nat option \<Rightarrow> 's \<Rightarrow> (thrown + bool) \<times> 's" where
  "flushSentry sdk timeoutMs =
     se_flush sdk (case timeoutMs of Some t \<Rightarrow> t | None \<Rightarrow> DEFAULT_FLUSH_TIMEOUT_MS)"

subsection \<open>Dependencies\<close>

definition dependency_names :: "string list" where
  "dependency_names = [''checkPostgresConnectivity'', ''checkS3Connectivity'', ''checkSourceConnectivity'',
     ''createLogger'', ''createPgPool'', ''createRunId'', ''createReplayByteClient'', ''createS3CheckpointStore'',
     ''createS3Client'', ''createS3EvidenceStore'', ''createPostgresStagingRepository'', ''createS3RawReplayStorage'',
     ''createSourceClient'', ''discoverReplaysDryRun'', ''loadConfig'', ''runContractCheck'', ''loadSourceConfig'',
     ''now'', ''runOnce'', ''runWatchLoop'', ''stageRawReplay'', ''storeRawReplay'', ''writeEvidenceFile'',
     ''writeHeartbeat'']"

text \<open>The program's own operation under each name, and those that were handed over in their place.\<close>

definition resolveDependencies :: "(string \<Rightarrow> 'd) \<Rightarrow> (string \<Rightarrow> 'd option) \<Rightarrow> string \<Rightarrow> 'd option" where
  "resolveDependencies own dependencies =
     map_of (map (\<lambda>n. (n, own n)) dependency_names) ++ dependencies"

lemma resolveDependencies_required:
  "n \<in> set dependency_names \<Longrightarrow>
   resolveDependencies own dependencies n = Some (case dependencies n of Some d \<Rightarrow> d | None \<Rightarrow> own n)"
  by (simp add: resolveDependencies_def map_add_def map_of_map_restrict restrict_map_def split: option.split)

subsection \<open>Commands and options\<close>

record command_option =
  cp_flags :: string
  cp_description :: string

record command_spec =
  cm_name :: string
  cm_description :: string
  cm_options :: "command_option list"

definition check_spec :: command_spec where
  "check_spec = \<lparr>cm_name = ''check'', cm_description = ''Validate required configuration before running ingest work'',
     cm_options = []\<rparr>"

definition discover_spec :: command_spec where
  "discover_spec = \<lparr>cm_name = ''discover'', cm_description = ''Discover replay candidates'', cm_options =
     [\<lparr>cp_flags = ''--dry-run'', cp_description = ''report candidates without writing S3 or staging records''\<rparr>,
      \<lparr>cp_flags = ''--store-raw'',
       cp_description = ''discover candidates and store raw replay objects without staging''\<rparr>,
      \<lparr>cp_flags = ''--stage'', cp_description = ''write pending server-2 staging rows after raw storage''\<rparr>]\<rparr>"

definition run_once_spec :: command_spec where
  "run_once_spec = \<lparr>cm_name = ''run-once'', cm_description = ''Execute one scheduled ingest cycle'', cm_options =
     [\<lparr>cp_flags = ''--resume'', cp_description = ''resume from the last completed page using the source checkpoint''\<rparr>,
      \<lparr>cp_flags = ''--emit-evidence'', cp_description = ''write a durable per-candidate evidence artifact to S3''\<rparr>,
      \<lparr>cp_flags = ''--evidence-file <path>'',
       cp_description = ''also write the evidence artifact to a local file (dev only)''\<rparr>]\<rparr>"

definition watch_spec :: command_spec where
  "watch_spec = \<lparr>cm_name = ''watch'',
     cm_description = ''Run an always-on page-1 poll loop, ingesting new replays within seconds'', cm_options = []\<rparr>"

definition contract_check_spec :: command_spec where
  "contract_check_spec = \<lparr>cm_name = ''contract-check'', cm_description =
     ''Verify the live source contract: list page, first detail, and its raw JSON endpoint '' @
     [CHR 0xE2, CHR 0x80, CHR 0x94] @ '' no S3/PostgreSQL writes.'', cm_options = []\<rparr>"

record cli_program =
  pg_name :: string
  pg_description :: string
  pg_version :: string
  pg_commands :: "command_spec list"

definition buildCli :: cli_program where
  "buildCli = \<lparr>pg_name = ''replays-fetcher'', pg_description = ''Solid Stats replay ingest service'',
     pg_version = ''0.1.0'',
     pg_commands = [check_spec, discover_spec, run_once_spec, watch_spec, contract_check_spec]\<rparr>"

text \<open>What the command library makes of the arguments: a command of the list with its options.\<close>

datatype invocation =
    CheckInvocation
  | DiscoverInvocation discover_options
  | RunOnceInvocation run_once_options
  | WatchInvocation
  | ContractCheckInvocation

fun run_command :: "'s run_deps \<Rightarrow> invocation \<Rightarrow> 's process \<Rightarrow> ((thrown + unit) \<times> 's process) option" where
  "run_command deps CheckInvocation p = Some (check_command (rd_cli deps) p)"
| "run_command deps (DiscoverInvocation options) p = Some (discover_command (rd_cli deps) options p)"
| "run_command deps (RunOnceInvocation options) p = run_once_command deps options p"
| "run_command deps WatchInvocation p = watch_command deps p"
| "run_command deps ContractCheckInvocation p = Some (contract_check_command (rd_cli deps) p)"

subsection \<open>The entry\<close>

text \<open>
  The binary initialises error reporting first. When the module is the entry point, it runs the
  command, reports what was thrown and sets the exit code to 1, and flushes the reports in any case. A flush
  that rejects leaves the module by an exception, which the platform answers with the exit code 1.
\<close>

definition at_entry :: "'s sentry \<Rightarrow> (thrown + unit) \<times> 's process \<Rightarrow> 's process" where
  "at_entry sdk r = (case r of
       (Inl e, p) \<Rightarrow> at_boundary (Inl e, p\<lparr>ps_world := captureFatal sdk e (ps_world p)\<rparr>)
     | (Inr u, p) \<Rightarrow> at_boundary (Inr u, p))"

definition cli_main ::
    "'s sentry \<Rightarrow> (string \<Rightarrow> string option) \<Rightarrow> bool \<Rightarrow> 's run_deps \<Rightarrow> invocation \<Rightarrow> 's
      \<Rightarrow> ((thrown + bool) \<times> 's process) option" where
  "cli_main sdk env is_entry deps invocation s =
     (let p = fresh (initSentry sdk env s) in
      if \<not> is_entry then Some (Inr True, p)
      else (case run_command deps invocation p of
              None \<Rightarrow> None
            | Some r \<Rightarrow> Some (on_world (flushSentry sdk None) (at_entry sdk r))))"





text \<open>Importing the module is enough to initialise error reporting.\<close>

lemma import_initialises: "cli_main sdk env False deps invocation s = Some (Inr True, fresh (initSentry sdk env s))"
  by (simp add: cli_main_def Let_def)

text \<open>The commands build their logger without options, so that it never writes to the standard output.\<close>

lemma default_logger_stderr:
  "lg_destination (createLogger env \<lparr>lo_level = l, lo_destination = None\<rparr>) = Stderr"
  by (simp add: createLogger_def)

end
