(* ===== verification/Command_Effects.thy ===== *)
theory Command_Effects
  imports Commands
begin

text \<open>
  What the commands do to their surroundings: the order of raw storage and staging in
  \<open>discover --store-raw\<close>, what its report counts, and which commands leave the database pool open.
\<close>

subsection \<open>Ghost state\<close>

text \<open>
  Dependencies beside a ghost: a state that the raw step of a candidate, a staging step, opening the
  pool and ending it each change before they do their work, and that nothing else touches.
\<close>

record 'x ghost =
  gh_store :: "replay_candidate \<Rightarrow> 'x \<Rightarrow> 'x"
  gh_stage :: "store_result \<Rightarrow> 'x \<Rightarrow> 'x"
  gh_open :: "'x \<Rightarrow> 'x"
  gh_end :: "'x \<Rightarrow> 'x"

definition after :: "('x \<Rightarrow> 'x) \<Rightarrow> ('s \<Rightarrow> 'r \<times> 's) \<Rightarrow> 'x \<times> 's \<Rightarrow> 'r \<times> ('x \<times> 's)" where
  "after g f st = beside f (g (fst st), snd st)"

definition with_ghost :: "'x ghost \<Rightarrow> 's cli_deps \<Rightarrow> ('x \<times> 's) cli_deps" where
  "with_ghost g deps =
     \<lparr>cl_loadConfig = cl_loadConfig deps, cl_loadSourceConfig = cl_loadSourceConfig deps,
      cl_parse = cl_parse deps, cl_resolve = cl_resolve deps,
      cl_fetchText = (\<lambda>config u. beside (cl_fetchText deps config u)),
      cl_discover = (\<lambda>config attempts u. beside (cl_discover deps config attempts u)),
      cl_store = (\<lambda>config c. after (gh_store g c) (cl_store deps config c)),
      cl_stage = (\<lambda>config runId r. after (gh_stage g r) (cl_stage deps config runId r)),
      cl_createPgPool = (\<lambda>address st. (gh_open g (fst st), cl_createPgPool deps address (snd st))),
      cl_endPool = after (gh_end g) (cl_endPool deps),
      cl_query = (\<lambda>sql. beside (cl_query deps sql)),
      cl_headBucket = (\<lambda>config bucket. beside (cl_headBucket deps config bucket)),
      cl_destroyS3 = beside (cl_destroyS3 deps),
      cl_warn = (\<lambda>message e st. (fst st, cl_warn deps message e (snd st)))\<rparr>"

lemma with_ghost_sel [simp]:
  "cl_loadConfig (with_ghost g deps) = cl_loadConfig deps"
  "cl_loadSourceConfig (with_ghost g deps) = cl_loadSourceConfig deps"
  "cl_parse (with_ghost g deps) = cl_parse deps"
  "cl_fetchText (with_ghost g deps) = (\<lambda>config u. beside (cl_fetchText deps config u))"
  "cl_discover (with_ghost g deps) = (\<lambda>config attempts u. beside (cl_discover deps config attempts u))"
  "cl_store (with_ghost g deps) = (\<lambda>config c. after (gh_store g c) (cl_store deps config c))"
  "cl_stage (with_ghost g deps) = (\<lambda>config runId r. after (gh_stage g r) (cl_stage deps config runId r))"
  "cl_createPgPool (with_ghost g deps) = (\<lambda>address st. (gh_open g (fst st), cl_createPgPool deps address (snd st)))"
  "cl_endPool (with_ghost g deps) = after (gh_end g) (cl_endPool deps)"
  "cl_query (with_ghost g deps) = (\<lambda>sql. beside (cl_query deps sql))"
  "cl_headBucket (with_ghost g deps) = (\<lambda>config bucket. beside (cl_headBucket deps config bucket))"
  by (simp_all add: with_ghost_def)

lemma after_fst [simp]: "fst (snd (after g f st)) = g (fst st)"
  by (simp add: after_def)

lemma after_result: "after g f st = (r, st') \<Longrightarrow> fst st' = g (fst st)"
  by (metis after_fst snd_conv)

lemma beside_result: "beside f st = (r, st') \<Longrightarrow> fst st' = fst st"
  by (metis beside_fst snd_conv)

lemma load_with_ghost [simp]:
  "loadStoreRawConfig (with_ghost g deps) = loadStoreRawConfig deps"
  "loadDryRunSourceConfig (with_ghost g deps) = loadDryRunSourceConfig deps"
  by (simp_all add: loadStoreRawConfig_def loadDryRunSourceConfig_def)

subsection \<open>Raw storage and staging, in order\<close>

datatype store_event = RawStep replay_candidate | StageStep store_result

definition step_notes :: "store_event list ghost" where
  "step_notes = \<lparr>gh_store = (\<lambda>c tr. tr @ [RawStep c]), gh_stage = (\<lambda>r tr. tr @ [StageStep r]), gh_open = id, gh_end = id\<rparr>"

lemma step_notes_sel [simp]:
  "gh_store step_notes c tr = tr @ [RawStep c]" "gh_stage step_notes r tr = tr @ [StageStep r]"
  "gh_open step_notes = id" "gh_end step_notes = id"
  by (simp_all add: step_notes_def)

definition steps_of :: "bool \<Rightarrow> replay_candidate \<times> store_result \<Rightarrow> store_event list" where
  "steps_of shouldStage q = RawStep (fst q) # (if shouldStage then [StageStep (snd q)] else [])"

text \<open>Events up to an exception: all steps of the candidates before, and the step that threw.\<close>

definition broke_off :: "bool \<Rightarrow> replay_candidate list \<Rightarrow> store_event list \<Rightarrow> bool" where
  "broke_off shouldStage cs tr \<longleftrightarrow>
     (\<exists>done_cs raws c rest. cs = done_cs @ c # rest \<and> length raws = length done_cs \<and>
        (tr = concat (map (steps_of shouldStage) (zip done_cs raws)) @ [RawStep c] \<or>
         (\<exists>raw. shouldStage \<and> tr = concat (map (steps_of shouldStage) (zip done_cs raws)) @ [RawStep c, StageStep raw])))"

lemma broke_off_Cons:
  "broke_off b cs tr \<Longrightarrow> broke_off b (c # cs) (steps_of b (c, raw) @ tr)"
proof -
  assume "broke_off b cs tr"
  then obtain done_cs raws c' rest where "cs = done_cs @ c' # rest" "length raws = length done_cs"
    "tr = concat (map (steps_of b) (zip done_cs raws)) @ [RawStep c'] \<or>
     (\<exists>raw. b \<and> tr = concat (map (steps_of b) (zip done_cs raws)) @ [RawStep c', StageStep raw])"
    unfolding broke_off_def by blast
  then show ?thesis
    unfolding broke_off_def
    by (intro exI [of _ "c # done_cs"] exI [of _ "raw # raws"] exI [of _ c'] exI [of _ rest]) auto
qed

lemma broke_off_raw: "broke_off b (c # cs) [RawStep c]"
  unfolding broke_off_def by (intro exI [of _ "[]"] exI [of _ c] exI [of _ cs]) simp

lemma broke_off_stage: "broke_off True (c # cs) [RawStep c, StageStep raw]"
  unfolding broke_off_def by (intro exI [of _ "[]"] exI [of _ c] exI [of _ cs]) simp

text \<open>The order of the steps, relative to what had been noted before.\<close>

lemma store_loop_noted:
  assumes "createStoreRawResources (with_ghost step_notes deps) config b st0 = (res, st1)"
  shows "case store_loop res b cs (tr, s) of
     (Inr (raws, stgs), (tr', _)) \<Rightarrow>
       length raws = length cs \<and> length stgs = (if b then length cs else 0) \<and>
       tr' = tr @ concat (map (steps_of b) (zip cs raws))
   | (Inl _, (tr', _)) \<Rightarrow> \<exists>new. tr' = tr @ new \<and> broke_off b cs new"
proof (induction cs arbitrary: tr s)
  case (Cons c cs)
  from assms have res: "rr_storage res = cl_store (with_ghost step_notes deps) config"
    "rr_stagingRepository res = (if b then Some (cl_stage (with_ghost step_notes deps) config) else None)"
    by (auto simp: createStoreRawResources_def)
  obtain r s1 where raw: "cl_store deps config c s = (r, s1)" by (cases "cl_store deps config c s")
  show ?case
  proof (cases r)
    case (Inl e)
    with raw show ?thesis by (simp add: res after_def beside_def broke_off_raw)
  next
    case raw_ok: (Inr raw_result)
    show ?thesis
    proof (cases b)
      case False
      obtain q tr2 s2 where loop: "store_loop res b cs (tr @ [RawStep c], s1) = (q, (tr2, s2))"
        by (metis prod.exhaust)
      from Cons.IH [of "tr @ [RawStep c]" s1] False loop raw raw_ok broke_off_Cons [of b cs _ c raw_result]
      show ?thesis
        by (cases q) (auto simp: res after_def beside_def steps_of_def)
    next
      case True
      obtain g s2 where staged: "cl_stage deps config None raw_result s1 = (g, s2)"
        by (cases "cl_stage deps config None raw_result s1")
      show ?thesis
      proof (cases g)
        case (Inl e)
        with raw raw_ok staged True show ?thesis
          by (simp add: res after_def beside_def stageRawEvidence_def broke_off_stage)
      next
        case (Inr stg)
        obtain q tr2 s3 where loop:
          "store_loop res b cs (tr @ [RawStep c, StageStep raw_result], s2) = (q, (tr2, s3))"
          by (metis prod.exhaust)
        from Cons.IH [of "tr @ [RawStep c, StageStep raw_result]" s2] True loop raw raw_ok staged Inr
          broke_off_Cons [of b cs _ c raw_result]
        show ?thesis
          by (cases q) (auto simp: res after_def beside_def steps_of_def stageRawEvidence_def)
      qed
    qed
  qed
qed simp

text \<open>
  C24: the order of \<open>discover --store-raw\<close>. The candidates of the report go through raw storage one
  after the other in their order, and with \<open>--stage\<close> the raw result of a candidate is staged
  before the next candidate is touched. A report that is not ok stores nothing. An exception breaks the
  sequence off, after the complete steps of the candidates before.
\<close>

theorem discover_stores_in_order:
  "case store_discovered (with_ghost step_notes deps) shouldStage config ([], s) of
     (Inr (rep, raws, stgs), (tr, _)) \<Rightarrow>
       if dr_ok rep
       then length raws = length (dr_candidates rep) \<and> length stgs = (if shouldStage then length raws else 0) \<and>
         tr = concat (map (steps_of shouldStage) (zip (dr_candidates rep) raws))
       else tr = [] \<and> raws = [] \<and> stgs = []
   | (Inl _, (tr, _)) \<Rightarrow> tr = [] \<or> (\<exists>cs. broke_off shouldStage cs tr)"
proof -
  let ?deps = "with_ghost step_notes deps"
  obtain res st where res: "createStoreRawResources ?deps config shouldStage ([], s) = (res, st)"
    by (cases "createStoreRawResources ?deps config shouldStage ([], s)")
  then have st: "fst st = []" by (auto simp: createStoreRawResources_def split: if_splits)
  obtain d tr1 s1 where d: "discoverForStoreRaw ?deps (ac_source config) st = (d, (tr1, s1))" by (metis prod.exhaust)
  with st have "tr1 = []"
    by (auto simp: discoverForStoreRaw_def beside_def split: option.splits prod.splits)
  show ?thesis
  proof (cases d)
    case (Inl e)
    with \<open>tr1 = []\<close> show ?thesis by (simp add: store_discovered_def res d)
  next
    case (Inr rep)
    obtain q tr2 s2 where loop: "store_loop res shouldStage (dr_candidates rep) ([], s1) = (q, (tr2, s2))"
      by (metis prod.exhaust)
    from store_loop_noted [OF res, where cs = "dr_candidates rep" and tr = "[]" and s = s1] loop Inr \<open>tr1 = []\<close>
    show ?thesis by (cases q) (auto simp: store_discovered_def res d)
  qed
qed

subsection \<open>The report\<close>

lemma count_zero: "length (filter P xs) = 0 \<longleftrightarrow> list_all (\<lambda>x. \<not> P x) xs"
  by (simp add: filter_empty_conv list_all_iff)

lemma raw_counts_total:
  "length (filter (\<lambda>r. result_status r = RawConflict) rs) + length (filter (\<lambda>r. result_status r = RawFailed) rs)
   + length (filter (\<lambda>r. result_status r = RawSkipped) rs) + length (filter (\<lambda>r. result_status r = RawStored) rs)
   = length rs"
proof (induction rs)
  case (Cons r rs)
  then show ?case by (cases "result_status r") simp_all
qed simp

lemma staging_counts_total:
  "length (filter (\<lambda>r. sr_status r = AlreadyStaged) rs) + length (filter (\<lambda>r. sr_status r = Conflict) rs)
   + length (filter (\<lambda>r. sr_status r = StagingFailed) rs) + length (filter (\<lambda>r. sr_status r = NotStageable) rs)
   + length (filter (\<lambda>r. sr_status r = Staged) rs) = length rs"
proof (induction rs)
  case (Cons r rs)
  then show ?case by (cases "sr_status r") simp_all
qed simp

text \<open>
  The report of \<open>discover --store-raw\<close> counts every raw result and every staging result exactly
  once, and is ok exactly when discovery was and no result is a conflict or a failure. A replay that
  is not stageable does not make it fail.
\<close>

theorem store_raw_report_exact:
  "sw_ok (store_raw_report_of b rep raws stgs) \<longleftrightarrow>
     dr_ok rep \<and> list_all (\<lambda>r. result_status r \<in> {RawStored, RawSkipped}) raws \<and>
     list_all (\<lambda>r. sr_status r \<in> {Staged, AlreadyStaged, NotStageable}) stgs"
  "case sw_counts (store_raw_report_of b rep raws stgs) of
     RawOnly raw \<Rightarrow> \<not> b \<and> rw_conflict raw + rw_failed raw + rw_skipped raw + rw_stored raw = length raws
   | RawAndStaging raw stg \<Rightarrow> b \<and>
       rw_conflict raw + rw_failed raw + rw_skipped raw + rw_stored raw = length raws \<and>
       st_alreadyStaged stg + st_conflict stg + st_failed stg + st_skipped stg + st_staged stg = length stgs"
proof -
  have raw: "result_status r \<in> {RawStored, RawSkipped} \<longleftrightarrow> result_status r \<noteq> RawConflict \<and> result_status r \<noteq> RawFailed"
    for r by (cases "result_status r") simp_all
  have stg: "sr_status r \<in> {Staged, AlreadyStaged, NotStageable} \<longleftrightarrow> sr_status r \<noteq> Conflict \<and> sr_status r \<noteq> StagingFailed"
    for r :: staging_result by (cases "sr_status r") simp_all
  show "sw_ok (store_raw_report_of b rep raws stgs) \<longleftrightarrow>
     dr_ok rep \<and> list_all (\<lambda>r. result_status r \<in> {RawStored, RawSkipped}) raws \<and>
     list_all (\<lambda>r. sr_status r \<in> {Staged, AlreadyStaged, NotStageable}) stgs"
    unfolding raw stg
    by (auto simp: store_raw_report_of_def Let_def countRawStorage_def countStaging_def filter_empty_conv list_all_iff)
  show "case sw_counts (store_raw_report_of b rep raws stgs) of
     RawOnly raw \<Rightarrow> \<not> b \<and> rw_conflict raw + rw_failed raw + rw_skipped raw + rw_stored raw = length raws
   | RawAndStaging raw stg \<Rightarrow> b \<and>
       rw_conflict raw + rw_failed raw + rw_skipped raw + rw_stored raw = length raws \<and>
       st_alreadyStaged stg + st_conflict stg + st_failed stg + st_skipped stg + st_staged stg = length stgs"
    using raw_counts_total [of raws] staging_counts_total [of stgs]
    by (simp add: store_raw_report_of_def Let_def countRawStorage_def countStaging_def storeRawCounts_def)
qed

subsection \<open>The database pool\<close>

definition pool_notes :: "int ghost" where
  "pool_notes = \<lparr>gh_store = (\<lambda>_ n. n), gh_stage = (\<lambda>_ n. n), gh_open = (\<lambda>n. n + 1), gh_end = (\<lambda>n. n - 1)\<rparr>"

lemma pool_notes_sel [simp]:
  "gh_store pool_notes c n = n" "gh_stage pool_notes r n = n" "gh_open pool_notes n = n + 1" "gh_end pool_notes n = n - 1"
  by (simp_all add: pool_notes_def)

definition open_pools :: "(int \<times> 's) process \<Rightarrow> int" where
  "open_pools p = fst (ps_world p)"

lemma store_loop_pools:
  assumes "createStoreRawResources (with_ghost pool_notes deps) config b st0 = (res, st1)"
  shows "fst (snd (store_loop res b cs st)) = fst st"
proof (induction cs arbitrary: st)
  case (Cons c cs)
  from assms have res: "rr_storage res = cl_store (with_ghost pool_notes deps) config"
    "rr_stagingRepository res = (if b then Some (cl_stage (with_ghost pool_notes deps) config) else None)"
    by (auto simp: createStoreRawResources_def)
  obtain r st2 where raw: "rr_storage res c st = (r, st2)" by (cases "rr_storage res c st")
  have 2: "fst st2 = fst st" using raw by (simp add: res after_result)
  obtain g st3 where stg: "stageRawEvidence (rr_stagingRepository res) (projr r) st2 = (g, st3)"
    by (cases "stageRawEvidence (rr_stagingRepository res) (projr r) st2")
  have 3: "fst st3 = fst st2"
    using stg by (auto simp: res stageRawEvidence_def after_result split: if_splits)
  show ?case
    using Cons.IH [of st2] Cons.IH [of st3] 2 3 raw stg
    by (cases r; cases g) (auto simp: apfst_def map_prod_def split: prod.splits)
qed simp

lemma on_world_pools: "open_pools (snd (on_world f p)) = fst (snd (f (ps_world p)))"
  by (simp add: on_world_def open_pools_def split: prod.split)

lemma answers_pools [simp]:
  "open_pools (snd (refuse doc p)) = open_pools p" "open_pools (snd (answer ok doc p)) = open_pools p"
  by (simp_all add: refuse_def answer_def writeJson_def set_exit_def open_pools_def Let_def)

text \<open>A command that works on the surroundings and then answers.\<close>

lemma after_work_pools:
  assumes "\<And>x p. open_pools (snd (k x p)) = open_pools p"
  shows "open_pools (snd (case on_world f p of (Inl e, p) \<Rightarrow> (Inl e, p) | (Inr x, p) \<Rightarrow> k x p)) =
    fst (snd (f (ps_world p)))"
proof -
  obtain r q where "on_world f p = (r, q)" by (cases "on_world f p")
  with on_world_pools [of f p] assms show ?thesis by (cases r) simp_all
qed

lemma discover_report_pools:
  "fst (snd (discoverForStoreRaw (with_ghost g deps) config st)) = fst st"
  by (simp add: discoverForStoreRaw_def split: option.split)

lemma store_discovered_pools:
  "fst (snd (store_discovered (with_ghost pool_notes deps) b config st)) = fst st + (if b then 1 else 0)"
proof -
  let ?deps = "with_ghost pool_notes deps"
  obtain res st1 where res: "createStoreRawResources ?deps config b st = (res, st1)"
    by (cases "createStoreRawResources ?deps config b st")
  then have 1: "fst st1 = fst st + (if b then 1 else 0)" by (auto simp: createStoreRawResources_def)
  obtain d st2 where d: "discoverForStoreRaw ?deps (ac_source config) st1 = (d, st2)"
    by (cases "discoverForStoreRaw ?deps (ac_source config) st1")
  with discover_report_pools [of pool_notes deps "ac_source config" st1] have 2: "fst st2 = fst st1" by simp
  show ?thesis
    using 1 2 store_loop_pools [OF res, of "dr_candidates (projr d)" st2]
    by (cases d) (auto simp: store_discovered_def res d apfst_def map_prod_def split: prod.splits)
qed

lemma staging_check_pools: "fst (snd (runStagingCheck (with_ghost pool_notes deps) st)) = fst st - 1"
proof -
  obtain r st1 where q: "checkPostgresConnectivity (cl_query (with_ghost pool_notes deps)) st = (r, st1)"
    by (cases "checkPostgresConnectivity (cl_query (with_ghost pool_notes deps)) st")
  then have "fst st1 = fst st"
    by (auto simp: checkPostgresConnectivity_def Let_def split: prod.splits sum.splits dest!: beside_result)
  moreover obtain e st2 where e: "cl_endPool (with_ghost pool_notes deps) st1 = (e, st2)"
    by (cases "cl_endPool (with_ghost pool_notes deps) st1")
  moreover from e have "fst st2 = fst st1 - 1" by (auto dest: after_result)
  ultimately show ?thesis
    unfolding runStagingCheck_def q prod.case e by (cases e) simp_all
qed

text \<open>What the source answers to the probe of \<open>check\<close>, once the pool has been created.\<close>

definition source_answer :: "'s cli_deps \<Rightarrow> app_config \<Rightarrow> 's \<Rightarrow> thrown + connectivity_check" where
  "source_answer deps config s =
     (case cl_parse deps (sc_url (ac_source config)) of
        None \<Rightarrow> Inl invalid_url_error
      | Some u \<Rightarrow> fst (checkSourceConnectivity (cl_fetchText deps (ac_source config)) u
          (cl_createPgPool deps (ac_databaseUrl config) s)))"

lemma checkSource_beside:
  "checkSourceConnectivity (\<lambda>u. beside (f u)) u st =
     (fst (checkSourceConnectivity f u (snd st)), (fst st, snd (checkSourceConnectivity f u (snd st))))"
  by (auto simp: checkSourceConnectivity_def beside_def split: prod.splits sum.splits)

lemma run_checks_pools:
  "fst (snd (run_checks (with_ghost pool_notes deps) config st)) =
     fst st + (if is_ok (source_answer deps config (snd st)) then 0 else 1)"
proof (cases "cl_parse deps (sc_url (ac_source config))")
  case None
  then show ?thesis by (simp add: run_checks_def source_answer_def Let_def)
next
  case (Some u)
  let ?s = "cl_createPgPool deps (ac_databaseUrl config) (snd st)"
  obtain r s1 where source: "checkSourceConnectivity (cl_fetchText deps (ac_source config)) u ?s = (r, s1)"
    by (cases "checkSourceConnectivity (cl_fetchText deps (ac_source config)) u ?s")
  show ?thesis
  proof (cases r)
    case (Inl e)
    with Some source show ?thesis
      by (simp add: run_checks_def source_answer_def Let_def checkSource_beside)
  next
    case (Inr c)
    obtain s3 st2 where s3: "checkS3Connectivity (cl_headBucket (with_ghost pool_notes deps) config) (s3_bucket (ac_s3 config))
        (fst st + 1, s1) = (s3, st2)" by (metis prod.exhaust)
    then have "fst st2 = fst st + 1"
      by (auto simp: checkS3Connectivity_def split: prod.splits sum.splits dest!: beside_result)
    with staging_check_pools [of deps st2] Some source Inr s3 show ?thesis
      by (auto simp: run_checks_def source_answer_def Let_def checkSource_beside split: prod.splits sum.splits)
  qed
qed

text \<open>
  C34: who leaves the database pool open. \<open>discover\<close> opens a pool exactly when it stages and its
  configuration loads, and never ends it. \<open>check\<close> ends the pool it opened, except when the probe of
  the source throws something other than a read failure, or the source address does not parse: then the
  pool is left open, although the command means to release it always.
\<close>

theorem pools_left_open:
  "open_pools (snd (discover_command (with_ghost pool_notes deps) options p)) =
     open_pools p +
       (if do_storeRaw options \<and> \<not> do_dryRun options \<and> do_stage options \<and> is_ok (cl_loadConfig deps) then 1 else 0) \<and>
   open_pools (snd (check_command (with_ghost pool_notes deps) p)) =
     open_pools p +
       (case cl_loadConfig deps of
          Inl _ \<Rightarrow> 0
        | Inr config \<Rightarrow> if is_ok (source_answer deps config (snd (ps_world p))) then 0 else 1)"
proof (intro conjI)
  let ?deps = "with_ghost pool_notes deps"
  have dry: "open_pools (snd (runDryRunDiscovery ?deps p)) = open_pools p"
    by (auto simp: runDryRunDiscovery_def after_work_pools discover_report_pools open_pools_def [of p]
      split: sum.split)
  have "open_pools (snd (runStoreRawDiscovery ?deps b p)) =
      open_pools p + (if b \<and> is_ok (cl_loadConfig deps) then 1 else 0)" for b
  proof (cases "cl_loadConfig deps" rule: load_cases)
    case (good config)
    then have loads: "loadStoreRawConfig ?deps = Inr (Inr config)" by (simp add: loadStoreRawConfig_def loaded_def)
    have "open_pools (snd (runStoreRawDiscovery ?deps b p)) =
        fst (snd (store_discovered ?deps b config (ps_world p)))"
      unfolding runStoreRawDiscovery_def loads sum.case
      by (rule after_work_pools) (simp add: Let_def split: prod.split)
    then show ?thesis by (simp add: store_discovered_pools open_pools_def good)
  qed (simp_all add: runStoreRawDiscovery_def loadStoreRawConfig_def loaded_def)
  with dry show "open_pools (snd (discover_command ?deps options p)) =
     open_pools p +
       (if do_storeRaw options \<and> \<not> do_dryRun options \<and> do_stage options \<and> is_ok (cl_loadConfig deps) then 1 else 0)"
    by (simp add: discover_command_def)
  show "open_pools (snd (check_command ?deps p)) =
     open_pools p +
       (case cl_loadConfig deps of
          Inl _ \<Rightarrow> 0
        | Inr config \<Rightarrow> if is_ok (source_answer deps config (snd (ps_world p))) then 0 else 1)"
  proof (cases "cl_loadConfig deps" rule: load_cases)
    case (good config)
    then show ?thesis
      by (simp add: check_command_def loadStoreRawConfig_def loaded_def after_work_pools run_checks_pools open_pools_def [of p])
  qed (simp_all add: check_command_def loadStoreRawConfig_def loaded_def)
qed

end
