(* ===== verification/Client_Factories.thy ===== *)
theory Client_Factories
  imports Config Source_Clients
begin

text \<open>
  The factories that turn a configuration into the two read clients: \<open>createSourceClient\<close>
  (\<open>src/discovery/source-client.ts\<close>) and \<open>createReplayByteClient\<close> (\<open>src/storage/replay-byte-client.ts\<close>),
  and what a loaded configuration guarantees them.

  The rounds of \<open>fetch\<close> and of the program that \<open>execFile\<close> starts are surroundings, as in
  \<open>Source_Clients\<close>; a factory is given the platform's \<open>execFile\<close>, which an option overrides.
\<close>

definition createSourceClient ::
    "(string \<Rightarrow> int option) \<Rightarrow> (url \<Rightarrow> nat \<Rightarrow> string http_response retry_round)
      \<Rightarrow> (string list \<Rightarrow> nat \<Rightarrow> string retry_round) \<Rightarrow> source_config
      \<Rightarrow> (string list \<Rightarrow> nat \<Rightarrow> string retry_round) option
      \<Rightarrow> url \<Rightarrow> fetch_options \<Rightarrow> retry_step list \<times> (thrown + string)" where
  "createSourceClient date_parse fetch defaultExecFile config execFile u options =
     (if sc_transport config = DirectTransport then fetchText_direct date_parse u options (fetch u)
      else case execFile of
             None \<Rightarrow> fetchText_ssh (sc_sshHost config) (sc_sshCommand config) defaultExecFile u options
           | Some f \<Rightarrow> fetchText_ssh (sc_sshHost config) (sc_sshCommand config) f u options)"

definition createReplayByteClient ::
    "(string \<Rightarrow> int option) \<Rightarrow> (url \<Rightarrow> nat \<Rightarrow> bytes http_response retry_round)
      \<Rightarrow> (string list \<Rightarrow> nat \<Rightarrow> string retry_round) \<Rightarrow> source_config
      \<Rightarrow> (string list \<Rightarrow> nat \<Rightarrow> string retry_round) option
      \<Rightarrow> url \<Rightarrow> fetch_options \<Rightarrow> retry_step list \<times> (thrown + bytes)" where
  "createReplayByteClient date_parse fetch defaultExecFile config execFile u options =
     (if sc_transport config = DirectTransport then fetchBytes_direct date_parse u options (fetch u)
      else fetchBytes_ssh (sc_sshHost config) (sc_sshCommand config)
             (case execFile of None \<Rightarrow> defaultExecFile | Some f \<Rightarrow> f) u options)"

text \<open>
  A configuration that loads is never refused by a client: over \<open>ssh\<close> both clients have a host, so
  what they answer is what the retried reads answer, with the host as the first argument of each.
\<close>

lemma loaded_source_has_host:
  "loadSourceConfig url_check issues source = Inr c \<Longrightarrow> sc_transport c = SshTransport \<Longrightarrow>
   \<exists>host. sc_sshHost c = Some host"
  by (auto simp: loadSourceConfig_def refined_Inr ssh_host_missing_def)

lemma loaded_app_has_host:
  "loadConfig url_check issues source = Inr c \<Longrightarrow> sc_transport (ac_source c) = SshTransport \<Longrightarrow>
   \<exists>host. sc_sshHost (ac_source c) = Some host"
  by (auto simp: loadConfig_def refined_Inr ssh_host_missing_def split: option.splits)

definition clients_connect :: "source_config \<Rightarrow> bool" where
  "clients_connect c \<longleftrightarrow>
     (sc_transport c = SshTransport \<longrightarrow>
       (\<exists>host. \<forall>date_parse fetch_text fetch_bytes exec u options.
          createSourceClient date_parse fetch_text exec c None u options =
            catch_map (\<lambda>e. toSshFetchError e options (resolvePhase options) u)
              (runWithRetry (ssh_wiring options) options Inr (exec (text_ssh_arguments host (sc_sshCommand c) u))) \<and>
          createReplayByteClient date_parse fetch_bytes exec c None u options =
            catch_map (\<lambda>e. toSshByteError e options u)
              (runWithRetry_bytes ssh_bytes_wiring options (\<lambda>stdout. Inr (base64_decode stdout))
                (exec (bytes_ssh_arguments host (sc_sshCommand c) u)))))"

lemma host_connects: "sc_sshHost c = Some host \<Longrightarrow> clients_connect c"
  by (auto simp: clients_connect_def createSourceClient_def createReplayByteClient_def fetchText_ssh_def
    fetchBytes_ssh_def getSshHost_def getSshHost_bytes_def Let_def intro!: exI [of _ host])

theorem loaded_clients_connect:
  "(case loadSourceConfig url_check issues source of Inr c \<Rightarrow> clients_connect c | Inl _ \<Rightarrow> True) \<and>
   (case loadConfig url_check issues source of Inr c \<Rightarrow> clients_connect (ac_source c) | Inl _ \<Rightarrow> True)"
proof -
  have connect: "clients_connect c" if "sc_transport c = SshTransport \<Longrightarrow> \<exists>host. sc_sshHost c = Some host" for c
    using that by (cases "sc_transport c = SshTransport") (auto dest: host_connects simp: clients_connect_def)
  show ?thesis
  proof
    show "case loadSourceConfig url_check issues source of Inr c \<Rightarrow> clients_connect c | Inl _ \<Rightarrow> True"
      by (cases "loadSourceConfig url_check issues source") (auto intro!: connect loaded_source_has_host)
    show "case loadConfig url_check issues source of Inr c \<Rightarrow> clients_connect (ac_source c) | Inl _ \<Rightarrow> True"
      by (cases "loadConfig url_check issues source") (auto intro!: connect loaded_app_has_host)
  qed
qed

end
