(* ===== verification/App_Errors.thy ===== *)
theory App_Errors
  imports Commands Checkpoint_Store
begin

text \<open>
  The error classes of \<open>src/errors/\<close>: the base \<open>AppError\<close> and its subclasses, with the identifiers
  that each carries. An absent optional identifier is no member of the details.

  \<open>thrown\<close> keeps of such an error what the program looks at; \<open>as_thrown\<close> is that view.
\<close>

record app_error =
  ae_name :: string
  ae_code :: string
  ae_message :: string
  ae_cause :: "thrown option"
  ae_details :: "json option"
  ae_isOperational :: bool

record app_error_options =
  ao_cause :: "thrown option"
  ao_details :: "json option"
  ao_isOperational :: "bool option"

definition AppError :: "string \<Rightarrow> string \<Rightarrow> app_error_options \<Rightarrow> app_error" where
  "AppError code message options =
     \<lparr>ae_name = ''AppError'', ae_code = code, ae_message = message, ae_cause = ao_cause options,
      ae_details = ao_details options,
      ae_isOperational = (case ao_isOperational options of Some b \<Rightarrow> b | None \<Rightarrow> True)\<rparr>"

definition optional_member :: "string \<Rightarrow> ('a \<Rightarrow> json) \<Rightarrow> 'a option \<Rightarrow> (string \<times> json) list" where
  "optional_member name f v = (case v of None \<Rightarrow> [] | Some x \<Rightarrow> [(name, f x)])"

record conflict_details =
  cd_attempts :: "nat option"
  cd_page :: "nat option"
  cd_slug :: string

definition conflict_record :: "conflict_details \<Rightarrow> json" where
  "conflict_record d = JObj ((''slug'', JStr (cd_slug d)) #
     optional_member ''page'' (JNum \<circ> of_nat) (cd_page d) @
     optional_member ''attempts'' (JNum \<circ> of_nat) (cd_attempts d))"

definition CheckpointConflictError :: "conflict_details \<Rightarrow> thrown option \<Rightarrow> app_error" where
  "CheckpointConflictError details cause =
     (AppError ''checkpoint-conflict'' ''Checkpoint write lost the conditional-write race''
        \<lparr>ao_cause = cause, ao_details = Some (conflict_record details), ao_isOperational = Some True\<rparr>)
       \<lparr>ae_name := ''CheckpointConflictError''\<rparr>"

definition join_semicolon :: "string list \<Rightarrow> string" where
  "join_semicolon ts = (case ts of [] \<Rightarrow> [] | t # rest \<Rightarrow> t @ concat (map (\<lambda>u. ''; '' @ u) rest))"

definition ConfigValidationError_of :: "string list \<Rightarrow> app_error" where
  "ConfigValidationError_of issues =
     (AppError ''config_invalid'' (''Invalid configuration: '' @ join_semicolon issues)
        \<lparr>ao_cause = None, ao_details = Some (JObj [(''issues'', JArr (map JStr issues))]), ao_isOperational = Some True\<rparr>)
       \<lparr>ae_name := ''ConfigValidationError''\<rparr>"

record invariant_details =
  iv_command :: "string option"
  iv_guard :: string

definition invariant_record :: "invariant_details \<Rightarrow> json" where
  "invariant_record d = JObj ((''guard'', JStr (iv_guard d)) # optional_member ''command'' JStr (iv_command d))"

definition InvariantViolationError :: "invariant_details \<Rightarrow> app_error" where
  "InvariantViolationError details =
     (AppError ''invariant_violation'' ''Composition invariant violated''
        \<lparr>ao_cause = None, ao_details = Some (invariant_record details), ao_isOperational = Some False\<rparr>)
       \<lparr>ae_name := ''InvariantViolationError''\<rparr>"

definition as_thrown :: "app_error \<Rightarrow> thrown" where
  "as_thrown e = Error PlainError (Some (CodeText (ae_code e))) (ae_message e) (ae_name e) (ae_cause e) None None"

text \<open>The exceptions of the command and configuration models are these errors.\<close>

lemma invariant_violation_view: "as_thrown (InvariantViolationError d) = invariant_violation"
  by (simp add: as_thrown_def InvariantViolationError_def AppError_def invariant_violation_def)

text \<open>Only a violated invariant is a bug of the program; each class keeps its own code and name.\<close>

lemma error_classes:
  "ae_isOperational (CheckpointConflictError d cause)" "ae_isOperational (ConfigValidationError_of issues)"
  "\<not> ae_isOperational (InvariantViolationError v)"
  "ae_code (CheckpointConflictError d cause) = ''checkpoint-conflict''"
  "ae_cause (CheckpointConflictError d cause) = cause"
  by (simp_all add: CheckpointConflictError_def ConfigValidationError_of_def InvariantViolationError_def AppError_def)

end
