(* ===== verification/Shutdown.thy ===== *)
theory Shutdown
  imports Prelude
begin

text \<open>
  The shutdown seam of \<open>watch\<close> (\<open>createShutdownSeam\<close> in \<open>src/commands/watch.ts\<close>): the two signal
  handlers, the flag that they set and their removal.

  A process has its listeners in the order of their registration. \<open>process.once\<close> removes a
  listener before it is called; a signal without a listener ends the process at once, as the platform
  documents for both signals.
\<close>

datatype signal = SIGTERM | SIGINT

record seam_process =
  sp_listeners :: "signal list"
  sp_stopRequested :: bool
  sp_killed :: bool

definition requestStop :: "seam_process \<Rightarrow> seam_process" where
  "requestStop p = p\<lparr>sp_stopRequested := True\<rparr>"

definition once :: "signal \<Rightarrow> seam_process \<Rightarrow> seam_process" where
  "once sig p = p\<lparr>sp_listeners := sp_listeners p @ [sig]\<rparr>"

definition removeListener :: "signal \<Rightarrow> seam_process \<Rightarrow> seam_process" where
  "removeListener sig p = p\<lparr>sp_listeners := remove1 sig (sp_listeners p)\<rparr>"

definition deliver :: "signal \<Rightarrow> seam_process \<Rightarrow> seam_process" where
  "deliver sig p =
     (if sp_killed p then p
      else if sig \<in> set (sp_listeners p) then requestStop (removeListener sig p)
      else p\<lparr>sp_killed := True\<rparr>)"

definition createShutdownSeam :: "seam_process \<Rightarrow> seam_process" where
  "createShutdownSeam p = once SIGINT (once SIGTERM (p\<lparr>sp_stopRequested := False\<rparr>))"

definition shouldStop :: "seam_process \<Rightarrow> bool" where
  "shouldStop p = sp_stopRequested p"

definition disposeShutdownSeam :: "seam_process \<Rightarrow> seam_process" where
  "disposeShutdownSeam p = removeListener SIGINT (removeListener SIGTERM p)"

definition fresh_process :: seam_process where
  "fresh_process = \<lparr>sp_listeners = [], sp_stopRequested = False, sp_killed = False\<rparr>"

subsection \<open>What signals do\<close>

lemma deliver_sel:
  "\<not> sp_killed p \<Longrightarrow> sig \<in> set (sp_listeners p) \<Longrightarrow> sp_stopRequested (deliver sig p) \<and> \<not> sp_killed (deliver sig p) \<and>
   sp_listeners (deliver sig p) = remove1 sig (sp_listeners p)"
  "\<not> sp_killed p \<Longrightarrow> sig \<notin> set (sp_listeners p) \<Longrightarrow> deliver sig p = p\<lparr>sp_killed := True\<rparr>"
  "sp_killed p \<Longrightarrow> deliver sig p = p"
  by (simp_all add: deliver_def requestStop_def removeListener_def)

lemma killed_stays: "sp_killed p \<Longrightarrow> fold deliver sigs p = p"
  by (induction sigs) (simp_all add: deliver_sel)

text \<open>A process lives as long as every signal that came finds its listener.\<close>

lemma signals_from:
  assumes "\<not> sp_killed p" "distinct (sp_listeners p)"
  shows "(\<not> sp_killed (fold deliver sigs p)) = (distinct sigs \<and> set sigs \<subseteq> set (sp_listeners p)) \<and>
    (if sp_killed (fold deliver sigs p) then True
     else sp_stopRequested (fold deliver sigs p) = (sp_stopRequested p \<or> sigs \<noteq> []) \<and>
       set (sp_listeners (fold deliver sigs p)) = set (sp_listeners p) - set sigs \<and>
       distinct (sp_listeners (fold deliver sigs p)))"
  using assms
proof (induction sigs arbitrary: p)
  case (Cons sig sigs)
  show ?case
  proof (cases "sig \<in> set (sp_listeners p)")
    case True
    with Cons.prems Cons.IH [of "deliver sig p"] deliver_sel(1) [OF Cons.prems(1) True] show ?thesis
      by (auto simp: distinct_remove1)
  next
    case False
    with Cons.prems show ?thesis by (simp add: deliver_sel killed_stays)
  qed
qed simp

lemma seam_sel: "sp_listeners (createShutdownSeam fresh_process) = [SIGTERM, SIGINT]"
  "\<not> sp_killed (createShutdownSeam fresh_process)" "\<not> sp_stopRequested (createShutdownSeam fresh_process)"
  by (simp_all add: createShutdownSeam_def fresh_process_def once_def)

lemma all_signals: "set sigs \<subseteq> {SIGTERM, SIGINT}"
  by (auto intro: signal.exhaust)

lemma no_listener_left:
  assumes "distinct (sp_listeners p)"
  shows "sp_listeners (disposeShutdownSeam p) = []"
proof -
  have "set (sp_listeners (disposeShutdownSeam p)) = set (sp_listeners p) - {SIGTERM, SIGINT}"
    using assms by (auto simp: disposeShutdownSeam_def removeListener_def distinct_remove1)
  with all_signals [of "sp_listeners p"] show ?thesis by (metis Diff_eq_empty_iff set_empty)
qed

text \<open>
  C32: whatever signals come while the seam is installed: the process lives exactly if none came twice,
  the loop is then told to stop exactly if one came at all, and disposing of the seam leaves no listener. A
  second signal of the same kind is not absorbed: it ends the process at once, before the pool and the
  bucket's client are closed.
\<close>

theorem signals_stop_once:
  "(let p = fold deliver sigs (createShutdownSeam fresh_process) in
      sp_killed p = (\<not> distinct sigs) \<and>
      (if sp_killed p then True
       else shouldStop p = (sigs \<noteq> []) \<and> sp_listeners (disposeShutdownSeam p) = []))"
proof -
  have "distinct (sp_listeners (createShutdownSeam fresh_process))" by (simp add: seam_sel)
  with signals_from [OF seam_sel(2), of sigs] all_signals [of sigs] show ?thesis
    by (auto simp: seam_sel shouldStop_def Let_def no_listener_left)
qed

end
