(* ===== verification/Watch_Release.thy ===== *)
theory Watch_Release
  imports Watch_Results Run_Commands Command_Effects
begin

text \<open>
  What becomes of the resources of \<open>watch\<close>: whatever every operation that the loop is handed
  leaves alone, the loop leaves alone, so the balance of what the command itself opens and closes can be
  told on every path, exceptions included.
\<close>

subsection \<open>What the loop leaves alone\<close>

definition leaves :: "('s \<Rightarrow> bool) \<Rightarrow> ('s \<Rightarrow> 'r \<times> 's) \<Rightarrow> bool" where
  "leaves I f \<longleftrightarrow> (\<forall>s. I s \<longrightarrow> I (snd (f s)))"

definition watch_leaves :: "('s \<Rightarrow> bool) \<Rightarrow> 's watch_input \<Rightarrow> bool" where
  "watch_leaves I input \<longleftrightarrow>
     leaves I (wa_now input) \<and> leaves I (wa_wall input) \<and> (\<forall>t. leaves I (wa_createRunId input t)) \<and>
     leaves I (wa_shouldStop input) \<and> (\<forall>d s. I s \<longrightarrow> I (wa_sleep input d s)) \<and>
     (\<forall>d s. I s \<longrightarrow> I (wa_pause input d s)) \<and> (\<forall>ev s. I s \<longrightarrow> I (wa_log input ev s)) \<and>
     (\<forall>q. leaves I (wa_discover input q)) \<and> (\<forall>a b. leaves I (wa_exists input a b)) \<and>
     (\<forall>c. leaves I (wa_store input c)) \<and> (\<forall>r e. leaves I (wa_stage input r e)) \<and>
     (\<forall>path text. leaves I (wa_writeHeartbeat input path text))"

lemma leaves_result: "leaves I f \<Longrightarrow> f s = (r, s') \<Longrightarrow> I s \<Longrightarrow> I s'"
  by (metis leaves_def snd_conv)

lemma watch_leavesD:
  assumes "watch_leaves I input"
  shows "wa_now input s = (t, s1) \<Longrightarrow> I s \<Longrightarrow> I s1"
    "wa_wall input s = (t, s1) \<Longrightarrow> I s \<Longrightarrow> I s1"
    "wa_createRunId input n s = (i, s1) \<Longrightarrow> I s \<Longrightarrow> I s1"
    "wa_shouldStop input s = (b, s1) \<Longrightarrow> I s \<Longrightarrow> I s1"
    "wa_discover input q s = (d, s1) \<Longrightarrow> I s \<Longrightarrow> I s1"
    "wa_writeHeartbeat input path text s = (h, s1) \<Longrightarrow> I s \<Longrightarrow> I s1"
    "I s \<Longrightarrow> I (wa_sleep input ms s)" "I s \<Longrightarrow> I (wa_pause input delay s)" "I s \<Longrightarrow> I (wa_log input ev s)"
  using assms unfolding watch_leaves_def by (blast intro: leaves_result)+

lemma ingest_leaves:
  assumes "watch_leaves I input" "I s"
    "ingestPage (watch_calls input runId) n cs s sched = Some (r, s')"
  shows "I s'"
proof -
  have "I (pm_world (page_run (watch_calls input runId) n cs s sched))"
    by (rule page_run_keeps)
      (use assms(1,2) in \<open>auto simp: watch_calls_def watch_leaves_def leaves_def\<close>)
  with assms(3) show ?thesis by (auto simp: ingestPage_def Let_def split: if_splits)
qed

lemma cycle_leaves:
  assumes "watch_leaves I input" "I s" "runCycle input pacer s = Some (r, pacer', s')"
  shows "I s'"
  using assms(2,3)
  by (auto simp: runCycle_def Let_def split: prod.splits sum.splits option.splits if_splits
    dest!: watch_leavesD(1-6) [OF assms(1)] ingest_leaves [OF assms(1), rotated]
    intro!: watch_leavesD(7-9) [OF assms(1)])

lemma guarded_leaves:
  assumes "watch_leaves I input" "I s" "guarded_cycle input pacer s = Some (pacer', s')"
  shows "I s'"
  using assms(2,3)
  by (auto simp: guarded_cycle_def beat_def Let_def split: prod.splits sum.splits option.splits
    dest: watch_leavesD(1-6) [OF assms(1)] cycle_leaves [OF assms(1)]
    intro!: watch_leavesD(7-9) [OF assms(1)])

lemma turn_leaves:
  assumes "watch_leaves I input" "I s" "watch_turn input pacer s = Some (next, s')"
  shows "I s'"
  using assms(2,3)
  by (auto simp: watch_turn_def Let_def split: prod.splits option.splits if_splits
    dest: watch_leavesD(1-6) [OF assms(1)] guarded_leaves [OF assms(1)]
    intro!: watch_leavesD(7-9) [OF assms(1)])

lemma watch_loop_leaves:
  assumes "watch_leaves I input"
  shows "watch_loop input pacer s = Some q \<Longrightarrow> I s \<longrightarrow> I (snd q)"
proof (rule watch_loop.raw_induct [where P = "\<lambda>i _ s q. i = input \<longrightarrow> I s \<longrightarrow> I (snd q)", THEN mp])
  fix loop i pacer s q
  assume IH: "\<And>i pacer s q. loop i pacer s = Some q \<Longrightarrow> i = input \<longrightarrow> I s \<longrightarrow> I (snd q)"
    and run: "Option.bind (watch_turn i pacer s) (\<lambda>(next, s). case next of None \<Rightarrow> Some (0, s) | Some pacer \<Rightarrow> loop i pacer s) = Some q"
  then obtain k s1 where turn: "watch_turn i pacer s = Some (k, s1)" by (auto simp: bind_eq_Some_conv)
  show "i = input \<longrightarrow> I s \<longrightarrow> I (snd q)"
  proof (intro impI)
    assume "i = input" "I s"
    with turn_leaves [OF assms] turn have "I s1" by blast
    with IH run turn \<open>i = input\<close> show "I (snd q)" by (cases k) auto
  qed
qed simp_all

lemma loop_leaves:
  assumes "watch_leaves I input" "runWatchLoop input s = Some q" "I s"
  shows "I (snd q)"
  using watch_loop_leaves [OF assms(1)] assms(2,3) by (auto simp: runWatchLoop_def)

subsection \<open>Opened and released\<close>

text \<open>
  The surroundings beside two counters: the database pools that are open, and the pairs of signal
  handlers that are installed. Opening and ending a pool, installing and removing the handlers change
  them, an operation that throws included; nothing else does.
\<close>

type_synonym counters = "int \<times> int"

definition resource_notes :: "counters ghost" where
  "resource_notes = \<lparr>gh_store = (\<lambda>_ x. x), gh_stage = (\<lambda>_ x. x),
     gh_open = (\<lambda>x. (fst x + 1, snd x)), gh_end = (\<lambda>x. (fst x - 1, snd x))\<rparr>"

lemma resource_notes_sel [simp]:
  "gh_store resource_notes c x = x" "gh_stage resource_notes r x = x"
  "gh_open resource_notes x = (fst x + 1, snd x)" "gh_end resource_notes x = (fst x - 1, snd x)"
  by (simp_all add: resource_notes_def)

definition beside_watch :: "'s watch_input \<Rightarrow> (counters \<times> 's) watch_input" where
  "beside_watch input =
     \<lparr>wa_attempts = wa_attempts input, wa_concurrency = wa_concurrency input,
      wa_heartbeatPath = wa_heartbeatPath input, wa_intervalMs = wa_intervalMs input,
      wa_requestSpacingMs = wa_requestSpacingMs input, wa_sourceUrl = wa_sourceUrl input,
      wa_now = beside (wa_now input), wa_wall = beside (wa_wall input),
      wa_createRunId = (\<lambda>t. beside (wa_createRunId input t)),
      wa_shouldStop = beside (wa_shouldStop input),
      wa_sleep = (\<lambda>d s. (fst s, wa_sleep input d (snd s))),
      wa_pause = (\<lambda>d s. (fst s, wa_pause input d (snd s))),
      wa_log = (\<lambda>ev s. (fst s, wa_log input ev (snd s))),
      wa_discover = (\<lambda>q. beside (wa_discover input q)),
      wa_exists = (\<lambda>system i. beside (wa_exists input system i)),
      wa_store = (\<lambda>c. beside (wa_store input c)),
      wa_stage = (\<lambda>runId r. beside (wa_stage input runId r)),
      wa_schedule = wa_schedule input,
      wa_writeHeartbeat = (\<lambda>path text. beside (wa_writeHeartbeat input path text))\<rparr>"

definition counted :: "(app_config \<Rightarrow> (counters \<times> 's) run_input) \<Rightarrow> 's run_deps \<Rightarrow> (counters \<times> 's) run_deps" where
  "counted runs deps =
     \<lparr>rd_cli = with_ghost resource_notes (rd_cli deps), rd_run = runs,
      rd_watch = (\<lambda>config. beside_watch (rd_watch deps config)),
      rd_now = beside (rd_now deps), rd_createRunId = (\<lambda>t. beside (rd_createRunId deps t)),
      rd_flush = beside (rd_flush deps),
      rd_listen = (\<lambda>s. ((fst (fst s), snd (fst s) + 1), rd_listen deps (snd s))),
      rd_unlisten = (\<lambda>s. ((fst (fst s), snd (fst s) - 1), rd_unlisten deps (snd s)))\<rparr>"

lemma counted_signals:
  "fst (rd_listen (counted runs deps) s) = (fst (fst s), snd (fst s) + 1)"
  "fst (rd_unlisten (counted runs deps) s) = (fst (fst s), snd (fst s) - 1)"
  by (simp_all add: counted_def)

lemma counted_loads: "cl_loadConfig (rd_cli (counted runs deps)) = cl_loadConfig (rd_cli deps)"
  by (simp add: counted_def)

lemma counted_watch_leaves:
  assumes "createStoreRawResources (rd_cli (counted runs deps)) config True st = (res, st1)"
    "rr_stagingRepository res = Some repository"
  shows "watch_leaves (\<lambda>s. fst s = x) (watch_input_of (counted runs deps) config res repository u)"
  using assms
  by (auto simp: watch_leaves_def leaves_def watch_input_of_def counted_def beside_watch_def
    createStoreRawResources_def)

lemma counted_start:
  "start_command (counted runs deps) p = (q, p1) \<Longrightarrow> fst (ps_world p1) = fst (ps_world p)"
  by (auto simp: start_command_def on_world_def counted_def apfst_def map_prod_def split: prod.splits
    dest!: beside_result)

lemma counted_refuse:
  "fst (ps_world (snd (refuse_config (counted runs deps) issues startedAt runId p))) = fst (ps_world p)"
  by (auto simp: refuse_config_def on_world_def counted_def writeJson_def set_exit_def Let_def split: prod.splits
    dest!: beside_result)

lemma counted_work:
  assumes "createStoreRawResources (rd_cli (counted runs deps)) config True st = (res, st1)"
    "watch_work (counted runs deps) config res s = Some (r, s')"
  shows "fst s' = fst s"
proof -
  have loop: "fst (snd q) = fst s"
    if "runWatchLoop (watch_input_of (counted runs deps) config res repository u) s = Some q"
      "rr_stagingRepository res = Some repository" for q repository u
    using loop_leaves [OF counted_watch_leaves [OF assms(1) that(2), of "fst s"] that(1)] by simp
  from assms(2) loop show ?thesis
    by (fastforce simp: watch_work_def counted_def requireStagingRepository_def
      split: option.splits sum.splits prod.splits dest: beside_result)
qed

lemma counted_dispose:
  assumes "createStoreRawResources (rd_cli (counted runs deps)) config True st = (res, st1)"
  shows "fst (snd (rr_dispose res (False, s))) = (fst (fst s) - 1, snd (fst s))"
  using assms
  by (auto simp: createStoreRawResources_def counted_def dispose_def dispose_s3_def dispose_pool_def with_ghost_def
    Let_def split: prod.splits sum.splits dest!: beside_result after_result)

text \<open>
  C25: a \<open>watch\<close> that comes to its end has released what it opened, on every path: configuration refused,
  loop told to stop, flush failed, address unreadable, teardown throwing. The pool it opened
  has been ended and the signal handlers it installed are removed, neither of them twice.
\<close>

theorem watch_releases:
  "case watch_command (counted runs deps) p of
     None \<Rightarrow> True
   | Some (r, q) \<Rightarrow> fst (ps_world q) = fst (ps_world p)"
proof (cases "watch_command (counted runs deps) p")
  case (Some rq)
  let ?deps = "counted runs deps"
  obtain startedAt runId p1 where start: "start_command ?deps p = ((startedAt, runId), p1)"
    by (metis prod.exhaust)
  note same = counted_start [OF start]
  note run = Some [unfolded watch_command_def start prod.case]
  have "fst (ps_world (snd rq)) = fst (ps_world p)"
  proof (cases "cl_loadConfig (rd_cli deps)" rule: load_cases)
    case (good config)
    then have loads: "loadStoreRawConfig (rd_cli ?deps) = Inr (Inr config)"
      by (simp add: counted_loads loadStoreRawConfig_def loaded_def)
    obtain res s1 where res: "createStoreRawResources (rd_cli ?deps) config True (ps_world p1) = (res, s1)"
      by (metis prod.exhaust)
    then have opened: "fst s1 = (fst (fst (ps_world p1)) + 1, snd (fst (ps_world p1)))"
      by (auto simp: createStoreRawResources_def counted_def)
    from run loads res obtain w s2 where work: "watch_work ?deps config res (rd_listen ?deps s1) = Some (w, s2)"
      and q: "ps_world (snd rq) = rd_unlisten ?deps (snd (rr_dispose res (False, s2)))"
      by (auto simp: Let_def set_exit_def split: option.splits sum.splits)
    from counted_work [OF res work] counted_dispose [OF res, of s2] opened same q
    show ?thesis by (simp add: counted_signals)
  next
    case (invalid issues)
    with run counted_refuse [of runs deps issues startedAt runId p1] same show ?thesis
      by (simp add: counted_loads loadStoreRawConfig_def loaded_def)
  next
    case flag
    with run same show ?thesis by (auto simp: counted_loads loadStoreRawConfig_def loaded_def)
  qed
  then show ?thesis unfolding Some by (cases rq) simp
qed simp

end
