(* ===== verification/Evidence_Store.thy ===== *)
theory Evidence_Store
  imports Checkpoint_Store Summary
begin

text \<open>
  The write-once store of run evidence: \<open>src/evidence/s3-evidence-store.ts\<close>. The bucket is a
  field of the options; the body of an object is the \<open>JSON.stringify\<close> of the summary it is given.
\<close>

record 's evidence_options =
  eo_prefix :: string
  eo_put :: "string \<Rightarrow> run_summary \<Rightarrow> 's \<Rightarrow> (s3_error + unit) \<times> 's"

definition putEvidence ::
    "'s evidence_options \<Rightarrow> string \<Rightarrow> run_summary \<Rightarrow> 's \<Rightarrow> (store_error + unit) \<times> 's" where
  "putEvidence options runId summary s =
     (case toEvidenceObjectKey (eo_prefix options) runId of
        Inl k \<Rightarrow> (Inl (InvalidKey k), s)
      | Inr key \<Rightarrow>
          (case eo_put options key summary s of
             (Inl e, s) \<Rightarrow> (Inl (SendFailed e), s)
           | (Inr _, s) \<Rightarrow> (Inr (), s)))"

text \<open>A bucket that keeps what it is sent.\<close>

definition keeping_bucket :: "string \<Rightarrow> (string \<Rightarrow> run_summary option) evidence_options" where
  "keeping_bucket prefix = \<lparr>eo_prefix = prefix, eo_put = (\<lambda>key summary b. (Inr (), b(key \<mapsto> summary)))\<rparr>"

subsection \<open>Run identifiers\<close>

text \<open>
  \<open>createRunId\<close> of \<open>src/commands/shared.ts\<close>; the random UUID is an argument. What is relied on is its
  documented shape: 36 characters, lower-case hexadecimal digits and dashes, the last one a digit.
\<close>

definition createRunId :: "int \<Rightarrow> string \<Rightarrow> string" where
  "createRunId now uuid = ''run-'' @ toISOString now @ ''-'' @ uuid"

definition uuid_shape :: "string \<Rightarrow> bool" where
  "uuid_shape u \<longleftrightarrow> length u = 36 \<and> list_all (\<lambda>c. is_hex c \<or> c = CHR ''-'') u \<and> is_hex (last u)"

lemma collapse_unsafe_append:
  "ys = [] \<or> slug_char (hd ys) \<Longrightarrow> collapse_unsafe (xs @ ys) = collapse_unsafe xs @ collapse_unsafe ys"
proof (induction xs rule: collapse_unsafe.induct)
  case (2 c cs)
  have drop: "dropWhile (\<lambda>d. \<not> slug_char d) (cs @ ys) = dropWhile (\<lambda>d. \<not> slug_char d) cs @ ys"
    using "2.prems" by (cases ys) (auto simp: dropWhile_append dropWhile_eq_Nil_conv)
  with 2 show ?case by (cases "slug_char c") simp_all
qed simp

lemma slugify_suffix:
  assumes "list_all slug_char u" "last u \<noteq> CHR ''-''" "u \<noteq> []"
  shows "\<exists>front. slugify (CHR ''r'' # s @ u) = front @ u"
proof -
  have u: "collapse_unsafe (to_lower u) = u" "u = [] \<or> slug_char (hd u)"
    using assms by (auto simp: to_lower_slug collapse_unsafe_id list_all_iff)
  have head: "to_lower (CHR ''r'' # s @ u) = CHR ''r'' # to_lower s @ u"
    using assms(1) by (simp add: to_lower_def lower_char_def to_lower_slug [unfolded to_lower_def])
  have "collapse_unsafe (CHR ''r'' # to_lower s @ u) = CHR ''r'' # collapse_unsafe (to_lower s) @ u"
    using collapse_unsafe_append [OF u(2), of "to_lower s"] u(1) assms(1)
    by (simp add: slug_char_def is_lower_alnum_def is_digit_def to_lower_slug collapse_unsafe_id)
  moreover have "trim_dashes (CHR ''r'' # w @ u) = CHR ''r'' # w @ u" for w
    using assms(2,3) by (intro trim_dashes_id) simp_all
  ultimately show ?thesis
    unfolding slugify_def head by (metis append_Cons)
qed

lemma uuid_slug_chars: "uuid_shape u \<Longrightarrow> list_all slug_char u \<and> last u \<noteq> CHR ''-'' \<and> u \<noteq> []"
  by (auto simp: uuid_shape_def list_all_iff slug_char_def is_lower_alnum_def is_hex_def is_digit_def Let_def)

lemma run_slugs_differ:
  assumes "uuid_shape u" "uuid_shape v" "u \<noteq> v"
  shows "toRunSlug (createRunId t u) \<noteq> toRunSlug (createRunId t' v)"
proof -
  from slugify_suffix [of u "''un-'' @ toISOString t @ ''-''"] slugify_suffix [of v "''un-'' @ toISOString t' @ ''-''"]
  obtain f g where "toRunSlug (createRunId t u) = f @ u" "toRunSlug (createRunId t' v) = g @ v"
    using uuid_slug_chars assms(1,2) by (auto simp: toRunSlug_def createRunId_def)
  with assms show ?thesis by (auto simp: uuid_shape_def append_eq_append_conv)
qed

subsection \<open>Evidence is kept\<close>

lemma evidence_kept:
  assumes "fst (putEvidence (keeping_bucket prefix) runId summary b) = Inr ()"
    "toRunSlug other \<noteq> toRunSlug runId"
  shows "\<exists>key. toEvidenceObjectKey prefix runId = Inr key \<and>
    snd (putEvidence (keeping_bucket prefix) other summary'
      (snd (putEvidence (keeping_bucket prefix) runId summary b))) key = Some summary"
proof -
  from assms(1) obtain key where key: "toEvidenceObjectKey prefix runId = Inr key"
    by (auto simp: putEvidence_def keeping_bucket_def split: sum.splits)
  have "key \<noteq> key'" if "toEvidenceObjectKey prefix other = Inr key'" for key'
    using that key assms(2)
    by (auto simp: toEvidenceObjectKey_def toRunSlug_def slug_key_slugify split: if_splits)
  with key show ?thesis
    by (auto simp: putEvidence_def keeping_bucket_def split: sum.splits)
qed

text \<open>
  Run evidence is write-once. The store derives the object of a run from the slug of its
  identifier; runs that drew different UUIDs never share an object, whenever they started, so
  the evidence of a run is still there, unchanged, after another run has written its own.
\<close>

theorem run_evidence_kept:
  assumes "uuid_shape u" "uuid_shape v" "u \<noteq> v"
    "fst (putEvidence (keeping_bucket prefix) (createRunId t u) summary b) = Inr ()"
  shows "\<exists>key. toEvidenceObjectKey prefix (createRunId t u) = Inr key \<and>
    snd (putEvidence (keeping_bucket prefix) (createRunId t' v) summary'
      (snd (putEvidence (keeping_bucket prefix) (createRunId t u) summary b))) key = Some summary"
  using evidence_kept [OF assms(4)] run_slugs_differ [OF assms(2,1)] assms(3) by metis

definition uuid_a :: string where "uuid_a = ''9b1deb4d-3b7d-4bad-9bdd-2b0d7b3dcb6d''"
definition uuid_b :: string where "uuid_b = ''1b9d6bcd-bbfd-4b2d-9b5d-ab8dfbbd4bed''"

lemma run_evidence_kept_witness:
  "\<forall>summary summary'. \<exists>key. toEvidenceObjectKey ''runs'' (createRunId 0 uuid_a) = Inr key \<and>
    snd (putEvidence (keeping_bucket ''runs'') (createRunId 0 uuid_b) summary'
      (snd (putEvidence (keeping_bucket ''runs'') (createRunId 0 uuid_a) summary Map.empty))) key = Some summary"
proof (intro allI)
  fix summary summary'
  have "is_ok (toEvidenceObjectKey ''runs'' (createRunId 0 uuid_a))" by code_simp
  then have "fst (putEvidence (keeping_bucket ''runs'') (createRunId 0 uuid_a) summary Map.empty) = Inr ()"
    by (auto simp: putEvidence_def keeping_bucket_def is_ok_iff)
  moreover have "uuid_shape uuid_a" "uuid_shape uuid_b" "uuid_a \<noteq> uuid_b" by code_simp+
  ultimately show "\<exists>key. toEvidenceObjectKey ''runs'' (createRunId 0 uuid_a) = Inr key \<and>
    snd (putEvidence (keeping_bucket ''runs'') (createRunId 0 uuid_b) summary'
      (snd (putEvidence (keeping_bucket ''runs'') (createRunId 0 uuid_a) summary Map.empty))) key = Some summary"
    by (intro run_evidence_kept)
qed

end
