(* ===== verification/Heartbeat.thy ===== *)
theory Heartbeat
  imports Prelude
begin

text \<open>
  The heartbeat file of the watch command: \<open>writeHeartbeatAtomic\<close> of \<open>src/commands/shared.ts\<close>.

  A file system maps paths to contents. \<open>writeFile\<close> is not atomic: the file is truncated and then
  grows, and a reader may look at any moment, so an operation is the list of the file systems that
  can be seen while it works. Renaming is one step. The surroundings decide how far a call gets.
\<close>

type_synonym files = "string \<Rightarrow> string option"

datatype file_fault = NoFileFault | WriteFailsAfter nat | RenameFails

definition temporaryPath :: "string \<Rightarrow> string \<Rightarrow> string" where
  "temporaryPath path uuid = path @ ''.'' @ uuid @ ''.tmp''"

text \<open>What is seen while \<open>n\<close> characters are written.\<close>

definition write_states :: "string \<Rightarrow> string \<Rightarrow> nat \<Rightarrow> files \<Rightarrow> files list" where
  "write_states path body n fs = map (\<lambda>k. fs(path \<mapsto> take k body)) [0..<Suc n]"

definition rename_file :: "string \<Rightarrow> string \<Rightarrow> files \<Rightarrow> files" where
  "rename_file from to fs = fs(to := fs from, from := None)"

text \<open>Whether the call resolves, and the file systems seen from its start to its end.\<close>

definition writeHeartbeatAtomic :: "string \<Rightarrow> string \<Rightarrow> string \<Rightarrow> file_fault \<Rightarrow> files \<Rightarrow> bool \<times> files list" where
  "writeHeartbeatAtomic uuid path body fault fs =
     (let tmp = temporaryPath path uuid in
      case fault of
        WriteFailsAfter n \<Rightarrow> (False, fs # write_states tmp body n fs)
      | RenameFails \<Rightarrow> (False, fs # write_states tmp body (length body) fs)
      | NoFileFault \<Rightarrow>
          (True, fs # write_states tmp body (length body) fs @ [rename_file tmp path (fs(tmp \<mapsto> body))]))"

lemma temporary_differs [simp]: "temporaryPath path uuid \<noteq> path" "path \<noteq> temporaryPath path uuid"
  by (simp_all add: temporaryPath_def)

lemma write_states_elsewhere:
  "p \<noteq> q \<Longrightarrow> list_all (\<lambda>st. st q = fs q) (write_states p body n fs)"
  by (simp add: write_states_def list_all_iff)

lemma last_write: "last (write_states p body n fs) = fs(p \<mapsto> take n body)"
  by (simp add: write_states_def)

text \<open>
  C31: a probe never sees a torn heartbeat. In every file system that can be seen while a heartbeat is
  written, the heartbeat file is the complete previous one or the complete new one. It is the new one
  at the end exactly when the call resolves, and then no temporary file is left; a call that fails
  leaves the previous heartbeat.
\<close>

theorem heartbeat_never_torn:
  "case writeHeartbeatAtomic uuid path body fault fs of
     (resolved, states) \<Rightarrow>
       list_all (\<lambda>st. st path \<in> {fs path, Some body}) states \<and>
       last states path = (if resolved then Some body else fs path) \<and>
       (resolved \<longleftrightarrow> fault = NoFileFault) \<and>
       (if resolved then last states (temporaryPath path uuid) = None else True)"
proof -
  let ?tmp = "temporaryPath path uuid"
  have seen: "list_all (\<lambda>st. st path \<in> {fs path, Some body}) (write_states ?tmp body n fs)" for n
    using write_states_elsewhere [of ?tmp path fs body n] by (auto simp: list_all_iff)
  have "write_states ?tmp body n fs \<noteq> []" for n by (simp add: write_states_def)
  with seen show ?thesis
    by (auto simp: writeHeartbeatAtomic_def Let_def last_write rename_file_def split: file_fault.split)
qed

end
