(* ===== verification/Test_Stores.thy ===== *)
theory Test_Stores
  imports Evidence_Store
begin

text \<open>
  The repository's own fakes of the two stores: \<open>src/checkpoint/s3-checkpoint-store.fixtures.ts\<close> and
  \<open>src/evidence/s3-evidence-store.fixtures.ts\<close>. A fake is a sender over what it records. Through them
  the rounds of a checkpoint write are followed one by one.
\<close>

subsection \<open>What is sent and answered\<close>

record put_input =
  pi_Body :: string
  pi_Key :: string
  pi_condition :: write_condition

datatype sent_command = GetCommand string | PutCommand put_input

definition put_of :: "string \<Rightarrow> string \<Rightarrow> write_condition \<Rightarrow> put_input" where
  "put_of key body cond = \<lparr>pi_Body = body, pi_Key = key, pi_condition = cond\<rparr>"

definition quoted :: "string \<Rightarrow> string" where
  "quoted s = CHR 0x22 # s @ [CHR 0x22]"

definition etag_after_merge :: string where "etag_after_merge = quoted ''etag-after-merge''"
definition etag_fresh :: string where "etag_fresh = quoted ''etag-fresh''"

definition checkpointPrefix :: string where "checkpointPrefix = ''checkpoints''"
definition checkpointSourceUrl :: string where "checkpointSourceUrl = ''https://sg.zone/replays''"
definition fixture_timestamp :: string where "fixture_timestamp = ''2026-06-09T00:00:00.000Z''"

definition fixture_counts :: page_counts where
  "fixture_counts = \<lparr>pc_discovered = 1, pc_failed = 0, pc_staged = 1, pc_stored = 1\<rparr>"

definition makeCheckpoint :: "nat \<Rightarrow> string \<Rightarrow> checkpoint" where
  "makeCheckpoint lastCompletedPage runId =
     \<lparr>ck_counts = fixture_counts, ck_createdAt = fixture_timestamp, ck_discoveredLastPage = lastCompletedPage,
      ck_lastCompletedPage = lastCompletedPage, ck_lastSourceFailure = None,
      ck_pages = [(''1'', \<lparr>cp_counts = fixture_counts, cp_status = ''complete''\<rparr>)], ck_runId = runId,
      ck_sourceUrl = checkpointSourceUrl, ck_status = CkRunning, ck_updatedAt = fixture_timestamp\<rparr>"

definition s3Error :: "string \<Rightarrow> int \<Rightarrow> s3_error" where
  "s3Error nm status = S3Service nm (Some status)"

text \<open>A store is a sender with the options of \<open>createS3CheckpointStore\<close>; its \<open>random\<close> is always zero,
  and the timer of its pauses leaves what is recorded alone.\<close>

type_synonym 's store = "'s sender \<times> store_options"

definition noRandom :: "nat \<Rightarrow> rat" where "noRandom rnd = 0"

definition baseOptions :: "bool \<Rightarrow> store_options" where
  "baseOptions conditionalWrites = \<lparr>so_conditionalWrites = conditionalWrites, so_prefix = checkpointPrefix\<rparr>"

definition baseStore :: "'s sender \<Rightarrow> bool \<Rightarrow> 's store" where
  "baseStore sender conditionalWrites = (sender, baseOptions conditionalWrites)"

definition store_read :: "(string \<Rightarrow> url option) \<Rightarrow> 's store \<Rightarrow> string \<Rightarrow> 's \<Rightarrow> (store_error + read_result) \<times> 's" where
  "store_read parse_url st slug s = readCheckpoint parse_url (fst st) (snd st) slug s"

definition store_write :: "(string \<Rightarrow> url option) \<Rightarrow> 's store \<Rightarrow> checkpoint \<Rightarrow> string option \<Rightarrow> string \<Rightarrow> 's
    \<Rightarrow> (store_error + string option) \<times> 's" where
  "store_write parse_url st c etag slug s = writeCheckpoint parse_url (fst st) (snd st) noRandom c etag slug s"

subsection \<open>The fakes of the checkpoint store\<close>

definition readingStore :: "get_output \<Rightarrow> 's store" where
  "readingStore response =
     baseStore \<lparr>snd_get = (\<lambda>_ s. (Inr response, s)), snd_put = (\<lambda>_ _ _ s. (Inr (go_ETag response), s)),
       snd_delay = (\<lambda>_ s. s)\<rparr> True"

definition throwingStore :: "s3_error \<Rightarrow> 's store" where
  "throwingStore error =
     baseStore \<lparr>snd_get = (\<lambda>_ s. (Inl error, s)), snd_put = (\<lambda>_ _ _ s. (Inl error, s)),
       snd_delay = (\<lambda>_ s. s)\<rparr> True"

definition capturingStore :: "get_output \<Rightarrow> bool \<Rightarrow> sent_command list store" where
  "capturingStore response conditionalWrites =
     baseStore
       \<lparr>snd_get = (\<lambda>key commands. (Inr response, commands @ [GetCommand key])),
        snd_put = (\<lambda>key body cond commands. (Inr (go_ETag response), commands @ [PutCommand (put_of key body cond)])),
        snd_delay = (\<lambda>_ commands. commands)\<rparr> conditionalWrites"

record cas_state =
  cs_putCount :: nat
  cs_puts :: "put_input list"

definition casStore :: "s3_error \<Rightarrow> checkpoint option \<Rightarrow> cas_state store" where
  "casStore putError remote =
     baseStore
       \<lparr>snd_get = (\<lambda>_ s. (case remote of
            None \<Rightarrow> Inl (s3Error ''NotFound'' 404)
          | Some c \<Rightarrow> Inr \<lparr>go_Body = Some (Inr (checkpoint_text c)), go_ETag = Some etag_fresh\<rparr>, s)),
        snd_put = (\<lambda>key body cond s.
          (let s = \<lparr>cs_putCount = cs_putCount s + 1, cs_puts = cs_puts s @ [put_of key body cond]\<rparr>
           in (if cs_putCount s = 1 then Inl putError else Inr (Some etag_after_merge), s))),
        snd_delay = (\<lambda>_ s. s)\<rparr> True"

definition failingPutStore :: "s3_error \<Rightarrow> checkpoint \<Rightarrow> 's store" where
  "failingPutStore putError remote =
     baseStore
       \<lparr>snd_get = (\<lambda>_ s. (Inr \<lparr>go_Body = Some (Inr (checkpoint_text remote)), go_ETag = Some etag_fresh\<rparr>, s)),
        snd_put = (\<lambda>_ _ _ s. (Inl putError, s)), snd_delay = (\<lambda>_ s. s)\<rparr> True"

lemmas store_simps = baseStore_def baseOptions_def readingStore_def throwingStore_def capturingStore_def casStore_def
  failingPutStore_def store_read_def store_write_def noRandom_def

lemma checkpoint_text_parses: "wf_checkpoint c \<Longrightarrow> parseCheckpoint (checkpoint_text c) = Some c"
  using parseCheckpoint_stringify [of c] by (auto simp: checkpoint_text_def)

lemma makeCheckpoint_wf: "safe_count n \<Longrightarrow> runId \<noteq> [] \<Longrightarrow> wf_checkpoint (makeCheckpoint n runId)"
  by (simp add: makeCheckpoint_def wf_checkpoint_def wf_counts_def wf_page_def safe_count_def
      fixture_counts_def fixture_timestamp_def checkpointSourceUrl_def MAX_SAFE_INTEGER_def)

subsection \<open>Reading\<close>

lemma reading_store_reads:
  assumes "object_key parse_url (baseOptions True) slug = Inr key"
    and "r = \<lparr>go_Body = Some (Inr (checkpoint_text c)), go_ETag = e\<rparr>" "wf_checkpoint c"
  shows "store_read parse_url (readingStore r) slug s = (Inr \<lparr>rd_checkpoint = Some c, rd_etag = e\<rparr>, s)"
  using assms by (simp add: store_simps readCheckpoint_def checkpoint_text_parses)

lemma throwing_store_reads:
  assumes "object_key parse_url (baseOptions True) slug = Inr key"
  shows "store_read parse_url (throwingStore error) slug s =
    (if isNotFound error then Inr no_result else Inl (SendFailed error), s)"
  using assms by (simp add: store_simps readCheckpoint_def)

subsection \<open>Writing, round by round\<close>

definition write_put :: "store_options \<Rightarrow> string \<Rightarrow> checkpoint \<Rightarrow> string option \<Rightarrow> put_input" where
  "write_put options key c etag =
     put_of key (checkpoint_text c) (conditionalHeader etag (so_conditionalWrites options))"

lemma two_rounds:
  obtains n where "MAX_CAS_ROUNDS = Suc (Suc n)"
proof
  show "MAX_CAS_ROUNDS = Suc (Suc 3)" by (simp add: MAX_CAS_ROUNDS_def)
qed

lemma accepted_write_is_one_put:
  assumes "object_key parse_url (baseOptions cw) slug = Inr key"
  shows "store_write parse_url (capturingStore r cw) c etag slug commands =
    (Inr (go_ETag r), commands @ [PutCommand (write_put (baseOptions cw) key c etag)])"
proof -
  obtain n where rounds: "MAX_CAS_ROUNDS = Suc (Suc n)" by (rule two_rounds)
  from assms show ?thesis
    unfolding store_write_def writeCheckpoint_def rounds
    by (simp add: store_simps putCheckpoint_def write_put_def)
qed

text \<open>
  A write that is refused once: what is put the second time is the merge with what is stored,
  under the ETag that was read with it; when nothing is stored any more it is the same
  checkpoint again, to be created.
\<close>

theorem refused_write_is_merged:
  assumes "object_key parse_url (baseOptions True) slug = Inr key"
    and "isPreconditionFailed (SendFailed putError)"
    and "\<And>c. remote = Some c \<Longrightarrow> wf_checkpoint c"
  shows "store_write parse_url (casStore putError remote) intended etag slug \<lparr>cs_putCount = 0, cs_puts = []\<rparr> =
    (Inr (Some etag_after_merge),
     \<lparr>cs_putCount = 2,
      cs_puts =
        [put_of key (checkpoint_text intended) (conditionalHeader etag True),
         (case remote of
            None \<Rightarrow> put_of key (checkpoint_text intended) IfNoneMatch
          | Some c \<Rightarrow> put_of key (checkpoint_text (mergeCheckpoints intended c)) (IfMatch etag_fresh))]\<rparr>)"
proof -
  obtain n where rounds: "MAX_CAS_ROUNDS = Suc (Suc n)" by (rule two_rounds)
  show ?thesis
  proof (cases remote)
  case None
  with assms show ?thesis
    unfolding store_write_def writeCheckpoint_def rounds
    by (simp add: store_simps putCheckpoint_def readCheckpoint_def
        s3Error_def isNotFound_def no_result_def conditionalHeader_def Let_def)
next
  case (Some c)
  with assms show ?thesis
    unfolding store_write_def writeCheckpoint_def rounds
    by (simp add: store_simps putCheckpoint_def readCheckpoint_def
        checkpoint_text_parses conditionalHeader_def Let_def)
  qed
qed

lemma failing_rounds:
  assumes "object_key parse_url (baseOptions True) slug = Inr key"
    and "isPreconditionFailed (SendFailed putError)" "wf_checkpoint remote"
  shows "write_rounds parse_url (fst (failingPutStore putError remote)) (baseOptions True)
      noRandom slug (Suc n) intended etag s =
    (Inl (CheckpointConflict MAX_CAS_ROUNDS (max (ck_lastCompletedPage intended) (ck_lastCompletedPage remote)) slug), s)"
  using assms
proof (induction n arbitrary: intended etag)
  case 0
  then show ?case
    by (simp add: store_simps putCheckpoint_def readCheckpoint_def checkpoint_text_parses Let_def
        mergeCheckpoints_def)
next
  case (Suc n)
  let ?m = "mergeCheckpoints intended remote"
  have m: "max (ck_lastCompletedPage ?m) (ck_lastCompletedPage remote) =
      max (ck_lastCompletedPage intended) (ck_lastCompletedPage remote)"
    by (simp add: mergeCheckpoints_def Let_def)
  have step: "write_rounds parse_url (fst (failingPutStore putError remote)) (baseOptions True)
      noRandom slug (Suc (Suc n)) intended etag s =
    write_rounds parse_url (fst (failingPutStore putError remote)) (baseOptions True)
      noRandom slug (Suc n) ?m (Some etag_fresh) s"
    using Suc.prems
    by (simp add: store_simps putCheckpoint_def readCheckpoint_def checkpoint_text_parses Let_def
        del: write_rounds.simps(2) add: write_rounds.simps(2) [of _ _ _ _ _ "Suc n"])
  show ?case by (simp only: step Suc.IH [OF Suc.prems] m)
qed

text \<open>
  A write that is refused in every round ends in the conflict error, which names the page of
  the merged checkpoint; one that fails otherwise ends at once with that failure.
\<close>

theorem persistent_refusal_gives_up:
  fixes s :: 's
  assumes "object_key parse_url (baseOptions True) slug = Inr key" "wf_checkpoint remote"
  shows "store_write parse_url (failingPutStore putError remote) intended etag slug s =
    (Inl (if isPreconditionFailed (SendFailed putError)
          then CheckpointConflict 5 (max (ck_lastCompletedPage intended) (ck_lastCompletedPage remote)) slug
          else SendFailed putError), s)"
proof -
  obtain n where rounds: "MAX_CAS_ROUNDS = Suc (Suc n)" by (rule two_rounds)
  show ?thesis
  proof (cases "isPreconditionFailed (SendFailed putError)")
    case True
    have options: "snd (failingPutStore putError remote :: 's store) = baseOptions True" by (simp add: store_simps)
    have "store_write parse_url (failingPutStore putError remote) intended etag slug s =
      (Inl (CheckpointConflict MAX_CAS_ROUNDS (max (ck_lastCompletedPage intended) (ck_lastCompletedPage remote)) slug), s)"
      unfolding store_write_def writeCheckpoint_def rounds options
      by (rule failing_rounds [OF assms(1) True assms(2), of "Suc n", unfolded rounds])
    with True show ?thesis by (simp add: MAX_CAS_ROUNDS_def)
  next
    case False
    with assms show ?thesis
      unfolding store_write_def writeCheckpoint_def rounds by (simp add: store_simps putCheckpoint_def)
  qed
qed

subsection \<open>The fakes of the evidence store\<close>

definition evidenceRunId :: string where "evidenceRunId = ''run-2026-06-11T13:27:38.774Z-abc123''"
definition evidencePrefix :: string where "evidencePrefix = ''runs''"
definition evidence_timestamp :: string where "evidence_timestamp = ''2026-06-11T13:27:38.774Z''"

definition makeRunSummary :: "string \<Rightarrow> run_summary" where
  "makeRunSummary runId =
     \<lparr>su_candidates = [], su_candidatesPerMinute = None,
      su_counts = \<lparr>rn_conflict = 0, rn_diagnostics = 0, rn_discovered = 1, rn_duplicate = 0, rn_failed = 0,
        rn_fetched = 1, rn_skipped = 0, rn_skippedBySourceId = 0, rn_skippedPreDetail = 0, rn_staged = 1,
        rn_stored = 1\<rparr>,
      su_diagnostics = [], su_discoveredRange = None, su_etaSeconds = None, su_failureCategories = [],
      su_finishedAt = evidence_timestamp, su_mode = RunOnce, su_ok = True, su_pagesPerMinute = None,
      su_rawStorage = [], su_resumeInvocation = None, su_runId = runId, su_sourceFailure = None,
      su_sourceUrl = Some checkpointSourceUrl, su_staging = [], su_startedAt = evidence_timestamp,
      su_status = Some RunComplete\<rparr>"

definition evidence_capturing :: "(string \<times> run_summary) list evidence_options" where
  "evidence_capturing =
     \<lparr>eo_prefix = evidencePrefix, eo_put = (\<lambda>key summary commands. (Inr (), commands @ [(key, summary)]))\<rparr>"

definition evidence_rejecting :: "s3_error \<Rightarrow> 's evidence_options" where
  "evidence_rejecting error = \<lparr>eo_prefix = evidencePrefix, eo_put = (\<lambda>_ _ s. (Inl error, s))\<rparr>"

lemma evidence_is_one_put:
  "putEvidence evidence_capturing evidenceRunId (makeRunSummary evidenceRunId) commands =
     (Inr (), commands @ [(''runs/run-2026-06-11t13-27-38.774z-abc123/evidence.json'', makeRunSummary evidenceRunId)])"
proof -
  have "toEvidenceObjectKey evidencePrefix evidenceRunId =
      Inr ''runs/run-2026-06-11t13-27-38.774z-abc123/evidence.json''"
    by code_simp
  then show ?thesis by (simp add: putEvidence_def evidence_capturing_def)
qed

lemma evidence_rejection_propagates:
  "toEvidenceObjectKey evidencePrefix runId = Inr key \<Longrightarrow>
     putEvidence (evidence_rejecting error) runId summary s = (Inl (SendFailed error), s)"
  by (simp add: putEvidence_def evidence_rejecting_def)

end
