(* ===== verification/Golden_Fixtures.thy ===== *)
theory Golden_Fixtures
  imports Discovery Page_Url Html_Roundtrip
begin

text \<open>
  The recorder of end-to-end fixtures and the loader the tests read them with:
  \<open>scripts/capture-golden-fixtures.ts\<close> and \<open>src/run/golden-fixtures.ts\<close>. The recorder walks the
  first ten list pages of the source and writes list pages, detail pages and replay bytes to
  compressed files, with a manifest from the addresses to the files; the loader reads them back into maps.

  The directory is a map from relative paths to contents; the manifest file in it is kept as the
  value whose JSON text it holds. Compression is a parameter, as are source, clock and the
  disk, which may refuse a write. \<open>new URL\<close> is the parameter \<open>parse\<close>.
\<close>

subsection \<open>Text in files\<close>

text \<open>
  \<open>Buffer.toString("utf8")\<close> of the bytes of a text; \<open>None\<close> is a text with a code unit beyond 255, and
  outside the model.
\<close>

fun utf8_text :: "bytes \<Rightarrow> string option" where
  "utf8_text [] = Some []"
| "utf8_text [w] = (if unat w < 128 then Some [char_of (unat w)] else None)"
| "utf8_text (w # v # ws) =
     (if unat w < 128 then map_option (Cons (char_of (unat w))) (utf8_text (v # ws))
      else if 194 \<le> unat w \<and> unat w < 196 \<and> 128 \<le> unat v \<and> unat v < 192
      then map_option (Cons (char_of ((unat w - 192) * 64 + (unat v - 128)))) (utf8_text ws)
      else None)"

lemma utf8_text_ascii: "unat w < 128 \<Longrightarrow> utf8_text (w # ws) = map_option (Cons (char_of (unat w))) (utf8_text ws)"
  by (cases ws) simp_all

lemma unat_byte: "n < 256 \<Longrightarrow> unat (word_of_nat n :: 8 word) = n"
  by (simp add: unat_of_nat)

lemma utf8_text_bytes: "utf8_text (utf8_bytes s) = Some s"
proof (induction s)
  case (Cons c s)
  have c: "(of_char c :: nat) < 256" by (rule nat_of_char_less_256)
  show ?case
  proof (cases "(of_char c :: nat) < 128")
    case True
    with Cons show ?thesis by (simp add: utf8_bytes_def Let_def utf8_text_ascii unat_byte)
  next
    case False
    let ?n = "of_char c :: nat"
    have "192 + ?n div 64 < 196" "194 \<le> 192 + ?n div 64" "128 + ?n mod 64 < 192" using c False by linarith+
    moreover from this have "unat (word_of_nat (192 + ?n div 64) :: 8 word) = 192 + ?n div 64"
      "unat (word_of_nat (128 + ?n mod 64) :: 8 word) = 128 + ?n mod 64"
      by (intro unat_byte; linarith)+
    ultimately show ?thesis using False Cons by (simp add: utf8_bytes_def Let_def)
  qed
qed (simp add: utf8_bytes_def)

subsection \<open>The recorder\<close>

record manifest =
  mf_bytes :: "(string \<times> string) list"
  mf_details :: "(string \<times> string) list"
  mf_expectedExternalIds :: "string list"
  mf_listPages :: "(string \<times> string) list"
  mf_sourceUrl :: string

record fixture_dir =
  fd_files :: "string \<Rightarrow> bytes option"
  fd_manifest :: "manifest option"

record 's capture_input =
  ca_fetchBytes :: "url \<Rightarrow> 's \<Rightarrow> (thrown + bytes) \<times> 's"
  ca_fetchText :: "url \<Rightarrow> 's \<Rightarrow> (thrown + string) \<times> 's"
  ca_gzip :: "bytes \<Rightarrow> bytes"
  ca_parse :: "string \<Rightarrow> url option"
  ca_resolve :: "string \<Rightarrow> url \<Rightarrow> url option"
  ca_sleep :: "nat \<Rightarrow> 's \<Rightarrow> 's"
  ca_sourceUrl :: url
  ca_spacingMs :: nat
  ca_write :: "string \<Rightarrow> 's \<Rightarrow> (thrown + unit) \<times> 's"

definition TOTAL_PAGES :: nat where "TOTAL_PAGES = 10"

type_synonym 's recording = "manifest \<times> fixture_dir \<times> 's"

definition writeGzip :: "'s capture_input \<Rightarrow> string \<Rightarrow> bytes \<Rightarrow> fixture_dir \<times> 's \<Rightarrow> (thrown + unit) \<times> (fixture_dir \<times> 's)" where
  "writeGzip input path body st =
     (case ca_write input path (snd st) of
        (Inl e, s) \<Rightarrow> (Inl e, (fst st, s))
      | (Inr _, s) \<Rightarrow> (Inr (), ((fst st)\<lparr>fd_files := (fd_files (fst st))(path \<mapsto> ca_gzip input body)\<rparr>, s)))"

definition list_path :: "nat \<Rightarrow> string" where
  "list_path page = ''list/page-'' @ show_nat page @ ''.html.gz''"

definition detail_path :: "string \<Rightarrow> string" where
  "detail_path externalId = ''detail/'' @ externalId @ ''.html.gz''"

definition bytes_path :: "string \<Rightarrow> string" where
  "bytes_path externalId = ''bytes/'' @ externalId @ ''.ocap.gz''"

definition captureBytes ::
    "'s capture_input \<Rightarrow> url \<Rightarrow> string \<Rightarrow> string \<Rightarrow> 's recording \<Rightarrow> (thrown + unit) \<times> 's recording" where
  "captureBytes input detail externalId filename st =
     (case st of (m, d, s) \<Rightarrow>
        (case toRawReplayUrl (ca_resolve input) filename detail of
           Inl e \<Rightarrow> (Inl e, (m, d, s))
         | Inr rawUrl \<Rightarrow>
             (let s = ca_sleep input (ca_spacingMs input) s in
              case ca_parse input rawUrl of
                None \<Rightarrow> (Inl invalid_url_error, (m, d, s))
              | Some u \<Rightarrow>
                  (case ca_fetchBytes input u s of
                     (Inl e, s) \<Rightarrow> (Inl e, (m, d, s))
                   | (Inr body, s) \<Rightarrow>
                       (case writeGzip input (bytes_path externalId) body (d, s) of
                          (Inl e, (d, s)) \<Rightarrow> (Inl e, (m, d, s))
                        | (Inr _, (d, s)) \<Rightarrow>
                            (Inr (), (m\<lparr>mf_bytes := AList.update rawUrl (bytes_path externalId) (mf_bytes m)\<rparr>,
                              d, s)))))))"

definition captureRow ::
    "'s capture_input \<Rightarrow> string \<Rightarrow> string \<Rightarrow> 's recording \<Rightarrow> (thrown + unit) \<times> 's recording" where
  "captureRow input detailUrl externalId st =
     (case st of (m, d, s) \<Rightarrow>
        (let s = ca_sleep input (ca_spacingMs input) s in
         case ca_parse input detailUrl of
           None \<Rightarrow> (Inl invalid_url_error, (m, d, s))
         | Some detail \<Rightarrow>
             (case ca_fetchText input detail s of
                (Inl e, s) \<Rightarrow> (Inl e, (m, d, s))
              | (Inr detailHtml, s) \<Rightarrow>
                  (case writeGzip input (detail_path externalId) (utf8_bytes detailHtml) (d, s) of
                     (Inl e, (d, s)) \<Rightarrow> (Inl e, (m, d, s))
                   | (Inr _, (d, s)) \<Rightarrow>
                       (let m = m\<lparr>mf_details := AList.update detailUrl (detail_path externalId) (mf_details m),
                                  mf_expectedExternalIds := mf_expectedExternalIds m @ [externalId]\<rparr>
                        in case extractFilenameFromDetailHtml detailHtml of
                             None \<Rightarrow> (Inr (), (m, d, s))
                           | Some filename \<Rightarrow> captureBytes input detail externalId filename (m, d, s))))))"

definition linked_rows :: "row_observation list \<Rightarrow> (string \<times> string) list" where
  "linked_rows rows = concat (map (\<lambda>row. case (ro_url row, ro_externalId row) of
       (Some u, Some i) \<Rightarrow> [(u, i)] | _ \<Rightarrow> []) rows)"

primrec captureRows ::
    "'s capture_input \<Rightarrow> (string \<times> string) list \<Rightarrow> 's recording \<Rightarrow> (thrown + unit) \<times> 's recording" where
  "captureRows input [] st = (Inr (), st)"
| "captureRows input (row # rows) st =
     (case captureRow input (fst row) (snd row) st of
        (Inl e, st) \<Rightarrow> (Inl e, st)
      | (Inr _, st) \<Rightarrow> captureRows input rows st)"

definition capturePage :: "'s capture_input \<Rightarrow> nat \<Rightarrow> 's recording \<Rightarrow> (thrown + unit) \<times> 's recording" where
  "capturePage input page st =
     (case st of (m, d, s) \<Rightarrow>
        (let pageUrl = toPageUrl (ca_sourceUrl input) page;
             s = ca_sleep input (ca_spacingMs input) s
         in case ca_fetchText input pageUrl s of
              (Inl e, s) \<Rightarrow> (Inl e, (m, d, s))
            | (Inr listHtml, s) \<Rightarrow>
                (case writeGzip input (list_path page) (utf8_bytes listHtml) (d, s) of
                   (Inl e, (d, s)) \<Rightarrow> (Inl e, (m, d, s))
                 | (Inr _, (d, s)) \<Rightarrow>
                     captureRows input
                       (linked_rows (extractReplayRows (ca_resolve input) listHtml page pageUrl))
                       (m\<lparr>mf_listPages := AList.update (href pageUrl) (list_path page) (mf_listPages m)\<rparr>, d, s))))"

primrec capturePages :: "'s capture_input \<Rightarrow> nat list \<Rightarrow> 's recording \<Rightarrow> (thrown + unit) \<times> 's recording" where
  "capturePages input [] st = (Inr (), st)"
| "capturePages input (page # pages) st =
     (case capturePage input page st of
        (Inl e, st) \<Rightarrow> (Inl e, st)
      | (Inr _, st) \<Rightarrow> capturePages input pages st)"

definition empty_manifest :: "url \<Rightarrow> manifest" where
  "empty_manifest sourceUrl = \<lparr>mf_bytes = [], mf_details = [], mf_expectedExternalIds = [], mf_listPages = [],
     mf_sourceUrl = href sourceUrl\<rparr>"

definition captureFixtures :: "'s capture_input \<Rightarrow> fixture_dir \<Rightarrow> 's \<Rightarrow> (thrown + manifest) \<times> (fixture_dir \<times> 's)" where
  "captureFixtures input d s =
     (case capturePages input [1..<Suc TOTAL_PAGES] (empty_manifest (ca_sourceUrl input), d, s) of
        (Inl e, (m, d, s)) \<Rightarrow> (Inl e, (d, s))
      | (Inr _, (m, d, s)) \<Rightarrow>
          (case ca_write input ''manifest.json'' s of
             (Inl e, s) \<Rightarrow> (Inl e, (d, s))
           | (Inr _, s) \<Rightarrow> (Inr m, (d\<lparr>fd_manifest := Some m\<rparr>, s))))"

subsection \<open>The loader\<close>

datatype load_error = NoSuchFile string | CorruptFile string | InvalidSourceUrl

record golden =
  gf_bytesByUrl :: "string \<Rightarrow> bytes option"
  gf_expectedExternalIds :: "string list"
  gf_htmlByUrl :: "string \<Rightarrow> string option"
  gf_sourceUrl :: url

definition goldenFixturesPresent :: "fixture_dir \<Rightarrow> bool" where
  "goldenFixturesPresent d \<longleftrightarrow> fd_manifest d \<noteq> None"

definition gunzipBytes :: "(bytes \<Rightarrow> bytes option) \<Rightarrow> fixture_dir \<Rightarrow> string \<Rightarrow> load_error + bytes" where
  "gunzipBytes gunzip d path =
     (case fd_files d path of
        None \<Rightarrow> Inl (NoSuchFile path)
      | Some z \<Rightarrow> (case gunzip z of None \<Rightarrow> Inl (CorruptFile path) | Some b \<Rightarrow> Inr b))"

definition gunzipText :: "(bytes \<Rightarrow> bytes option) \<Rightarrow> fixture_dir \<Rightarrow> string \<Rightarrow> load_error + string" where
  "gunzipText gunzip d path =
     (case gunzipBytes gunzip d path of
        Inl e \<Rightarrow> Inl e
      | Inr b \<Rightarrow> (case utf8_text b of None \<Rightarrow> Inl (CorruptFile path) | Some t \<Rightarrow> Inr t))"

fun read_all :: "(string \<Rightarrow> 'e + 'a) \<Rightarrow> (string \<times> string) list \<Rightarrow> (string \<Rightarrow> 'a option) \<Rightarrow> 'e + (string \<Rightarrow> 'a option)" where
  "read_all rd [] acc = Inr acc"
| "read_all rd ((u, path) # rest) acc =
     (case rd path of Inl e \<Rightarrow> Inl e | Inr x \<Rightarrow> read_all rd rest (acc(u \<mapsto> x)))"

definition loadGoldenFixtures ::
    "(string \<Rightarrow> url option) \<Rightarrow> (bytes \<Rightarrow> bytes option) \<Rightarrow> fixture_dir \<Rightarrow> load_error + golden" where
  "loadGoldenFixtures parse gunzip d =
     (case fd_manifest d of
        None \<Rightarrow> Inl (NoSuchFile ''manifest.json'')
      | Some m \<Rightarrow>
          (case read_all (gunzipText gunzip d) (mf_listPages m @ mf_details m) Map.empty of
             Inl e \<Rightarrow> Inl e
           | Inr html \<Rightarrow>
               (case read_all (gunzipBytes gunzip d) (mf_bytes m) Map.empty of
                  Inl e \<Rightarrow> Inl e
                | Inr raw \<Rightarrow>
                    (case parse (mf_sourceUrl m) of
                       None \<Rightarrow> Inl InvalidSourceUrl
                     | Some u \<Rightarrow> Inr \<lparr>gf_bytesByUrl = raw, gf_expectedExternalIds = mf_expectedExternalIds m,
                         gf_htmlByUrl = html, gf_sourceUrl = u\<rparr>))))"

subsection \<open>What is recorded\<close>

text \<open>
  A source that always answers an address in the same way: \<open>page_at\<close> and \<open>raw_at\<close> by address. The
  identifier in a detail address and the raw address its page names are functions of it.
\<close>

definition answers :: "'s capture_input \<Rightarrow> (string \<Rightarrow> string) \<Rightarrow> (string \<Rightarrow> bytes) \<Rightarrow> bool" where
  "answers input page_at raw_at \<longleftrightarrow>
     (\<forall>u v s x s'. ca_fetchText input u s = (Inr x, s') \<longrightarrow> ca_parse input v = Some u \<longrightarrow> x = page_at v) \<and>
     (\<forall>u v s b s'. ca_fetchBytes input u s = (Inr b, s') \<longrightarrow> ca_parse input v = Some u \<longrightarrow> b = raw_at v) \<and>
     (\<forall>n. ca_parse input (href (toPageUrl (ca_sourceUrl input) n)) = Some (toPageUrl (ca_sourceUrl input) n))"

definition id_of :: "string \<Rightarrow> string" where
  "id_of u = (case group ''id'' (exec external_id_pattern u) of Some i \<Rightarrow> i | None \<Rightarrow> [])"

definition raw_of :: "'s capture_input \<Rightarrow> (string \<Rightarrow> string) \<Rightarrow> string \<Rightarrow> string option" where
  "raw_of input page_at u =
     (case (ca_parse input u, extractFilenameFromDetailHtml (page_at u)) of
        (Some detail, Some filename) \<Rightarrow>
          (case toRawReplayUrl (ca_resolve input) filename detail of Inl _ \<Rightarrow> None | Inr r \<Rightarrow> Some r)
      | _ \<Rightarrow> None)"

definition lists_kept :: "'s capture_input \<Rightarrow> (string \<Rightarrow> string) \<Rightarrow> manifest \<Rightarrow> fixture_dir \<Rightarrow> bool" where
  "lists_kept input page_at m d \<longleftrightarrow>
     (\<forall>u p. map_of (mf_listPages m) u = Some p \<longrightarrow>
        (\<exists>n. p = list_path n \<and> u = href (toPageUrl (ca_sourceUrl input) n) \<and>
             fd_files d p = Some (ca_gzip input (utf8_bytes (page_at u)))))"

definition details_kept :: "'s capture_input \<Rightarrow> (string \<Rightarrow> string) \<Rightarrow> manifest \<Rightarrow> fixture_dir \<Rightarrow> bool" where
  "details_kept input page_at m d \<longleftrightarrow>
     (\<forall>u p. map_of (mf_details m) u = Some p \<longrightarrow>
        p = detail_path (id_of u) \<and>
        (\<exists>v. map_of (mf_details m) v = Some p \<and>
             fd_files d p = Some (ca_gzip input (utf8_bytes (page_at v)))))"

definition recorded_raw :: "'s capture_input \<Rightarrow> (string \<Rightarrow> string) \<Rightarrow> manifest \<Rightarrow> string \<Rightarrow> string \<Rightarrow> bool" where
  "recorded_raw input page_at m u r \<longleftrightarrow>
     map_of (mf_details m) u = Some (detail_path (id_of u)) \<and> raw_of input page_at u = Some r"

definition bytes_kept ::
    "'s capture_input \<Rightarrow> (string \<Rightarrow> string) \<Rightarrow> (string \<Rightarrow> bytes) \<Rightarrow> manifest \<Rightarrow> fixture_dir \<Rightarrow> bool" where
  "bytes_kept input page_at raw_at m d \<longleftrightarrow>
     (\<forall>r p. map_of (mf_bytes m) r = Some p \<longrightarrow>
        (\<exists>u. recorded_raw input page_at m u r \<and> p = bytes_path (id_of u)) \<and>
        (\<exists>v r'. recorded_raw input page_at m v r' \<and> p = bytes_path (id_of v) \<and>
             fd_files d p = Some (ca_gzip input (raw_at r'))))"

definition kept :: "'s capture_input \<Rightarrow> (string \<Rightarrow> string) \<Rightarrow> (string \<Rightarrow> bytes) \<Rightarrow> 's recording \<Rightarrow> bool" where
  "kept input page_at raw_at st \<longleftrightarrow> (case st of (m, d, s) \<Rightarrow>
     lists_kept input page_at m d \<and> details_kept input page_at m d \<and> bytes_kept input page_at raw_at m d \<and>
     distinct (map fst (mf_listPages m)) \<and> distinct (map fst (mf_details m)) \<and>
     distinct (map fst (mf_bytes m)) \<and> mf_sourceUrl m = href (ca_sourceUrl input))"

lemma paths_inj [simp]:
  "list_path m = list_path n \<longleftrightarrow> m = n"
  "detail_path i = detail_path j \<longleftrightarrow> i = j"
  "bytes_path i = bytes_path j \<longleftrightarrow> i = j"
  by (simp_all add: list_path_def detail_path_def bytes_path_def)

lemma paths_differ [simp]:
  "list_path n \<noteq> detail_path i" "detail_path i \<noteq> list_path n"
  "list_path n \<noteq> bytes_path i" "bytes_path i \<noteq> list_path n"
  "detail_path i \<noteq> bytes_path j" "bytes_path j \<noteq> detail_path i"
  by (simp_all add: list_path_def detail_path_def bytes_path_def)

lemma writeGzip_Inr:
  "writeGzip input path body st = (Inr x, st') \<Longrightarrow>
     fst st' = (fst st)\<lparr>fd_files := (fd_files (fst st))(path \<mapsto> ca_gzip input body)\<rparr>"
  by (auto simp: writeGzip_def split: prod.splits sum.splits)

lemma fd_files_update_other [simp]:
  "q \<noteq> p \<Longrightarrow> fd_files (d\<lparr>fd_files := (fd_files d)(p \<mapsto> z)\<rparr>) q = fd_files d q"
  by simp

lemma keptD:
  assumes "kept input page_at raw_at (m, d, s)"
  shows "map_of (mf_listPages m) u = Some p \<Longrightarrow>
      \<exists>n. p = list_path n \<and> u = href (toPageUrl (ca_sourceUrl input) n) \<and>
        fd_files d p = Some (ca_gzip input (utf8_bytes (page_at u)))"
    and "map_of (mf_details m) u = Some q \<Longrightarrow> q = detail_path (id_of u)"
    and "map_of (mf_details m) u = Some q \<Longrightarrow>
      \<exists>v. map_of (mf_details m) v = Some q \<and> fd_files d q = Some (ca_gzip input (utf8_bytes (page_at v)))"
  using assms unfolding kept_def lists_kept_def details_kept_def by blast+

lemma lists_frame:
  assumes "lists_kept input page_at m d" "mf_listPages m' = mf_listPages m"
    and "\<And>n. fd_files d' (list_path n) = fd_files d (list_path n)"
  shows "lists_kept input page_at m' d'"
  using assms unfolding lists_kept_def by metis

lemma details_frame:
  assumes "details_kept input page_at m d" "mf_details m' = mf_details m"
    and "\<And>i. fd_files d' (detail_path i) = fd_files d (detail_path i)"
  shows "details_kept input page_at m' d'"
  using assms unfolding details_kept_def by metis

lemma bytes_frame:
  assumes "bytes_kept input page_at raw_at m d" "mf_bytes m' = mf_bytes m"
    and "\<And>i. fd_files d' (bytes_path i) = fd_files d (bytes_path i)"
    and "\<And>u r. recorded_raw input page_at m u r \<Longrightarrow> recorded_raw input page_at m' u r"
  shows "bytes_kept input page_at raw_at m' d'"
  using assms(1-3) assms(4) [of _] unfolding bytes_kept_def by metis

lemma kept_after_list:
  assumes "kept input page_at raw_at (m, d, s)" "x = page_at (href (toPageUrl (ca_sourceUrl input) n))"
    and "d' = d\<lparr>fd_files := (fd_files d)(list_path n \<mapsto> ca_gzip input (utf8_bytes x))\<rparr>"
  shows "kept input page_at raw_at
    (m\<lparr>mf_listPages := AList.update (href (toPageUrl (ca_sourceUrl input) n)) (list_path n) (mf_listPages m)\<rparr>, d', s')"
proof -
  from assms have "lists_kept input page_at
      (m\<lparr>mf_listPages := AList.update (href (toPageUrl (ca_sourceUrl input) n)) (list_path n) (mf_listPages m)\<rparr>) d'"
    unfolding lists_kept_def
  proof (intro allI impI)
    fix u p
    assume "map_of (mf_listPages (m\<lparr>mf_listPages := AList.update (href (toPageUrl (ca_sourceUrl input) n))
      (list_path n) (mf_listPages m)\<rparr>)) u = Some p"
    then have "((map_of (mf_listPages m))(href (toPageUrl (ca_sourceUrl input) n) \<mapsto> list_path n)) u = Some p"
      by (simp add: update_conv' del: fun_upd_apply)
    then consider "u = href (toPageUrl (ca_sourceUrl input) n)" "p = list_path n"
      | "map_of (mf_listPages m) u = Some p"
      by (cases "u = href (toPageUrl (ca_sourceUrl input) n)") simp_all
    then show "\<exists>n. p = list_path n \<and> u = href (toPageUrl (ca_sourceUrl input) n) \<and>
        fd_files d' p = Some (ca_gzip input (utf8_bytes (page_at u)))"
    proof cases
      case 2
      from keptD(1) [OF assms(1) this] obtain k where
        "p = list_path k" "u = href (toPageUrl (ca_sourceUrl input) k)"
        "fd_files d p = Some (ca_gzip input (utf8_bytes (page_at u)))" by blast
      with assms(2,3) show ?thesis by (cases "k = n") auto
    qed (use assms(2,3) in auto)
  qed
  moreover have "details_kept input page_at
      (m\<lparr>mf_listPages := AList.update (href (toPageUrl (ca_sourceUrl input) n)) (list_path n) (mf_listPages m)\<rparr>) d'"
    by (rule details_frame [of _ _ m d]) (use assms in \<open>simp_all add: kept_def\<close>)
  moreover have "bytes_kept input page_at raw_at
      (m\<lparr>mf_listPages := AList.update (href (toPageUrl (ca_sourceUrl input) n)) (list_path n) (mf_listPages m)\<rparr>) d'"
    by (rule bytes_frame [of _ _ _ m d]) (use assms in \<open>simp_all add: kept_def recorded_raw_def\<close>)
  ultimately show ?thesis using assms(1) by (simp add: kept_def distinct_update)
qed

lemma kept_after_detail:
  assumes "kept input page_at raw_at (m, d, s)" "x = page_at u" "i = id_of u"
    and "d' = d\<lparr>fd_files := (fd_files d)(detail_path i \<mapsto> ca_gzip input (utf8_bytes x))\<rparr>"
    and "m' = m\<lparr>mf_details := AList.update u (detail_path i) (mf_details m),
           mf_expectedExternalIds := mf_expectedExternalIds m @ [i]\<rparr>"
  shows "kept input page_at raw_at (m', d', s') \<and> map_of (mf_details m') u = Some (detail_path (id_of u))"
proof -
  have details: "map_of (mf_details m') = (map_of (mf_details m))(u \<mapsto> detail_path (id_of u))"
    using assms(3,5) by (simp add: update_conv')
  have "lists_kept input page_at m' d'"
    by (rule lists_frame [of _ _ m d]) (use assms in \<open>simp_all add: kept_def\<close>)
  moreover have "details_kept input page_at m' d'"
    unfolding details_kept_def
  proof (intro allI impI)
    fix v p assume v: "map_of (mf_details m') v = Some p"
    with assms(1) details have p: "p = detail_path (id_of v)"
      by (auto simp: kept_def details_kept_def split: if_splits)
    show "p = detail_path (id_of v) \<and> (\<exists>v. map_of (mf_details m') v = Some p \<and>
             fd_files d' p = Some (ca_gzip input (utf8_bytes (page_at v))))"
    proof (cases "id_of v = id_of u")
      case True
      with p details assms(2-4) show ?thesis by auto
    next
      case False
      with v details have "map_of (mf_details m) v = Some p" by (auto split: if_splits)
      from keptD(3) [OF assms(1) this] obtain w where w: "map_of (mf_details m) w = Some p"
        "fd_files d p = Some (ca_gzip input (utf8_bytes (page_at w)))" by blast
      from keptD(2) [OF assms(1) w(1)] p have "id_of w = id_of v" by simp
      with False have "w \<noteq> u" by auto
      with False w p assms(3,4) details show ?thesis by (intro conjI exI [of _ w]) simp_all
    qed
  qed
  moreover have "bytes_kept input page_at raw_at m' d'"
    by (rule bytes_frame [of _ _ _ m d]) (use assms(1,4,5) details in \<open>auto simp: kept_def recorded_raw_def\<close>)
  ultimately show ?thesis using assms(1,5) details by (simp add: kept_def distinct_update)
qed

lemma kept_after_bytes:
  assumes "kept input page_at raw_at (m, d, s)" "recorded_raw input page_at m u r" "b = raw_at r" "i = id_of u"
    and "d' = d\<lparr>fd_files := (fd_files d)(bytes_path i \<mapsto> ca_gzip input b)\<rparr>"
    and "m' = m\<lparr>mf_bytes := AList.update r (bytes_path i) (mf_bytes m)\<rparr>"
  shows "kept input page_at raw_at (m', d', s')"
proof -
  have same: "recorded_raw input page_at m' v q = recorded_raw input page_at m v q" for v q
    using assms(6) by (simp add: recorded_raw_def)
  have entries: "map_of (mf_bytes m') = (map_of (mf_bytes m))(r \<mapsto> bytes_path i)"
    using assms(6) by (simp add: update_conv')
  have "lists_kept input page_at m' d'"
    by (rule lists_frame [of _ _ m d]) (use assms in \<open>simp_all add: kept_def\<close>)
  moreover have "details_kept input page_at m' d'"
    by (rule details_frame [of _ _ m d]) (use assms in \<open>simp_all add: kept_def\<close>)
  moreover have "bytes_kept input page_at raw_at m' d'"
    unfolding bytes_kept_def same
  proof (intro allI impI conjI)
    fix q p assume q: "map_of (mf_bytes m') q = Some p"
    have old: "bytes_kept input page_at raw_at m d" using assms(1) by (simp add: kept_def)
    show "\<exists>v. recorded_raw input page_at m v q \<and> p = bytes_path (id_of v)"
    proof (cases "q = r")
      case False
      with q entries old show ?thesis unfolding bytes_kept_def by simp
    qed (use q entries assms(2,4) in auto)
    show "\<exists>v r'. recorded_raw input page_at m v r' \<and> p = bytes_path (id_of v) \<and>
        fd_files d' p = Some (ca_gzip input (raw_at r'))"
    proof (cases "p = bytes_path i")
      case True
      with assms(2-5) show ?thesis by auto
    next
      case False
      with q entries have "map_of (mf_bytes m) q = Some p" by (simp split: if_splits)
      with old False assms(5) show ?thesis unfolding bytes_kept_def by simp
    qed
  qed
  ultimately show ?thesis using assms(1,6) by (simp add: kept_def distinct_update)
qed

lemma kept_world: "kept input page_at raw_at (m, d, s) \<Longrightarrow> kept input page_at raw_at (m, d, s')"
  by (simp add: kept_def)

lemma captureBytes_kept:
  assumes "answers input page_at raw_at" "kept input page_at raw_at (m, d, s)"
    and "map_of (mf_details m) u = Some (detail_path (id_of u))" "ca_parse input u = Some detail"
    and "extractFilenameFromDetailHtml (page_at u) = Some filename"
  shows "kept input page_at raw_at (snd (captureBytes input detail (id_of u) filename (m, d, s)))"
proof (cases "toRawReplayUrl (ca_resolve input) filename detail")
  case (Inl e)
  with assms(2) show ?thesis by (simp add: captureBytes_def)
next
  case (Inr r)
  with assms(3-5) have raw: "recorded_raw input page_at m u r" by (simp add: recorded_raw_def raw_of_def)
  let ?s = "ca_sleep input (ca_spacingMs input) s"
  show ?thesis
  proof (cases "ca_parse input r")
    case None
    with Inr kept_world [OF assms(2)] show ?thesis by (simp add: captureBytes_def)
  next
    case (Some v)
    obtain f s1 where f: "ca_fetchBytes input v ?s = (f, s1)" by force
    show ?thesis
    proof (cases f)
      case (Inl e)
      with f Some Inr kept_world [OF assms(2)] show ?thesis by (simp add: captureBytes_def)
    next
      case body: (Inr b)
      with f Some assms(1) have b: "b = raw_at r" unfolding answers_def by blast
      obtain w d1 s2 where w: "writeGzip input (bytes_path (id_of u)) b (d, s1) = (w, (d1, s2))" by (metis prod.exhaust)
      show ?thesis
      proof (cases w)
        case (Inl e)
        with w have "d1 = d" by (auto simp: writeGzip_def split: prod.splits sum.splits)
        with Inl w f body Some Inr kept_world [OF assms(2)] \<open>toRawReplayUrl _ _ _ = Inr r\<close>
        show ?thesis by (simp add: captureBytes_def)
      next
        case wrote: (Inr x)
        with w writeGzip_Inr [of input "bytes_path (id_of u)" b "(d, s1)" x "(d1, s2)"]
        have "d1 = d\<lparr>fd_files := (fd_files d)(bytes_path (id_of u) \<mapsto> ca_gzip input b)\<rparr>" by simp
        from kept_after_bytes [OF assms(2) raw b refl this refl] w wrote f body Some Inr
        show ?thesis by (simp add: captureBytes_def)
      qed
    qed
  qed
qed

lemma captureRow_kept:
  assumes "answers input page_at raw_at" "kept input page_at raw_at (m, d, s)" "i = id_of u"
  shows "kept input page_at raw_at (snd (captureRow input u i (m, d, s)))"
proof (cases "ca_parse input u")
  case None
  with kept_world [OF assms(2)] show ?thesis by (simp add: captureRow_def)
next
  case (Some detail)
  let ?s = "ca_sleep input (ca_spacingMs input) s"
  obtain f s1 where f: "ca_fetchText input detail ?s = (f, s1)" by force
  show ?thesis
  proof (cases f)
    case (Inl e)
    with f Some kept_world [OF assms(2)] show ?thesis by (simp add: captureRow_def)
  next
    case page: (Inr x)
    with f Some assms(1) have x: "x = page_at u" unfolding answers_def by blast
    obtain w d1 s2 where w: "writeGzip input (detail_path i) (utf8_bytes x) (d, s1) = (w, (d1, s2))"
      by (metis prod.exhaust)
    show ?thesis
    proof (cases w)
      case (Inl e)
      with w have "d1 = d" by (auto simp: writeGzip_def split: prod.splits sum.splits)
      with Inl w f page Some kept_world [OF assms(2)] show ?thesis by (simp add: captureRow_def)
    next
      case wrote: (Inr y)
      with w writeGzip_Inr [of input "detail_path i" "utf8_bytes x" "(d, s1)" y "(d1, s2)"]
      have d1: "d1 = d\<lparr>fd_files := (fd_files d)(detail_path i \<mapsto> ca_gzip input (utf8_bytes x))\<rparr>" by simp
      let ?m = "m\<lparr>mf_details := AList.update u (detail_path i) (mf_details m),
        mf_expectedExternalIds := mf_expectedExternalIds m @ [i]\<rparr>"
      from kept_after_detail [OF assms(2) x assms(3) d1 refl, of s2]
      have k: "kept input page_at raw_at (?m, d1, s2)" "map_of (mf_details ?m) u = Some (detail_path (id_of u))"
        by blast+
      show ?thesis
      proof (cases "extractFilenameFromDetailHtml x")
        case None
        with k w wrote f page Some show ?thesis by (simp add: captureRow_def)
      next
        case name: (Some filename)
        from captureBytes_kept [OF assms(1) k Some] name x assms(3)
        have "kept input page_at raw_at (snd (captureBytes input detail i filename (?m, d1, s2)))" by simp
        with w wrote f page Some name show ?thesis by (simp add: captureRow_def)
      qed
    qed
  qed
qed

lemma captureRows_kept:
  assumes "answers input page_at raw_at" "kept input page_at raw_at st" "list_all (\<lambda>(u, i). i = id_of u) rows"
  shows "kept input page_at raw_at (snd (captureRows input rows st))"
  using assms(2,3)
proof (induction rows arbitrary: st)
  case (Cons row rows)
  obtain u i where row: "row = (u, i)" by force
  obtain m d s where st: "st = (m, d, s)" by (metis prod.exhaust)
  obtain r st1 where r: "captureRow input u i st = (r, st1)" by (rule prod.exhaust)
  from Cons.prems(2) row have "i = id_of u" by simp
  from captureRow_kept [OF assms(1) Cons.prems(1) [unfolded st] this] r st have "kept input page_at raw_at st1"
    by simp
  from Cons.IH [OF this] Cons.prems(2) have "kept input page_at raw_at (snd (captureRows input rows st1))"
    by simp
  with \<open>kept input page_at raw_at st1\<close> show ?case by (cases r) (simp_all add: r row)
qed simp

lemma linked_ids: "list_all (\<lambda>(u, i). i = id_of u) (linked_rows (extractReplayRows resolve html page u))"
  by (auto simp: linked_rows_def extractReplayRows_def parseReplayRow_def Let_def id_of_def list_all_iff
      split: option.splits)

lemma capturePage_kept:
  assumes "answers input page_at raw_at" "kept input page_at raw_at st"
  shows "kept input page_at raw_at (snd (capturePage input page st))"
proof -
  obtain m d s where st: "st = (m, d, s)" by (metis prod.exhaust)
  let ?u = "toPageUrl (ca_sourceUrl input) page" and ?s = "ca_sleep input (ca_spacingMs input) s"
  obtain f s1 where f: "ca_fetchText input ?u ?s = (f, s1)" by (rule prod.exhaust)
  show ?thesis
  proof (cases f)
    case (Inl e)
    with f st kept_world [of input page_at raw_at m d s] assms(2) show ?thesis by (simp add: capturePage_def Let_def)
  next
    case page: (Inr x)
    with f assms(1) have x: "x = page_at (href ?u)" unfolding answers_def by blast
    obtain w d1 s2 where w: "writeGzip input (list_path page) (utf8_bytes x) (d, s1) = (w, (d1, s2))"
      by (metis prod.exhaust)
    show ?thesis
    proof (cases w)
      case (Inl e)
      with w have "d1 = d" by (auto simp: writeGzip_def split: prod.splits sum.splits)
      with Inl w f page st kept_world [of input page_at raw_at m d s] assms(2)
      show ?thesis by (simp add: capturePage_def Let_def)
    next
      case wrote: (Inr y)
      with w writeGzip_Inr [of input "list_path page" "utf8_bytes x" "(d, s1)" y "(d1, s2)"]
      have d1: "d1 = d\<lparr>fd_files := (fd_files d)(list_path page \<mapsto> ca_gzip input (utf8_bytes x))\<rparr>" by simp
      from kept_after_list [OF assms(2) [unfolded st] x d1, of s2]
      have "kept input page_at raw_at (m\<lparr>mf_listPages := AList.update (href ?u) (list_path page) (mf_listPages m)\<rparr>, d1, s2)" .
      from captureRows_kept [OF assms(1) this linked_ids] w wrote f page st
      show ?thesis by (simp add: capturePage_def Let_def)
    qed
  qed
qed

lemma capturePages_kept:
  assumes "answers input page_at raw_at" "kept input page_at raw_at st"
  shows "kept input page_at raw_at (snd (capturePages input pages st))"
  using assms(2)
proof (induction pages arbitrary: st)
  case (Cons page pages)
  obtain r st1 where r: "capturePage input page st = (r, st1)" by (rule prod.exhaust)
  with capturePage_kept [OF assms(1) Cons.prems, of page] Cons.IH show ?case by (simp split: sum.split)
qed simp

lemma captureFixtures_kept:
  assumes "answers input page_at raw_at" "captureFixtures input d s = (Inr m, (d', s'))"
  shows "kept input page_at raw_at (m, d', s') \<and> fd_manifest d' = Some m"
proof -
  have "kept input page_at raw_at (empty_manifest (ca_sourceUrl input), d, s)"
    by (simp add: kept_def lists_kept_def details_kept_def bytes_kept_def empty_manifest_def)
  from capturePages_kept [OF assms(1) this, of "[1..<Suc TOTAL_PAGES]"]
  have "kept input page_at raw_at
      (snd (capturePages input [1..<Suc TOTAL_PAGES] (empty_manifest (ca_sourceUrl input), d, s)))" .
  with assms(2) show ?thesis
    unfolding captureFixtures_def
    by (auto simp: kept_def lists_kept_def details_kept_def bytes_kept_def recorded_raw_def
        simp del: upt_Suc split: prod.splits sum.splits)
qed

subsection \<open>What is read back\<close>

lemma read_all_ok:
  "(\<And>u p. (u, p) \<in> set kvs \<Longrightarrow> rd p = Inr (f u)) \<Longrightarrow>
     read_all rd kvs acc = Inr (\<lambda>u. if u \<in> fst ` set kvs then Some (f u) else acc u)"
proof (induction kvs arbitrary: acc)
  case (Cons kv kvs)
  obtain u p where kv: "kv = (u, p)" by force
  have rd: "rd p = Inr (f u)" using Cons.prems kv by simp
  have "read_all rd kvs (acc(u \<mapsto> f u)) = Inr (\<lambda>v. if v \<in> fst ` set kvs then Some (f v) else (acc(u \<mapsto> f u)) v)"
    by (rule Cons.IH) (use Cons.prems in simp)
  then show ?case by (auto simp: kv rd fun_eq_iff)
qed simp

lemma gunzip_kept:
  assumes "\<And>b. gunzip (ca_gzip input b) = Some b"
  shows "fd_files d p = Some (ca_gzip input b) \<Longrightarrow> gunzipBytes gunzip d p = Inr b"
    and "fd_files d p = Some (ca_gzip input (utf8_bytes t)) \<Longrightarrow> gunzipText gunzip d p = Inr t"
  using assms by (simp_all add: gunzipText_def gunzipBytes_def utf8_text_bytes)

lemma kept_entries:
  assumes "kept input page_at raw_at (m, d, s)"
  shows "(u, p) \<in> set (mf_listPages m) \<longleftrightarrow> map_of (mf_listPages m) u = Some p"
    "(u, p) \<in> set (mf_details m) \<longleftrightarrow> map_of (mf_details m) u = Some p"
    "(u, p) \<in> set (mf_bytes m) \<longleftrightarrow> map_of (mf_bytes m) u = Some p"
  using assms by (simp_all add: kept_def)

lemma same_id:
  assumes "kept input page_at raw_at (m, d, s)" "inj_on id_of (fst ` set (mf_details m))"
    and "map_of (mf_details m) u = Some p" "map_of (mf_details m) v = Some q" "id_of u = id_of v"
  shows "u = v"
  using assms(3-5) inj_onD [OF assms(2)] unfolding kept_entries(2) [OF assms(1), symmetric] by force

lemma html_read_back:
  assumes k: "kept input page_at raw_at (m, d, s)" and ids: "inj_on id_of (fst ` set (mf_details m))"
    and gunzip: "\<And>b. gunzip (ca_gzip input b) = Some b" and entry: "(u, p) \<in> set (mf_listPages m @ mf_details m)"
  shows "gunzipText gunzip d p = Inr (page_at u)"
proof -
  from entry consider "map_of (mf_listPages m) u = Some p" | "map_of (mf_details m) u = Some p"
    unfolding kept_entries [OF k, symmetric] by auto
  then show ?thesis
  proof cases
    case 1
    from keptD(1) [OF k 1] show ?thesis using gunzip_kept(2) [OF gunzip] by blast
  next
    case 2
    from keptD(3) [OF k 2] obtain v where v: "map_of (mf_details m) v = Some p"
      "fd_files d p = Some (ca_gzip input (utf8_bytes (page_at v)))" by blast
    from keptD(2) [OF k 2] keptD(2) [OF k v(1)] have "id_of u = id_of v" by simp
    from same_id [OF k ids 2 v(1) this] v(2) show ?thesis by (simp only: gunzip_kept(2) [OF gunzip])
  qed
qed

lemma bytes_read_back:
  assumes k: "kept input page_at raw_at (m, d, s)" and ids: "inj_on id_of (fst ` set (mf_details m))"
    and gunzip: "\<And>b. gunzip (ca_gzip input b) = Some b" and entry: "(r, p) \<in> set (mf_bytes m)"
  shows "gunzipBytes gunzip d p = Inr (raw_at r)"
proof -
  have old: "bytes_kept input page_at raw_at m d" using k by (simp add: kept_def)
  from entry have "map_of (mf_bytes m) r = Some p" by (simp only: kept_entries [OF k])
  with old obtain u v r' where u: "recorded_raw input page_at m u r" "p = bytes_path (id_of u)" and
    v: "recorded_raw input page_at m v r'" "p = bytes_path (id_of v)"
    and content: "fd_files d p = Some (ca_gzip input (raw_at r'))"
    unfolding bytes_kept_def by blast
  have "id_of u = id_of v" using u(2) v(2) by simp
  with u(1) v(1) have "u = v" unfolding recorded_raw_def by (blast intro: same_id [OF k ids])
  with u(1) v(1) have "r = r'" by (simp only: recorded_raw_def option.inject)
  with content show ?thesis by (simp only: gunzip_kept(1) [OF gunzip])
qed

text \<open>
  C35: what was recorded is what the source answers. When the source gives the same answer to the
  same address throughout, and no two recorded details share the identifier their files are named
  after, a recording that succeeds, whatever the directory held before, is loaded as exactly the
  recorded addresses with the answers of the source.
\<close>

theorem recording_replays_source:
  assumes "answers input page_at raw_at" "captureFixtures input d s = (Inr m, (d', s'))"
    and "inj_on id_of (fst ` set (mf_details m))" "\<And>b. gunzip (ca_gzip input b) = Some b"
  shows "loadGoldenFixtures (ca_parse input) gunzip d' = Inr
    \<lparr>gf_bytesByUrl = (\<lambda>r. if r \<in> fst ` set (mf_bytes m) then Some (raw_at r) else None),
     gf_expectedExternalIds = mf_expectedExternalIds m,
     gf_htmlByUrl = (\<lambda>u. if u \<in> fst ` set (mf_listPages m @ mf_details m) then Some (page_at u) else None),
     gf_sourceUrl = ca_sourceUrl input\<rparr>"
proof -
  from captureFixtures_kept [OF assms(1,2)] have k: "kept input page_at raw_at (m, d', s')" and m: "fd_manifest d' = Some m"
    by blast+
  note html = html_read_back [OF k assms(3,4)] and raw = bytes_read_back [OF k assms(3,4)]
  have "toPageUrl (ca_sourceUrl input) 1 = ca_sourceUrl input" by (simp add: toPageUrl_def)
  with assms(1) have "ca_parse input (href (ca_sourceUrl input)) = Some (ca_sourceUrl input)"
    unfolding answers_def by metis
  moreover have "mf_sourceUrl m = href (ca_sourceUrl input)" using k by (simp add: kept_def)
  ultimately show ?thesis
    by (simp only: loadGoldenFixtures_def m read_all_ok [of "mf_listPages m @ mf_details m", OF html]
        read_all_ok [of "mf_bytes m", OF raw] option.case sum.case)
qed

text \<open>A source of ten pages, the first of which lists one replay.\<close>

definition example_origin :: "string \<Rightarrow> string \<Rightarrow> url" where
  "example_origin path search = \<lparr>url_protocol = ''https:'', url_username = [], url_password = [], url_host = ''h'',
     url_pathname = path, url_search = search, url_hash = []\<rparr>"

definition example_parse_url :: "string \<Rightarrow> url option" where
  "example_parse_url s = Some (example_origin (takeWhile (\<lambda>c. c \<noteq> CHR ''?'') (drop 9 s)) (dropWhile (\<lambda>c. c \<noteq> CHR ''?'') (drop 9 s)))"

definition example_text :: "url \<Rightarrow> string" where
  "example_text u =
     (if url_pathname u = ''/replays/17'' then ''<body data-ocap='' @ [double_quote] @ ''x'' @ [double_quote] @ ''>''
      else if url_search u = [] then table_html [example_row] else [])"

definition example_capture :: "unit capture_input" where
  "example_capture =
     \<lparr>ca_fetchBytes = (\<lambda>u s. (Inr [7], s)), ca_fetchText = (\<lambda>u s. (Inr (example_text u), s)), ca_gzip = (\<lambda>b. b),
      ca_parse = example_parse_url, ca_resolve = (\<lambda>h u. example_parse_url (''https://h'' @ h)), ca_sleep = (\<lambda>d s. s),
      ca_sourceUrl = example_origin ''/r'' [], ca_spacingMs = 250, ca_write = (\<lambda>p s. (Inr (), s))\<rparr>"

lemma example_parse_href:
  "url_search u = [] \<or> (\<exists>t. url_search u = CHR ''?'' # t) \<Longrightarrow>
     (example_origin ''/r'' (url_search u)) = u \<Longrightarrow> example_parse_url (href u) = Some u"
  by (cases u) (auto simp: example_parse_url_def example_origin_def href_def url_userinfo_def)

lemma example_page: "example_parse_url (href (toPageUrl (example_origin ''/r'' []) n)) = Some (toPageUrl (example_origin ''/r'' []) n)"
  by (rule example_parse_href) (auto simp: toPageUrl_def searchParams_set_def Let_def example_origin_def)

lemma example_answers:
  "answers example_capture (\<lambda>v. case example_parse_url v of Some u \<Rightarrow> example_text u | None \<Rightarrow> []) (\<lambda>r. [7])"
  by (simp add: answers_def example_capture_def example_page)

lemma example_rows:
  "linked_rows (extractReplayRows (ca_resolve example_capture) (table_html [example_row]) n (example_origin ''/r'' [])) =
     [(''https://h/replays/17'', ''17'')]"
proof -
  have "extractReplayRows (ca_resolve example_capture) (table_html [example_row]) n (example_origin ''/r'' []) =
      map (observed_row (ca_resolve example_capture) n (example_origin ''/r'' [])) [example_row]"
    using listing_read [OF example_row_plain, of "[]" "[]"] by (simp add: skips_def)
  moreover have "linked_rows (map (observed_row (ca_resolve example_capture) n (example_origin ''/r'' [])) [example_row]) =
      [(''https://h/replays/17'', ''17'')]"
    by code_simp
  ultimately show ?thesis by simp
qed

lemma example_simps:
  "ca_fetchText example_capture u s = (Inr (example_text u), s)" "ca_fetchBytes example_capture u s = (Inr [7], s)"
  "ca_gzip example_capture b = b" "ca_parse example_capture = example_parse_url" "ca_sleep example_capture n s = s"
  "ca_sourceUrl example_capture = example_origin ''/r'' []" "ca_write example_capture p s = (Inr (), s)"
  by (simp_all add: example_capture_def)

lemma example_filename: "extractFilenameFromDetailHtml (example_text (example_origin ''/replays/17'' [])) = Some ''x''"
  by code_simp

lemma example_raw: "toRawReplayUrl (ca_resolve example_capture) ''x'' (example_origin ''/replays/17'' []) = Inr ''https://h/data/x.json''"
  by code_simp

lemma no_rows: "linked_rows (extractReplayRows resolve [] n u) = []"
  by code_simp

lemma parse_replay: "example_parse_url ''https://h/replays/17'' = Some (example_origin ''/replays/17'' [])"
  by (simp add: example_parse_url_def)

lemma parse_data: "example_parse_url ''https://h/data/x.json'' = Some (example_origin ''/data/x.json'' [])"
  by (simp add: example_parse_url_def)

lemma example_later_text: "n \<noteq> 1 \<Longrightarrow> example_text (toPageUrl (example_origin ''/r'' []) n) = []"
proof -
  assume "n \<noteq> 1"
  then have "url_search (toPageUrl (example_origin ''/r'' []) n) \<noteq> []"
    by (auto simp: toPageUrl_def searchParams_set_def searchParams_def example_origin_def parse_params_def Let_def
        params_text_def pair_text_def)
  moreover have "url_pathname (toPageUrl (example_origin ''/r'' []) n) = ''/r''"
    by (simp add: toPageUrl_def searchParams_set_def example_origin_def Let_def)
  ultimately show ?thesis by (simp add: example_text_def)
qed

lemma example_later_pages:
  "1 \<notin> set pages \<Longrightarrow> capturePages example_capture pages (m, d, s) = (r, (m', d', s')) \<Longrightarrow>
     r = Inr () \<and> mf_details m' = mf_details m \<and> mf_bytes m' = mf_bytes m"
proof (induction pages arbitrary: m d s)
  case (Cons n pages)
  then have "n \<noteq> 1" by auto
  from example_later_text [OF this] Cons show ?case
    by (fastforce simp: capturePage_def example_simps writeGzip_def no_rows)
qed simp

lemma example_first_page:
  "capturePage example_capture 1 (empty_manifest (example_origin ''/r'' []), d, s) = (r, (m, d', s')) \<Longrightarrow>
     r = Inr () \<and> mf_details m = [(''https://h/replays/17'', ''detail/17.html.gz'')] \<and>
     mf_bytes m = [(''https://h/data/x.json'', ''bytes/17.ocap.gz'')]"
proof -
  have "example_text (example_origin ''/r'' []) = table_html [example_row]"
    by (simp add: example_text_def example_origin_def)
  then show "capturePage example_capture 1 (empty_manifest (example_origin ''/r'' []), d, s) = (r, (m, d', s')) \<Longrightarrow> ?thesis"
    by (auto simp: capturePage_def example_simps writeGzip_def toPageUrl_def example_rows captureRow_def parse_replay
        example_filename captureBytes_def example_raw parse_data empty_manifest_def detail_path_def bytes_path_def Let_def)
qed

lemma example_records:
  "\<exists>m st. captureFixtures example_capture d s = (Inr m, st) \<and>
     mf_details m = [(''https://h/replays/17'', ''detail/17.html.gz'')] \<and>
     mf_bytes m = [(''https://h/data/x.json'', ''bytes/17.ocap.gz'')]"
proof -
  obtain r1 m1 d1 s1 where one: "capturePage example_capture 1 (empty_manifest (example_origin ''/r'' []), d, s) = (r1, (m1, d1, s1))"
    by (metis prod.exhaust)
  obtain r2 m2 d2 s2 where rest: "capturePages example_capture [2..<Suc TOTAL_PAGES] (m1, d1, s1) = (r2, (m2, d2, s2))"
    by (metis prod.exhaust)
  have pages: "[1..<Suc TOTAL_PAGES] = 1 # [2..<Suc TOTAL_PAGES]"
    by (simp add: TOTAL_PAGES_def upt_rec numeral_2_eq_2 del: upt_Suc)
  have "1 \<notin> set [2..<Suc TOTAL_PAGES]" by simp
  note later = example_later_pages [OF this rest] and first = example_first_page [OF one]
  have "capturePages example_capture [1..<Suc TOTAL_PAGES] (empty_manifest (example_origin ''/r'' []), d, s) =
      (Inr (), (m2, d2, s2))"
    unfolding pages capturePages.simps(2) one using rest later first by simp
  then show ?thesis using later first by (simp add: captureFixtures_def example_simps del: upt_Suc One_nat_def)
qed

lemma recording_replays_source_witness:
  "\<exists>(m :: manifest) d'. map_of (mf_details m) ''https://h/replays/17'' = Some ''detail/17.html.gz'' \<and>
     map_of (mf_bytes m) ''https://h/data/x.json'' = Some ''bytes/17.ocap.gz'' \<and>
     loadGoldenFixtures example_parse_url Some d' = Inr
    \<lparr>gf_bytesByUrl = (\<lambda>r. if r \<in> fst ` set (mf_bytes m) then Some [7] else None),
     gf_expectedExternalIds = mf_expectedExternalIds m,
     gf_htmlByUrl = (\<lambda>u. if u \<in> fst ` set (mf_listPages m @ mf_details m)
       then Some (case example_parse_url u of Some v \<Rightarrow> example_text v | None \<Rightarrow> []) else None),
     gf_sourceUrl = example_origin ''/r'' []\<rparr>"
proof -
  obtain m d' s' where run: "captureFixtures example_capture \<lparr>fd_files = Map.empty, fd_manifest = None\<rparr> () = (Inr m, (d', s'))"
    and details: "mf_details m = [(''https://h/replays/17'', ''detail/17.html.gz'')]"
    and raw: "mf_bytes m = [(''https://h/data/x.json'', ''bytes/17.ocap.gz'')]"
    using example_records [of "\<lparr>fd_files = Map.empty, fd_manifest = None\<rparr>" "()"] by (metis prod.exhaust)
  have "inj_on id_of (fst ` set (mf_details m))" by (simp add: details)
  from recording_replays_source [OF example_answers run this, of Some]
  have loaded: "loadGoldenFixtures example_parse_url Some d' = Inr
    \<lparr>gf_bytesByUrl = (\<lambda>r. if r \<in> fst ` set (mf_bytes m) then Some [7] else None),
     gf_expectedExternalIds = mf_expectedExternalIds m,
     gf_htmlByUrl = (\<lambda>u. if u \<in> fst ` set (mf_listPages m @ mf_details m)
       then Some (case example_parse_url u of Some v \<Rightarrow> example_text v | None \<Rightarrow> []) else None),
     gf_sourceUrl = example_origin ''/r'' []\<rparr>"
    by (simp add: example_simps)
  show ?thesis
  proof (intro exI [of _ m] exI [of _ d'] conjI)
    show "map_of (mf_details m) ''https://h/replays/17'' = Some ''detail/17.html.gz''" by (simp add: details)
    show "map_of (mf_bytes m) ''https://h/data/x.json'' = Some ''bytes/17.ocap.gz''" by (simp add: raw)
  qed (rule loaded)
qed

end
