(* ===== verification/Import_Fences.thy ===== *)
theory Import_Fences
  imports Prelude
begin

text \<open>
  The import fences of \<open>.dependency-cruiser.cjs\<close>, which \<open>verify\<close> enforces: the list of forbidden
  dependencies, each with the patterns that its two ends have to match. The patterns are regular
  expressions of the language without captures, so only whether they occur in a path matters.

  The tool that reads the rules is not part of the repository. What it reports of a rule and a
  dependency is a parameter of what is stated; \<open>documented\<close> is what its documentation promises
  for the rules that constrain nothing but paths.
\<close>

subsection \<open>Patterns on paths\<close>

text \<open>A position is whether it is the start of the path, and the text after it.\<close>

datatype path_pattern =
    Here
  | Word string
  | One "char \<Rightarrow> bool"
  | Some_of "char \<Rightarrow> bool"
  | Begin
  | Finish
  | Then path_pattern path_pattern
  | Either path_pattern path_pattern

type_synonym path_position = "bool \<times> string"

fun ends :: "path_pattern \<Rightarrow> path_position \<Rightarrow> path_position list" where
  "ends Here (b, s) = [(b, s)]"
| "ends (Word w) (b, s) = (if starts_with s w then [(b \<and> w = [], drop (length w) s)] else [])"
| "ends (One p) (b, s) = (case s of [] \<Rightarrow> [] | c # s \<Rightarrow> if p c then [(False, s)] else [])"
| "ends (Some_of p) (b, s) = map (\<lambda>n. (False, drop n s)) [1..<Suc (length (takeWhile p s))]"
| "ends Begin (b, s) = (if b then [(b, s)] else [])"
| "ends Finish (b, s) = (if s = [] then [(b, s)] else [])"
| "ends (Then p q) x = concat (map (ends q) (ends p x))"
| "ends (Either p q) x = ends p x @ ends q x"

fun occurs_from :: "path_pattern \<Rightarrow> path_position \<Rightarrow> bool" where
  "occurs_from p (b, []) = (ends p (b, []) \<noteq> [])"
| "occurs_from p (b, c # s) = (if ends p (b, c # s) \<noteq> [] then True else occurs_from p (False, s))"

definition occurs :: "path_pattern \<Rightarrow> string \<Rightarrow> bool" where
  "occurs p path = occurs_from p (True, path)"

definition sequence_of :: "path_pattern list \<Rightarrow> path_pattern" where
  "sequence_of ps = foldr Then ps Here"

definition words :: "string list \<Rightarrow> path_pattern" where
  "words ws = foldr (\<lambda>w p. Either (Word w) p) (butlast ws) (Word (last ws))"

definition not_slash :: "char \<Rightarrow> bool" where
  "not_slash c \<longleftrightarrow> c \<noteq> CHR ''/''"

subsection \<open>Rules\<close>

datatype rule_severity = SevError | SevWarn | SevInfo

record from_restriction =
  fr_path :: "path_pattern list"
  fr_pathNot :: "path_pattern list"
  fr_orphan :: bool

record to_restriction =
  to_path :: "path_pattern list"
  to_pathNot :: "path_pattern list"
  to_circular :: bool
  to_dependencyTypes :: "string list"
  to_dependencyTypesNot :: "string list"
  to_couldNotResolve :: bool
  to_moreThanOneDependencyType :: bool

record forbidden_rule =
  fb_name :: string
  fb_severity :: rule_severity
  fb_from :: from_restriction
  fb_to :: to_restriction

definition any_from :: from_restriction where
  "any_from = \<lparr>fr_path = [], fr_pathNot = [], fr_orphan = False\<rparr>"

definition any_to :: to_restriction where
  "any_to = \<lparr>to_path = [], to_pathNot = [], to_circular = False, to_dependencyTypes = [],
     to_dependencyTypesNot = [], to_couldNotResolve = False, to_moreThanOneDependencyType = False\<rparr>"

text \<open>A rule that constrains nothing but the two paths, and what it then says of a dependency.\<close>

definition path_rule :: "forbidden_rule \<Rightarrow> bool" where
  "path_rule r \<longleftrightarrow> \<not> fr_orphan (fb_from r) \<and> \<not> to_circular (fb_to r) \<and> to_dependencyTypes (fb_to r) = [] \<and>
     to_dependencyTypesNot (fb_to r) = [] \<and> \<not> to_couldNotResolve (fb_to r) \<and>
     \<not> to_moreThanOneDependencyType (fb_to r)"

definition restricts :: "path_pattern list \<Rightarrow> path_pattern list \<Rightarrow> string \<Rightarrow> bool" where
  "restricts path pathNot p \<longleftrightarrow>
     (if path = [] then True else list_ex (\<lambda>x. occurs x p) path) \<and> list_all (\<lambda>x. \<not> occurs x p) pathNot"

definition from_matches :: "forbidden_rule \<Rightarrow> string \<Rightarrow> bool" where
  "from_matches r a = restricts (fr_path (fb_from r)) (fr_pathNot (fb_from r)) a"

definition to_matches :: "forbidden_rule \<Rightarrow> string \<Rightarrow> bool" where
  "to_matches r b = restricts (to_path (fb_to r)) (to_pathNot (fb_to r)) b"

definition documented :: "(forbidden_rule \<Rightarrow> string \<Rightarrow> string \<Rightarrow> bool) \<Rightarrow> bool" where
  "documented reports \<longleftrightarrow>
     (\<forall>r a b. path_rule r \<longrightarrow> reports r a b = (from_matches r a \<and> to_matches r b))"

subsection \<open>The general rules\<close>

definition TEST :: path_pattern where
  "TEST = sequence_of [Word ''.'', words [''test'', ''integration'', ''fixtures''], Word ''.'']"

definition no_circular :: forbidden_rule where
  "no_circular = \<lparr>fb_name = ''no-circular'', fb_severity = SevError, fb_from = any_from,
     fb_to = any_to\<lparr>to_circular := True\<rparr>\<rparr>"

definition script_extensions :: path_pattern where
  "script_extensions = words [''js'', ''cjs'', ''mjs'', ''ts'', ''cts'', ''mts'', ''json'']"

definition no_orphans :: forbidden_rule where
  "no_orphans = \<lparr>fb_name = ''no-orphans'', fb_severity = SevWarn,
     fb_from = any_from\<lparr>fr_orphan := True, fr_pathNot :=
       [sequence_of [Either Begin (Word ''/''), Word ''.'', Some_of not_slash, Word ''.'', script_extensions, Finish],
        sequence_of [Word ''.d.ts'', Finish],
        sequence_of [Either Begin (Word ''/''), Word ''tsconfig.json'', Finish],
        sequence_of [Either Begin (Word ''/''), words [''babel'', ''webpack''], Word ''.config.'', script_extensions, Finish],
        sequence_of [Either Begin (Word ''/''), Word ''cli.ts'', Finish],
        sequence_of [Word ''.test.ts'', Finish],
        Word ''.integration.'',
        Word ''.fixtures.'']\<rparr>,
     fb_to = any_to\<rparr>"

definition whole_path :: "string \<Rightarrow> path_pattern" where
  "whole_path w = sequence_of [Begin, Word w, Finish]"

definition no_deprecated_core :: forbidden_rule where
  "no_deprecated_core = \<lparr>fb_name = ''no-deprecated-core'', fb_severity = SevWarn, fb_from = any_from,
     fb_to = any_to\<lparr>to_dependencyTypes := [''core''], to_path := map whole_path
       [''v8/tools/codemap'', ''v8/tools/consarray'', ''v8/tools/csvparser'', ''v8/tools/logreader'',
        ''v8/tools/profile_view'', ''v8/tools/profile'', ''v8/tools/SourceMap'', ''v8/tools/splaytree'',
        ''v8/tools/tickprocessor-driver'', ''v8/tools/tickprocessor'', ''node-inspect/lib/_inspect'',
        ''node-inspect/lib/internal/inspect_client'', ''node-inspect/lib/internal/inspect_repl'',
        ''async_hooks'', ''punycode'', ''domain'', ''constants'', ''sys'', ''_linklist'', ''_stream_wrap'']\<rparr>\<rparr>"

definition not_to_deprecated :: forbidden_rule where
  "not_to_deprecated = \<lparr>fb_name = ''not-to-deprecated'', fb_severity = SevWarn, fb_from = any_from,
     fb_to = any_to\<lparr>to_dependencyTypes := [''deprecated'']\<rparr>\<rparr>"

definition no_non_package_json :: forbidden_rule where
  "no_non_package_json = \<lparr>fb_name = ''no-non-package-json'', fb_severity = SevError, fb_from = any_from,
     fb_to = any_to\<lparr>to_dependencyTypes := [''npm-no-pkg'', ''npm-unknown'']\<rparr>\<rparr>"

definition not_to_unresolvable :: forbidden_rule where
  "not_to_unresolvable = \<lparr>fb_name = ''not-to-unresolvable'', fb_severity = SevError, fb_from = any_from,
     fb_to = any_to\<lparr>to_couldNotResolve := True\<rparr>\<rparr>"

definition no_duplicate_dep_types :: forbidden_rule where
  "no_duplicate_dep_types = \<lparr>fb_name = ''no-duplicate-dep-types'', fb_severity = SevWarn, fb_from = any_from,
     fb_to = any_to\<lparr>to_moreThanOneDependencyType := True, to_dependencyTypesNot := [''type-only'']\<rparr>\<rparr>"

definition spec_file :: path_pattern where
  "spec_file = sequence_of [Word ''.'', words [''spec'', ''test''], Word ''.'',
     words [''js'', ''mjs'', ''cjs'', ''jsx'', ''ts'', ''mts'', ''cts'', ''tsx''], Finish]"

definition not_to_spec :: forbidden_rule where
  "not_to_spec = \<lparr>fb_name = ''not-to-spec'', fb_severity = SevError, fb_from = any_from,
     fb_to = any_to\<lparr>to_path := [spec_file]\<rparr>\<rparr>"

definition not_to_dev_dep :: forbidden_rule where
  "not_to_dev_dep = \<lparr>fb_name = ''not-to-dev-dep'', fb_severity = SevError,
     fb_from = any_from\<lparr>fr_path := [sequence_of [Begin, Word ''src'']], fr_pathNot := [spec_file]\<rparr>,
     fb_to = any_to\<lparr>to_dependencyTypes := [''npm-dev''], to_dependencyTypesNot := [''type-only''],
       to_pathNot := [Word ''node_modules/@types/'']\<rparr>\<rparr>"

definition optional_deps_used :: forbidden_rule where
  "optional_deps_used = \<lparr>fb_name = ''optional-deps-used'', fb_severity = SevInfo, fb_from = any_from,
     fb_to = any_to\<lparr>to_dependencyTypes := [''npm-optional'']\<rparr>\<rparr>"

definition peer_deps_used :: forbidden_rule where
  "peer_deps_used = \<lparr>fb_name = ''peer-deps-used'', fb_severity = SevWarn, fb_from = any_from,
     fb_to = any_to\<lparr>to_dependencyTypes := [''npm-peer'']\<rparr>\<rparr>"

subsection \<open>The fences\<close>

definition fence :: "string \<Rightarrow> path_pattern \<Rightarrow> path_pattern list \<Rightarrow> path_pattern \<Rightarrow> forbidden_rule" where
  "fence name path pathNot target = \<lparr>fb_name = name, fb_severity = SevError,
     fb_from = any_from\<lparr>fr_path := [path], fr_pathNot := pathNot\<rparr>, fb_to = any_to\<lparr>to_path := [target]\<rparr>\<rparr>"

definition under :: "string list \<Rightarrow> path_pattern" where
  "under dirs = sequence_of [Begin, Word ''src/'', words dirs]"

definition capability_path :: path_pattern where
  "capability_path = sequence_of [Begin, Word ''src/'',
     words [''discovery'', ''storage'', ''staging'', ''checkpoint'', ''evidence'', ''contract-check'', ''check''], Word ''/'']"

definition crosscutting_path :: path_pattern where
  "crosscutting_path = sequence_of [Begin, Word ''src/'',
     words [''config.ts'', ''errors'', ''logging'', ''source'', ''time'', ''types'', ''observability''],
     Either (Word ''/'') Here]"

definition band_orchestration_not_upward :: forbidden_rule where
  "band_orchestration_not_upward = fence ''band-orchestration-not-upward'' (under [''run/'']) [TEST]
     (under [''commands/'', ''cli.ts''])"

definition band_capability_not_upward :: forbidden_rule where
  "band_capability_not_upward = fence ''band-capability-not-upward'' capability_path [TEST]
     (under [''commands/'', ''cli.ts'', ''run/''])"

definition band_crosscutting_not_upward :: forbidden_rule where
  "band_crosscutting_not_upward = fence ''band-crosscutting-not-upward'' crosscutting_path [TEST]
     (under [''commands/'', ''cli.ts'', ''run/'', ''discovery/'', ''storage/'', ''staging/'', ''checkpoint/'',
        ''evidence/'', ''contract-check/'', ''check/''])"

definition band_orchestration_no_raw_clients :: forbidden_rule where
  "band_orchestration_no_raw_clients = fence ''band-orchestration-no-raw-clients'' (under [''run/'']) [TEST]
     (sequence_of [Word ''node_modules/'', words [''@aws-sdk/client-s3'', ''pg''], Word ''/''])"

definition no_replay_parser :: forbidden_rule where
  "no_replay_parser = fence ''no-replay-parser'' (sequence_of [Begin, Word ''src/'']) [TEST]
     (words [''ocap'', ''replay-parser'', ''@solid-stats/parser''])"

definition pg_writers :: path_pattern where
  "pg_writers = sequence_of [Begin, Word ''src/'', words [''commands'', ''staging'', ''check''], Word ''/'']"

definition pg_write_scope :: forbidden_rule where
  "pg_write_scope = fence ''pg-write-scope'' (sequence_of [Begin, Word ''src/'']) [pg_writers, TEST]
     (Word ''node_modules/pg/'')"

definition s3_writers :: path_pattern where
  "s3_writers = sequence_of [Begin, Word ''src/'',
     words [''commands'', ''storage'', ''checkpoint'', ''evidence'', ''check''], Word ''/'']"

definition s3_write_scope :: forbidden_rule where
  "s3_write_scope = fence ''s3-write-scope'' (sequence_of [Begin, Word ''src/'']) [s3_writers, TEST]
     (Word ''node_modules/@aws-sdk/client-s3/'')"

definition discovery_read_only :: forbidden_rule where
  "discovery_read_only = fence ''discovery-read-only'' (under [''discovery/'']) [TEST]
     (sequence_of [Begin, Word ''src/'', words [''storage'', ''staging''], Word ''/''])"

definition source_no_back_import :: forbidden_rule where
  "source_no_back_import = fence ''source-no-back-import'' (under [''source/'']) [TEST]
     (sequence_of [Begin, Word ''src/'',
        words [''discovery'', ''storage'', ''staging'', ''checkpoint'', ''evidence''], Word ''/''])"

definition diagnostics_not_to_write_path :: forbidden_rule where
  "diagnostics_not_to_write_path = fence ''diagnostics-not-to-write-path''
     (sequence_of [Begin, Word ''src/'', words [''check'', ''contract-check''], Word ''/'']) [TEST]
     (sequence_of [Begin, Word ''src/'', words [''staging'', ''storage'', ''checkpoint'', ''evidence''], Word ''/''])"

definition forbidden :: "forbidden_rule list" where
  "forbidden = [no_circular, no_orphans, no_deprecated_core, not_to_deprecated, no_non_package_json,
     not_to_unresolvable, no_duplicate_dep_types, not_to_spec, not_to_dev_dep, optional_deps_used, peer_deps_used,
     band_orchestration_not_upward, band_capability_not_upward, band_crosscutting_not_upward,
     band_orchestration_no_raw_clients, no_replay_parser, pg_write_scope, s3_write_scope, discovery_read_only,
     source_no_back_import, diagnostics_not_to_write_path]"

text \<open>A check passes when no rule of severity \<open>error\<close> is reported of a dependency.\<close>

definition passes :: "(forbidden_rule \<Rightarrow> string \<Rightarrow> string \<Rightarrow> bool) \<Rightarrow> (string \<times> string) list \<Rightarrow> bool" where
  "passes reports deps \<longleftrightarrow>
     list_all (\<lambda>r. fb_severity r = SevError \<longrightarrow> list_all (\<lambda>(a, b). \<not> reports r a b) deps) forbidden"

end
