(* ===== verification/Import_Layers.thy ===== *)
theory Import_Layers
  imports Import_Fences
begin

text \<open>
  What the fences of \<open>Import_Fences\<close> promise: the bands of the architecture note at the head of
  \<open>.dependency-cruiser.cjs\<close>, and the direction of every chain of imports between them.
\<close>

subsection \<open>Anchored patterns\<close>

lemma occurs_from_anchored: "\<not> occurs_from (Then Begin q) (False, s)"
  by (induction s) auto

lemma occurs_anchored: "occurs (Then Begin q) s \<longleftrightarrow> ends q (True, s) \<noteq> []"
  by (cases s) (auto simp: occurs_def occurs_from_anchored)

lemma ends_words:
  "ws \<noteq> [] \<Longrightarrow> set (ends (words ws) (b, s)) = {(b \<and> w = [], drop (length w) s) | w. w \<in> set ws \<and> starts_with s w}"
proof (induction ws)
  case (Cons w ws)
  then show ?case by (cases ws) (auto simp: words_def)
qed simp

lemma starts_with_append: "starts_with s (v @ w) \<longleftrightarrow> starts_with s v \<and> starts_with (drop (length v) s) w"
proof -
  have "take (length v + length w) s = take (length v) s @ take (length w) (drop (length v) s)"
    by (simp add: take_add)
  then show ?thesis by (auto simp: starts_with_def dest: arg_cong [where f = length])
qed

lemma ends_words_word:
  "ws \<noteq> [] \<Longrightarrow> ends (Then (words ws) (Then (Word v) Here)) (b, s) \<noteq> [] \<longleftrightarrow> (\<exists>w \<in> set ws. starts_with s (w @ v))"
  by (auto simp: ends_words starts_with_append)

lemma ends_words_here: "ws \<noteq> [] \<Longrightarrow> ends (Then (words ws) Here) (b, s) \<noteq> [] \<longleftrightarrow> (\<exists>w \<in> set ws. starts_with s w)"
  by (auto simp: ends_words)

lemma ends_words_opt:
  "ws \<noteq> [] \<Longrightarrow> ends (Then (words ws) (Then (Either p Here) Here)) (b, s) \<noteq> [] \<longleftrightarrow> (\<exists>w \<in> set ws. starts_with s w)"
  by (auto simp: ends_words)

text \<open>The shapes of the fences' paths: directories below \<open>src/\<close>, with the slash in the
  alternatives, after them, or optional.\<close>

lemma occurs_src:
  "occurs (sequence_of (Begin # Word ''src/'' # ps)) s \<longleftrightarrow>
   starts_with s ''src/'' \<and> ends (sequence_of ps) (False, drop 4 s) \<noteq> []"
  by (auto simp: sequence_of_def occurs_anchored numeral_eq_Suc)

lemma occurs_under:
  "ds \<noteq> [] \<Longrightarrow> occurs (under ds) s \<longleftrightarrow> starts_with s ''src/'' \<and> (\<exists>d \<in> set ds. starts_with (drop 4 s) d)"
  unfolding under_def occurs_src by (simp add: sequence_of_def ends_words_here del: ends.simps)

lemma occurs_dirs:
  "ds \<noteq> [] \<Longrightarrow> occurs (sequence_of [Begin, Word ''src/'', words ds, Word ''/'']) s \<longleftrightarrow>
   starts_with s ''src/'' \<and> (\<exists>d \<in> set ds. starts_with (drop 4 s) (d @ ''/''))"
  unfolding occurs_src by (simp add: sequence_of_def ends_words_word del: ends.simps)

lemma occurs_dirs_opt:
  "ds \<noteq> [] \<Longrightarrow> occurs (sequence_of [Begin, Word ''src/'', words ds, Either p Here]) s \<longleftrightarrow>
   starts_with s ''src/'' \<and> (\<exists>d \<in> set ds. starts_with (drop 4 s) d)"
  unfolding occurs_src by (simp add: sequence_of_def ends_words_opt del: ends.simps)

lemma under_append:
  "ds \<noteq> [] \<Longrightarrow> es \<noteq> [] \<Longrightarrow> occurs (under (ds @ es)) s \<longleftrightarrow> occurs (under ds) s \<or> occurs (under es) s"
  by (auto simp: occurs_under)

lemma occurs_dirs_under:
  "ds \<noteq> [] \<Longrightarrow> occurs (sequence_of [Begin, Word ''src/'', words ds, Word ''/'']) s \<longleftrightarrow>
   occurs (under (map (\<lambda>d. d @ ''/'') ds)) s"
  by (simp add: occurs_dirs occurs_under)

lemma occurs_capability:
  "occurs capability_path s \<longleftrightarrow> occurs (under [''discovery/'', ''storage/'', ''staging/'', ''checkpoint/'',
     ''evidence/'', ''contract-check/'', ''check/'']) s"
  unfolding capability_path_def by (subst occurs_dirs_under) simp_all

subsection \<open>Bands\<close>

text \<open>The bands, from the command band at the top down; a module in none of them has no fence.\<close>

definition band :: "string \<Rightarrow> nat option" where
  "band m = (if occurs (under [''commands/'', ''cli.ts'']) m then Some 3
     else if occurs (under [''run/'']) m then Some 2
     else if occurs capability_path m then Some 1
     else if occurs crosscutting_path m then Some 0 else None)"

text \<open>A module that the fences watch: it is in a band and is no test or fixture.\<close>

definition watched :: "string \<Rightarrow> bool" where
  "watched m \<longleftrightarrow> band m \<noteq> None \<and> \<not> occurs TEST m"

lemmas fence_sides = fence_def any_from_def any_to_def from_matches_def to_matches_def restricts_def path_rule_def

lemma passes_fence:
  assumes "documented reports" "passes reports deps" "(a, b) \<in> set deps" "r \<in> set forbidden"
    "r = fence name path pathNot target"
  shows "occurs path a \<Longrightarrow> list_all (\<lambda>x. \<not> occurs x a) pathNot \<Longrightarrow> \<not> occurs target b"
  using assms by (force simp: documented_def passes_def list_all_iff fence_sides)

lemma band_step:
  assumes "documented reports" "passes reports deps" "(a, b) \<in> set deps" "watched a" "band b = Some lb"
  shows "lb \<le> the (band a)"
proof -
  let ?command = "[''commands/'', ''cli.ts'']" and ?run = "[''run/'']"
  let ?capability = "[''discovery/'', ''storage/'', ''staging/'', ''checkpoint/'', ''evidence/'', ''contract-check/'', ''check/'']"
  note fence = passes_fence [OF assms(1-3)]
  have test: "list_all (\<lambda>x. \<not> occurs x a) [TEST]" using assms(4) by (simp add: watched_def)
  have run: "\<not> occurs (under ?command) b" if "occurs (under ?run) a"
    by (rule fence [OF _ band_orchestration_not_upward_def that test]) (simp add: forbidden_def)
  have "\<not> occurs (under (?command @ ?run)) b" if "occurs capability_path a"
    unfolding append.simps by (rule fence [OF _ band_capability_not_upward_def that test]) (simp add: forbidden_def)
  moreover have "\<not> occurs (under (?command @ ?run @ ?capability)) b" if "occurs crosscutting_path a"
    unfolding append.simps by (rule fence [OF _ band_crosscutting_not_upward_def that test]) (simp add: forbidden_def)
  ultimately have
    "occurs capability_path a \<Longrightarrow> \<not> occurs (under ?command) b \<and> \<not> occurs (under ?run) b"
    "occurs crosscutting_path a \<Longrightarrow>
       \<not> occurs (under ?command) b \<and> \<not> occurs (under ?run) b \<and> \<not> occurs capability_path b"
    unfolding occurs_capability by (simp_all add: under_append del: append.simps)
  with run assms(4,5) show ?thesis
    unfolding watched_def band_def by (auto split: if_splits)
qed

text \<open>Along a chain of imports whose importers are all watched, the bands only go down.\<close>

lemma band_chain:
  assumes "documented reports" "passes reports deps" "(a, b) \<in> (set deps)\<^sup>+"
    "list_all (\<lambda>(x, y). watched x) deps"
  shows "case band b of None \<Rightarrow> True | Some lb \<Rightarrow> lb \<le> the (band a)"
  using assms(3)
proof (induction rule: trancl_induct)
  case (base y)
  with assms(4) have "watched a" by (auto simp: list_all_iff)
  with band_step [OF assms(1,2) base] show ?case by (auto split: option.splits)
next
  case (step y z)
  with assms(4) have "watched y" by (auto simp: list_all_iff)
  with step band_step [OF assms(1,2) step(2)] show ?case
    by (fastforce simp: watched_def split: option.splits)
qed

lemma watched_src:
  assumes "watched m"
  shows "occurs (sequence_of [Begin, Word ''src/'']) m"
proof -
  from assms have "starts_with m ''src/''"
    unfolding watched_def band_def occurs_capability crosscutting_path_def
    by (auto simp: occurs_under occurs_dirs_opt split: if_splits)
  then show ?thesis unfolding occurs_src by (simp add: sequence_of_def)
qed

lemma write_scopes:
  assumes "documented reports" "passes reports deps" "(m, b) \<in> set deps" "watched m"
  shows "occurs (Word ''node_modules/pg/'') b \<Longrightarrow> occurs pg_writers m"
    and "occurs (Word ''node_modules/@aws-sdk/client-s3/'') b \<Longrightarrow> occurs s3_writers m"
proof -
  note src = watched_src [OF assms(4)]
  have test: "\<not> occurs TEST m" using assms(4) by (simp add: watched_def)
  show "occurs pg_writers m" if "occurs (Word ''node_modules/pg/'') b"
    using passes_fence [OF assms(1-3) _ pg_write_scope_def src] that test by (simp add: forbidden_def) blast
  show "occurs s3_writers m" if "occurs (Word ''node_modules/@aws-sdk/client-s3/'') b"
    using passes_fence [OF assms(1-3) _ s3_write_scope_def src] that test by (simp add: forbidden_def) blast
qed

end
