(* ===== verification/Import_Graph.thy ===== *)
theory Import_Graph
  imports Import_Layers
begin

text \<open>
  The imports of the program, module by module: what each file below \<open>src/\<close> imports or exports
  again, types included, as the fences see it. A relative import is the module that it names, by
  directory and name; any other is a package of the registry or of the platform. Tests are left out.
  A rank shows that no imports form a circle.
\<close>

subsection \<open>Modules\<close>

datatype directory = Root | Check_Dir | Checkpoint_Dir | Commands_Dir | ContractCheck_Dir |
    Discovery_Dir | Errors_Dir | Evidence_Dir | Logging_Dir | Observability_Dir | Run_Dir | Source_Dir |
    Staging_Dir | Storage_Dir | Time_Dir | Types_Dir

primrec directory_path :: "directory \<Rightarrow> string" where
  "directory_path Root = []"
| "directory_path Check_Dir = ''check/''"
| "directory_path Checkpoint_Dir = ''checkpoint/''"
| "directory_path Commands_Dir = ''commands/''"
| "directory_path ContractCheck_Dir = ''contract-check/''"
| "directory_path Discovery_Dir = ''discovery/''"
| "directory_path Errors_Dir = ''errors/''"
| "directory_path Evidence_Dir = ''evidence/''"
| "directory_path Logging_Dir = ''logging/''"
| "directory_path Observability_Dir = ''observability/''"
| "directory_path Run_Dir = ''run/''"
| "directory_path Source_Dir = ''source/''"
| "directory_path Staging_Dir = ''staging/''"
| "directory_path Storage_Dir = ''storage/''"
| "directory_path Time_Dir = ''time/''"
| "directory_path Types_Dir = ''types/''"

datatype import_target = Module directory string | Package string

type_synonym module_imports = "(directory \<times> string) \<times> import_target list"

definition module_path :: "directory \<times> string \<Rightarrow> string" where
  "module_path m = ''src/'' @ directory_path (fst m) @ snd m @ ''.ts''"

text \<open>The path below which the tool finds a package; its file is not part of the program.\<close>

definition target_path :: "import_target \<Rightarrow> string" where
  "target_path i = (case i of Module d n \<Rightarrow> module_path (d, n) | Package p \<Rightarrow> ''node_modules/'' @ p @ ''/'')"

subsection \<open>What each module imports\<close>

definition imports_of_checkpoint_checkpoint :: module_imports where
  "imports_of_checkpoint_checkpoint = ((Checkpoint_Dir, ''checkpoint''),
    [Package ''zod''])"

definition imports_of_logging_create_logger :: module_imports where
  "imports_of_logging_create_logger = ((Logging_Dir, ''create-logger''),
    [Package ''pino'', Package ''pino''])"

definition imports_of_observability_sentry :: module_imports where
  "imports_of_observability_sentry = ((Observability_Dir, ''sentry''),
    [Package ''@sentry/node''])"

definition imports_of_run_golden_fixtures :: module_imports where
  "imports_of_run_golden_fixtures = ((Run_Dir, ''golden-fixtures''),
    [Package ''node:fs'', Package ''node:path'', Package ''node:url'', Package ''node:zlib''])"

definition imports_of_source_concurrency :: module_imports where
  "imports_of_source_concurrency = ((Source_Dir, ''concurrency''),
    [Package ''p-limit'', Package ''p-limit''])"

definition imports_of_staging_staging_schema_fixtures :: module_imports where
  "imports_of_staging_staging_schema_fixtures = ((Staging_Dir, ''staging-schema.fixtures''),
    [Package ''pg''])"

definition imports_of_storage_checksum :: module_imports where
  "imports_of_storage_checksum = ((Storage_Dir, ''checksum''),
    [Package ''node:crypto''])"

definition imports_of_check_postgres_connectivity :: module_imports where
  "imports_of_check_postgres_connectivity = ((Check_Dir, ''postgres-connectivity''),
    [Module Check_Dir ''connectivity''])"

definition imports_of_check_s3_connectivity :: module_imports where
  "imports_of_check_s3_connectivity = ((Check_Dir, ''s3-connectivity''),
    [Package ''@aws-sdk/client-s3'', Module Check_Dir ''connectivity''])"

definition imports_of_discovery_html :: module_imports where
  "imports_of_discovery_html = ((Discovery_Dir, ''html''),
    [Module Time_Dir ''components-to-utc-iso''])"

definition imports_of_errors_checkpoint_conflict_error :: module_imports where
  "imports_of_errors_checkpoint_conflict_error = ((Errors_Dir, ''checkpoint-conflict-error''),
    [Module Errors_Dir ''app-error''])"

definition imports_of_errors_config_validation_error :: module_imports where
  "imports_of_errors_config_validation_error = ((Errors_Dir, ''config-validation-error''),
    [Module Errors_Dir ''app-error''])"

definition imports_of_errors_invariant_violation_error :: module_imports where
  "imports_of_errors_invariant_violation_error = ((Errors_Dir, ''invariant-violation-error''),
    [Module Errors_Dir ''app-error''])"

definition imports_of_observability_instrument :: module_imports where
  "imports_of_observability_instrument = ((Observability_Dir, ''instrument''),
    [Module Observability_Dir ''sentry''])"

definition imports_of_source_retry :: module_imports where
  "imports_of_source_retry = ((Source_Dir, ''retry''),
    [Module Source_Dir ''backoff'', Module Source_Dir ''classify-failure''])"

definition imports_of_types_raw_replay :: module_imports where
  "imports_of_types_raw_replay = ((Types_Dir, ''raw-replay''),
    [Module Types_Dir ''replay-candidate''])"

definition imports_of_checkpoint_s3_checkpoint_store :: module_imports where
  "imports_of_checkpoint_s3_checkpoint_store = ((Checkpoint_Dir, ''s3-checkpoint-store''),
    [Package ''@aws-sdk/client-s3'', Module Errors_Dir ''checkpoint-conflict-error'',
     Module Source_Dir ''backoff'', Module Checkpoint_Dir ''checkpoint'', Module Checkpoint_Dir ''checkpoint'',
     Module Checkpoint_Dir ''object-key''])"

definition imports_of_config :: module_imports where
  "imports_of_config = ((Root, ''config''),
    [Package ''zod'', Module Errors_Dir ''config-validation-error'', Module Types_Dir ''source-transport''])"

definition imports_of_storage_replay_byte_client_types :: module_imports where
  "imports_of_storage_replay_byte_client_types = ((Storage_Dir, ''replay-byte-client-types''),
    [Module Source_Dir ''retry''])"

definition imports_of_storage_types :: module_imports where
  "imports_of_storage_types = ((Storage_Dir, ''types''),
    [Module Types_Dir ''replay-candidate'', Module Types_Dir ''raw-replay''])"

definition imports_of_types_discovery_diagnostic :: module_imports where
  "imports_of_types_discovery_diagnostic = ((Types_Dir, ''discovery-diagnostic''),
    [Module Source_Dir ''retry''])"

definition imports_of_checkpoint_s3_checkpoint_store_fixtures :: module_imports where
  "imports_of_checkpoint_s3_checkpoint_store_fixtures = ((Checkpoint_Dir, ''s3-checkpoint-store.fixtures''),
    [Package ''@aws-sdk/client-s3'', Module Checkpoint_Dir ''checkpoint'',
     Module Checkpoint_Dir ''s3-checkpoint-store''])"

definition imports_of_commands_clients :: module_imports where
  "imports_of_commands_clients = ((Commands_Dir, ''clients''),
    [Package ''@aws-sdk/client-s3'', Package ''pg'', Module Root ''config''])"

definition imports_of_discovery_types :: module_imports where
  "imports_of_discovery_types = ((Discovery_Dir, ''types''),
    [Module Source_Dir ''retry'', Module Types_Dir ''discovery-diagnostic'',
     Module Types_Dir ''replay-candidate'', Module Types_Dir ''discovery-diagnostic'',
     Module Types_Dir ''replay-candidate'', Module Types_Dir ''source-transport''])"

definition imports_of_index :: module_imports where
  "imports_of_index = ((Root, ''index''),
    [Module Errors_Dir ''config-validation-error'', Module Root ''config'', Module Root ''config''])"

definition imports_of_staging_types :: module_imports where
  "imports_of_staging_types = ((Staging_Dir, ''types''),
    [Module Storage_Dir ''types'', Module Types_Dir ''staging'', Module Types_Dir ''staging''])"

definition imports_of_storage_replay_byte_client_retry :: module_imports where
  "imports_of_storage_replay_byte_client_retry = ((Storage_Dir, ''replay-byte-client-retry''),
    [Module Source_Dir ''classify-failure'', Module Source_Dir ''retry'', Module Source_Dir ''retry'',
     Module Storage_Dir ''replay-byte-client-types''])"

definition imports_of_types_run_summary :: module_imports where
  "imports_of_types_run_summary = ((Types_Dir, ''run-summary''),
    [Module Source_Dir ''retry'', Module Types_Dir ''discovery-diagnostic'', Module Types_Dir ''raw-replay'',
     Module Types_Dir ''replay-candidate'', Module Types_Dir ''staging''])"

definition imports_of_discovery_discover_types :: module_imports where
  "imports_of_discovery_discover_types = ((Discovery_Dir, ''discover-types''),
    [Package ''pino'', Module Source_Dir ''retry'', Module Discovery_Dir ''types''])"

definition imports_of_discovery_source_client_retry :: module_imports where
  "imports_of_discovery_source_client_retry = ((Discovery_Dir, ''source-client-retry''),
    [Module Source_Dir ''classify-failure'', Module Source_Dir ''retry'', Module Source_Dir ''retry'',
     Module Discovery_Dir ''types''])"

definition imports_of_evidence_s3_evidence_store :: module_imports where
  "imports_of_evidence_s3_evidence_store = ((Evidence_Dir, ''s3-evidence-store''),
    [Package ''@aws-sdk/client-s3'', Module Types_Dir ''run-summary'', Module Evidence_Dir ''object-key''])"

definition imports_of_run_types :: module_imports where
  "imports_of_run_types = ((Run_Dir, ''types''),
    [Module Types_Dir ''run-summary''])"

definition imports_of_staging_payload :: module_imports where
  "imports_of_staging_payload = ((Staging_Dir, ''payload''),
    [Module Storage_Dir ''checksum'', Module Storage_Dir ''types'', Module Time_Dir ''components-to-utc-iso'',
     Module Time_Dir ''epoch-to-utc-iso'', Module Staging_Dir ''types''])"

definition imports_of_staging_postgres_staging_repository :: module_imports where
  "imports_of_staging_postgres_staging_repository = ((Staging_Dir, ''postgres-staging-repository''),
    [Module Staging_Dir ''types''])"

definition imports_of_storage_replay_byte_client_error :: module_imports where
  "imports_of_storage_replay_byte_client_error = ((Storage_Dir, ''replay-byte-client-error''),
    [Module Errors_Dir ''app-error'', Module Source_Dir ''backoff'', Module Source_Dir ''classify-failure'',
     Module Source_Dir ''classify-failure'', Module Storage_Dir ''replay-byte-client-retry'',
     Module Storage_Dir ''replay-byte-client-types''])"

definition imports_of_storage_s3_raw_storage :: module_imports where
  "imports_of_storage_s3_raw_storage = ((Storage_Dir, ''s3-raw-storage''),
    [Package ''@aws-sdk/client-s3'', Module Discovery_Dir ''types'', Module Storage_Dir ''types''])"

definition imports_of_discovery_discover_candidate :: module_imports where
  "imports_of_discovery_discover_candidate = ((Discovery_Dir, ''discover-candidate''),
    [Package ''pino'', Module Discovery_Dir ''discover-types'', Module Discovery_Dir ''html'',
     Module Discovery_Dir ''types''])"

definition imports_of_discovery_source_client_error :: module_imports where
  "imports_of_discovery_source_client_error = ((Discovery_Dir, ''source-client-error''),
    [Module Errors_Dir ''app-error'', Module Source_Dir ''backoff'', Module Source_Dir ''classify-failure'',
     Module Source_Dir ''classify-failure'', Module Source_Dir ''retry'',
     Module Discovery_Dir ''source-client-retry'', Module Discovery_Dir ''types''])"

definition imports_of_evidence_s3_evidence_store_fixtures :: module_imports where
  "imports_of_evidence_s3_evidence_store_fixtures = ((Evidence_Dir, ''s3-evidence-store.fixtures''),
    [Package ''@aws-sdk/client-s3'', Module Run_Dir ''types'', Module Evidence_Dir ''s3-evidence-store''])"

definition imports_of_storage_replay_byte_client :: module_imports where
  "imports_of_storage_replay_byte_client = ((Storage_Dir, ''replay-byte-client''),
    [Package ''node:child_process'', Package ''node:util'', Module Root ''config'',
     Module Storage_Dir ''replay-byte-client-error'', Module Storage_Dir ''replay-byte-client-retry'',
     Module Storage_Dir ''replay-byte-client-types'', Module Storage_Dir ''replay-byte-client-error'',
     Module Storage_Dir ''replay-byte-client-types''])"

definition imports_of_discovery_source_client :: module_imports where
  "imports_of_discovery_source_client = ((Discovery_Dir, ''source-client''),
    [Package ''node:child_process'', Package ''node:util'', Module Root ''config'',
     Module Discovery_Dir ''source-client-error'', Module Discovery_Dir ''source-client-error'',
     Module Discovery_Dir ''source-client-retry'', Module Discovery_Dir ''types'',
     Module Discovery_Dir ''source-client-error''])"

definition imports_of_storage_store_raw_replay :: module_imports where
  "imports_of_storage_store_raw_replay = ((Storage_Dir, ''store-raw-replay''),
    [Module Types_Dir ''raw-replay'', Module Types_Dir ''replay-candidate'', Module Storage_Dir ''checksum'',
     Module Storage_Dir ''object-key'', Module Storage_Dir ''replay-byte-client'',
     Module Storage_Dir ''replay-byte-client'', Module Storage_Dir ''s3-raw-storage'',
     Module Types_Dir ''raw-replay''])"

definition imports_of_check_source_connectivity :: module_imports where
  "imports_of_check_source_connectivity = ((Check_Dir, ''source-connectivity''),
    [Module Discovery_Dir ''source-client'', Module Discovery_Dir ''types'', Module Check_Dir ''connectivity''])"

definition imports_of_discovery_discover_diagnostics :: module_imports where
  "imports_of_discovery_discover_diagnostics = ((Discovery_Dir, ''discover-diagnostics''),
    [Module Discovery_Dir ''discover-types'', Module Discovery_Dir ''source-client'',
     Module Discovery_Dir ''types''])"

definition imports_of_run_summary :: module_imports where
  "imports_of_run_summary = ((Run_Dir, ''summary''),
    [Module Discovery_Dir ''types'', Module Staging_Dir ''types'', Module Storage_Dir ''store-raw-replay'',
     Module Run_Dir ''types''])"

definition imports_of_staging_stage_raw_replay :: module_imports where
  "imports_of_staging_stage_raw_replay = ((Staging_Dir, ''stage-raw-replay''),
    [Module Storage_Dir ''store-raw-replay'', Module Storage_Dir ''types'', Module Staging_Dir ''payload'',
     Module Staging_Dir ''types''])"

definition imports_of_discovery_discover_dedup :: module_imports where
  "imports_of_discovery_discover_dedup = ((Discovery_Dir, ''discover-dedup''),
    [Module Discovery_Dir ''discover-candidate'', Module Discovery_Dir ''discover-candidate'',
     Module Discovery_Dir ''discover-diagnostics'', Module Discovery_Dir ''discover-types'',
     Module Discovery_Dir ''html'', Module Discovery_Dir ''types''])"

definition imports_of_run_ingest_page :: module_imports where
  "imports_of_run_ingest_page = ((Run_Dir, ''ingest-page''),
    [Module Discovery_Dir ''types'', Module Source_Dir ''concurrency'', Module Staging_Dir ''payload'',
     Module Staging_Dir ''stage-raw-replay'', Module Staging_Dir ''types'',
     Module Storage_Dir ''replay-byte-client'', Module Storage_Dir ''s3-raw-storage'',
     Module Storage_Dir ''store-raw-replay''])"

definition imports_of_run_run_once_types :: module_imports where
  "imports_of_run_run_once_types = ((Run_Dir, ''run-once-types''),
    [Package ''pino'', Module Checkpoint_Dir ''checkpoint'', Module Checkpoint_Dir ''s3-checkpoint-store'',
     Module Discovery_Dir ''types'', Module Evidence_Dir ''s3-evidence-store'',
     Module Source_Dir ''concurrency'', Module Source_Dir ''pacing'', Module Source_Dir ''retry'',
     Module Source_Dir ''throttle'', Module Staging_Dir ''stage-raw-replay'', Module Staging_Dir ''types'',
     Module Storage_Dir ''replay-byte-client'', Module Storage_Dir ''s3-raw-storage'',
     Module Storage_Dir ''store-raw-replay'', Module Run_Dir ''types''])"

definition imports_of_discovery_discover :: module_imports where
  "imports_of_discovery_discover = ((Discovery_Dir, ''discover''),
    [Module Discovery_Dir ''discover-candidate'', Module Discovery_Dir ''discover-dedup'',
     Module Discovery_Dir ''discover-diagnostics'', Module Discovery_Dir ''discover-types'',
     Module Discovery_Dir ''source-client'', Module Discovery_Dir ''types'',
     Module Discovery_Dir ''discover-candidate''])"

definition imports_of_run_run_once_checkpoint :: module_imports where
  "imports_of_run_run_once_checkpoint = ((Run_Dir, ''run-once-checkpoint''),
    [Module Checkpoint_Dir ''checkpoint'', Module Staging_Dir ''types'',
     Module Storage_Dir ''store-raw-replay'', Module Run_Dir ''run-once-types'',
     Module Run_Dir ''run-once-types'', Module Run_Dir ''types''])"

definition imports_of_run_watch_loop :: module_imports where
  "imports_of_run_watch_loop = ((Run_Dir, ''watch-loop''),
    [Package ''pino'', Module Discovery_Dir ''types'', Module Source_Dir ''concurrency'',
     Module Source_Dir ''concurrency'', Module Source_Dir ''pacing'', Module Source_Dir ''pacing'',
     Module Source_Dir ''retry'', Module Staging_Dir ''payload'', Module Staging_Dir ''stage-raw-replay'',
     Module Staging_Dir ''types'', Module Storage_Dir ''replay-byte-client'',
     Module Storage_Dir ''s3-raw-storage'', Module Storage_Dir ''store-raw-replay'',
     Module Run_Dir ''ingest-page'', Module Run_Dir ''ingest-page'', Module Run_Dir ''summary''])"

definition imports_of_contract_check_contract_check :: module_imports where
  "imports_of_contract_check_contract_check = ((ContractCheck_Dir, ''contract-check''),
    [Module Discovery_Dir ''discover'', Module Discovery_Dir ''html'', Module Discovery_Dir ''source-client'',
     Module Discovery_Dir ''types'', Module Source_Dir ''classify-failure'',
     Module Source_Dir ''classify-failure''])"

definition imports_of_run_run_once_summary :: module_imports where
  "imports_of_run_run_once_summary = ((Run_Dir, ''run-once-summary''),
    [Module Discovery_Dir ''types'', Module Run_Dir ''run-once-checkpoint'', Module Run_Dir ''run-once-types'',
     Module Run_Dir ''run-once-types'', Module Run_Dir ''summary'', Module Run_Dir ''types''])"

definition imports_of_run_run_once_page_rate :: module_imports where
  "imports_of_run_run_once_page_rate = ((Run_Dir, ''run-once-page-rate''),
    [Module Checkpoint_Dir ''checkpoint'', Module Discovery_Dir ''types'', Module Source_Dir ''concurrency'',
     Module Source_Dir ''throttle'', Module Staging_Dir ''types'', Module Storage_Dir ''store-raw-replay'',
     Module Run_Dir ''ingest-page'', Module Run_Dir ''run-once-checkpoint'',
     Module Run_Dir ''run-once-summary'', Module Run_Dir ''run-once-types'', Module Run_Dir ''summary''])"

definition imports_of_run_run_once_page :: module_imports where
  "imports_of_run_run_once_page = ((Run_Dir, ''run-once-page''),
    [Package ''pino'', Module Discovery_Dir ''types'', Module Source_Dir ''concurrency'',
     Module Source_Dir ''concurrency'', Module Source_Dir ''pacing'', Module Source_Dir ''pacing'',
     Module Source_Dir ''retry'', Module Source_Dir ''throttle'', Module Source_Dir ''throttle'',
     Module Run_Dir ''run-once-checkpoint'', Module Run_Dir ''run-once-page-rate'',
     Module Run_Dir ''run-once-summary'', Module Run_Dir ''run-once-types'', Module Run_Dir ''run-once-types''])"

definition imports_of_run_run_once :: module_imports where
  "imports_of_run_run_once = ((Run_Dir, ''run-once''),
    [Module Run_Dir ''run-once-checkpoint'', Module Run_Dir ''run-once-page'',
     Module Run_Dir ''run-once-summary'', Module Run_Dir ''run-once-types''])"

definition imports_of_commands_shared :: module_imports where
  "imports_of_commands_shared = ((Commands_Dir, ''shared''),
    [Package ''node:crypto'', Package ''node:fs/promises'', Package ''pino'',
     Module Check_Dir ''postgres-connectivity'', Module Check_Dir ''s3-connectivity'',
     Module Check_Dir ''source-connectivity'', Module Checkpoint_Dir ''s3-checkpoint-store'',
     Module Checkpoint_Dir ''s3-checkpoint-store'', Module Root ''config'', Module Root ''config'',
     Module ContractCheck_Dir ''contract-check'', Module Discovery_Dir ''discover'',
     Module Discovery_Dir ''source-client'', Module Discovery_Dir ''types'',
     Module Errors_Dir ''config-validation-error'', Module Evidence_Dir ''s3-evidence-store'',
     Module Evidence_Dir ''s3-evidence-store'', Module Logging_Dir ''create-logger'',
     Module Logging_Dir ''create-logger'', Module Run_Dir ''run-once'', Module Run_Dir ''watch-loop'',
     Module Source_Dir ''retry'', Module Staging_Dir ''postgres-staging-repository'',
     Module Staging_Dir ''postgres-staging-repository'', Module Staging_Dir ''stage-raw-replay'',
     Module Storage_Dir ''replay-byte-client'', Module Storage_Dir ''replay-byte-client'',
     Module Storage_Dir ''s3-raw-storage'', Module Storage_Dir ''s3-raw-storage'',
     Module Storage_Dir ''store-raw-replay'', Module Commands_Dir ''clients''])"

definition imports_of_commands_check :: module_imports where
  "imports_of_commands_check = ((Commands_Dir, ''check''),
    [Package ''commander'', Package ''pg'', Module Check_Dir ''connectivity'',
     Module Check_Dir ''connectivity'', Module Root ''config'', Module Errors_Dir ''config-validation-error'',
     Module Commands_Dir ''shared'', Module Commands_Dir ''shared''])"

definition imports_of_commands_contract_check :: module_imports where
  "imports_of_commands_contract_check = ((Commands_Dir, ''contract-check''),
    [Package ''commander'', Module Commands_Dir ''shared'', Module Commands_Dir ''shared''])"

definition imports_of_commands_store_raw_resources :: module_imports where
  "imports_of_commands_store_raw_resources = ((Commands_Dir, ''store-raw-resources''),
    [Package ''@aws-sdk/client-s3'', Package ''pg'', Package ''pino'', Module Root ''config'',
     Module Commands_Dir ''shared''])"

definition imports_of_commands_discover :: module_imports where
  "imports_of_commands_discover = ((Commands_Dir, ''discover''),
    [Package ''commander'', Module Root ''config'', Module Discovery_Dir ''types'',
     Module Errors_Dir ''invariant-violation-error'', Module Staging_Dir ''types'',
     Module Storage_Dir ''store-raw-replay'', Module Commands_Dir ''shared'', Module Commands_Dir ''shared'',
     Module Commands_Dir ''store-raw-resources''])"

definition imports_of_commands_run_once :: module_imports where
  "imports_of_commands_run_once = ((Commands_Dir, ''run-once''),
    [Package ''commander'', Module Errors_Dir ''invariant-violation-error'', Module Run_Dir ''summary'',
     Module Staging_Dir ''stage-raw-replay'', Module Commands_Dir ''shared'', Module Commands_Dir ''shared'',
     Module Commands_Dir ''store-raw-resources''])"

definition imports_of_commands_watch :: module_imports where
  "imports_of_commands_watch = ((Commands_Dir, ''watch''),
    [Package ''commander'', Module Errors_Dir ''invariant-violation-error'', Module Run_Dir ''summary'',
     Module Run_Dir ''watch-loop'', Module Staging_Dir ''postgres-staging-repository'',
     Module Commands_Dir ''shared'', Module Commands_Dir ''shared'', Module Commands_Dir ''store-raw-resources''])"

definition imports_of_cli :: module_imports where
  "imports_of_cli = ((Root, ''cli''),
    [Module Observability_Dir ''instrument'', Package ''commander'', Module Commands_Dir ''check'',
     Module Commands_Dir ''contract-check'', Module Commands_Dir ''discover'',
     Module Commands_Dir ''run-once'', Module Commands_Dir ''shared'', Module Commands_Dir ''shared'',
     Module Commands_Dir ''watch'', Module Observability_Dir ''sentry''])"

definition import_graph :: "module_imports list" where
  "import_graph = [
     ((Check_Dir, ''connectivity''), []), imports_of_checkpoint_checkpoint,
     ((Checkpoint_Dir, ''object-key''), []), ((Errors_Dir, ''app-error''), []),
     ((Evidence_Dir, ''object-key''), []), imports_of_logging_create_logger, imports_of_observability_sentry,
     imports_of_run_golden_fixtures, ((Source_Dir, ''backoff''), []), ((Source_Dir, ''classify-failure''), []),
     imports_of_source_concurrency, ((Source_Dir, ''pacing''), []), ((Source_Dir, ''throttle''), []),
     imports_of_staging_staging_schema_fixtures, imports_of_storage_checksum,
     ((Storage_Dir, ''object-key''), []), ((Time_Dir, ''components-to-utc-iso''), []),
     ((Time_Dir, ''epoch-to-utc-iso''), []), ((Types_Dir, ''replay-candidate''), []),
     ((Types_Dir, ''source-transport''), []), ((Types_Dir, ''staging''), []),
     imports_of_check_postgres_connectivity, imports_of_check_s3_connectivity, imports_of_discovery_html,
     imports_of_errors_checkpoint_conflict_error, imports_of_errors_config_validation_error,
     imports_of_errors_invariant_violation_error, imports_of_observability_instrument, imports_of_source_retry,
     imports_of_types_raw_replay, imports_of_checkpoint_s3_checkpoint_store, imports_of_config,
     imports_of_storage_replay_byte_client_types, imports_of_storage_types,
     imports_of_types_discovery_diagnostic, imports_of_checkpoint_s3_checkpoint_store_fixtures,
     imports_of_commands_clients, imports_of_discovery_types, imports_of_index, imports_of_staging_types,
     imports_of_storage_replay_byte_client_retry, imports_of_types_run_summary,
     imports_of_discovery_discover_types, imports_of_discovery_source_client_retry,
     imports_of_evidence_s3_evidence_store, imports_of_run_types, imports_of_staging_payload,
     imports_of_staging_postgres_staging_repository, imports_of_storage_replay_byte_client_error,
     imports_of_storage_s3_raw_storage, imports_of_discovery_discover_candidate,
     imports_of_discovery_source_client_error, imports_of_evidence_s3_evidence_store_fixtures,
     imports_of_storage_replay_byte_client, imports_of_discovery_source_client,
     imports_of_storage_store_raw_replay, imports_of_check_source_connectivity,
     imports_of_discovery_discover_diagnostics, imports_of_run_summary, imports_of_staging_stage_raw_replay,
     imports_of_discovery_discover_dedup, imports_of_run_ingest_page, imports_of_run_run_once_types,
     imports_of_discovery_discover, imports_of_run_run_once_checkpoint, imports_of_run_watch_loop,
     imports_of_contract_check_contract_check, imports_of_run_run_once_summary,
     imports_of_run_run_once_page_rate, imports_of_run_run_once_page, imports_of_run_run_once,
     imports_of_commands_shared, imports_of_commands_check, imports_of_commands_contract_check,
     imports_of_commands_store_raw_resources, imports_of_commands_discover, imports_of_commands_run_once,
     imports_of_commands_watch, imports_of_cli]"

subsection \<open>Dependencies\<close>

fun internal :: "import_target list \<Rightarrow> (directory \<times> string) list" where
  "internal [] = []"
| "internal (Module d n # is) = (d, n) # internal is"
| "internal (Package p # is) = internal is"

definition dependencies :: "module_imports list \<Rightarrow> (string \<times> string) list" where
  "dependencies g = concat (map (\<lambda>(m, is). map (\<lambda>i. (module_path m, target_path i)) is) g)"

definition internal_dependencies :: "module_imports list \<Rightarrow> ((directory \<times> string) \<times> (directory \<times> string)) list" where
  "internal_dependencies g = concat (map (\<lambda>(m, is). map (Pair m) (internal is)) g)"

text \<open>A rank that every import lowers leaves no circle.\<close>

definition descends :: "(directory \<times> string \<Rightarrow> nat) \<Rightarrow> module_imports list \<Rightarrow> bool" where
  "descends rank g = list_all (\<lambda>(m, is). list_all (\<lambda>i. rank i < rank m) (internal is)) g"

lemma descends_acyclic:
  assumes "descends rank g"
  shows "acyclic (set (internal_dependencies g))"
proof -
  from assms have step: "rank b < rank a" if "(a, b) \<in> set (internal_dependencies g)" for a b
    using that by (fastforce simp: internal_dependencies_def descends_def list_all_iff)
  have "rank b < rank a" if "(a, b) \<in> (set (internal_dependencies g))\<^sup>+" for a b
    using that by (induction rule: trancl_induct) (auto dest: step)
  then show ?thesis by (auto simp: acyclic_def)
qed

text \<open>The length of the longest chain of imports from a module, directory by directory.\<close>

primrec ranks :: "directory \<Rightarrow> (string \<times> nat) list" where
  "ranks Root =
     [(''config'', 2), (''index'', 3), (''cli'', 17)]"
| "ranks Check_Dir =
     [(''connectivity'', 0), (''postgres-connectivity'', 1), (''s3-connectivity'', 1),
      (''source-connectivity'', 7)]"
| "ranks Checkpoint_Dir =
     [(''checkpoint'', 0), (''object-key'', 0), (''s3-checkpoint-store'', 2),
      (''s3-checkpoint-store.fixtures'', 3)]"
| "ranks Commands_Dir =
     [(''clients'', 3), (''shared'', 14), (''check'', 15), (''contract-check'', 15),
      (''store-raw-resources'', 15), (''discover'', 16), (''run-once'', 16), (''watch'', 16)]"
| "ranks ContractCheck_Dir =
     [(''contract-check'', 10)]"
| "ranks Discovery_Dir =
     [(''html'', 1), (''types'', 3), (''discover-types'', 4), (''source-client-retry'', 4),
      (''discover-candidate'', 5), (''source-client-error'', 5), (''source-client'', 6),
      (''discover-diagnostics'', 7), (''discover-dedup'', 8), (''discover'', 9)]"
| "ranks Errors_Dir =
     [(''app-error'', 0), (''checkpoint-conflict-error'', 1), (''config-validation-error'', 1),
      (''invariant-violation-error'', 1)]"
| "ranks Evidence_Dir =
     [(''object-key'', 0), (''s3-evidence-store'', 4), (''s3-evidence-store.fixtures'', 5)]"
| "ranks Logging_Dir =
     [(''create-logger'', 0)]"
| "ranks Observability_Dir =
     [(''sentry'', 0), (''instrument'', 1)]"
| "ranks Run_Dir =
     [(''golden-fixtures'', 0), (''types'', 4), (''summary'', 7), (''ingest-page'', 8),
      (''run-once-types'', 8), (''run-once-checkpoint'', 9), (''watch-loop'', 9), (''run-once-summary'', 10),
      (''run-once-page-rate'', 11), (''run-once-page'', 12), (''run-once'', 13)]"
| "ranks Source_Dir =
     [(''backoff'', 0), (''classify-failure'', 0), (''concurrency'', 0), (''pacing'', 0), (''throttle'', 0),
      (''retry'', 1)]"
| "ranks Staging_Dir =
     [(''staging-schema.fixtures'', 0), (''types'', 3), (''payload'', 4), (''postgres-staging-repository'', 4),
      (''stage-raw-replay'', 7)]"
| "ranks Storage_Dir =
     [(''checksum'', 0), (''object-key'', 0), (''replay-byte-client-types'', 2), (''types'', 2),
      (''replay-byte-client-retry'', 3), (''replay-byte-client-error'', 4), (''s3-raw-storage'', 4),
      (''replay-byte-client'', 5), (''store-raw-replay'', 6)]"
| "ranks Time_Dir =
     [(''components-to-utc-iso'', 0), (''epoch-to-utc-iso'', 0)]"
| "ranks Types_Dir =
     [(''replay-candidate'', 0), (''source-transport'', 0), (''staging'', 0), (''raw-replay'', 1),
      (''discovery-diagnostic'', 2), (''run-summary'', 3)]"

fun find_text :: "(string \<times> nat) list \<Rightarrow> string \<Rightarrow> nat" where
  "find_text [] s = 0"
| "find_text ((t, n) # ts) s = (if t = s then n else find_text ts s)"

definition import_rank :: "directory \<times> string \<Rightarrow> nat" where
  "import_rank m = find_text (ranks (fst m)) (snd m)"

subsection \<open>The program's graph\<close>

lemmas module_imports_defs =
  imports_of_checkpoint_checkpoint_def imports_of_logging_create_logger_def
  imports_of_observability_sentry_def imports_of_run_golden_fixtures_def imports_of_source_concurrency_def
  imports_of_staging_staging_schema_fixtures_def imports_of_storage_checksum_def
  imports_of_check_postgres_connectivity_def imports_of_check_s3_connectivity_def
  imports_of_discovery_html_def imports_of_errors_checkpoint_conflict_error_def
  imports_of_errors_config_validation_error_def imports_of_errors_invariant_violation_error_def
  imports_of_observability_instrument_def imports_of_source_retry_def imports_of_types_raw_replay_def
  imports_of_checkpoint_s3_checkpoint_store_def imports_of_config_def
  imports_of_storage_replay_byte_client_types_def imports_of_storage_types_def
  imports_of_types_discovery_diagnostic_def imports_of_checkpoint_s3_checkpoint_store_fixtures_def
  imports_of_commands_clients_def imports_of_discovery_types_def imports_of_index_def
  imports_of_staging_types_def imports_of_storage_replay_byte_client_retry_def
  imports_of_types_run_summary_def imports_of_discovery_discover_types_def
  imports_of_discovery_source_client_retry_def imports_of_evidence_s3_evidence_store_def
  imports_of_run_types_def imports_of_staging_payload_def imports_of_staging_postgres_staging_repository_def
  imports_of_storage_replay_byte_client_error_def imports_of_storage_s3_raw_storage_def
  imports_of_discovery_discover_candidate_def imports_of_discovery_source_client_error_def
  imports_of_evidence_s3_evidence_store_fixtures_def imports_of_storage_replay_byte_client_def
  imports_of_discovery_source_client_def imports_of_storage_store_raw_replay_def
  imports_of_check_source_connectivity_def imports_of_discovery_discover_diagnostics_def
  imports_of_run_summary_def imports_of_staging_stage_raw_replay_def imports_of_discovery_discover_dedup_def
  imports_of_run_ingest_page_def imports_of_run_run_once_types_def imports_of_discovery_discover_def
  imports_of_run_run_once_checkpoint_def imports_of_run_watch_loop_def
  imports_of_contract_check_contract_check_def imports_of_run_run_once_summary_def
  imports_of_run_run_once_page_rate_def imports_of_run_run_once_page_def imports_of_run_run_once_def
  imports_of_commands_shared_def imports_of_commands_check_def imports_of_commands_contract_check_def
  imports_of_commands_store_raw_resources_def imports_of_commands_discover_def
  imports_of_commands_run_once_def imports_of_commands_watch_def imports_of_cli_def

lemma import_graph_descends: "descends import_rank import_graph"
  unfolding import_graph_def module_imports_defs by code_simp

text \<open>A module's imports under a rule on paths.\<close>

definition keeps :: "forbidden_rule \<Rightarrow> module_imports list \<Rightarrow> bool" where
  "keeps r g = list_all (\<lambda>(m, is). if from_matches r (module_path m)
     then list_all (\<lambda>i. \<not> to_matches r (target_path i)) is else True) g"

lemma keeps_iff: "keeps r g \<longleftrightarrow> list_all (\<lambda>(a, b). from_matches r a \<longrightarrow> \<not> to_matches r b) (dependencies g)"
  unfolding keeps_def dependencies_def list_all_iff by (auto simp: image_iff) fastforce+

lemma starts_with_code [code]:
  "starts_with s [] = True"
  "starts_with [] (d # p) = False"
  "starts_with (c # s) (d # p) = (if c = d then starts_with s p else False)"
  by (auto simp: starts_with_def)

lemma occurs_code [code]:
  "occurs p path = (case p of Then Begin q \<Rightarrow> ends q (True, path) \<noteq> [] | _ \<Rightarrow> occurs_from p (True, path))"
proof (cases "\<exists>q. p = Then Begin q")
  case True
  then show ?thesis by (auto simp: occurs_anchored)
next
  case False
  then show ?thesis by (auto simp: occurs_def split: path_pattern.split)
qed

lemma bands_kept: "list_all (\<lambda>r. keeps r import_graph) [not_to_spec, band_orchestration_not_upward,
    band_capability_not_upward, band_crosscutting_not_upward, band_orchestration_no_raw_clients]"
  by code_simp

lemma scopes_kept: "list_all (\<lambda>r. keeps r import_graph) [no_replay_parser, pg_write_scope]"
  by code_simp

lemma writes_kept: "list_all (\<lambda>r. keeps r import_graph) [s3_write_scope, discovery_read_only, source_no_back_import,
    diagnostics_not_to_write_path]"
  by code_simp

definition enforced :: "forbidden_rule list" where
  "enforced = filter (\<lambda>r. path_rule r \<and> fb_severity r = SevError) forbidden"

lemma enforced_rules: "enforced = [not_to_spec, band_orchestration_not_upward,
    band_capability_not_upward, band_crosscutting_not_upward, band_orchestration_no_raw_clients, no_replay_parser,
    pg_write_scope, s3_write_scope, discovery_read_only, source_no_back_import, diagnostics_not_to_write_path]"
  by code_simp

subsection \<open>What the fences protect\<close>

text \<open>
  Whatever tool reads the rules as documented: when it passes a set of dependencies whose importers
  are all in a band and no tests or fixtures, no chain of imports climbs from a band to a higher one, and a
  chain ends in the database client or the client of the bucket only through a module that may write there.
\<close>

theorem fences_protect:
  assumes "documented reports" "passes reports deps" "list_all (\<lambda>(x, y). watched x) deps" "(a, b) \<in> (set deps)\<^sup>+"
  shows "(case band b of None \<Rightarrow> True | Some lb \<Rightarrow> lb \<le> the (band a)) \<and>
    (\<exists>m. (a, m) \<in> (set deps)\<^sup>* \<and> (m, b) \<in> set deps \<and>
       (if occurs (Word ''node_modules/pg/'') b then occurs pg_writers m else True) \<and>
       (if occurs (Word ''node_modules/@aws-sdk/client-s3/'') b then occurs s3_writers m else True))"
proof -
  from tranclD2 [OF assms(4)] obtain m where m: "(a, m) \<in> (set deps)\<^sup>*" "(m, b) \<in> set deps" by blast
  with assms(3) have "watched m" by (auto simp: list_all_iff)
  note scope = write_scopes [OF assms(1,2) m(2) this]
  from scope m band_chain [OF assms(1,2,4,3)] show ?thesis by auto
qed

definition by_paths :: "forbidden_rule \<Rightarrow> string \<Rightarrow> string \<Rightarrow> bool" where
  "by_paths r a b = (if path_rule r then from_matches r a \<and> to_matches r b else False)"

lemma documented_by_paths: "documented by_paths"
  by (simp add: documented_def by_paths_def)

lemma enforced_passes:
  assumes "list_all (\<lambda>r. keeps r g) enforced" "set deps \<subseteq> set (dependencies g)"
  shows "passes by_paths deps"
proof -
  have "\<not> by_paths r a b" if "r \<in> set forbidden" "fb_severity r = SevError" "(a, b) \<in> set deps" for r a b
    using assms that by (auto simp: by_paths_def enforced_def list_all_iff keeps_iff)
  then show ?thesis by (auto simp: passes_def list_all_iff)
qed

definition resource_imports :: "(string \<times> string) list" where
  "resource_imports = dependencies [imports_of_commands_store_raw_resources, imports_of_commands_clients]"

lemma resource_imports_pass: "passes by_paths resource_imports"
  by code_simp

lemma resource_imports_watched: "list_all (\<lambda>(x, y). watched x) resource_imports"
  by code_simp

lemma resource_imports_pg: "(''src/commands/store-raw-resources.ts'', ''node_modules/pg/'') \<in> set resource_imports"
  by code_simp

theorem fences_protect_witness:
  "occurs (Word ''node_modules/pg/'') ''node_modules/pg/'' \<and>
   (\<exists>m. (m, ''node_modules/pg/'') \<in> set resource_imports \<and> occurs pg_writers m)"
proof -
  have pg: "occurs (Word ''node_modules/pg/'') ''node_modules/pg/''" by code_simp
  with fences_protect [OF documented_by_paths resource_imports_pass resource_imports_watched
      r_into_trancl [OF resource_imports_pg]]
  show ?thesis by auto
qed

text \<open>A fixture is a way around: nothing reports a chain through it that climbs from the lowest band.\<close>

lemma fixtures_climb:
  "passes by_paths [(''src/source/retry.ts'', ''src/source/retry.fixtures.ts''),
     (''src/source/retry.fixtures.ts'', ''src/run/run-once.ts'')]"
  by code_simp

subsection \<open>The program's layers\<close>

text \<open>The imports of the modules that the fences watch; left out are three files of fixtures and the package's entry.\<close>

definition production_imports :: "(string \<times> string) list" where
  "production_imports = filter (\<lambda>(a, b). watched a) (dependencies import_graph)"

lemma rules_kept: "list_all (\<lambda>r. keeps r import_graph) enforced"
  unfolding enforced_rules using bands_kept scopes_kept writes_kept by simp

text \<open>
  C30: the program is layered. None of its imports is forbidden by a rule on paths that stops \<open>verify\<close>, no
  chain of imports comes back to its start, and no chain from a module in a band, however long, reaches a
  module of a higher band: neither the run loops know of the commands, nor the capabilities of the run
  loops, nor the shared modules of any of them.
\<close>

theorem program_layered:
  "list_all (\<lambda>r. keeps r import_graph) enforced \<and>
   acyclic (set (internal_dependencies import_graph)) \<and>
   (set production_imports)\<^sup>+ \<subseteq> {(a, b). case band b of None \<Rightarrow> True | Some lb \<Rightarrow> lb \<le> the (band a)}"
proof (intro conjI subsetI)
  fix e
  assume "e \<in> (set production_imports)\<^sup>+"
  moreover have "passes by_paths production_imports"
    by (rule enforced_passes [OF rules_kept]) (auto simp: production_imports_def)
  moreover have "list_all (\<lambda>(x, y). watched x) production_imports"
    by (auto simp: production_imports_def list_all_iff)
  ultimately show "e \<in> {(a, b). case band b of None \<Rightarrow> True | Some lb \<Rightarrow> lb \<le> the (band a)}"
    using band_chain [OF documented_by_paths] by (cases e) blast
qed (rule rules_kept descends_acyclic [OF import_graph_descends])+

end
