(* ===== verification/Review_Lenses.thy ===== *)
theory Review_Lenses
  imports JSON_Text
begin

text \<open>
  The review workflow of the repository, \<open>review-lenses.workflow.js\<close>: one agent finds out what to
  review, three review it in parallel, each through a lens of its own, and one merges what they found.

  The host that runs the workflow hands it \<open>agent\<close>, \<open>parallel\<close>, \<open>phase\<close> and \<open>log\<close>; they are not part of
  the repository. An agent that fails is \<open>null\<close>. A prompt is the values that its template puts into the
  text, a line of the log the values that it reports; both, and the phases, are recorded as events.
\<close>

subsection \<open>Arguments\<close>







subsection \<open>Prompts and answers\<close>

datatype lens_stack = ServerStack | FetcherStack | ParserStack | FrontendStack | UnknownStack














subsection \<open>The workflow\<close>















subsection \<open>No lens is lost\<close>


















end
