(* ===== verification/Spec2Isabelle.thy ===== *)
theory Spec2Isabelle
  imports Run_Examples Run_Resume Run_Requests Run_Front Run_Records Html_Roundtrip Staging_Refinement
    Discovery_Trace Discovery_Order Discovery_Results Watch_Results
    Command_Line Command_Effects Client_Factories App_Errors Shutdown Watch_Release
    Evidence_Store Heartbeat Test_Stores Golden_Fixtures
    Import_Graph Review_Lenses
begin

text \<open>
  A model of \<open>replays-fetcher\<close>, the ingest service of Solid Stats: it finds replays on the list
  pages of a source, stores the raw files in an S3 bucket and records them in a staging table of
  PostgreSQL. The paths below are relative to the repository's directory \<open>src/\<close>, the TypeScript
  program; names are those of the source.

  The parts and how they interact.
  \<^item> Discovery reads list pages and detail pages from the source and reports candidates and
    diagnostics (\<open>discovery/\<close>, on top of the retrying clients and the failure classifier of \<open>source/\<close>).
  \<^item> A page of candidates is ingested by concurrent tasks under a limiter (\<open>run/ingest-page.ts\<close>): each
    stores the bytes of its replay under their checksum (\<open>storage/\<close>) and stages a row (\<open>staging/\<close>).
  \<^item> \<open>run-once\<close> walks the pages until there is nothing new (\<open>run/run-once*.ts\<close>), writes a checkpoint
    after each page by compare-and-swap (\<open>checkpoint/\<close>), and ends in a summary, optional evidence
    (\<open>evidence/\<close>) and an exit code. \<open>watch\<close> polls the first page for ever (\<open>run/watch-loop.ts\<close>).
  \<^item> The commands compose a validated configuration (\<open>config.ts\<close>), clients and options into these loops
    (\<open>commands/\<close>, \<open>cli.ts\<close>); \<open>check\<close> and \<open>contract-check\<close> probe the surroundings.

  Which theory models what.
  \<^item> \<open>Prelude\<close>: strings of the language, results, the collections of simplification rules.
    \<open>JSON_Text\<close>: \<open>JSON.stringify\<close> and \<open>JSON.parse\<close>. \<open>Base64\<close>: Node's two conversions.
    \<open>Pattern_Match\<close>: the regular expressions that \<open>discovery/html.ts\<close> uses, by backtracking.
  \<^item> \<open>Calendar_Time\<close>: \<open>time/\<close> and the two date parsers. \<open>Object_Keys\<close>: the keys of raw objects,
    checkpoints and evidence. \<open>Page_Url\<close>: \<open>toPageUrl\<close>.
  \<^item> \<open>Failure_Class\<close>: \<open>source/classify-failure.ts\<close>. \<open>Backoff_Retry\<close>: \<open>source/backoff.ts\<close>, \<open>retry.ts\<close>.
    \<open>Source_Clients\<close>: the text and byte clients, direct and over ssh. \<open>Rate_Control\<close>:
    \<open>source/throttle.ts\<close>, \<open>pacing.ts\<close>.
  \<^item> \<open>Html_Rows\<close>: \<open>discovery/html.ts\<close>. \<open>Discovery_Report\<close>: \<open>discover-diagnostics.ts\<close>. \<open>Discovery\<close>:
    \<open>discover.ts\<close>, \<open>discover-candidate.ts\<close>, \<open>discover-dedup.ts\<close>. \<open>Contract_Check\<close>: the probe of the
    source's contract.
  \<^item> \<open>Raw_Storage\<close>: \<open>storage/s3-raw-storage.ts\<close>, \<open>store-raw-replay.ts\<close>. \<open>Staging\<close>: payload, SQL
    statements, repository and step. \<open>Ingest\<close>: the page machine.
  \<^item> \<open>Checkpoint_State\<close>: schema, resume cursor, merge. \<open>Checkpoint_Store\<close>: reads and the
    compare-and-swap loop. \<open>Evidence_Store\<close>: the write-once \<open>PUT\<close> and the run identifier.
  \<^item> \<open>Summary\<close>: \<open>run/summary.ts\<close>. \<open>Run_State\<close>: the input of a run, where it resumes, checkpoint
    writing. \<open>Run_Loop\<close>: one page, the page loop and \<open>runOnce\<close>. \<open>Watch_Loop\<close>: \<open>run/watch-loop.ts\<close>.
  \<^item> \<open>Config\<close>, \<open>Connectivity\<close>, \<open>Commands\<close>, \<open>Run_Commands\<close>, \<open>Heartbeat\<close>: configuration, probes, the five
    commands with their resources and teardown, and the heartbeat file. \<open>Command_Line\<close>: logger, error
    reporting, the command line and the entry of the binary. \<open>Client_Factories\<close>: the choice of the read
    clients. \<open>Shutdown\<close>: the signal handlers of \<open>watch\<close>. \<open>App_Errors\<close>: the classes of \<open>errors/\<close>.
  \<^item> \<open>Import_Fences\<close>: the rules of \<open>.dependency-cruiser.cjs\<close>. \<open>Import_Layers\<close>: the bands they keep apart.
    \<open>Import_Graph\<close>: what each module imports. \<open>Review_Lenses\<close>: the repository's review workflow.

  How state and operations correspond. An object or type of the source is a record or a datatype with
  its fields; an optional property is an \<open>option\<close>; a promise that rejects or a function that throws
  is the left summand. The surroundings of an operation (source, bucket, clock, timer, logger, event
  loop) are a state \<open>'s\<close> that the operations it is handed, fields of its input record, read and
  change; other writers act inside these functions. Statements of the staging table are written
  out over the list of its rows, with an environment for other sessions and for failures before or
  after a statement takes effect. A page of tasks is moved by a schedule, the sequence of turns of the
  event loop, and is quantified over in what is proved.

  What the lemmas show.
  \<^item> Nothing is lost: \<open>Run_Resume\<close> and \<open>Run_Requests\<close> (the pages that a run asks its source for, and that
    the next one skips none; the contract between a run and its store is the locale \<open>resumable_store\<close>,
    which the compare-and-swap store over a bucket provides), \<open>Checkpoint_Store\<close> (a write keeps the
    progress of the object that its last put replaced), \<open>Staging\<close> and \<open>Ingest\<close> (what
    is reported as staged is in the table; locales \<open>staging_repository\<close> and \<open>recording_world\<close>),
    \<open>Run_Records\<close> (a run that exits with 0 has recorded everything; locale \<open>recording_run\<close>),
    \<open>Staging_Refinement\<close> (the statements of one call act as one atomic claim on a ledger),
    \<open>Discovery_Trace\<close> (every row of a listing is accounted for, by what was asked and answered for it).
  \<^item> What the answers mean: \<open>Run_Results\<close> (pages, status, exit code, termination),
    \<open>Watch_Results\<close>, \<open>Command_Results\<close> and \<open>Command_Effects\<close> (documents, exit codes, order of effects,
    resources), \<open>Command_Line\<close> (what a scheduler sees of the binary), \<open>Shutdown\<close> (which signals stop a
    watch), \<open>Watch_Release\<close> (a watch closes what it opened on
    every path), \<open>Config\<close> (accepted bounds, redaction),
    \<open>Client_Factories\<close> (a loaded configuration connects).
  \<^item> How the source is treated: \<open>Discovery_Order\<close> (which addresses are asked, in which order and how far
    apart, and what the report says of them), \<open>Backoff_Retry\<close>
    (reads, notices and pauses of a retried read), \<open>Rate_Control\<close> (closed form of the adaptive rule;
    locale \<open>concurrency_controller\<close>).
  \<^item> Text formats: \<open>Html_Roundtrip\<close>, \<open>Checkpoint_State\<close>, \<open>Source_Clients\<close>, \<open>Calendar_Time\<close> (what is
    written is read back, and what the parsers accept).
  \<^item> \<open>Test_Stores\<close> and \<open>Golden_Fixtures\<close>: the repository's own fakes of the checkpoint bucket, through
    which the rounds of a conflicting write are followed one by one, and its recorder and loader of
    fixtures. \<open>Run_Examples\<close>: a small world in which whole runs are evaluated. \<open>Run_Front\<close>: what any number
    of runs leave unread behind a first page on which everything is known.
  \<^item> How the repository keeps its shape: \<open>Import_Layers\<close> and \<open>Import_Graph\<close> (what the fences promise of any
    program that passes them, and that this one is layered), \<open>Review_Lenses\<close> (a lost lens is disclosed).
  Some results show behaviour that differs from a comment or a document, or that looks unintended; the
  text before each says so.

  Bounds and fuel. Loops of the source that need not end are partial functions into \<open>option\<close>:
  \<open>None\<close> is a loop that never returns, or an event loop that leaves a task unfinished. That they
  return is a theorem: a page ends when its tasks are served in turn four times per candidate (a task
  has at most three calls after its start), a run under a fair schedule as soon as some page is empty,
  unreadable or beyond the cap, the watch loop when it is told to stop. Retries are bounded
  by the number of attempts, checkpoint writes by \<open>MAX_CAS_ROUNDS\<close>; both are structural or have a
  measure, and need no fuel.

  Exactness. A string is a sequence of code units below 256. Numbers of the rate computation, of the
  random source and of numeric settings are exact rationals or integers where the program has
  doubles; the texts say where this matters. Parameters stand for what is not part of the repository:
  the URL parser, SHA-256, UUIDs, \<open>Date.parse\<close>, gzip, the schema library's URL check and issue texts,
  \<open>fetch\<close>, \<open>execFile\<close>, the bucket, the server and the file system's clock.

  Not modelled. The libraries are surroundings: the SDK that reports errors, the logger, the reading of
  arguments and the exits that its library takes by itself (no command, an unknown one, \<open>--help\<close>), the
  clients of bucket and database, the tool that reads the fences, the host of the review
  workflow. The texts of the agents' prompts are left out; a prompt is the values put into
  it. The configuration of the tests and a spike that prints a table of lint rules compute nothing for
  the program.
\<close>

end
